(* ===== verification/Rci_Prelude.thy ===== *)
theory Rci_Prelude
  imports
    "HOL-Library.List_Lexorder"
    "HOL-Library.Char_ord"
    "HOL-Library.Product_Lexorder"
    "HOL-Library.Multiset"
    "HOL-Library.Option_ord"
begin

text \<open>
  Shared vocabulary of the development: the failures of \<open>core/errors.py\<close> and of the record
  validators as values, the two ways the code looks a record up by identity (the first match of a
  generator expression and the last binding of a dict comprehension), uniqueness checks, and the
  generic "keep what no earlier element covers" loop that three routines of the warrant package
  share. Python strings are \<open>string\<close> (the UTF-8 bytes; byte order and code point order agree),
  ordered lexicographically; tuples used as sort keys are ordered lexicographically as well, and
  \<open>sort_key\<close> is stable as \<open>sorted\<close> is.
\<close>

named_theorems lookup_simps "lookups by identity in tuples and dicts"
named_theorems valid_defs "record validators"

type_synonym ident = string
type_synonym digest = string

section \<open>Failures\<close>

datatype rci_error =
    InvalidCommandError string
  | InvalidTransitionError string
  | IdentityConflictError string
  | EffectLifecycleError string
  | ValidationError string
  | ValueError string
  | PermissionError string
  | EvaluationError string
  | KeyError string
  | IndexError string
  | RuntimeError string
  | AttributeError string

fun error_text :: "rci_error \<Rightarrow> string" where
  "error_text (InvalidCommandError m) = m"
| "error_text (InvalidTransitionError m) = m"
| "error_text (IdentityConflictError m) = m"
| "error_text (EffectLifecycleError m) = m"
| "error_text (ValidationError m) = m"
| "error_text (ValueError m) = m"
| "error_text (PermissionError m) = m"
| "error_text (EvaluationError m) = m"
| "error_text (KeyError m) = m"
| "error_text (IndexError m) = m"
| "error_text (RuntimeError m) = m"
| "error_text (AttributeError m) = m"

text \<open>The subclasses of \<open>DomainError\<close>.\<close>

fun is_domain_error :: "rci_error \<Rightarrow> bool" where
  "is_domain_error (InvalidCommandError _) = True"
| "is_domain_error (InvalidTransitionError _) = True"
| "is_domain_error (IdentityConflictError _) = True"
| "is_domain_error (EffectLifecycleError _) = True"
| "is_domain_error _ = False"

type_synonym 'a result = "rci_error + 'a"

definition is_ok :: "'e + 'a \<Rightarrow> bool" where
  "is_ok r = (case r of Inl _ \<Rightarrow> False | Inr _ \<Rightarrow> True)"

lemma is_ok_simps [simp]: "is_ok (Inr x)" "\<not> is_ok (Inl e)"
  by (simp_all add: is_ok_def)

lemma is_ok_iff: "is_ok r \<longleftrightarrow> (\<exists>x. r = Inr x)"
  by (cases r) auto

lemma map_sum_Inr_iff: "map_sum id f r = Inr y \<longleftrightarrow> (\<exists>x. r = Inr x \<and> y = f x)"
  by (cases r) auto

text \<open>A tuple comprehension whose elements may fail: the first failure is raised.\<close>

fun collect_results :: "'a result list \<Rightarrow> 'a list result" where
  "collect_results [] = Inr []"
| "collect_results (r # rs) = (case r of Inl e \<Rightarrow> Inl e | Inr x \<Rightarrow> map_sum id ((#) x) (collect_results rs))"

lemma collect_results_snoc:
  "collect_results xs = Inr as \<Longrightarrow> collect_results (xs @ [Inr b]) = Inr (as @ [b])"
  by (induction xs arbitrary: as) (auto split: sum.splits simp: map_sum_Inr_iff)

lemma collect_results_InrD: "collect_results xs = Inr as \<Longrightarrow> xs = map Inr as"
  by (induction xs arbitrary: as) (auto split: sum.splits simp: map_sum_Inr_iff)

lemma collect_results_Inr_iff: "collect_results xs = Inr as \<longleftrightarrow> xs = map Inr as"
proof
  show "collect_results xs = Inr as" if "xs = map Inr as"
    unfolding that by (induction as) auto
qed (rule collect_results_InrD)

section \<open>Lookups\<close>

text \<open>\<open>next((x for x in xs if key(x) == k), None)\<close>: the first match.\<close>

definition find_by :: "('a \<Rightarrow> 'k) \<Rightarrow> 'k \<Rightarrow> 'a list \<Rightarrow> 'a option" where
  "find_by key k xs = List.find (\<lambda>x. key x = k) xs"

text \<open>\<open>{key(x): x for x in xs}.get(k)\<close>: a later record overwrites an earlier one.\<close>

definition index_by :: "('a \<Rightarrow> 'k) \<Rightarrow> 'a list \<Rightarrow> 'k \<Rightarrow> 'a option" where
  "index_by key xs k = find_by key k (rev xs)"

lemma find_by_Nil [simp, lookup_simps]: "find_by key k [] = None"
  by (simp add: find_by_def)

lemma find_by_Cons [simp, lookup_simps]:
  "find_by key k (x # xs) = (if key x = k then Some x else find_by key k xs)"
  by (simp add: find_by_def)

lemma find_by_SomeD: "find_by key k xs = Some x \<Longrightarrow> x \<in> set xs \<and> key x = k"
  by (induction xs) (auto split: if_splits)

lemma find_by_None_iff: "find_by key k xs = None \<longleftrightarrow> k \<notin> key ` set xs"
  by (induction xs) auto

lemma find_by_append:
  "find_by key k (xs @ ys) =
     (case find_by key k xs of Some x \<Rightarrow> Some x | None \<Rightarrow> find_by key k ys)"
  by (induction xs) auto

lemma find_by_distinct:
  "distinct (map key xs) \<Longrightarrow> x \<in> set xs \<Longrightarrow> find_by key (key x) xs = Some x"
  by (induction xs) force+

lemma index_by_SomeD: "index_by key xs k = Some x \<Longrightarrow> x \<in> set xs \<and> key x = k"
  unfolding index_by_def by (auto dest: find_by_SomeD)

lemma index_by_None_iff: "index_by key xs k = None \<longleftrightarrow> k \<notin> key ` set xs"
  by (simp add: index_by_def find_by_None_iff)

lemma index_by_distinct:
  assumes "distinct (map key xs)"
  shows "index_by key xs k = find_by key k xs"
proof (cases "find_by key k xs")
  case None
  then show ?thesis
    by (metis find_by_None_iff index_by_None_iff)
next
  case (Some x)
  then have x: "x \<in> set xs" "key x = k" by (auto dest: find_by_SomeD)
  have "distinct (map key (rev xs))" using assms by (simp add: rev_map [symmetric])
  then have "find_by key (key x) (rev xs) = Some x"
    using x by (intro find_by_distinct) auto
  with x Some show ?thesis by (simp add: index_by_def)
qed

section \<open>Canonical collections\<close>

text \<open>\<open>len(set(xs)) == len(xs)\<close> is uniqueness; with \<open>tuple(sorted(xs)) == xs\<close> it is the
  canonical order the validators ask for.\<close>

definition canonical :: "('a::linorder) list \<Rightarrow> bool" where
  "canonical xs \<longleftrightarrow> distinct xs \<and> sort xs = xs"

lemma canonical_iff: "canonical xs \<longleftrightarrow> sorted xs \<and> distinct xs"
  by (auto simp: canonical_def sorted_sort_id) (metis sorted_sort)

lemma canonical_eqI: "canonical xs \<Longrightarrow> canonical ys \<Longrightarrow> set xs = set ys \<Longrightarrow> xs = ys"
  by (auto simp: canonical_iff intro: sorted_distinct_set_unique)

lemma canonical_sorted_list_of_set [simp]: "finite A \<Longrightarrow> canonical (sorted_list_of_set A)"
  by (simp add: canonical_iff)

lemma subset_card_le_canonical:
  "distinct xs \<Longrightarrow> set xs \<subseteq> set ys \<Longrightarrow> length xs \<le> length ys"
  by (metis List.finite_set card_length card_mono distinct_card le_trans)

lemma psubset_length:
  assumes "distinct xs" "distinct ys" "set xs \<subset> set ys"
  shows "length xs < length ys"
  using assms by (metis List.finite_set distinct_card psubset_card_mono)

section \<open>Keeping what no earlier element covers\<close>

text \<open>
  The loop \<open>for x in ordered: if any(covers(m, x) for m in kept): continue; kept.append(x)\<close>,
  with the elements it leaves out returned beside the kept ones.
\<close>

fun keep_uncovered :: "('a \<Rightarrow> 'a \<Rightarrow> bool) \<Rightarrow> 'a list \<Rightarrow> 'a list \<Rightarrow> 'a list \<times> 'a list" where
  "keep_uncovered covers kept [] = (kept, [])"
| "keep_uncovered covers kept (x # xs) =
     (if \<exists>m \<in> set kept. covers m x
      then (let (k, d) = keep_uncovered covers kept xs in (k, x # d))
      else keep_uncovered covers (kept @ [x]) xs)"

text \<open>
  A contract between the ordering of the candidates and the covering relation: whenever one
  candidate strictly covers another, it comes earlier in the order.
\<close>

locale ranked_cover =
  fixes covers :: "'a \<Rightarrow> 'a \<Rightarrow> bool"
    and rank :: "'a \<Rightarrow> 'k::linorder"
    and good :: "'a \<Rightarrow> bool"
  assumes covers_refl: "covers x x"
    and covers_trans: "covers x y \<Longrightarrow> covers y z \<Longrightarrow> covers x z"
    and covers_rank: "good x \<Longrightarrow> good y \<Longrightarrow> covers x y \<Longrightarrow> \<not> covers y x \<Longrightarrow> rank x < rank y"
begin

lemma kept_subset:
  "keep_uncovered covers kept xs = (k, d) \<Longrightarrow>
     set kept \<subseteq> set k \<and> set k \<subseteq> set kept \<union> set xs"
  by (induction xs arbitrary: kept k d) (fastforce split: if_splits prod.splits)+

lemma kept_covers_all:
  "keep_uncovered covers kept xs = (k, d) \<Longrightarrow> x \<in> set xs \<Longrightarrow> \<exists>m \<in> set k. covers m x"
proof (induction xs arbitrary: kept k d)
  case (Cons y ys)
  show ?case
  proof (cases "x = y")
    case True
    show ?thesis
    proof (cases "\<exists>m \<in> set kept. covers m y")
      case True
      with \<open>x = y\<close> Cons.prems(1) show ?thesis
        using kept_subset [OF Cons.prems(1)] by blast
    next
      case False
      then have "keep_uncovered covers (kept @ [y]) ys = (k, d)" using Cons.prems(1) by simp
      then have "y \<in> set k" using kept_subset by fastforce
      with \<open>x = y\<close> covers_refl show ?thesis by blast
    qed
  next
    case False
    with Cons show ?thesis by (auto split: if_splits prod.splits)
  qed
qed simp

lemma kept_dropped_mset:
  "keep_uncovered covers kept xs = (k, d) \<Longrightarrow> mset k + mset d = mset kept + mset xs"
  by (induction xs arbitrary: kept k d) (fastforce split: if_splits prod.splits)+

lemma kept_antichain:
  assumes "keep_uncovered covers kept xs = (k, d)"
    and "sorted (map rank (kept @ xs))"
    and "\<forall>x \<in> set (kept @ xs). good x"
    and "sorted_wrt (\<lambda>x y. \<not> covers x y \<and> \<not> covers y x) kept"
  shows "sorted_wrt (\<lambda>x y. \<not> covers x y \<and> \<not> covers y x) k"
  using assms
proof (induction xs arbitrary: kept k d)
  case (Cons y ys)
  show ?case
  proof (cases "\<exists>m \<in> set kept. covers m y")
    case True
    with Cons.prems obtain d' where "keep_uncovered covers kept ys = (k, d')"
      by (auto split: prod.splits)
    then show ?thesis
      using Cons.prems by (intro Cons.IH [of kept k d']) (auto simp: sorted_append)
  next
    case False
    have "\<not> covers y m" if "m \<in> set kept" for m
    proof
      assume "covers y m"
      with False that Cons.prems(3) have "rank y < rank m"
        by (intro covers_rank) auto
      moreover have "rank m \<le> rank y"
        using Cons.prems(2) that by (auto simp: sorted_append)
      ultimately show False by simp
    qed
    with False Cons.prems show ?thesis
      by (intro Cons.IH [of "kept @ [y]" k d]) (auto simp: sorted_wrt_append)
  qed
qed simp

lemma sorted_kept_antichain:
  assumes "keep_uncovered covers [] (sort_key rank xs) = (k, d)"
    and "\<forall>x \<in> set xs. good x"
  shows "sorted_wrt (\<lambda>x y. \<not> covers x y \<and> \<not> covers y x) k"
  by (rule kept_antichain [OF assms(1)]) (use assms(2) in auto)

end

lemma keep_uncovered_prefix:
  "\<exists>ys. fst (keep_uncovered covers kept xs) = kept @ ys"
proof (induction xs arbitrary: kept)
  case (Cons x xs)
  show ?case
  proof (cases "\<exists>m \<in> set kept. covers m x")
    case True
    with Cons.IH [of kept] show ?thesis by (simp add: split_beta)
  next
    case False
    with Cons.IH [of "kept @ [x]"] show ?thesis by auto
  qed
qed simp

lemma keep_uncovered_Nil_hd:
  "xs \<noteq> [] \<Longrightarrow> \<exists>ys. fst (keep_uncovered covers [] xs) = hd xs # ys"
  using keep_uncovered_prefix [of covers "[hd xs]" "tl xs"] by (cases xs) auto

lemma keep_uncovered_dropped:
  "keep_uncovered covers kept xs = (k, d) \<Longrightarrow> x \<in> set d \<Longrightarrow> \<exists>m \<in> set k. covers m x"
proof (induction xs arbitrary: kept k d)
  case (Cons y ys)
  have mono: "set kept \<subseteq> set k'" if "keep_uncovered covers kept ys = (k', d')" for k' d'
    using keep_uncovered_prefix [of covers kept ys] that by auto
  show ?case
  proof (cases "\<exists>m \<in> set kept. covers m y")
    case True
    with Cons.prems(1) obtain d' where d': "keep_uncovered covers kept ys = (k, d')" "d = y # d'"
      by (auto split: prod.splits)
    with True mono [OF d'(1)] Cons.IH [OF d'(1)] Cons.prems(2) show ?thesis by auto
  next
    case False
    with Cons show ?thesis by auto
  qed
qed simp

lemma pred_option_code [code]: "pred_option P None = True" "pred_option P (Some x) = P x"
  by simp_all

end
