(* ===== verification/Rci_Json.thy ===== *)
theory Rci_Json
  imports Rci_Prelude
begin

text \<open>
  The canonical JSON text of \<open>claims/models.py\<close> (\<open>canonical_json\<close>: sorted keys, no
  white space, non-ASCII kept) and the content fingerprints built on it. A JSON value is a
  datatype; an integer is an \<open>int\<close>, a float is the text Python's \<open>repr\<close> gives it, an object
  is its item list in insertion order. The SHA-256 digest is a parameter \<open>sha\<close>: a function from
  bytes to a hexadecimal text. The main result is that the canonical text determines the value up
  to the order of object keys, so a fingerprint identifies its content as far as the digest does.
\<close>

section \<open>Values\<close>

datatype json =
    JNull
  | JBool bool
  | JInt int
  | JFloat string
  | JStr string
  | JList "json list"
  | JObj "(string \<times> json) list"

section \<open>Printing\<close>

definition digit_char :: "nat \<Rightarrow> char" where
  "digit_char d = (char_of (if d < 10 then 48 + d else 87 + d) :: char)"

fun dec :: "nat \<Rightarrow> string" where
  "dec n = (if n < 10 then [digit_char n] else dec (n div 10) @ [digit_char (n mod 10)])"

declare dec.simps [simp del]

definition int_text :: "int \<Rightarrow> string" where
  "int_text i = (if i < 0 then CHR ''-'' # dec (nat (- i)) else dec (nat i))"

definition escape_char :: "char \<Rightarrow> string" where
  "escape_char c =
    (if c = CHR 0x22 then [CHR 0x5C, CHR 0x22]
     else if c = CHR 0x5C then [CHR 0x5C, CHR 0x5C]
     else if c = CHR 0x0A then [CHR 0x5C, CHR ''n'']
     else if c = CHR 0x0D then [CHR 0x5C, CHR ''r'']
     else if c = CHR 0x09 then [CHR 0x5C, CHR ''t'']
     else if c = CHR 0x0C then [CHR 0x5C, CHR ''f'']
     else if c = CHR 0x08 then [CHR 0x5C, CHR ''b'']
     else if of_char c < (32::nat)
       then [CHR 0x5C, CHR ''u'', CHR ''0'', CHR ''0'',
             digit_char (of_char c div 16), digit_char (of_char c mod 16)]
     else [c])"

definition quote :: "string \<Rightarrow> string" where
  "quote s = CHR 0x22 # concat (map escape_char s) @ [CHR 0x22]"

fun join :: "string \<Rightarrow> string list \<Rightarrow> string" where
  "join sep [] = []"
| "join sep [x] = x"
| "join sep (x # y # ys) = x @ sep @ join sep (y # ys)"

fun canonical_json :: "json \<Rightarrow> string" where
  "canonical_json JNull = ''null''"
| "canonical_json (JBool b) = (if b then ''true'' else ''false'')"
| "canonical_json (JInt i) = int_text i"
| "canonical_json (JFloat s) = s"
| "canonical_json (JStr s) = quote s"
| "canonical_json (JList js) = ''['' @ join '','' (map canonical_json js) @ '']''"
| "canonical_json (JObj kvs) =
     ''{'' @ join '','' (map (\<lambda>(k, t). quote k @ '':'' @ t)
       (sort_key fst (map (\<lambda>(k, v). (k, canonical_json v)) kvs))) @ ''}''"

definition content_fingerprint :: "(string \<Rightarrow> digest) \<Rightarrow> string \<Rightarrow> json \<Rightarrow> digest" where
  "content_fingerprint sha namespace value = sha (namespace @ CHR 0x00 # canonical_json value)"

text \<open>A Python \<open>str | None\<close> as JSON.\<close>

fun opt_str :: "string option \<Rightarrow> json" where
  "opt_str None = JNull"
| "opt_str (Some s) = JStr s"

abbreviation str_list :: "string list \<Rightarrow> json" where
  "str_list xs \<equiv> JList (map JStr xs)"

section \<open>Values up to key order\<close>

fun norm_json :: "json \<Rightarrow> json" where
  "norm_json (JList js) = JList (map norm_json js)"
| "norm_json (JObj kvs) = JObj (sort_key fst (map (\<lambda>(k, v). (k, norm_json v)) kvs))"
| "norm_json j = j"

definition num_char :: "char \<Rightarrow> bool" where
  "num_char c \<longleftrightarrow> c \<in> set ''0123456789+-.e''"

definition float_text :: "string \<Rightarrow> bool" where
  "float_text s \<longleftrightarrow> list_all num_char s \<and> (CHR ''.'' \<in> set s \<or> CHR ''e'' \<in> set s)"

text \<open>What Python's types guarantee of a JSON value: a dict has each key once, and a finite float
  prints with a point or an exponent.\<close>

fun wf_json :: "json \<Rightarrow> bool" where
  "wf_json (JFloat s) = float_text s"
| "wf_json (JList js) = list_all wf_json js"
| "wf_json (JObj kvs) = (distinct (map fst kvs) \<and> list_all (\<lambda>(k, v). wf_json v) kvs)"
| "wf_json j = True"

text \<open>The text of a value in the order it is given.\<close>

fun json_text :: "json \<Rightarrow> string" where
  "json_text (JList js) = ''['' @ join '','' (map json_text js) @ '']''"
| "json_text (JObj kvs) = ''{'' @ join '','' (map (\<lambda>(k, v). quote k @ '':'' @ json_text v) kvs) @ ''}''"
| "json_text j = canonical_json j"

lemma sort_key_map_snd:
  "sort_key fst (map (\<lambda>p. (fst p, f (snd p))) kvs) = map (\<lambda>p. (fst p, f (snd p))) (sort_key fst kvs)"
proof -
  have ins: "insort_key fst (fst q, f (snd q)) (map (\<lambda>p. (fst p, f (snd p))) xs) =
      map (\<lambda>p. (fst p, f (snd p))) (insort_key fst q xs)" for q xs
    by (induction xs) auto
  show ?thesis by (induction kvs) (simp_all add: sort_key_def ins)
qed

lemma canonical_json_norm: "canonical_json j = json_text (norm_json j)"
proof (induction j)
  case (JObj kvs)
  have eq: "map (\<lambda>p. (fst p, canonical_json (snd p))) kvs =
      map (\<lambda>p. (fst p, json_text (norm_json (snd p)))) kvs"
    using JObj by (auto intro!: map_cong simp: snds.simps)
  have "sort_key fst (map (\<lambda>(k, v). (k, canonical_json v)) kvs) =
      map (\<lambda>p. (fst p, json_text (norm_json (snd p)))) (sort_key fst kvs)"
    unfolding split_beta' eq by (rule sort_key_map_snd [of "\<lambda>v. json_text (norm_json v)"])
  then show ?case
    by (simp add: split_beta' comp_def sort_key_map_snd [of norm_json])
next
  case (JList js)
  then have "map canonical_json js = map (json_text \<circ> norm_json) js" by simp
  then show ?case by (simp only: canonical_json.simps norm_json.simps json_text.simps map_map)
qed simp_all

section \<open>The text determines the value\<close>

definition delim :: "string \<Rightarrow> bool" where
  "delim r \<longleftrightarrow> r = [] \<or> \<not> num_char (hd r)"

lemma digit_char_num:
  assumes "d < 10"
  shows "digit_char d \<in> set ''0123456789''"
proof -
  have "\<forall>d \<in> set [0..<10]. digit_char d \<in> set ''0123456789''" by code_simp
  with assms show ?thesis by simp
qed

fun dec_val :: "string \<Rightarrow> nat" where
  "dec_val s = foldl (\<lambda>a c. 10 * a + (of_char c - 48)) 0 s"

lemma of_char_digit: "d < 10 \<Longrightarrow> of_char (digit_char d) = 48 + d"
  by (simp add: digit_char_def)

lemma dec_val_dec: "dec_val (dec n) = n"
proof (induction n rule: dec.induct)
  case (1 n)
  then show ?case
    by (cases "n < 10") (auto simp: dec.simps [of n] of_char_digit)
qed

lemma dec_chars: "set (dec n) \<subseteq> set ''0123456789''"
proof (induction n rule: dec.induct)
  case (1 n)
  then show ?case
    using digit_char_num [of n] digit_char_num [of "n mod 10"] by (auto simp: dec.simps [of n])
qed

lemma dec_nonempty: "dec n \<noteq> []"
  by (simp add: dec.simps)

lemma dec_inj: "dec m = dec n \<Longrightarrow> m = n"
  by (metis dec_val_dec)

lemma int_text_inj: "int_text i = int_text j \<Longrightarrow> i = j"
proof -
  assume eq: "int_text i = int_text j"
  have neq: "CHR ''-'' # s \<noteq> dec n" for s n
  proof
    assume "CHR ''-'' # s = dec n"
    then have "CHR ''-'' \<in> set (dec n)" by (metis list.set_intros(1))
    then have "CHR ''-'' \<in> set ''0123456789''" using dec_chars by blast
    then show False by simp
  qed
  from eq show ?thesis
    by (auto simp: int_text_def neq neq [symmetric] split: if_splits dest: dec_inj)
qed

lemma digit_is_num: "c \<in> set ''0123456789'' \<Longrightarrow> num_char c \<and> c \<noteq> CHR ''.'' \<and> c \<noteq> CHR ''e''"
  by (auto simp: num_char_def)

lemma dec_num: "c \<in> set (dec n) \<Longrightarrow> num_char c \<and> c \<noteq> CHR ''.'' \<and> c \<noteq> CHR ''e''"
  by (rule digit_is_num) (rule subsetD [OF dec_chars])

lemma int_text_char:
  assumes "c \<in> set (int_text i)"
  shows "num_char c \<and> c \<noteq> CHR ''.'' \<and> c \<noteq> CHR ''e''"
proof (cases "c = CHR ''-''")
  case True
  then show ?thesis by (simp add: num_char_def)
next
  case False
  with assms obtain n where "c \<in> set (dec n)" by (auto simp: int_text_def split: if_splits)
  then show ?thesis by (rule dec_num)
qed

lemma int_text_num: "list_all num_char (int_text i)"
  using int_text_char by (auto simp: list_all_iff)

lemma int_text_nonempty: "int_text i \<noteq> []"
  by (simp add: int_text_def dec_nonempty)

lemma int_text_not_float: "\<not> float_text (int_text i)"
  using int_text_char by (fastforce simp: float_text_def)

lemma num_prefix:
  assumes "list_all num_char a" "list_all num_char b" "delim r" "delim r'" "a @ r = b @ r'"
  shows "a = b \<and> r = r'"
proof -
  have tw: "takeWhile num_char (x @ y) = x" if "list_all num_char x" "delim y" for x y
    using that by (cases y) (auto simp: delim_def list_all_iff takeWhile_append2)
  have "a = takeWhile num_char (a @ r)" using assms(1,3) by (simp add: tw)
  also have "\<dots> = b" using assms(2,4,5) by (simp add: tw)
  finally have "a = b" .
  with assms(5) show ?thesis by simp
qed

lemma digit_char_inj:
  assumes "d < 16" "e < 16" "digit_char d = digit_char e"
  shows "d = e"
proof -
  have "of_char (digit_char d) = (of_char (digit_char e) :: nat)" using assms(3) by simp
  with assms(1,2) show ?thesis by (auto simp: digit_char_def split: if_splits)
qed

lemma escape_hd: "escape_char c \<noteq> [] \<and> hd (escape_char c) \<noteq> CHR 0x22"
  by (auto simp: escape_char_def)

lemma control_text_inj:
  assumes "of_char c < (32::nat)" "of_char d < (32::nat)"
    and "digit_char (of_char c div 16) = digit_char (of_char d div 16)"
    and "digit_char (of_char c mod 16) = digit_char (of_char d mod 16)"
  shows "c = d"
proof -
  have "of_char c div 16 = (of_char d div 16 :: nat)" "of_char c mod 16 = (of_char d mod 16 :: nat)"
    using assms by (auto intro: digit_char_inj)
  then have "of_char c = (of_char d :: nat)" by (metis div_mult_mod_eq)
  then show ?thesis by (simp add: of_char_eq_iff)
qed

lemma escape_prefix: "escape_char c @ r = escape_char d @ r' \<Longrightarrow> c = d \<and> r = r'"
  unfolding escape_char_def
  by (auto split: if_splits dest: control_text_inj)

lemma quote_prefix_aux:
  "concat (map escape_char s) @ CHR 0x22 # r = concat (map escape_char t) @ CHR 0x22 # r' \<Longrightarrow>
     s = t \<and> r = r'"
proof (induction s arbitrary: t)
  case Nil
  show ?case
  proof (cases t)
    case (Cons d t')
    with Nil escape_hd [of d] show ?thesis by (cases "escape_char d") auto
  qed (use Nil in simp)
next
  case (Cons c s)
  show ?case
  proof (cases t)
    case Nil
    with Cons.prems escape_hd [of c] show ?thesis by (cases "escape_char c") auto
  next
    case (Cons d t')
    with Cons.prems have "escape_char c @ (concat (map escape_char s) @ CHR 0x22 # r) =
        escape_char d @ (concat (map escape_char t') @ CHR 0x22 # r')" by simp
    then have "c = d" "concat (map escape_char s) @ CHR 0x22 # r =
        concat (map escape_char t') @ CHR 0x22 # r'"
      using escape_prefix by blast+
    with Cons.IH Cons show ?thesis by auto
  qed
qed

lemma quote_prefix: "quote s @ r = quote t @ r' \<Longrightarrow> s = t \<and> r = r'"
  by (rule quote_prefix_aux) (simp add: quote_def)

lemma join_Cons: "join sep (x # xs) = x @ (if xs = [] then [] else sep @ join sep xs)"
  by (cases xs) auto

lemma delim_punct [simp]:
  "delim (CHR '','' # r)" "delim (CHR '']'' # r)" "delim (CHR ''}'' # r)" "delim []"
  by (simp_all add: delim_def num_char_def)

text \<open>A comma-separated sequence closed by a bracket is read back element by element.\<close>

lemma join_prefix:
  assumes item: "\<And>x y r r'. x \<in> set xs \<Longrightarrow> y \<in> set ys \<Longrightarrow> delim r \<Longrightarrow> delim r' \<Longrightarrow>
      f x @ r = f y @ r' \<Longrightarrow> x = y \<and> r = r'"
    and start: "\<And>x. x \<in> set xs \<union> set ys \<Longrightarrow> f x \<noteq> [] \<and> hd (f x) \<noteq> c"
    and close: "c = CHR '']'' \<or> c = CHR ''}''"
    and eq: "join '','' (map f xs) @ c # r = join '','' (map f ys) @ c # r'"
  shows "xs = ys \<and> r = r'"
  using item start eq
proof (induction xs arbitrary: ys)
  case Nil
  show ?case
  proof (cases ys)
    case (Cons y ys')
    with Nil.prems(2) [of y] Nil.prems(3) show ?thesis
      by (cases "f y") (simp_all add: join_Cons)
  qed (use Nil in simp)
next
  case (Cons x xs)
  show ?case
  proof (cases ys)
    case Nil
    with Cons.prems(2) [of x] Cons.prems(3) show ?thesis
      by (cases "f x") (simp_all add: join_Cons)
  next
    case (Cons y ys')
    let ?tail = "\<lambda>zs q. (if zs = [] then [] else '','' @ join '','' (map f zs)) @ c # q"
    have d: "delim (?tail zs q)" for zs q using close by auto
    have "f x @ ?tail xs r = f y @ ?tail ys' r'"
      using Cons.prems(3) Cons by (simp add: join_Cons)
    then have xy: "x = y" and tails: "?tail xs r = ?tail ys' r'"
      using Cons.prems(1) [of x y "?tail xs r" "?tail ys' r'"] d Cons by auto
    show ?thesis
    proof (cases "xs = [] \<or> ys' = []")
      case True
      with tails close xy Cons show ?thesis by (auto split: if_splits)
    next
      case False
      with tails have "join '','' (map f xs) @ c # r = join '','' (map f ys') @ c # r'" by simp
      with Cons.IH [of ys'] Cons.prems(1,2) Cons xy show ?thesis by auto
    qed
  qed
qed

text \<open>The first character of a text tells the kind of the value.\<close>

fun json_kind :: "json \<Rightarrow> nat" where
  "json_kind JNull = 0"
| "json_kind (JBool b) = (if b then 1 else 2)"
| "json_kind (JStr s) = 3"
| "json_kind (JList js) = 4"
| "json_kind (JObj kvs) = 5"
| "json_kind j = 6"

definition char_kind :: "char \<Rightarrow> nat" where
  "char_kind c =
    (if num_char c then 6 else if c = CHR ''n'' then 0 else if c = CHR ''t'' then 1
     else if c = CHR ''f'' then 2 else if c = CHR 0x22 then 3 else if c = CHR ''['' then 4
     else if c = CHR ''{'' then 5 else 7)"

lemma char_kind_simps:
  "num_char c \<Longrightarrow> char_kind c = 6" "char_kind (CHR ''n'') = 0" "char_kind (CHR ''t'') = 1"
  "char_kind (CHR ''f'') = 2" "char_kind (CHR 0x22) = 3" "char_kind (CHR ''['') = 4"
  "char_kind (CHR ''{'') = 5" "char_kind (CHR '']'') = 7" "char_kind (CHR ''}'') = 7"
  by (simp_all add: char_kind_def num_char_def)

lemma text_start: "wf_json j \<Longrightarrow> json_text j \<noteq> [] \<and> char_kind (hd (json_text j)) = json_kind j"
proof (cases j)
  case (JInt i)
  then show ?thesis
    using int_text_num [of i] int_text_nonempty [of i]
    by (cases "int_text i") (auto simp: char_kind_simps)
next
  case (JFloat s)
  assume "wf_json j"
  with JFloat show ?thesis by (cases s) (auto simp: float_text_def char_kind_simps)
qed (auto simp: quote_def char_kind_simps)

lemma text_kind_eq:
  assumes "wf_json i" "wf_json j" "json_text i @ r = json_text j @ r'"
  shows "json_kind i = json_kind j"
proof -
  have "hd (json_text i) = hd (json_text j)"
    using text_start [OF assms(1)] text_start [OF assms(2)] assms(3) by (metis hd_append2)
  then show ?thesis using text_start [OF assms(1)] text_start [OF assms(2)] by metis
qed

lemma text_not_close:
  assumes "wf_json j" "c = CHR '']'' \<or> c = CHR ''}''"
  shows "json_text j \<noteq> [] \<and> hd (json_text j) \<noteq> c"
proof -
  have "json_kind j < 7" by (cases j) auto
  with text_start [OF assms(1)] assms(2) show ?thesis by (auto simp: char_kind_simps)
qed

lemma list_text_prefix:
  assumes IH: "\<And>x y r r'. x \<in> set js \<Longrightarrow> wf_json x \<Longrightarrow> wf_json y \<Longrightarrow> delim r \<Longrightarrow> delim r' \<Longrightarrow>
      json_text x @ r = json_text y @ r' \<Longrightarrow> x = y \<and> r = r'"
    and wf: "wf_json (JList js)" "wf_json (JList js')"
    and eq: "json_text (JList js) @ r = json_text (JList js') @ r'"
  shows "js = js' \<and> r = r'"
proof (rule join_prefix [where f = json_text and c = "CHR '']''"])
  show "join '','' (map json_text js) @ CHR '']'' # r = join '','' (map json_text js') @ CHR '']'' # r'"
    using eq by simp
  show "\<And>x. x \<in> set js \<union> set js' \<Longrightarrow> json_text x \<noteq> [] \<and> hd (json_text x) \<noteq> CHR '']''"
    using wf by (intro text_not_close) (auto simp: list_all_iff)
  fix x y q q'
  assume "x \<in> set js" "y \<in> set js'" "delim q" "delim q'" "json_text x @ q = json_text y @ q'"
  with wf IH [of x y q q'] show "x = y \<and> q = q'" by (simp add: list_all_iff)
qed simp

lemma item_text_prefix:
  assumes IH: "\<And>y r r'. wf_json y \<Longrightarrow> delim r \<Longrightarrow> delim r' \<Longrightarrow>
      json_text v @ r = json_text y @ r' \<Longrightarrow> v = y \<and> r = r'"
    and "wf_json w" "delim r" "delim r'"
    and eq: "(quote k @ '':'' @ json_text v) @ r = (quote l @ '':'' @ json_text w) @ r'"
  shows "k = l \<and> v = w \<and> r = r'"
proof -
  have "quote k @ ('':'' @ json_text v @ r) = quote l @ ('':'' @ json_text w @ r')"
    using eq by simp
  then have "k = l" "'':'' @ json_text v @ r = '':'' @ json_text w @ r'"
    by (auto dest: quote_prefix)
  with IH [of w r r'] assms(2-4) show ?thesis by simp
qed

lemma obj_text_prefix:
  assumes IH: "\<And>k v y r r'. (k, v) \<in> set kvs \<Longrightarrow> wf_json v \<Longrightarrow> wf_json y \<Longrightarrow> delim r \<Longrightarrow> delim r' \<Longrightarrow>
      json_text v @ r = json_text y @ r' \<Longrightarrow> v = y \<and> r = r'"
    and wf: "wf_json (JObj kvs)" "wf_json (JObj kvs')"
    and eq: "json_text (JObj kvs) @ r = json_text (JObj kvs') @ r'"
  shows "kvs = kvs' \<and> r = r'"
proof (rule join_prefix [where f = "\<lambda>(k, v). quote k @ '':'' @ json_text v" and c = "CHR ''}''"])
  fix p q s s'
  assume a: "p \<in> set kvs" "q \<in> set kvs'" "delim s" "delim s'"
    and t: "(case p of (k, v) \<Rightarrow> quote k @ '':'' @ json_text v) @ s =
      (case q of (k, v) \<Rightarrow> quote k @ '':'' @ json_text v) @ s'"
  obtain k v l w where p: "p = (k, v)" and q: "q = (l, w)" by (cases p, cases q) auto
  have "wf_json v" "wf_json w" using a wf p q by (auto simp: list_all_iff)
  have "k = l \<and> v = w \<and> s = s'"
  proof (rule item_text_prefix)
    show "(quote k @ '':'' @ json_text v) @ s = (quote l @ '':'' @ json_text w) @ s'"
      using t p q by simp
    show "\<And>y r r'. wf_json y \<Longrightarrow> delim r \<Longrightarrow> delim r' \<Longrightarrow>
        json_text v @ r = json_text y @ r' \<Longrightarrow> v = y \<and> r = r'"
      using IH [of k v] a(1) p \<open>wf_json v\<close> by blast
  qed (use a \<open>wf_json w\<close> in simp_all)
  with p q show "p = q \<and> s = s'" by simp
qed (use eq in \<open>auto simp: quote_def\<close>)

lemma json_text_prefix:
  assumes "wf_json i" "wf_json j" "delim r" "delim r'" "json_text i @ r = json_text j @ r'"
  shows "i = j \<and> r = r'"
  using assms
proof (induction i arbitrary: j r r')
  case (JInt m)
  then have "json_kind j = 6" by (metis json_kind.simps(6) text_kind_eq)
  then consider n where "j = JInt n" | t where "j = JFloat t" by (cases j) (auto split: if_splits)
  then show ?case
  proof cases
    case 1
    with JInt num_prefix [of "int_text m" "int_text n" r r'] show ?thesis
      by (auto simp: int_text_num dest: int_text_inj)
  next
    case 2
    with JInt num_prefix [of "int_text m" t r r'] int_text_not_float [of m] show ?thesis
      by (auto simp: int_text_num float_text_def)
  qed
next
  case (JFloat s)
  then have "json_kind j = 6" by (metis json_kind.simps(7) text_kind_eq)
  then consider n where "j = JInt n" | t where "j = JFloat t" by (cases j) (auto split: if_splits)
  then show ?case
  proof cases
    case 1
    with JFloat num_prefix [of s "int_text n" r r'] int_text_not_float [of n] show ?thesis
      by (auto simp: int_text_num float_text_def)
  next
    case 2
    with JFloat num_prefix [of s t r r'] show ?thesis by (auto simp: float_text_def)
  qed
next
  case (JObj kvs)
  then have "json_kind j = 5" by (metis json_kind.simps(5) text_kind_eq)
  then obtain kvs' where j: "j = JObj kvs'" by (cases j) (auto split: if_splits)
  have "kvs = kvs' \<and> r = r'"
    by (rule obj_text_prefix) (use JObj j in \<open>auto intro: snds.intros\<close>)
  with j show ?case by simp
next
  case (JList js)
  then have "json_kind j = 4" by (metis json_kind.simps(4) text_kind_eq)
  then obtain js' where j: "j = JList js'" by (cases j) (auto split: if_splits)
  have "js = js' \<and> r = r'"
    by (rule list_text_prefix) (use JList j in auto)
  with j show ?case by simp
next
  case (JStr s)
  then have "json_kind j = 3" by (metis json_kind.simps(3) text_kind_eq)
  with JStr show ?case by (cases j) (auto split: if_splits dest: quote_prefix)
next
  case JNull
  then have "json_kind j = 0" by (metis json_kind.simps(1) text_kind_eq)
  with JNull show ?case by (cases j) (auto split: if_splits)
next
  case (JBool b)
  then have "json_kind j = (if b then 1 else 2)" by (metis json_kind.simps(2) text_kind_eq)
  with JBool show ?case by (cases j) (auto split: if_splits)
qed

lemma wf_norm_json: "wf_json j \<Longrightarrow> wf_json (norm_json j)"
proof (induction j)
  case (JObj kvs)
  let ?n = "map (\<lambda>(k, v). (k, norm_json v)) kvs"
  have m: "mset (map fst (sort_key fst ?n)) = mset (map fst kvs)"
    by (simp add: split_beta' comp_def image_mset.compositionality)
  have "distinct (map fst (sort_key fst ?n))"
    using JObj.prems by (simp add: mset_eq_imp_distinct_iff [OF m])
  moreover have "list_all (\<lambda>(k, v). wf_json v) (sort_key fst ?n)"
    using JObj by (auto simp: list_all_iff intro: snds.intros)
  ultimately show ?case by simp
qed (auto simp: list_all_iff)

lemma canonical_json_eq_iff:
  assumes "wf_json i" "wf_json j"
  shows "canonical_json i = canonical_json j \<longleftrightarrow> norm_json i = norm_json j"
proof
  assume "canonical_json i = canonical_json j"
  then have "json_text (norm_json i) @ [] = json_text (norm_json j) @ []"
    by (simp add: canonical_json_norm)
  then show "norm_json i = norm_json j"
    using json_text_prefix [of "norm_json i" "norm_json j" "[]" "[]"] assms
    by (simp add: wf_norm_json)
qed (simp add: canonical_json_norm)

text \<open>An absent optional string and a present one never share a text.\<close>

lemma opt_str_inj: "opt_str a = opt_str b \<longleftrightarrow> a = b"
  by (cases a; cases b) auto

text \<open>C32: the canonical text identifies a JSON value. Two values have the same canonical text exactly
  when they are equal up to the order of object keys, at every depth; so a fingerprint over the
  canonical text distinguishes what the code treats as different content and nothing else.\<close>

theorem canonical_json_identifies_values:
  assumes "wf_json i" "wf_json j"
  shows "canonical_json i = canonical_json j \<longleftrightarrow> norm_json i = norm_json j"
  by (rule canonical_json_eq_iff [OF assms])

theorem canonical_json_identifies_values_witness:
  "canonical_json (JObj [(''b'', JList [JInt 1, JNull]), (''a'', JStr ''x'')]) =
     canonical_json (JObj [(''a'', JStr ''x''), (''b'', JList [JInt 1, JNull])]) \<and>
   canonical_json (JStr ''1'') \<noteq> canonical_json (JInt 1)"
  using canonical_json_identifies_values
      [of "JObj [(''b'', JList [JInt 1, JNull]), (''a'', JStr ''x'')]"
        "JObj [(''a'', JStr ''x''), (''b'', JList [JInt 1, JNull])]"]
    canonical_json_identifies_values [of "JStr ''1''" "JInt 1"]
  by simp

end
