(* ===== verification/Rci_Formal.thy ===== *)
theory Rci_Formal
  imports Rci_Json
begin

text \<open>
  The Boolean and finite-enum formulas of \<open>formal/ast.py\<close> and their exhaustive semantics over
  finite universes (\<open>formal/exhaustive.py\<close>). The evaluator keeps Python's short-circuit order
  and its \<open>EvaluationError\<close>; it is shown equal to a plain truth-functional reading on every
  well-bound environment. The exhaustive check is shown to decide satisfiability over the universe,
  and an implication attack to find a counterexample exactly when the implication fails.
\<close>

section \<open>Formulas\<close>

datatype scalar = SBool bool | SStr string

datatype formula =
    BoolLiteral bool
  | Symbol string
  | EnumEquals string string
  | Not formula
  | And "formula list"
  | Or "formula list"
  | Implies formula formula
  | Equivalence formula formula

fun valid_formula :: "formula \<Rightarrow> bool" where
  "valid_formula (BoolLiteral b) = True"
| "valid_formula (Symbol n) = (n \<noteq> [])"
| "valid_formula (EnumEquals s v) = (s \<noteq> [] \<and> v \<noteq> [])"
| "valid_formula (Not f) = valid_formula f"
| "valid_formula (And fs) = (fs \<noteq> [] \<and> list_all valid_formula fs)"
| "valid_formula (Or fs) = (fs \<noteq> [] \<and> list_all valid_formula fs)"
| "valid_formula (Implies f g) = (valid_formula f \<and> valid_formula g)"
| "valid_formula (Equivalence f g) = (valid_formula f \<and> valid_formula g)"

type_synonym environment = "string \<Rightarrow> scalar option"

definition symbol_value :: "environment \<Rightarrow> string \<Rightarrow> bool result" where
  "symbol_value env n = (case env n of Some (SBool b) \<Rightarrow> Inr b
     | _ \<Rightarrow> Inl (EvaluationError (n @ '' is absent or not Boolean'')))"

definition enum_value :: "environment \<Rightarrow> string \<Rightarrow> string result" where
  "enum_value env n = (case env n of Some (SStr s) \<Rightarrow> Inr s
     | _ \<Rightarrow> Inl (EvaluationError (n @ '' is absent or not a finite enum'')))"

fun evaluate :: "formula \<Rightarrow> environment \<Rightarrow> bool result"
  and evaluate_all :: "formula list \<Rightarrow> environment \<Rightarrow> bool result"
  and evaluate_any :: "formula list \<Rightarrow> environment \<Rightarrow> bool result" where
  "evaluate (BoolLiteral b) env = Inr b"
| "evaluate (Symbol n) env = symbol_value env n"
| "evaluate (EnumEquals s v) env = map_sum id (\<lambda>x. x = v) (enum_value env s)"
| "evaluate (Not f) env = map_sum id (\<lambda>b. \<not> b) (evaluate f env)"
| "evaluate (And fs) env = evaluate_all fs env"
| "evaluate (Or fs) env = evaluate_any fs env"
| "evaluate (Implies f g) env =
     (case evaluate f env of Inl e \<Rightarrow> Inl e | Inr False \<Rightarrow> Inr True | Inr True \<Rightarrow> evaluate g env)"
| "evaluate (Equivalence f g) env =
     (case evaluate f env of Inl e \<Rightarrow> Inl e
      | Inr a \<Rightarrow> map_sum id (\<lambda>b. a = b) (evaluate g env))"
| "evaluate_all [] env = Inr True"
| "evaluate_all (f # fs) env =
     (case evaluate f env of Inl e \<Rightarrow> Inl e | Inr False \<Rightarrow> Inr False
      | Inr True \<Rightarrow> evaluate_all fs env)"
| "evaluate_any [] env = Inr False"
| "evaluate_any (f # fs) env =
     (case evaluate f env of Inl e \<Rightarrow> Inl e | Inr True \<Rightarrow> Inr True
      | Inr False \<Rightarrow> evaluate_any fs env)"

fun formula_symbols :: "formula \<Rightarrow> string set" where
  "formula_symbols (BoolLiteral b) = {}"
| "formula_symbols (Symbol n) = {n}"
| "formula_symbols (EnumEquals s v) = {s}"
| "formula_symbols (Not f) = formula_symbols f"
| "formula_symbols (And fs) = \<Union> (set (map formula_symbols fs))"
| "formula_symbols (Or fs) = \<Union> (set (map formula_symbols fs))"
| "formula_symbols (Implies f g) = formula_symbols f \<union> formula_symbols g"
| "formula_symbols (Equivalence f g) = formula_symbols f \<union> formula_symbols g"

section \<open>Finite universes\<close>

datatype attack_profile =
  NecessityAttack | SufficiencyAttack | PrerequisiteAttack | LocalizationAttack
  | GeneralizationAttack | ActualizationAttack

datatype exhaustive_verdict = Sat | Unsat | Unknown

record assignment_value =
  av_symbol :: string
  av_value :: scalar

type_synonym assignment = "assignment_value list"

text \<open>The dict comprehension of \<open>as_environment\<close>: a later entry for a symbol wins.\<close>

definition as_environment :: "assignment \<Rightarrow> environment" where
  "as_environment a n = map_option av_value (index_by av_symbol a n)"

record finite_domain =
  dom_symbol :: string
  dom_values :: "scalar list"

fun is_bool_scalar :: "scalar \<Rightarrow> bool" where
  "is_bool_scalar (SBool b) = True"
| "is_bool_scalar (SStr s) = False"

definition valid_domain :: "finite_domain \<Rightarrow> bool" where
  "valid_domain d \<longleftrightarrow> dom_symbol d \<noteq> [] \<and> dom_values d \<noteq> [] \<and> distinct (dom_values d) \<and>
     (list_all is_bool_scalar (dom_values d) \<or> list_all (\<lambda>v. \<not> is_bool_scalar v) (dom_values d))"

record finite_universe =
  univ_id :: string
  univ_revision :: string
  univ_domains :: "finite_domain list"
  univ_closed_world :: bool

definition valid_universe :: "finite_universe \<Rightarrow> bool" where
  "valid_universe u \<longleftrightarrow> list_all valid_domain (univ_domains u) \<and>
     univ_id u \<noteq> [] \<and> univ_revision u \<noteq> [] \<and> univ_domains u \<noteq> [] \<and>
     canonical (map dom_symbol (univ_domains u))"

definition assignment_count :: "finite_universe \<Rightarrow> nat" where
  "assignment_count u = prod_list (map (length \<circ> dom_values) (univ_domains u))"

fun scalar_json :: "scalar \<Rightarrow> json" where
  "scalar_json (SBool b) = JBool b"
| "scalar_json (SStr s) = JStr s"

definition domain_json :: "finite_domain \<Rightarrow> json" where
  "domain_json d = JObj [(''symbol'', JStr (dom_symbol d)),
     (''values'', JList (map scalar_json (dom_values d)))]"

definition universe_json :: "finite_universe \<Rightarrow> json" where
  "universe_json u = JObj [(''id'', JStr (univ_id u)), (''revision'', JStr (univ_revision u)),
     (''domains'', JList (map domain_json (univ_domains u))),
     (''closed_world'', JBool (univ_closed_world u))]"

definition universe_fingerprint :: "(string \<Rightarrow> digest) \<Rightarrow> finite_universe \<Rightarrow> digest" where
  "universe_fingerprint sha u =
     content_fingerprint sha ''rci.finite-universe.v1'' (universe_json u)"

definition enumerate_assignments :: "finite_universe \<Rightarrow> assignment list" where
  "enumerate_assignments u =
     map (\<lambda>combination. map (\<lambda>(d, v). \<lparr>av_symbol = dom_symbol d, av_value = v\<rparr>)
            (zip (univ_domains u) combination))
       (product_lists (map dom_values (univ_domains u)))"

section \<open>The exhaustive check\<close>

record exhaustive_result =
  ex_verdict :: exhaustive_verdict
  ex_universe_id :: string
  ex_universe_revision :: string
  ex_universe_fingerprint :: digest
  ex_closed_world :: bool
  ex_assignments_checked :: nat
  ex_witness :: "assignment option"
  ex_reason :: "string option"

definition valid_exhaustive_result :: "exhaustive_result \<Rightarrow> bool" where
  "valid_exhaustive_result r \<longleftrightarrow>
     (ex_verdict r = Sat \<longrightarrow> ex_witness r \<noteq> None) \<and>
     (ex_verdict r \<noteq> Sat \<longrightarrow> ex_witness r = None) \<and>
     (ex_verdict r = Unknown \<longrightarrow> ex_reason r \<noteq> None)"

definition hard_unsat_eligible :: "exhaustive_result \<Rightarrow> bool" where
  "hard_unsat_eligible r \<longleftrightarrow> ex_verdict r = Unsat \<and> ex_closed_world r"

definition mk_result ::
  "(string \<Rightarrow> digest) \<Rightarrow> finite_universe \<Rightarrow> exhaustive_verdict \<Rightarrow> nat \<Rightarrow> assignment option \<Rightarrow>
     string option \<Rightarrow> exhaustive_result" where
  "mk_result sha u verdict checked w why =
    \<lparr>ex_verdict = verdict, ex_universe_id = univ_id u, ex_universe_revision = univ_revision u,
     ex_universe_fingerprint = universe_fingerprint sha u, ex_closed_world = univ_closed_world u,
     ex_assignments_checked = checked, ex_witness = w, ex_reason = why\<rparr>"

text \<open>The loop: the number of assignments read so far and the first that satisfies.\<close>

fun search :: "formula \<Rightarrow> nat \<Rightarrow> assignment list \<Rightarrow> (assignment option \<times> nat) result" where
  "search f checked [] = Inr (None, checked)"
| "search f checked (a # as) =
     (case evaluate f (as_environment a) of Inl e \<Rightarrow> Inl e
      | Inr True \<Rightarrow> Inr (Some a, Suc checked)
      | Inr False \<Rightarrow> search f (Suc checked) as)"

definition exhaustive_check ::
  "(string \<Rightarrow> digest) \<Rightarrow> formula \<Rightarrow> finite_universe \<Rightarrow> int \<Rightarrow> exhaustive_result result" where
  "exhaustive_check sha f u max_assignments =
    (if max_assignments < 1 then Inl (ValueError ''max_assignments must be positive'')
     else if int (assignment_count u) > max_assignments
     then Inr (mk_result sha u Unknown 0 None (Some ''assignment_budget_exceeded''))
     else
       let missing = formula_symbols f - set (map dom_symbol (univ_domains u)) in
       if missing \<noteq> {}
       then Inr (mk_result sha u Unknown 0 None
              (Some (''unbound_symbols:'' @ join '','' (sorted_list_of_set missing))))
       else (case search f 0 (enumerate_assignments u) of
           Inl e \<Rightarrow> Inl e
         | Inr (Some a, n) \<Rightarrow> Inr (mk_result sha u Sat n (Some a) None)
         | Inr (None, n) \<Rightarrow> Inr (mk_result sha u Unsat n None None)))"

definition counterexample_shape :: "attack_profile \<Rightarrow> formula \<Rightarrow> formula \<Rightarrow> formula" where
  "counterexample_shape profile condition consequence =
    (if profile \<in> {NecessityAttack, PrerequisiteAttack} then And [consequence, Not condition]
     else if profile \<in> {SufficiencyAttack, GeneralizationAttack, ActualizationAttack}
     then And [condition, Not consequence]
     else And [condition, Not consequence])"

definition implication_attack ::
  "(string \<Rightarrow> digest) \<Rightarrow> attack_profile \<Rightarrow> formula \<Rightarrow> formula \<Rightarrow> finite_universe \<Rightarrow> int \<Rightarrow>
     exhaustive_result result" where
  "implication_attack sha profile condition consequence u max_assignments =
     exhaustive_check sha (counterexample_shape profile condition consequence) u max_assignments"

section \<open>A truth-functional reading\<close>

fun holds :: "formula \<Rightarrow> environment \<Rightarrow> bool" where
  "holds (BoolLiteral b) env = b"
| "holds (Symbol n) env = (env n = Some (SBool True))"
| "holds (EnumEquals s v) env = (env s = Some (SStr v))"
| "holds (Not f) env = (\<not> holds f env)"
| "holds (And fs) env = (\<forall>f \<in> set fs. holds f env)"
| "holds (Or fs) env = (\<exists>f \<in> set fs. holds f env)"
| "holds (Implies f g) env = (holds f env \<longrightarrow> holds g env)"
| "holds (Equivalence f g) env = (holds f env = holds g env)"

text \<open>An environment binds a formula well when each symbol has the type its use asks for.\<close>

fun well_bound :: "formula \<Rightarrow> environment \<Rightarrow> bool" where
  "well_bound (BoolLiteral b) env = True"
| "well_bound (Symbol n) env = (\<exists>b. env n = Some (SBool b))"
| "well_bound (EnumEquals s v) env = (\<exists>x. env s = Some (SStr x))"
| "well_bound (Not f) env = well_bound f env"
| "well_bound (And fs) env = (\<forall>f \<in> set fs. well_bound f env)"
| "well_bound (Or fs) env = (\<forall>f \<in> set fs. well_bound f env)"
| "well_bound (Implies f g) env = (well_bound f env \<and> well_bound g env)"
| "well_bound (Equivalence f g) env = (well_bound f env \<and> well_bound g env)"

lemma evaluate_holds_aux:
  "well_bound f env \<Longrightarrow> evaluate f env = Inr (holds f env)"
  "\<forall>f \<in> set fs. well_bound f env \<Longrightarrow> evaluate_all fs env = Inr (\<forall>f \<in> set fs. holds f env)"
  "\<forall>f \<in> set fs. well_bound f env \<Longrightarrow> evaluate_any fs env = Inr (\<exists>f \<in> set fs. holds f env)"
  by (induction f env and fs env and fs env rule: evaluate_evaluate_all_evaluate_any.induct)
    (auto simp: symbol_value_def enum_value_def split: bool.splits)

lemmas evaluate_holds = evaluate_holds_aux(1)

text \<open>Whenever evaluation returns a value it is the truth-functional one, even where short-circuit
  skips an ill-bound operand.\<close>

lemma evaluate_sound_aux:
  "evaluate f env = Inr b \<Longrightarrow> b = holds f env"
  "evaluate_all fs env = Inr b \<Longrightarrow> b = (\<forall>f \<in> set fs. holds f env)"
  "evaluate_any fs env = Inr b \<Longrightarrow> b = (\<exists>f \<in> set fs. holds f env)"
  by (induction f env and fs env and fs env arbitrary: b and b and b
      rule: evaluate_evaluate_all_evaluate_any.induct)
    (auto simp: symbol_value_def enum_value_def map_sum_Inr_iff
      split: bool.splits sum.splits option.splits scalar.splits)

lemmas evaluate_sound = evaluate_sound_aux(1)

section \<open>The assignments of a universe\<close>

text \<open>The assignments are exactly the choices of one value per domain.\<close>

definition is_assignment :: "finite_universe \<Rightarrow> assignment \<Rightarrow> bool" where
  "is_assignment u a \<longleftrightarrow>
     list_all2 (\<lambda>d x. av_symbol x = dom_symbol d \<and> av_value x \<in> set (dom_values d)) (univ_domains u) a"

lemma set_product_lists:
  "set (product_lists xss) = {xs. list_all2 (\<lambda>x ys. x \<in> set ys) xs xss}"
  by (auto simp: product_lists_set)

lemma enumerate_iff: "a \<in> set (enumerate_assignments u) \<longleftrightarrow> is_assignment u a"
proof -
  let ?mk = "\<lambda>ds vs. map (\<lambda>(d, v). \<lparr>av_symbol = dom_symbol d, av_value = v\<rparr>) (zip ds vs)"
  let ?ok = "\<lambda>d x. av_symbol x = dom_symbol d \<and> av_value x \<in> set (dom_values d)"
  have sound: "list_all2 ?ok ds (?mk ds vs)"
    if "list_all2 (\<lambda>x d. x \<in> set (dom_values d)) vs ds" for ds vs
    using that by (induction vs ds rule: list_all2_induct) auto
  have complete: "list_all2 (\<lambda>x d. x \<in> set (dom_values d)) (map av_value b) ds \<and> b = ?mk ds (map av_value b)"
    if "list_all2 ?ok ds b" for ds b
    using that by (induction ds b rule: list_all2_induct) auto
  show ?thesis
    unfolding enumerate_assignments_def is_assignment_def
    by (auto simp: set_product_lists list_all2_map2 image_iff intro: sound dest: complete)
qed

lemma length_enumerate: "length (enumerate_assignments u) = assignment_count u"
proof -
  have "length (product_lists xss) = prod_list (map length xss)" for xss :: "scalar list list"
    by (induction xss) (simp_all add: length_concat comp_def sum_list_triv)
  then show ?thesis by (simp add: enumerate_assignments_def assignment_count_def)
qed

lemma assignment_symbols:
  "is_assignment u a \<Longrightarrow> map av_symbol a = map dom_symbol (univ_domains u)"
  unfolding is_assignment_def by (induction rule: list_all2_induct) auto

lemma assignment_lookup:
  assumes "is_assignment u a" "distinct (map dom_symbol (univ_domains u))" "d \<in> set (univ_domains u)"
  shows "\<exists>v \<in> set (dom_values d). as_environment a (dom_symbol d) = Some v"
proof -
  obtain i where i: "i < length (univ_domains u)" "d = univ_domains u ! i"
    using assms(3) by (metis in_set_conv_nth)
  have ai: "i < length a" "av_symbol (a ! i) = dom_symbol d" "av_value (a ! i) \<in> set (dom_values d)"
    using assms(1) i by (auto simp: is_assignment_def list_all2_conv_all_nth)
  have dist: "distinct (map av_symbol a)" using assms(1,2) by (simp add: assignment_symbols)
  have "find_by av_symbol (av_symbol (a ! i)) a = Some (a ! i)"
    using dist ai(1) by (intro find_by_distinct) auto
  then have "as_environment a (dom_symbol d) = Some (av_value (a ! i))"
    by (simp add: as_environment_def index_by_distinct [OF dist] ai(2))
  with ai(3) show ?thesis by blast
qed

text \<open>A formula is typed in a universe when each Boolean symbol names a Boolean domain and each
  enum symbol a string domain.\<close>

definition has_domain :: "finite_universe \<Rightarrow> string \<Rightarrow> bool \<Rightarrow> bool" where
  "has_domain u n boolean \<longleftrightarrow> (\<exists>d \<in> set (univ_domains u). dom_symbol d = n \<and>
     list_all (\<lambda>v. is_bool_scalar v = boolean) (dom_values d))"

fun typed_in :: "finite_universe \<Rightarrow> formula \<Rightarrow> bool" where
  "typed_in u (BoolLiteral b) = True"
| "typed_in u (Symbol n) = has_domain u n True"
| "typed_in u (EnumEquals s v) = has_domain u s False"
| "typed_in u (Not f) = typed_in u f"
| "typed_in u (And fs) = list_all (typed_in u) fs"
| "typed_in u (Or fs) = list_all (typed_in u) fs"
| "typed_in u (Implies f g) = (typed_in u f \<and> typed_in u g)"
| "typed_in u (Equivalence f g) = (typed_in u f \<and> typed_in u g)"

lemma has_domain_lookup:
  assumes "has_domain u n boolean" "is_assignment u a" "distinct (map dom_symbol (univ_domains u))"
  shows "\<exists>v. as_environment a n = Some v \<and> is_bool_scalar v = boolean"
  using assms assignment_lookup [OF assms(2,3)] by (fastforce simp: has_domain_def list_all_iff)

lemma is_bool_scalar_iff: "is_bool_scalar v \<longleftrightarrow> (\<exists>b. v = SBool b)"
  "\<not> is_bool_scalar v \<longleftrightarrow> (\<exists>x. v = SStr x)"
  by (cases v; simp)+

lemma typed_well_bound:
  assumes "is_assignment u a" "distinct (map dom_symbol (univ_domains u))"
  shows "typed_in u f \<Longrightarrow> well_bound f (as_environment a)"
proof (induction f)
  case (Symbol n)
  then obtain v where "as_environment a n = Some v" "is_bool_scalar v"
    using has_domain_lookup [OF _ assms, of n True] by auto
  then show ?case by (simp add: is_bool_scalar_iff)
next
  case (EnumEquals n v)
  then obtain w where "as_environment a n = Some w" "\<not> is_bool_scalar w"
    using has_domain_lookup [OF _ assms, of n False] by auto
  then show ?case by (cases w) simp_all
qed (auto simp: list_all_iff)

lemma typed_symbols: "typed_in u f \<Longrightarrow> formula_symbols f \<subseteq> set (map dom_symbol (univ_domains u))"
  by (induction f) (auto simp: has_domain_def list_all_iff)

lemma valid_universe_distinct: "valid_universe u \<Longrightarrow> distinct (map dom_symbol (univ_domains u))"
  by (simp add: valid_universe_def canonical_def)

section \<open>What the loop returns\<close>

lemma search_Some:
  "search f n as = Inr (Some a, m) \<Longrightarrow>
     a \<in> set as \<and> evaluate f (as_environment a) = Inr True \<and> n < m \<and> m \<le> n + length as"
  by (induction as arbitrary: n) (fastforce split: sum.splits bool.splits)+

lemma search_None:
  "search f n as = Inr (None, m) \<Longrightarrow>
     m = n + length as \<and> (\<forall>a \<in> set as. evaluate f (as_environment a) = Inr False)"
  by (induction as arbitrary: n) (fastforce split: sum.splits bool.splits)+

lemma search_total:
  assumes "\<forall>a \<in> set as. well_bound f (as_environment a)"
  shows "\<exists>r. search f n as = Inr r"
  using assms by (induction as arbitrary: n) (auto simp: evaluate_holds split: bool.splits)

lemma mk_result_sel [simp]:
  "ex_verdict (mk_result sha u v n w y) = v" "ex_witness (mk_result sha u v n w y) = w"
  "ex_assignments_checked (mk_result sha u v n w y) = n" "ex_reason (mk_result sha u v n w y) = y"
  "ex_closed_world (mk_result sha u v n w y) = univ_closed_world u"
  by (simp_all add: mk_result_def)

lemma exhaustive_check_cases:
  assumes "exhaustive_check sha f u k = Inr r"
  shows "(ex_verdict r = Unknown \<and> ex_witness r = None \<and> ex_reason r \<noteq> None \<and> ex_assignments_checked r = 0)
    \<or> (\<exists>a n. ex_verdict r = Sat \<and> ex_witness r = Some a \<and> ex_assignments_checked r = n \<and>
         search f 0 (enumerate_assignments u) = Inr (Some a, n) \<and> int (assignment_count u) \<le> k)
    \<or> (\<exists>n. ex_verdict r = Unsat \<and> ex_witness r = None \<and> ex_assignments_checked r = n \<and>
         search f 0 (enumerate_assignments u) = Inr (None, n) \<and> int (assignment_count u) \<le> k)"
  using assms unfolding exhaustive_check_def Let_def
  by (auto split: if_splits sum.splits option.splits)

lemma exhaustive_check_complete:
  assumes "valid_universe u" "typed_in u f" "1 \<le> k" "int (assignment_count u) \<le> k"
  shows "\<exists>r. exhaustive_check sha f u k = Inr r \<and> valid_exhaustive_result r \<and>
    (if \<exists>a. is_assignment u a \<and> holds f (as_environment a)
     then ex_verdict r = Sat \<and>
       (\<exists>a. ex_witness r = Some a \<and> is_assignment u a \<and> holds f (as_environment a))
     else ex_verdict r = Unsat \<and> ex_assignments_checked r = assignment_count u)"
proof -
  have wb: "\<forall>a \<in> set (enumerate_assignments u). well_bound f (as_environment a)"
    using assms by (simp add: enumerate_iff typed_well_bound valid_universe_distinct)
  obtain w n where s: "search f 0 (enumerate_assignments u) = Inr (w, n)"
    using search_total [OF wb, of 0] by auto
  have "formula_symbols f - set (map dom_symbol (univ_domains u)) = {}"
    using typed_symbols [OF assms(2)] by blast
  then have check: "exhaustive_check sha f u k = (case w of
      Some a \<Rightarrow> Inr (mk_result sha u Sat n (Some a) None) | None \<Rightarrow> Inr (mk_result sha u Unsat n None None))"
    using assms(3,4) s by (simp add: exhaustive_check_def Let_def split: option.splits)
  show ?thesis
  proof (cases w)
    case None
    with s have all: "n = assignment_count u"
      "\<forall>a. is_assignment u a \<longrightarrow> evaluate f (as_environment a) = Inr False"
      using search_None [of f 0 "enumerate_assignments u" n] by (auto simp: enumerate_iff length_enumerate)
    then have "\<not> (\<exists>a. is_assignment u a \<and> holds f (as_environment a))"
      using evaluate_sound by blast
    with check None all(1) show ?thesis by (auto simp: valid_exhaustive_result_def)
  next
    case (Some a)
    with s have "is_assignment u a" "holds f (as_environment a)"
      using search_Some [of f 0 "enumerate_assignments u" a n] evaluate_sound
      by (auto simp: enumerate_iff)
    with check Some show ?thesis by (auto simp: valid_exhaustive_result_def)
  qed
qed

section \<open>Properties\<close>

text \<open>C21: the exhaustive check is a decision procedure. On a valid universe within the budget, for
  a formula typed in it, it returns a result: SAT with a witness assignment of the universe that
  satisfies the formula if there is one, and otherwise UNSAT after reading every assignment.\<close>

theorem exhaustive_check_decides:
  assumes "valid_universe u" "typed_in u f" "1 \<le> k" "int (assignment_count u) \<le> k"
  shows "\<exists>r. exhaustive_check sha f u k = Inr r \<and> valid_exhaustive_result r \<and>
    (if \<exists>a. is_assignment u a \<and> holds f (as_environment a)
     then ex_verdict r = Sat \<and>
       (\<exists>a. ex_witness r = Some a \<and> is_assignment u a \<and> holds f (as_environment a))
     else ex_verdict r = Unsat \<and> ex_assignments_checked r = assignment_count u)"
  using assms by (rule exhaustive_check_complete)

definition demo_universe :: finite_universe where
  "demo_universe = \<lparr>univ_id = ''u'', univ_revision = ''1'',
     univ_domains = [\<lparr>dom_symbol = ''m'', dom_values = [SStr ''safe'', SStr ''off'']\<rparr>,
                     \<lparr>dom_symbol = ''p'', dom_values = [SBool False, SBool True]\<rparr>],
     univ_closed_world = True\<rparr>"

lemma demo_universe_valid: "valid_universe demo_universe"
  by (simp add: valid_universe_def demo_universe_def valid_domain_def canonical_def)

theorem exhaustive_check_decides_witness:
  "\<exists>r. exhaustive_check (\<lambda>x. x) (And [Symbol ''p'', EnumEquals ''m'' ''off'']) demo_universe 4 = Inr r \<and>
     valid_exhaustive_result r"
  using exhaustive_check_decides [OF demo_universe_valid,
      of "And [Symbol ''p'', EnumEquals ''m'' ''off'']" 4 "\<lambda>x. x"]
  by (auto simp: demo_universe_def has_domain_def assignment_count_def)

text \<open>C26: type soundness of the formula language. On a valid universe, a formula that is typed in it uses only
  symbols of the universe, and on every assignment the enumeration yields its evaluation returns, without an
  error, the truth-functional value of the formula; short-circuiting does not change the result.\<close>

theorem typed_formula_evaluates:
  assumes "valid_universe u" "typed_in u f" "a \<in> set (enumerate_assignments u)"
  shows "evaluate f (as_environment a) = Inr (holds f (as_environment a)) \<and>
    formula_symbols f \<subseteq> set (map av_symbol a)"
proof -
  have a: "is_assignment u a" using assms(3) by (simp add: enumerate_iff)
  have "well_bound f (as_environment a)"
    by (rule typed_well_bound [OF a valid_universe_distinct [OF assms(1)] assms(2)])
  then show ?thesis
    using evaluate_holds typed_symbols [OF assms(2)] assignment_symbols [OF a] by simp
qed

theorem typed_formula_evaluates_witness:
  "evaluate (And [Symbol ''p'', Or [Not (Symbol ''p''), EnumEquals ''m'' ''safe'']])
     (as_environment [\<lparr>av_symbol = ''m'', av_value = SStr ''safe''\<rparr>, \<lparr>av_symbol = ''p'', av_value = SBool True\<rparr>]) = Inr True"
proof -
  let ?f = "And [Symbol ''p'', Or [Not (Symbol ''p''), EnumEquals ''m'' ''safe'']]"
  let ?a = "[\<lparr>av_symbol = ''m'', av_value = SStr ''safe''\<rparr>, \<lparr>av_symbol = ''p'', av_value = SBool True\<rparr>]"
  have "typed_in demo_universe ?f" by (simp add: demo_universe_def has_domain_def)
  moreover have "?a \<in> set (enumerate_assignments demo_universe)"
    by (simp add: enumerate_iff is_assignment_def demo_universe_def)
  ultimately have "evaluate ?f (as_environment ?a) = Inr (holds ?f (as_environment ?a))"
    using typed_formula_evaluates [OF demo_universe_valid] by blast
  moreover have "holds ?f (as_environment ?a) = True" by (simp add: as_environment_def index_by_def)
  ultimately show ?thesis by (simp only:)
qed

text \<open>no answer of the exhaustive check overclaims, whatever the formula and the universe: a
  SAT answer carries an assignment of the universe that makes the formula true, an UNSAT answer
  means that every assignment of the universe makes it false and that all of them were read, and
  never more assignments than the budget are read.\<close>

theorem exhaustive_check_sound:
  assumes "exhaustive_check sha f u k = Inr r"
  shows "valid_exhaustive_result r \<and>
    (ex_verdict r = Sat \<longrightarrow>
      (\<exists>a. ex_witness r = Some a \<and> is_assignment u a \<and> holds f (as_environment a))) \<and>
    (ex_verdict r = Unsat \<longrightarrow> ex_assignments_checked r = assignment_count u \<and>
      (\<forall>a. is_assignment u a \<longrightarrow> \<not> holds f (as_environment a))) \<and>
    int (ex_assignments_checked r) \<le> max 0 k"
  using exhaustive_check_cases [OF assms]
proof (elim disjE exE conjE)
  fix a n
  assume v: "ex_verdict r = Sat" "ex_witness r = Some a" "ex_assignments_checked r = n"
    "int (assignment_count u) \<le> k" and s: "search f 0 (enumerate_assignments u) = Inr (Some a, n)"
  from search_Some [OF s] have "is_assignment u a" "holds f (as_environment a)" "n \<le> assignment_count u"
    using evaluate_sound by (auto simp: enumerate_iff length_enumerate)
  with v show ?thesis by (auto simp: valid_exhaustive_result_def)
next
  fix n
  assume v: "ex_verdict r = Unsat" "ex_witness r = None" "ex_assignments_checked r = n"
    "int (assignment_count u) \<le> k" and s: "search f 0 (enumerate_assignments u) = Inr (None, n)"
  from search_None [OF s] have "n = assignment_count u"
    "\<forall>a. is_assignment u a \<longrightarrow> \<not> holds f (as_environment a)"
    using evaluate_sound by (fastforce simp: enumerate_iff length_enumerate)+
  with v show ?thesis by (auto simp: valid_exhaustive_result_def)
qed (auto simp: valid_exhaustive_result_def)

theorem exhaustive_check_sound_witness:
  "\<exists>r. exhaustive_check (\<lambda>x. x) (And [Symbol ''p'', Not (Symbol ''p'')]) demo_universe 9 = Inr r \<and>
     ex_verdict r = Unsat \<and> ex_assignments_checked r = 4"
proof -
  have e: "exhaustive_check (\<lambda>x. x) (And [Symbol ''p'', Not (Symbol ''p'')]) demo_universe 9 =
      Inr (mk_result (\<lambda>x. x) demo_universe Unsat 4 None None)"
    by code_simp
  have "ex_assignments_checked (mk_result (\<lambda>x. x) demo_universe Unsat 4 None None)
      = assignment_count demo_universe"
    using exhaustive_check_sound [OF e] by simp
  with e show ?thesis by simp
qed

text \<open>C22: an implication attack refutes exactly the implication its profile names. For the
  necessity and prerequisite profiles an UNSAT answer means that every assignment with the
  protected consequence has the proposed condition; for every other profile that every assignment
  with the condition has the consequence. Otherwise the answer is SAT with a counterexample.\<close>

theorem implication_attack_exact:
  assumes "valid_universe u" "typed_in u condition" "typed_in u consequence"
    and "1 \<le> k" "int (assignment_count u) \<le> k"
  shows "\<exists>r. implication_attack sha profile condition consequence u k = Inr r \<and>
    ex_verdict r \<in> {Sat, Unsat} \<and>
    (ex_verdict r = Unsat \<longleftrightarrow> (\<forall>a. is_assignment u a \<longrightarrow>
       (if profile \<in> {NecessityAttack, PrerequisiteAttack}
        then holds consequence (as_environment a) \<longrightarrow> holds condition (as_environment a)
        else holds condition (as_environment a) \<longrightarrow> holds consequence (as_environment a))))"
proof -
  let ?f = "counterexample_shape profile condition consequence"
  have t: "typed_in u ?f" using assms(2,3) by (simp add: counterexample_shape_def)
  have h: "holds ?f env \<longleftrightarrow> \<not> (if profile \<in> {NecessityAttack, PrerequisiteAttack}
        then holds consequence env \<longrightarrow> holds condition env
        else holds condition env \<longrightarrow> holds consequence env)" for env
    by (auto simp: counterexample_shape_def)
  let ?sat = "\<exists>a. is_assignment u a \<and> holds ?f (as_environment a)"
  obtain r where r: "exhaustive_check sha ?f u k = Inr r"
    and v: "if ?sat then ex_verdict r = Sat \<and> (\<exists>a. ex_witness r = Some a \<and> is_assignment u a \<and>
        holds ?f (as_environment a))
      else ex_verdict r = Unsat \<and> ex_assignments_checked r = assignment_count u"
    using exhaustive_check_complete [OF assms(1) t assms(4,5), of sha] by blast
  show ?thesis
    unfolding implication_attack_def
  proof (intro exI [of _ r] conjI)
    show "ex_verdict r \<in> {Sat, Unsat}" using v by (simp split: if_splits)
    have "ex_verdict r = Unsat \<longleftrightarrow> (\<forall>a. is_assignment u a \<longrightarrow> \<not> holds ?f (as_environment a))"
      using v by (auto split: if_splits)
    then show "ex_verdict r = Unsat \<longleftrightarrow> (\<forall>a. is_assignment u a \<longrightarrow>
       (if profile \<in> {NecessityAttack, PrerequisiteAttack}
        then holds consequence (as_environment a) \<longrightarrow> holds condition (as_environment a)
        else holds condition (as_environment a) \<longrightarrow> holds consequence (as_environment a)))"
      by (simp only: h not_not)
  qed (rule r)
qed

theorem implication_attack_exact_witness:
  "\<exists>r. implication_attack (\<lambda>x. x) NecessityAttack (Symbol ''p'') (EnumEquals ''m'' ''off'') demo_universe 4
     = Inr r \<and> ex_verdict r \<in> {Sat, Unsat}"
  using implication_attack_exact [OF demo_universe_valid, of "Symbol ''p''" "EnumEquals ''m'' ''off''" 4
      "\<lambda>x. x" NecessityAttack]
  by (auto simp: demo_universe_def has_domain_def assignment_count_def)

end
