(* ===== verification/Rci_Model.thy ===== *)
theory Rci_Model
  imports Rci_Json
begin

text \<open>
  The shared immutable value objects of \<open>core/model.py\<close>: constrained strings, UTC timestamps,
  artifact references, captured payloads and the inquiry context, each with its validator. A
  timestamp is an instant (microseconds) with an optional UTC offset, so that the rejection of
  naive and non-UTC values stays visible. \<open>construct\<close> is the constructor of a validated
  record: it returns the record or the validation failure.
\<close>

definition construct :: "('a \<Rightarrow> bool) \<Rightarrow> string \<Rightarrow> 'a \<Rightarrow> 'a result" where
  "construct valid name x = (if valid x then Inr x else Inl (ValidationError name))"

lemma construct_Inr_iff: "construct valid name x = Inr y \<longleftrightarrow> valid x \<and> y = x"
  by (auto simp: construct_def)

section \<open>Constrained strings\<close>

definition alnum :: "char \<Rightarrow> bool" where
  "alnum c \<longleftrightarrow> (let n = (of_char c :: nat) in
     (48 \<le> n \<and> n \<le> 57) \<or> (65 \<le> n \<and> n \<le> 90) \<or> (97 \<le> n \<and> n \<le> 122))"

definition valid_identifier :: "string \<Rightarrow> bool" where
  "valid_identifier s \<longleftrightarrow> s \<noteq> [] \<and> length s \<le> 240 \<and> alnum (hd s) \<and>
     list_all (\<lambda>c. alnum c \<or> c \<in> set ''._:/-'') s"

definition valid_sha256 :: "string \<Rightarrow> bool" where
  "valid_sha256 s \<longleftrightarrow> length s = 64 \<and> list_all (\<lambda>c. c \<in> set ''0123456789abcdef'') s"

text \<open>The number of code points of a UTF-8 text: its bytes that are not continuation bytes.\<close>

definition code_points :: "string \<Rightarrow> nat" where
  "code_points s = length (filter (\<lambda>c. \<not> (128 \<le> (of_char c :: nat) \<and> (of_char c :: nat) < 192)) s)"

definition valid_text :: "string \<Rightarrow> bool" where
  "valid_text s \<longleftrightarrow> 1 \<le> code_points s \<and> code_points s \<le> 4096"

section \<open>Timestamps\<close>

record datetime =
  instant :: int
  utc_offset :: "int option"

definition require_utc :: "datetime \<Rightarrow> datetime result" where
  "require_utc v = (if utc_offset v \<noteq> Some 0
     then Inl (ValueError ''timestamps must be timezone-aware UTC values'') else Inr v)"

section \<open>Artifacts and captured payloads\<close>

record artifact_ref =
  art_algorithm :: string
  art_digest :: digest
  art_size :: int
  art_media_type :: "string option"
  art_encoding :: "string option"

definition valid_artifact_ref :: "artifact_ref \<Rightarrow> bool" where
  "valid_artifact_ref a \<longleftrightarrow> art_algorithm a = ''sha256'' \<and> valid_sha256 (art_digest a) \<and>
     0 \<le> art_size a \<and> pred_option valid_text (art_media_type a) \<and>
     pred_option valid_text (art_encoding a)"

definition artifact_json :: "artifact_ref \<Rightarrow> json" where
  "artifact_json a = JObj
    [(''algorithm'', JStr (art_algorithm a)), (''digest'', JStr (art_digest a)),
     (''size'', JInt (art_size a)), (''media_type'', opt_str (art_media_type a)),
     (''encoding'', opt_str (art_encoding a))]"

datatype payload_kind = PayloadBytes | PayloadNull

record captured_payload =
  cap_kind :: payload_kind
  cap_artifact :: "artifact_ref option"

definition valid_captured_payload :: "captured_payload \<Rightarrow> bool" where
  "valid_captured_payload p \<longleftrightarrow> (cap_kind p = PayloadBytes) = (cap_artifact p \<noteq> None) \<and>
     pred_option valid_artifact_ref (cap_artifact p)"

section \<open>The inquiry context\<close>

record inquiry_context =
  ctx_binding_revision :: ident
  ctx_carrier_schema_ids :: "ident list"
  ctx_relation_schema_ids :: "ident list"
  ctx_consequence_profile_id :: ident
  ctx_protected_horizon_id :: ident
  ctx_admissible_operation_ids :: "ident list"
  ctx_discharge_mechanism_ids :: "ident list"
  ctx_scope_id :: ident
  ctx_scope_fingerprint :: digest
  ctx_assumption_ids :: "ident list"
  ctx_guard_condition_id :: "ident option"
  ctx_guard_ast :: "artifact_ref option"
  ctx_finite_universe_hash :: "digest option"
  ctx_closed_world :: bool
  ctx_catalog_manifest_digest :: digest
  ctx_scheduler_policy_version :: ident
  ctx_warrant_policy_version :: ident
  ctx_provenance_refs :: "ident list"

definition valid_context :: "inquiry_context \<Rightarrow> bool" where
  "valid_context c \<longleftrightarrow>
     list_all valid_identifier
       ([ctx_binding_revision c, ctx_consequence_profile_id c, ctx_protected_horizon_id c,
         ctx_scope_id c, ctx_scheduler_policy_version c, ctx_warrant_policy_version c]
        @ ctx_carrier_schema_ids c @ ctx_relation_schema_ids c @ ctx_admissible_operation_ids c
        @ ctx_discharge_mechanism_ids c @ ctx_assumption_ids c @ ctx_provenance_refs c) \<and>
     pred_option valid_identifier (ctx_guard_condition_id c) \<and>
     list_all valid_sha256 [ctx_scope_fingerprint c, ctx_catalog_manifest_digest c] \<and>
     pred_option valid_sha256 (ctx_finite_universe_hash c) \<and>
     pred_option valid_artifact_ref (ctx_guard_ast c) \<and>
     ctx_carrier_schema_ids c \<noteq> [] \<and> ctx_relation_schema_ids c \<noteq> [] \<and>
     ctx_provenance_refs c \<noteq> [] \<and>
     list_all distinct
       [ctx_carrier_schema_ids c, ctx_relation_schema_ids c, ctx_admissible_operation_ids c,
        ctx_discharge_mechanism_ids c, ctx_assumption_ids c, ctx_provenance_refs c] \<and>
     (ctx_closed_world c \<longrightarrow> ctx_finite_universe_hash c \<noteq> None) \<and>
     (ctx_guard_condition_id c = None) = (ctx_guard_ast c = None)"

declare valid_identifier_def [valid_defs] alnum_def [valid_defs] valid_text_def [valid_defs] code_points_def [valid_defs]
  require_utc_def [valid_defs] valid_artifact_ref_def [valid_defs] valid_context_def [valid_defs]

end
