(* ===== verification/Rci_Claims.thy ===== *)
theory Rci_Claims
  imports Rci_Model
begin

text \<open>
  The inquiry claims of \<open>claims/models.py\<close> and \<open>claims/logic.py\<close>: scopes, claims,
  conflicts, obligations and their append-only companions, each with its validator; the structural
  key and the fingerprints; the constructors that derive conflicts and obligations from claims.
  Shown here: which claims raise a mandatory attack, that the attack depends on the proposition
  and not on the claim that names it, that structural conflict is symmetric as long as the digest
  does not confuse the two scopes, and what an obligation fingerprint identifies.
\<close>

section \<open>Enumerations\<close>

datatype claim_role =
    Observation | Characterization | Variation | Boundary | Factor | Necessity | Sufficiency
  | Prerequisite | ConflictRole | ResidualRole | Localization | Generalization | Actualization
  | Invariant | Pattern | Interpretation | UnknownRole

fun claim_role_value :: "claim_role \<Rightarrow> string" where
  "claim_role_value Observation = ''observation''"
| "claim_role_value Characterization = ''characterization''"
| "claim_role_value Variation = ''variation''"
| "claim_role_value Boundary = ''boundary''"
| "claim_role_value Factor = ''factor''"
| "claim_role_value Necessity = ''necessity''"
| "claim_role_value Sufficiency = ''sufficiency''"
| "claim_role_value Prerequisite = ''prerequisite''"
| "claim_role_value ConflictRole = ''conflict''"
| "claim_role_value ResidualRole = ''residual''"
| "claim_role_value Localization = ''localization''"
| "claim_role_value Generalization = ''generalization''"
| "claim_role_value Actualization = ''actualization''"
| "claim_role_value Invariant = ''invariant''"
| "claim_role_value Pattern = ''pattern''"
| "claim_role_value Interpretation = ''interpretation''"
| "claim_role_value UnknownRole = ''unknown''"

datatype claim_status = Provisional | Suspended | Superseded

datatype claim_assessment = Unassessed | Supported | Contested | Refuted | AssessmentUnknown

datatype representation_level = L0Opaque | L1Structured | L2Formal | L3PromotedView

datatype polarity = Positive | Negative | Unspecified

datatype conflict_kind = StructuralPolarity | CandidateSemantic

datatype obligation_kind =
    Characterize | SameClassVariation | MinimalBoundaryCrossing | ProposeFactor
  | NecessityCounterexample | SufficiencyCounterexample | PrerequisiteBypass | LocalizeConflict
  | CharacterizeResidual | DischargeOpenDependency | ClarifyReification
  | DiscriminateReconstruction | SeparateConsequenceClasses

fun obligation_kind_value :: "obligation_kind \<Rightarrow> string" where
  "obligation_kind_value Characterize = ''characterize''"
| "obligation_kind_value SameClassVariation = ''same_class_variation''"
| "obligation_kind_value MinimalBoundaryCrossing = ''minimal_boundary_crossing''"
| "obligation_kind_value ProposeFactor = ''propose_factor''"
| "obligation_kind_value NecessityCounterexample = ''necessity_counterexample''"
| "obligation_kind_value SufficiencyCounterexample = ''sufficiency_counterexample''"
| "obligation_kind_value PrerequisiteBypass = ''prerequisite_bypass''"
| "obligation_kind_value LocalizeConflict = ''localize_conflict''"
| "obligation_kind_value CharacterizeResidual = ''characterize_residual''"
| "obligation_kind_value DischargeOpenDependency = ''discharge_open_dependency''"
| "obligation_kind_value ClarifyReification = ''clarify_reification''"
| "obligation_kind_value DiscriminateReconstruction = ''discriminate_reconstruction''"
| "obligation_kind_value SeparateConsequenceClasses = ''separate_consequence_classes''"

lemma obligation_kind_value_inj: "obligation_kind_value a = obligation_kind_value b \<Longrightarrow> a = b"
  by (cases a; cases b) simp_all

datatype obligation_status = Open | Blocked | Satisfied | Impossible | StatusUnknown

datatype candidate_kind = QuestionAnswer | Formalization | ReconstructionCandidate | GeneratedProbe

datatype correction_kind =
  Supersedes | SplitsFrom | MergesFrom | Rebinds | Refutes | Suspends | Promotes | Reopens

datatype guard_standing = GuardStanding | GuardInvalidated

section \<open>Payloads and arguments\<close>

datatype inert_payload = PayloadArtifact artifact_ref | PayloadJson json

text \<open>\<open>freeze_json\<close> rejects numbers that are not finite; the frozen containers hold the same
  values.\<close>

fun freeze_json :: "json \<Rightarrow> json result" and freeze_list :: "json list \<Rightarrow> json list result"
  and freeze_items :: "(string \<times> json) list \<Rightarrow> (string \<times> json) list result" where
  "freeze_json (JFloat s) = (if s \<in> {''nan'', ''inf'', ''-inf''}
     then Inl (ValueError ''JSON payload numbers must be finite'') else Inr (JFloat s))"
| "freeze_json (JList js) = map_sum id JList (freeze_list js)"
| "freeze_json (JObj kvs) = map_sum id JObj (freeze_items kvs)"
| "freeze_json j = Inr j"
| "freeze_list [] = Inr []"
| "freeze_list (j # js) = (case freeze_json j of Inl e \<Rightarrow> Inl e
     | Inr j' \<Rightarrow> map_sum id ((#) j') (freeze_list js))"
| "freeze_items [] = Inr []"
| "freeze_items (p # kvs) = (case freeze_json (snd p) of Inl e \<Rightarrow> Inl e
     | Inr j' \<Rightarrow> map_sum id ((#) (fst p, j')) (freeze_items kvs))"

fun payload_json :: "inert_payload \<Rightarrow> json" where
  "payload_json (PayloadArtifact a) = artifact_json a"
| "payload_json (PayloadJson j) = j"

fun valid_payload :: "inert_payload \<Rightarrow> bool" where
  "valid_payload (PayloadArtifact a) = valid_artifact_ref a"
| "valid_payload (PayloadJson j) = (wf_json j \<and> is_ok (freeze_json j))"

record bound_argument =
  arg_name :: string
  arg_value :: json

definition valid_bound_argument :: "bound_argument \<Rightarrow> bool" where
  "valid_bound_argument a \<longleftrightarrow> arg_name a \<noteq> [] \<and> wf_json (arg_value a) \<and>
     is_ok (freeze_json (arg_value a))"

definition arg_json :: "bound_argument \<Rightarrow> json" where
  "arg_json a = JObj [(''name'', JStr (arg_name a)), (''value'', arg_value a)]"

section \<open>Scopes and provenance\<close>

record scope =
  scope_id :: string
  scope_binding_revision :: string
  scope_assumption_ids :: "string list"
  scope_applicability_guard_id :: "string option"
  scope_finite_universe_hash :: "string option"
  scope_closed_world :: bool

definition valid_scope :: "scope \<Rightarrow> bool" where
  "valid_scope s \<longleftrightarrow> scope_id s \<noteq> [] \<and> scope_binding_revision s \<noteq> [] \<and>
     distinct (scope_assumption_ids s) \<and>
     (scope_closed_world s \<longrightarrow> scope_finite_universe_hash s \<noteq> None)"

definition scope_json :: "scope \<Rightarrow> json" where
  "scope_json s = JObj
    [(''id'', JStr (scope_id s)), (''binding_revision'', JStr (scope_binding_revision s)),
     (''assumption_ids'', str_list (scope_assumption_ids s)),
     (''applicability_guard_id'', opt_str (scope_applicability_guard_id s)),
     (''finite_universe_hash'', opt_str (scope_finite_universe_hash s)),
     (''closed_world'', JBool (scope_closed_world s))]"

definition scope_fingerprint :: "(string \<Rightarrow> digest) \<Rightarrow> scope \<Rightarrow> digest" where
  "scope_fingerprint sha s = content_fingerprint sha ''rci.scope.v1'' (scope_json s)"

record provenance =
  prov_kind :: string
  prov_source_id :: string
  prov_source_revision :: "string option"

definition valid_provenance :: "provenance \<Rightarrow> bool" where
  "valid_provenance p \<longleftrightarrow> prov_kind p \<noteq> [] \<and> prov_source_id p \<noteq> []"

definition provenance_json :: "provenance \<Rightarrow> json" where
  "provenance_json p = JObj [(''kind'', JStr (prov_kind p)), (''source_id'', JStr (prov_source_id p)),
     (''source_revision'', opt_str (prov_source_revision p))]"

section \<open>Claims and conflicts\<close>

record claim =
  claim_id :: string
  claim_role_of :: claim_role
  claim_bound_args :: "bound_argument list"
  claim_payload :: inert_payload
  claim_scope :: scope
  claim_provenance :: provenance
  claim_status_of :: claim_status
  claim_assessment_of :: claim_assessment
  claim_representation_level :: representation_level
  claim_parent_ids :: "string list"
  claim_proposition_id :: "string option"
  claim_polarity :: polarity

definition valid_claim :: "claim \<Rightarrow> bool" where
  "valid_claim c \<longleftrightarrow> list_all valid_bound_argument (claim_bound_args c) \<and>
     valid_payload (claim_payload c) \<and> valid_scope (claim_scope c) \<and>
     valid_provenance (claim_provenance c) \<and>
     claim_id c \<noteq> [] \<and> distinct (map arg_name (claim_bound_args c)) \<and>
     distinct (claim_parent_ids c) \<and> claim_representation_level c \<noteq> L3PromotedView"

definition structural_key ::
  "(string \<Rightarrow> digest) \<Rightarrow> claim \<Rightarrow> (string \<times> claim_role \<times> string \<times> digest) option" where
  "structural_key sha c =
    (case claim_proposition_id c of None \<Rightarrow> None
     | Some p \<Rightarrow> if claim_polarity c = Unspecified then None
         else Some (p, claim_role_of c,
           canonical_json (JList (map arg_json (claim_bound_args c))),
           scope_fingerprint sha (claim_scope c)))"

record conflict =
  conflict_id :: string
  conflict_claim_ids :: "string \<times> string"
  conflict_kind_of :: conflict_kind
  conflict_scope :: scope
  conflict_proposition_id :: "string option"

definition valid_conflict :: "conflict \<Rightarrow> bool" where
  "valid_conflict c \<longleftrightarrow> valid_scope (conflict_scope c) \<and>
     (case conflict_claim_ids c of (a, b) \<Rightarrow> a \<noteq> b \<and> sort [a, b] = [a, b])"

section \<open>Obligations\<close>

record obligation =
  obl_id :: string
  obl_kind :: obligation_kind
  obl_carrier_id :: string
  obl_args :: "bound_argument list"
  obl_scope :: scope
  obl_binding_revision :: string
  obl_parent_obligation_ids :: "string list"
  obl_priority_vector :: "int list"
  obl_status :: obligation_status

definition valid_obligation :: "obligation \<Rightarrow> bool" where
  "valid_obligation o' \<longleftrightarrow> list_all valid_bound_argument (obl_args o') \<and> valid_scope (obl_scope o') \<and>
     obl_id o' \<noteq> [] \<and> obl_carrier_id o' \<noteq> [] \<and>
     obl_binding_revision o' = scope_binding_revision (obl_scope o') \<and>
     distinct (map arg_name (obl_args o')) \<and> distinct (obl_parent_obligation_ids o')"

text \<open>The arguments as the fingerprint reads them: sorted by name, then by the canonical text of
  the value.\<close>

definition normalized_args :: "bound_argument list \<Rightarrow> json list" where
  "normalized_args args =
     map arg_json (sort_key (\<lambda>a. (arg_name a, canonical_json (arg_value a))) args)"

definition obligation_key_json :: "(string \<Rightarrow> digest) \<Rightarrow> obligation \<Rightarrow> json" where
  "obligation_key_json sha o' = JObj
    [(''kind'', JStr (obligation_kind_value (obl_kind o'))),
     (''args'', JList (normalized_args (obl_args o'))),
     (''scope'', JStr (scope_fingerprint sha (obl_scope o'))),
     (''binding_revision'', JStr (obl_binding_revision o'))]"

definition obligation_fingerprint :: "(string \<Rightarrow> digest) \<Rightarrow> obligation \<Rightarrow> digest" where
  "obligation_fingerprint sha o' =
     content_fingerprint sha ''rci.obligation.v1'' (obligation_key_json sha o')"

section \<open>Candidates, residuals, corrections and histories\<close>

record candidate =
  cand_id :: string
  cand_kind :: candidate_kind
  cand_payload :: inert_payload
  cand_scope :: scope
  cand_provenance :: provenance
  cand_source_ids :: "string list"

definition valid_candidate :: "candidate \<Rightarrow> bool" where
  "valid_candidate c \<longleftrightarrow> valid_payload (cand_payload c) \<and> valid_scope (cand_scope c) \<and>
     valid_provenance (cand_provenance c) \<and> cand_id c \<noteq> [] \<and> distinct (cand_source_ids c)"

record residual =
  resid_id :: string
  resid_carrier_id :: string
  resid_payload :: inert_payload
  resid_scope :: scope
  resid_provenance :: provenance
  resid_source_obligation_ids :: "string list"

definition valid_residual :: "residual \<Rightarrow> bool" where
  "valid_residual r \<longleftrightarrow> valid_payload (resid_payload r) \<and> valid_scope (resid_scope r) \<and>
     valid_provenance (resid_provenance r) \<and> resid_id r \<noteq> [] \<and> resid_carrier_id r \<noteq> [] \<and>
     distinct (resid_source_obligation_ids r)"

record correction =
  corr_id :: string
  corr_kind :: correction_kind
  corr_target_id :: string
  corr_related_ids :: "string list"
  corr_scope :: scope
  corr_provenance :: provenance

definition valid_correction :: "correction \<Rightarrow> bool" where
  "valid_correction c \<longleftrightarrow> valid_scope (corr_scope c) \<and> valid_provenance (corr_provenance c) \<and>
     corr_id c \<noteq> [] \<and> corr_target_id c \<noteq> [] \<and> distinct (corr_related_ids c) \<and>
     corr_target_id c \<notin> set (corr_related_ids c)"

record obligation_disposition =
  disp_id :: string
  disp_obligation_id :: string
  disp_status :: obligation_status
  disp_reason :: string
  disp_evidence_refs :: "string list"
  disp_predecessor_id :: "string option"

definition valid_disposition :: "obligation_disposition \<Rightarrow> bool" where
  "valid_disposition d \<longleftrightarrow> disp_id d \<noteq> [] \<and> disp_obligation_id d \<noteq> [] \<and> disp_reason d \<noteq> [] \<and>
     distinct (disp_evidence_refs d) \<and> disp_predecessor_id d \<noteq> Some (disp_id d)"

record guard_change =
  guard_id :: string
  guard_condition_id :: string
  guard_scope_fingerprint :: string
  guard_standing_of :: guard_standing
  guard_reason :: string
  guard_predecessor_id :: "string option"

definition valid_guard_change :: "guard_change \<Rightarrow> bool" where
  "valid_guard_change g \<longleftrightarrow> guard_id g \<noteq> [] \<and> guard_condition_id g \<noteq> [] \<and>
     guard_scope_fingerprint g \<noteq> [] \<and> guard_reason g \<noteq> [] \<and>
     guard_predecessor_id g \<noteq> Some (guard_id g)"

section \<open>Constructors of claims/logic.py\<close>

fun attack_by_role :: "claim_role \<Rightarrow> obligation_kind option" where
  "attack_by_role Necessity = Some NecessityCounterexample"
| "attack_by_role Sufficiency = Some SufficiencyCounterexample"
| "attack_by_role Prerequisite = Some PrerequisiteBypass"
| "attack_by_role _ = None"

definition bind_l0_answer ::
  "(string \<Rightarrow> digest) \<Rightarrow> string \<Rightarrow> claim_role \<Rightarrow> inert_payload \<Rightarrow> bound_argument list \<Rightarrow> scope \<Rightarrow>
     provenance \<Rightarrow> string option \<Rightarrow> claim result" where
  "bind_l0_answer sha question_contract_id role answer bound_args sc prov given_id =
    (let material = JObj
       [(''contract'', JStr question_contract_id), (''role'', JStr (claim_role_value role)),
        (''answer'', payload_json answer), (''bound_args'', JList (map arg_json bound_args)),
        (''scope'', JStr (scope_fingerprint sha sc)), (''provenance'', provenance_json prov)];
       derived = ''clm_'' @ take 24 (content_fingerprint sha ''rci.claim.l0.v1'' material);
       stable_id = (case given_id of Some i \<Rightarrow> if i = [] then derived else i | None \<Rightarrow> derived)
     in construct valid_claim ''Claim''
       \<lparr>claim_id = stable_id, claim_role_of = role, claim_bound_args = bound_args,
        claim_payload = answer, claim_scope = sc, claim_provenance = prov,
        claim_status_of = Provisional, claim_assessment_of = Unassessed,
        claim_representation_level = L0Opaque, claim_parent_ids = [],
        claim_proposition_id = None, claim_polarity = Unspecified\<rparr>)"

definition conflict_of :: "(string \<Rightarrow> digest) \<Rightarrow> claim \<Rightarrow> claim \<Rightarrow> conflict" where
  "conflict_of sha left right =
    (let ids = sort [claim_id left, claim_id right] in
     \<lparr>conflict_id = ''cnf_'' @ take 24 (content_fingerprint sha ''rci.conflict.v1'' (str_list ids)),
      conflict_claim_ids = (ids ! 0, ids ! 1),
      conflict_kind_of = StructuralPolarity, conflict_scope = claim_scope left,
      conflict_proposition_id = claim_proposition_id left\<rparr>)"

definition structural_conflict ::
  "(string \<Rightarrow> digest) \<Rightarrow> claim \<Rightarrow> claim \<Rightarrow> conflict option result" where
  "structural_conflict sha left right =
    (let left_key = structural_key sha left; right_key = structural_key sha right in
     if left_key = None \<or> left_key \<noteq> right_key then Inr None
     else if {claim_polarity left, claim_polarity right} \<noteq> {Positive, Negative} then Inr None
     else map_sum id Some (construct valid_conflict ''Conflict'' (conflict_of sha left right)))"

definition conflict_obligation :: "(string \<Rightarrow> digest) \<Rightarrow> conflict \<Rightarrow> obligation" where
  "conflict_obligation sha c =
    \<lparr>obl_id = ''obl_'' @ take 24
       (content_fingerprint sha ''rci.obligation.conflict.v1'' (JStr (conflict_id c))),
     obl_kind = LocalizeConflict, obl_carrier_id = conflict_id c,
     obl_args = [\<lparr>arg_name = ''left_claim_id'', arg_value = JStr (fst (conflict_claim_ids c))\<rparr>,
                 \<lparr>arg_name = ''right_claim_id'', arg_value = JStr (snd (conflict_claim_ids c))\<rparr>],
     obl_scope = conflict_scope c, obl_binding_revision = scope_binding_revision (conflict_scope c),
     obl_parent_obligation_ids = [], obl_priority_vector = [100], obl_status = Open\<rparr>"

text \<open>\<open>claim.proposition_id or claim.id\<close>: an empty proposition id counts as absent for the
  carrier, but still names the argument.\<close>

definition mandatory_attack_obligation :: "(string \<Rightarrow> digest) \<Rightarrow> claim \<Rightarrow> obligation option" where
  "mandatory_attack_obligation sha c =
    (case attack_by_role (claim_role_of c) of None \<Rightarrow> None
     | Some kind \<Rightarrow>
       if claim_polarity c = Negative then None
       else
         let carrier = (case claim_proposition_id c of
               Some p \<Rightarrow> if p = [] then claim_id c else p | None \<Rightarrow> claim_id c);
             argument = (if claim_proposition_id c \<noteq> None then ''proposition_id'' else ''claim_id'');
             material = JObj [(''carrier'', JStr carrier),
               (''kind'', JStr (obligation_kind_value kind)),
               (''scope'', JStr (scope_fingerprint sha (claim_scope c)))]
         in Some
           \<lparr>obl_id = ''obl_'' @ take 24 (content_fingerprint sha ''rci.obligation.attack.v1'' material),
            obl_kind = kind, obl_carrier_id = carrier,
            obl_args = [\<lparr>arg_name = argument, arg_value = JStr carrier\<rparr>],
            obl_scope = claim_scope c,
            obl_binding_revision = scope_binding_revision (claim_scope c),
            obl_parent_obligation_ids = [], obl_priority_vector = [90], obl_status = Open\<rparr>)"

section \<open>Fingerprints identify content\<close>

definition scope_text :: "scope \<Rightarrow> string" where
  "scope_text s = ''rci.scope.v1'' @ CHR 0x00 # canonical_json (scope_json s)"

lemma wf_opt_str [simp]: "wf_json (opt_str x)"
  by (cases x) simp_all

lemma norm_opt_str [simp]: "norm_json (opt_str x) = opt_str x"
  by (cases x) simp_all

lemma wf_str_list [simp]: "wf_json (str_list xs)"
  by (simp add: list_all_iff)

lemma norm_str_list [simp]: "norm_json (str_list xs) = str_list xs"
  by (simp add: comp_def)

lemma wf_scope_json: "wf_json (scope_json s)"
  by (simp add: scope_json_def list_all_iff)

lemma norm_scope_json_inj: "norm_json (scope_json s) = norm_json (scope_json t) \<Longrightarrow> s = t"
  by (simp add: scope_json_def comp_def opt_str_inj map_injective inj_def)

lemma scope_fingerprint_inj:
  assumes "inj_on sha {scope_text s, scope_text t}"
    and "scope_fingerprint sha s = scope_fingerprint sha t"
  shows "s = t"
proof -
  have "scope_text s = scope_text t"
    by (rule inj_onD [OF assms(1)])
      (use assms(2) in \<open>simp_all add: scope_fingerprint_def content_fingerprint_def scope_text_def\<close>)
  then have "canonical_json (scope_json s) = canonical_json (scope_json t)"
    by (simp add: scope_text_def)
  then have "norm_json (scope_json s) = norm_json (scope_json t)"
    using canonical_json_eq_iff wf_scope_json by blast
  then show ?thesis by (rule norm_scope_json_inj)
qed

section \<open>Derived conflicts and obligations\<close>

lemma valid_conflict_obligation:
  "valid_conflict c \<Longrightarrow> conflict_id c \<noteq> [] \<Longrightarrow> valid_obligation (conflict_obligation sha c)"
  by (simp add: valid_obligation_def conflict_obligation_def valid_conflict_def
      valid_bound_argument_def split: prod.splits)

lemma sort_pair: "sort [a, b] = (if a \<le> b then [a, b] else [b, a])"
  by simp

lemma conflict_of_sel:
  "conflict_kind_of (conflict_of sha l r) = StructuralPolarity"
  "conflict_scope (conflict_of sha l r) = claim_scope l"
  "conflict_claim_ids (conflict_of sha l r) =
     (if claim_id l \<le> claim_id r then (claim_id l, claim_id r) else (claim_id r, claim_id l))"
  by (simp_all add: conflict_of_def Let_def sort_pair del: sort_key_simps)

lemma conflict_of_sym:
  "claim_scope l = claim_scope r \<Longrightarrow> claim_proposition_id l = claim_proposition_id r \<Longrightarrow>
     conflict_of sha l r = conflict_of sha r l"
  unfolding conflict_of_def sort_pair
  by (cases "claim_id l = claim_id r") (auto simp only: Let_def if_splits split: if_splits)

lemma structural_conflict_SomeD:
  assumes "structural_conflict sha l r = Inr (Some c)"
  shows "c = conflict_of sha l r \<and> valid_conflict c \<and> structural_key sha l = structural_key sha r \<and>
    structural_key sha l \<noteq> None \<and> {claim_polarity l, claim_polarity r} = {Positive, Negative}"
proof -
  let ?k = "structural_key sha l"
  have "\<not> (?k = None \<or> ?k \<noteq> structural_key sha r)"
  proof
    assume "?k = None \<or> ?k \<noteq> structural_key sha r"
    then have "structural_conflict sha l r = Inr None"
      unfolding structural_conflict_def Let_def by (rule if_P)
    with assms show False by simp
  qed
  then have "?k \<noteq> None \<and> ?k = structural_key sha r" by argo
  moreover have "{claim_polarity l, claim_polarity r} = {Positive, Negative}"
    using assms by (simp add: structural_conflict_def Let_def split: if_splits)
  moreover have "valid_conflict (conflict_of sha l r) \<and> c = conflict_of sha l r"
    using assms by (simp add: structural_conflict_def Let_def construct_def split: if_splits)
  ultimately show ?thesis by blast
qed

lemma structural_conflict_ids:
  assumes "structural_conflict sha l r = Inr (Some c)"
  shows "{fst (conflict_claim_ids c), snd (conflict_claim_ids c)} = {claim_id l, claim_id r} \<and>
    claim_id l \<noteq> claim_id r"
proof -
  have c: "c = conflict_of sha l r" and v: "valid_conflict c"
    using structural_conflict_SomeD [OF assms] by blast+
  have "fst (conflict_claim_ids c) \<noteq> snd (conflict_claim_ids c)"
    using v by (simp add: valid_conflict_def split: prod.splits)
  then show ?thesis unfolding c conflict_of_sel by (cases "claim_id l \<le> claim_id r") auto
qed

lemma structural_key_eqD:
  assumes "structural_key sha l = structural_key sha r" "structural_key sha l \<noteq> None"
  shows "scope_fingerprint sha (claim_scope l) = scope_fingerprint sha (claim_scope r)"
    "claim_proposition_id l = claim_proposition_id r"
  using assms by (auto simp: structural_key_def split: option.splits if_splits)

lemma structural_conflict_sym:
  assumes "inj_on sha {scope_text (claim_scope l), scope_text (claim_scope r)}"
  shows "structural_conflict sha l r = structural_conflict sha r l"
proof (cases "structural_key sha l = None \<or> structural_key sha l \<noteq> structural_key sha r")
  case True
  then show ?thesis
    by (cases "structural_key sha l = structural_key sha r")
      (simp_all add: structural_conflict_def Let_def eq_commute [of _ "structural_key sha l"])
next
  case False
  then have "claim_scope l = claim_scope r"
    using structural_key_eqD(1) [of sha l r] by (intro scope_fingerprint_inj [OF assms]) blast
  with False have "conflict_of sha l r = conflict_of sha r l"
    using structural_key_eqD(2) [of sha l r] by (intro conflict_of_sym) blast+
  with False show ?thesis
    unfolding structural_conflict_def Let_def by (simp add: insert_commute)
qed

lemma attack_some_iff:
  "mandatory_attack_obligation sha c \<noteq> None \<longleftrightarrow>
     claim_role_of c \<in> {Necessity, Sufficiency, Prerequisite} \<and> claim_polarity c \<noteq> Negative"
  by (cases "claim_role_of c") (auto simp: mandatory_attack_obligation_def Let_def)

lemma attack_valid:
  "mandatory_attack_obligation sha c = Some o' \<Longrightarrow> valid_claim c \<Longrightarrow> valid_obligation o'"
  by (auto simp: mandatory_attack_obligation_def Let_def valid_obligation_def valid_claim_def
      valid_bound_argument_def split: option.splits if_splits)

lemma attack_shape:
  "mandatory_attack_obligation sha c = Some o' \<Longrightarrow>
     obl_status o' = Open \<and> obl_scope o' = claim_scope c \<and> obl_parent_obligation_ids o' = [] \<and>
     attack_by_role (claim_role_of c) = Some (obl_kind o')"
  by (auto simp: mandatory_attack_obligation_def Let_def split: option.splits if_splits)

section \<open>Obligation fingerprints\<close>

lemma normalized_args_perm:
  assumes "mset args = mset args'" "distinct (map arg_name args)"
  shows "normalized_args args = normalized_args args'"
proof -
  let ?key = "\<lambda>a. (arg_name a, canonical_json (arg_value a))"
  have "inj_on arg_name (set args)" using assms(2) by (simp add: distinct_map)
  then have "inj_on ?key (set args)" by (auto simp: inj_on_def)
  then have "sort_key ?key args = sort_key ?key args'"
    using assms(1) by (intro sort_key_inj_key_eq) auto
  then show ?thesis by (simp add: normalized_args_def)
qed

lemma wf_arg_json: "valid_bound_argument a \<Longrightarrow> wf_json (arg_json a)"
  by (simp add: arg_json_def valid_bound_argument_def)

lemma wf_obligation_key:
  assumes "valid_obligation o'"
  shows "wf_json (obligation_key_json sha o')"
  using assms
  by (auto simp: obligation_key_json_def normalized_args_def valid_obligation_def list_all_iff
      intro: wf_arg_json)

lemma norm_obligation_key:
  "norm_json (obligation_key_json sha o') = norm_json (obligation_key_json sha q) \<Longrightarrow>
     obl_kind o' = obl_kind q \<and> obl_binding_revision o' = obl_binding_revision q \<and>
     scope_fingerprint sha (obl_scope o') = scope_fingerprint sha (obl_scope q) \<and>
     map norm_json (normalized_args (obl_args o')) = map norm_json (normalized_args (obl_args q))"
  by (auto simp: obligation_key_json_def dest: obligation_kind_value_inj)

definition obligation_text :: "(string \<Rightarrow> digest) \<Rightarrow> obligation \<Rightarrow> string" where
  "obligation_text sha o' =
     ''rci.obligation.v1'' @ CHR 0x00 # canonical_json (obligation_key_json sha o')"

lemma obligation_fingerprint_inj:
  assumes "valid_obligation o'" "valid_obligation q"
    and "inj_on sha {obligation_text sha o', obligation_text sha q,
      scope_text (obl_scope o'), scope_text (obl_scope q)}"
    and "obligation_fingerprint sha o' = obligation_fingerprint sha q"
  shows "obl_kind o' = obl_kind q \<and> obl_scope o' = obl_scope q \<and>
    map norm_json (normalized_args (obl_args o')) = map norm_json (normalized_args (obl_args q))"
proof -
  have "obligation_text sha o' = obligation_text sha q"
    by (rule inj_onD [OF assms(3)])
      (use assms(4) in \<open>simp_all add: obligation_fingerprint_def content_fingerprint_def
        obligation_text_def\<close>)
  then have "norm_json (obligation_key_json sha o') = norm_json (obligation_key_json sha q)"
    using assms(1,2) by (simp add: obligation_text_def canonical_json_eq_iff wf_obligation_key)
  note n = norm_obligation_key [OF this]
  moreover have "obl_scope o' = obl_scope q"
  proof (rule scope_fingerprint_inj [of sha])
    show "inj_on sha {scope_text (obl_scope o'), scope_text (obl_scope q)}"
      by (rule inj_on_subset [OF assms(3)]) blast
  qed (use n in simp)
  ultimately show ?thesis by simp
qed

section \<open>Properties\<close>

text \<open>A small scope, two claims that contradict each other and an attackable claim.\<close>

definition example_scope :: scope where
  "example_scope = \<lparr>scope_id = ''s'', scope_binding_revision = ''b1'', scope_assumption_ids = [''a''],
     scope_applicability_guard_id = None, scope_finite_universe_hash = None, scope_closed_world = False\<rparr>"

definition example_claim :: "string \<Rightarrow> claim_role \<Rightarrow> polarity \<Rightarrow> claim" where
  "example_claim i role p = \<lparr>claim_id = i, claim_role_of = role, claim_bound_args = [],
     claim_payload = PayloadJson (JStr ''x''), claim_scope = example_scope,
     claim_provenance = \<lparr>prov_kind = ''k'', prov_source_id = ''q'', prov_source_revision = None\<rparr>,
     claim_status_of = Provisional, claim_assessment_of = Unassessed,
     claim_representation_level = L1Structured, claim_parent_ids = [],
     claim_proposition_id = Some ''p'', claim_polarity = p\<rparr>"

text \<open>C33: an obligation fingerprint identifies the work. Where the digest does not collide on the
  four texts involved, two valid obligations share a fingerprint only if they have the same kind,
  the same scope and the same arguments (up to argument order and object key order); and two
  obligations that differ only in the order of their arguments do share it.\<close>

theorem obligation_fingerprint_identifies_work:
  assumes "valid_obligation o'" "valid_obligation q"
    and "inj_on sha {obligation_text sha o', obligation_text sha q,
      scope_text (obl_scope o'), scope_text (obl_scope q)}"
  shows "(obligation_fingerprint sha o' = obligation_fingerprint sha q \<longrightarrow>
      obl_kind o' = obl_kind q \<and> obl_scope o' = obl_scope q \<and>
      map norm_json (normalized_args (obl_args o')) = map norm_json (normalized_args (obl_args q))) \<and>
    (mset args = mset (obl_args o') \<longrightarrow>
      obligation_fingerprint sha (o'\<lparr>obl_args := args\<rparr>) = obligation_fingerprint sha o')"
proof (intro conjI impI)
  assume "mset args = mset (obl_args o')"
  then have "normalized_args (obl_args o') = normalized_args args"
    using assms(1) by (intro normalized_args_perm) (simp_all add: valid_obligation_def)
  then show "obligation_fingerprint sha (o'\<lparr>obl_args := args\<rparr>) = obligation_fingerprint sha o'"
    by (simp add: obligation_fingerprint_def obligation_key_json_def)
qed (use obligation_fingerprint_inj [OF assms] in blast)+

text \<open>a structural conflict is exactly a pair of opposed claims about one proposition. A recorded
  conflict names the two claims, in canonical order, in the scope of the first; the claims have the
  same structural key and opposite polarity; the order in which the claims are compared does not
  matter, where the digest does not collide on the two scopes.\<close>

theorem structural_conflict_exact:
  assumes "structural_conflict sha l r = Inr (Some c)"
    and "inj_on sha {scope_text (claim_scope l), scope_text (claim_scope r)}"
  shows "structural_conflict sha r l = Inr (Some c) \<and> valid_conflict c \<and>
    {fst (conflict_claim_ids c), snd (conflict_claim_ids c)} = {claim_id l, claim_id r} \<and>
    claim_id l \<noteq> claim_id r \<and> claim_scope l = claim_scope r \<and> conflict_scope c = claim_scope l \<and>
    claim_proposition_id l = claim_proposition_id r \<and>
    {claim_polarity l, claim_polarity r} = {Positive, Negative}"
proof -
  note d = structural_conflict_SomeD [OF assms(1)]
  have key: "structural_key sha l = structural_key sha r" "structural_key sha l \<noteq> None"
    using d by blast+
  have "structural_conflict sha r l = Inr (Some c)"
    using structural_conflict_sym [OF assms(2)] assms(1) by simp
  moreover have "claim_scope l = claim_scope r"
    by (rule scope_fingerprint_inj [OF assms(2) structural_key_eqD(1) [OF key]])
  moreover have "conflict_scope c = claim_scope l" using d by (simp add: conflict_of_sel)
  moreover have "valid_conflict c" "{claim_polarity l, claim_polarity r} = {Positive, Negative}"
    using d by blast+
  ultimately show ?thesis
    using structural_conflict_ids [OF assms(1)] structural_key_eqD(2) [OF key] by simp
qed

text \<open>An unattacked load-bearing claim always raises its attack. A necessity, sufficiency or
  prerequisite claim that is not negated yields one obligation, of the kind its role prescribes,
  open, unparented, in the claim's own scope and valid whenever the claim is; no other claim does.\<close>

theorem mandatory_attack_exact:
  assumes "valid_claim c"
  shows "case mandatory_attack_obligation sha c of
      None \<Rightarrow> claim_role_of c \<notin> {Necessity, Sufficiency, Prerequisite} \<or> claim_polarity c = Negative
    | Some o' \<Rightarrow> claim_polarity c \<noteq> Negative \<and> attack_by_role (claim_role_of c) = Some (obl_kind o') \<and>
        valid_obligation o' \<and> obl_status o' = Open \<and> obl_scope o' = claim_scope c \<and>
        obl_parent_obligation_ids o' = []"
proof (cases "mandatory_attack_obligation sha c")
  case None
  then show ?thesis using attack_some_iff [of sha c] by auto
next
  case (Some o')
  then show ?thesis
    using attack_some_iff [of sha c] attack_valid [OF Some assms] attack_shape [OF Some] by simp
qed

lemma example_claim_sel [simp]:
  "claim_scope (example_claim i role p) = example_scope" "claim_polarity (example_claim i role p) = p"
  "claim_role_of (example_claim i role p) = role" "claim_id (example_claim i role p) = i"
  by (simp_all add: example_claim_def)

theorem mandatory_attack_exact_witness:
  "valid_claim (example_claim ''c'' Necessity Positive) \<and>
   map_option obl_kind (mandatory_attack_obligation id (example_claim ''c'' Necessity Positive)) =
     Some NecessityCounterexample"
proof -
  have v: "valid_claim (example_claim ''c'' Necessity Positive)" by code_simp
  show ?thesis
    using mandatory_attack_exact [OF v, of id] v
    by (simp split: option.splits)
qed

theorem structural_conflict_exact_witness:
  "structural_conflict id (example_claim ''c1'' Necessity Positive) (example_claim ''c2'' Necessity Negative) =
     structural_conflict id (example_claim ''c2'' Necessity Negative) (example_claim ''c1'' Necessity Positive) \<and>
   structural_conflict id (example_claim ''c1'' Necessity Positive) (example_claim ''c2'' Necessity Negative)
     \<noteq> Inr None"
proof -
  let ?l = "example_claim ''c1'' Necessity Positive" and ?r = "example_claim ''c2'' Necessity Negative"
  have "structural_conflict id ?l ?r = Inr (Some (conflict_of id ?l ?r))"
    by code_simp
  from structural_conflict_exact [OF this inj_on_id] this show ?thesis by simp
qed

definition example_obligation :: "string \<Rightarrow> bound_argument list \<Rightarrow> obligation" where
  "example_obligation i args = \<lparr>obl_id = i, obl_kind = Characterize, obl_carrier_id = ''c'', obl_args = args,
     obl_scope = example_scope, obl_binding_revision = ''b1'', obl_parent_obligation_ids = [],
     obl_priority_vector = [1], obl_status = Open\<rparr>"

theorem obligation_fingerprint_identifies_work_witness:
  "let x = \<lparr>arg_name = ''x'', arg_value = JInt 1\<rparr>; y = \<lparr>arg_name = ''y'', arg_value = JInt 2\<rparr> in
   valid_obligation (example_obligation ''o1'' [x, y]) \<and>
   obligation_fingerprint id ((example_obligation ''o1'' [x, y])\<lparr>obl_args := [y, x]\<rparr>) =
     obligation_fingerprint id (example_obligation ''o1'' [x, y])"
proof -
  let ?x = "\<lparr>arg_name = ''x'', arg_value = JInt 1\<rparr>" and ?y = "\<lparr>arg_name = ''y'', arg_value = JInt 2\<rparr>"
  have v: "valid_obligation (example_obligation ''o1'' [?x, ?y])" by code_simp
  have m: "mset [?y, ?x] = mset (obl_args (example_obligation ''o1'' [?x, ?y]))"
    by (simp add: example_obligation_def)
  show ?thesis
    unfolding Let_def
    using obligation_fingerprint_identifies_work [OF v v inj_on_id, of "[?y, ?x]"] m v by blast
qed

end
