(* ===== verification/Rci_Warrant.thy ===== *)
theory Rci_Warrant
  imports Rci_Claims
begin

text \<open>
  The immutable records of \<open>warrant/models.py\<close> with their validators, and the fail-closed
  resolution of evidence/check pairs of \<open>warrant/checks.py\<close>. Every rejection keeps its reason
  text. The characteristic lemmas say that a check is accepted exactly when all of its pins agree,
  the checker is authorised, the verdict is VALID and a certificate is present.
\<close>

section \<open>Enumerations\<close>

datatype checker_verdict = Valid | Invalid | Indeterminate | Timeout | UnsupportedVerdict | FailedVerdict

datatype warrant_class = NoWarrant | Soft | SolverTrusted | Hard

datatype support_standing = Standing | Withdrawn

datatype evidence_kind =
  ModelOutput | Reification | Heuristic | Retrieval | ObservationEvidence | IndependentWitness
  | ExhaustiveUnsat | Z3Unsat

datatype proposition_kind = Existential | Universal | Relation

section \<open>Records\<close>

record applicability =
  app_condition_id :: string
  app_required_context_ids :: "string list"

definition valid_applicability :: "applicability \<Rightarrow> bool" where
  "valid_applicability a \<longleftrightarrow> app_condition_id a \<noteq> [] \<and> distinct (app_required_context_ids a)"

record check_reference =
  ref_evidence_id :: string
  ref_checker_verdict_id :: string

definition valid_check_reference :: "check_reference \<Rightarrow> bool" where
  "valid_check_reference r \<longleftrightarrow> ref_evidence_id r \<noteq> [] \<and> ref_checker_verdict_id r \<noteq> []"

record support_environment =
  env_id :: string
  env_scope_fingerprint :: string
  env_binding_revision :: string
  env_assumption_ids :: "string list"
  env_finite_universe_hash :: "string option"
  env_realizability_check :: check_reference

definition valid_environment :: "support_environment \<Rightarrow> bool" where
  "valid_environment e \<longleftrightarrow> valid_check_reference (env_realizability_check e) \<and>
     env_id e \<noteq> [] \<and> env_scope_fingerprint e \<noteq> [] \<and> env_binding_revision e \<noteq> [] \<and>
     canonical (env_assumption_ids e)"

abbreviation assumptions :: "support_environment \<Rightarrow> string set" where
  "assumptions e \<equiv> set (env_assumption_ids e)"

record nogood =
  ng_id :: string
  ng_scope_fingerprint :: string
  ng_binding_revision :: string
  ng_finite_universe_hash :: "string option"
  ng_policy_version :: string
  ng_incompatible_assumption_ids :: "string list"
  ng_check :: check_reference
  ng_warrant_decision_id :: string
  ng_reason :: string

definition valid_nogood :: "nogood \<Rightarrow> bool" where
  "valid_nogood n \<longleftrightarrow> valid_check_reference (ng_check n) \<and>
     list_all (\<lambda>x. x \<noteq> []) [ng_id n, ng_scope_fingerprint n, ng_binding_revision n,
       ng_policy_version n, ng_warrant_decision_id n] \<and>
     ng_incompatible_assumption_ids n \<noteq> [] \<and> ng_reason n \<noteq> [] \<and>
     canonical (ng_incompatible_assumption_ids n)"

record route_change =
  rc_id :: string
  rc_support_route_id :: string
  rc_standing :: support_standing
  rc_reason :: string
  rc_predecessor_id :: "string option"

definition valid_route_change :: "route_change \<Rightarrow> bool" where
  "valid_route_change c \<longleftrightarrow> rc_id c \<noteq> [] \<and> rc_support_route_id c \<noteq> [] \<and> rc_reason c \<noteq> [] \<and>
     rc_predecessor_id c \<noteq> Some (rc_id c)"

record nogood_change =
  nc_id :: string
  nc_nogood_id :: string
  nc_standing :: support_standing
  nc_reason :: string
  nc_predecessor_id :: "string option"

definition valid_nogood_change :: "nogood_change \<Rightarrow> bool" where
  "valid_nogood_change c \<longleftrightarrow> nc_id c \<noteq> [] \<and> nc_nogood_id c \<noteq> [] \<and> nc_reason c \<noteq> [] \<and>
     nc_predecessor_id c \<noteq> Some (nc_id c)"

record support_route =
  route_id :: string
  route_conclusion_id :: string
  route_environment :: support_environment
  route_required_dependency_ids :: "string list"
  route_open_dependency_ids :: "string list"
  route_certificate_check :: check_reference
  route_warrant_refs :: "string list"
  route_justification_refs :: "string list"
  route_provenance_refs :: "string list"

definition valid_route :: "support_route \<Rightarrow> bool" where
  "valid_route r \<longleftrightarrow> valid_environment (route_environment r) \<and>
     valid_check_reference (route_certificate_check r) \<and>
     route_id r \<noteq> [] \<and> route_conclusion_id r \<noteq> [] \<and>
     list_all distinct [route_required_dependency_ids r, route_open_dependency_ids r,
       route_warrant_refs r, route_justification_refs r, route_provenance_refs r] \<and>
     sort (route_required_dependency_ids r) = route_required_dependency_ids r \<and>
     sort (route_open_dependency_ids r) = route_open_dependency_ids r \<and>
     set (route_open_dependency_ids r) \<subseteq> set (route_required_dependency_ids r)"

record evidence =
  ev_id :: string
  ev_kind :: evidence_kind
  ev_proposition_id :: string
  ev_proposition_kind :: proposition_kind
  ev_scope_fingerprint :: string
  ev_artifact :: artifact_ref
  ev_closed_finite_universe :: bool
  ev_finite_universe_hash :: "string option"

definition valid_evidence :: "evidence \<Rightarrow> bool" where
  "valid_evidence e \<longleftrightarrow> valid_artifact_ref (ev_artifact e) \<and>
     ev_id e \<noteq> [] \<and> ev_proposition_id e \<noteq> [] \<and> ev_scope_fingerprint e \<noteq> [] \<and>
     (ev_closed_finite_universe e \<longrightarrow> ev_finite_universe_hash e \<noteq> None)"

record verdict_record =
  cv_id :: string
  cv_evidence_id :: string
  cv_evidence_artifact :: artifact_ref
  cv_proposition_id :: string
  cv_proposition_kind :: proposition_kind
  cv_scope_fingerprint :: string
  cv_checker_id :: string
  cv_checker_version :: string
  cv_verdict :: checker_verdict
  cv_verdict_artifact :: artifact_ref
  cv_certificate_artifact :: "artifact_ref option"

definition valid_verdict_record :: "verdict_record \<Rightarrow> bool" where
  "valid_verdict_record v \<longleftrightarrow> valid_artifact_ref (cv_evidence_artifact v) \<and>
     valid_artifact_ref (cv_verdict_artifact v) \<and>
     pred_option valid_artifact_ref (cv_certificate_artifact v) \<and>
     list_all (\<lambda>x. x \<noteq> []) [cv_id v, cv_evidence_id v, cv_proposition_id v,
       cv_scope_fingerprint v, cv_checker_id v, cv_checker_version v] \<and>
     (cv_verdict v = Valid \<longrightarrow> cv_certificate_artifact v \<noteq> None)"

declare valid_evidence_def [valid_defs] valid_verdict_record_def [valid_defs]

record lemma_version =
  lv_id :: string
  lv_relation_id :: string
  lv_proposition_kind :: proposition_kind
  lv_scope :: scope
  lv_applicability :: applicability
  lv_source_claim_ids :: "string list"
  lv_predecessor_refs :: "string list"

definition valid_lemma_version :: "lemma_version \<Rightarrow> bool" where
  "valid_lemma_version v \<longleftrightarrow> valid_scope (lv_scope v) \<and> valid_applicability (lv_applicability v) \<and>
     lv_id v \<noteq> [] \<and> lv_relation_id v \<noteq> [] \<and> lv_id v \<notin> set (lv_predecessor_refs v) \<and>
     distinct (lv_predecessor_refs v) \<and> distinct (lv_source_claim_ids v)"

record lemma_support =
  ls_lemma_version_id :: string
  ls_policy_version :: string
  ls_support_routes :: "support_route list"
  ls_historical_support_routes :: "support_route list"
  ls_warrant_class :: warrant_class
  ls_certificate_refs :: "string list"
  ls_provenance_refs :: "string list"

abbreviation route_assumptions :: "support_route \<Rightarrow> string set" where
  "route_assumptions r \<equiv> assumptions (route_environment r)"

definition all_support_routes :: "lemma_support \<Rightarrow> support_route list" where
  "all_support_routes s = ls_support_routes s @ ls_historical_support_routes s"

text \<open>No environment strictly contains another.\<close>

fun antichain :: "string set list \<Rightarrow> bool" where
  "antichain [] = True"
| "antichain (left # rest) = (list_all (\<lambda>right. \<not> left \<subset> right \<and> \<not> right \<subset> left) rest \<and> antichain rest)"

definition valid_lemma_support :: "lemma_support \<Rightarrow> bool" where
  "valid_lemma_support s \<longleftrightarrow> list_all valid_route (all_support_routes s) \<and>
     ls_policy_version s \<noteq> [] \<and> ls_support_routes s \<noteq> [] \<and>
     distinct (map route_id (all_support_routes s)) \<and>
     list_all (\<lambda>r. route_conclusion_id r = ls_lemma_version_id s) (all_support_routes s) \<and>
     antichain (map route_assumptions (ls_support_routes s)) \<and>
     list_all (\<lambda>h. list_ex (\<lambda>c. route_assumptions c \<subseteq> route_assumptions h) (ls_support_routes s))
       (ls_historical_support_routes s) \<and>
     distinct (ls_certificate_refs s) \<and> distinct (ls_provenance_refs s)"

record warranted_lemma =
  wl_version :: lemma_version
  wl_support :: lemma_support

abbreviation wl_id :: "warranted_lemma \<Rightarrow> string" where
  "wl_id l \<equiv> lv_id (wl_version l)"

definition route_in_scope :: "(string \<Rightarrow> digest) \<Rightarrow> scope \<Rightarrow> support_route \<Rightarrow> bool" where
  "route_in_scope sha sc r \<longleftrightarrow>
     env_scope_fingerprint (route_environment r) = scope_fingerprint sha sc \<and>
     env_binding_revision (route_environment r) = scope_binding_revision sc \<and>
     env_finite_universe_hash (route_environment r) = scope_finite_universe_hash sc"

definition valid_warranted_lemma :: "(string \<Rightarrow> digest) \<Rightarrow> warranted_lemma \<Rightarrow> bool" where
  "valid_warranted_lemma sha l \<longleftrightarrow> valid_lemma_version (wl_version l) \<and>
     valid_lemma_support (wl_support l) \<and> wl_id l = ls_lemma_version_id (wl_support l) \<and>
     list_all (route_in_scope sha (lv_scope (wl_version l))) (all_support_routes (wl_support l))"

record warrant_decision =
  wd_id :: string
  wd_evidence_id :: string
  wd_checker_verdict_id :: string
  wd_proposition_id :: string
  wd_proposition_kind :: proposition_kind
  wd_scope_fingerprint :: string
  wd_warrant_class :: warrant_class
  wd_reason :: string
  wd_policy_version :: string

definition valid_warrant_decision :: "warrant_decision \<Rightarrow> bool" where
  "valid_warrant_decision d \<longleftrightarrow> list_all (\<lambda>x. x \<noteq> [])
     [wd_id d, wd_evidence_id d, wd_checker_verdict_id d, wd_proposition_id d,
      wd_scope_fingerprint d, wd_reason d, wd_policy_version d]"

record promotion_link =
  pl_id :: string
  pl_lemma_version_id :: string
  pl_source_claim_ids :: "string list"
  pl_warrant_decision_id :: string

definition valid_promotion_link :: "promotion_link \<Rightarrow> bool" where
  "valid_promotion_link l \<longleftrightarrow> pl_id l \<noteq> [] \<and> pl_lemma_version_id l \<noteq> [] \<and>
     pl_warrant_decision_id l \<noteq> [] \<and> pl_source_claim_ids l \<noteq> [] \<and> distinct (pl_source_claim_ids l)"

record active_lemma_view =
  alv_lemma_version_id :: string
  alv_relation_id :: string
  alv_standing_support_route_id :: string
  alv_standing_support_route_ids :: "string list"
  alv_scope_fingerprint :: string
  alv_binding_revision :: string
  alv_finite_universe_hash :: "string option"
  alv_policy_version :: string

definition valid_active_view :: "active_lemma_view \<Rightarrow> bool" where
  "valid_active_view v \<longleftrightarrow> alv_standing_support_route_ids v \<noteq> [] \<and>
     alv_standing_support_route_id v = hd (alv_standing_support_route_ids v) \<and>
     distinct (alv_standing_support_route_ids v)"

record theory_selector =
  sel_scope_fingerprint :: string
  sel_binding_revision :: string
  sel_finite_universe_hash :: "string option"
  sel_policy_version :: string
  sel_current_assumption_ids :: "string list"
  sel_current_context_ids :: "string list"

definition valid_selector :: "theory_selector \<Rightarrow> bool" where
  "valid_selector s \<longleftrightarrow> sel_scope_fingerprint s \<noteq> [] \<and> sel_binding_revision s \<noteq> [] \<and>
     sel_policy_version s \<noteq> [] \<and> canonical (sel_current_assumption_ids s) \<and>
     canonical (sel_current_context_ids s)"

section \<open>Checks\<close>

definition evidence_index :: "evidence list \<Rightarrow> string \<Rightarrow> evidence option" where
  "evidence_index records = index_by ev_id records"

definition checker_verdict_index :: "verdict_record list \<Rightarrow> string \<Rightarrow> verdict_record option" where
  "checker_verdict_index records = index_by cv_id records"

definition validate_checked_evidence ::
  "evidence \<Rightarrow> verdict_record \<Rightarrow> string \<Rightarrow> proposition_kind \<Rightarrow> string \<Rightarrow> string list \<Rightarrow> bool \<times> string" where
  "validate_checked_evidence e v proposition_id kind fp authorized =
    (if cv_evidence_id v \<noteq> ev_id e then (False, ''checker verdict references different evidence'')
     else if cv_evidence_artifact v \<noteq> ev_artifact e
       then (False, ''checker verdict does not pin the exact evidence artifact'')
     else if ev_proposition_id e \<noteq> proposition_id
       then (False, ''evidence proposition does not match exactly'')
     else if cv_proposition_id v \<noteq> proposition_id
       then (False, ''checker verdict proposition does not match exactly'')
     else if ev_proposition_kind e \<noteq> kind
       then (False, ''evidence proposition kind does not match exactly'')
     else if cv_proposition_kind v \<noteq> kind
       then (False, ''checker verdict proposition kind does not match exactly'')
     else if ev_scope_fingerprint e \<noteq> fp then (False, ''evidence scope does not match exactly'')
     else if cv_scope_fingerprint v \<noteq> fp
       then (False, ''checker verdict scope does not match exactly'')
     else if cv_checker_id v \<notin> set authorized
       then (False, ''checker identity is not authorized by the inquiry binding'')
     else if cv_verdict v \<noteq> Valid
       then (False, ''independent checker did not validate the evidence'')
     else if cv_certificate_artifact v = None
       then (False, ''valid checker verdict lacks an exact certificate artifact'')
     else (True, ''independently checked exact evidence''))"

definition resolve_check_reference ::
  "check_reference \<Rightarrow> (string \<Rightarrow> evidence option) \<Rightarrow> (string \<Rightarrow> verdict_record option) \<Rightarrow> string \<Rightarrow>
     proposition_kind \<Rightarrow> string \<Rightarrow> string list \<Rightarrow> bool \<times> string" where
  "resolve_check_reference r evidence_by_id verdict_by_id proposition_id kind fp authorized =
    (case evidence_by_id (ref_evidence_id r) of
       None \<Rightarrow> (False, ''check reference does not resolve to owned evidence'')
     | Some e \<Rightarrow>
       (case verdict_by_id (ref_checker_verdict_id r) of
          None \<Rightarrow> (False, ''check reference does not resolve to an owned checker verdict'')
        | Some v \<Rightarrow>
          if cv_evidence_id v \<noteq> ref_evidence_id r
          then (False, ''check reference evidence and checker verdict do not align'')
          else validate_checked_evidence e v proposition_id kind fp authorized))"

text \<open>What an accepted check is.\<close>

definition checked_pair ::
  "evidence \<Rightarrow> verdict_record \<Rightarrow> string \<Rightarrow> proposition_kind \<Rightarrow> string \<Rightarrow> string set \<Rightarrow> bool" where
  "checked_pair e v proposition_id kind fp authorized \<longleftrightarrow>
     cv_evidence_id v = ev_id e \<and> cv_evidence_artifact v = ev_artifact e \<and>
     ev_proposition_id e = proposition_id \<and> cv_proposition_id v = proposition_id \<and>
     ev_proposition_kind e = kind \<and> cv_proposition_kind v = kind \<and>
     ev_scope_fingerprint e = fp \<and> cv_scope_fingerprint v = fp \<and>
     cv_checker_id v \<in> authorized \<and> cv_verdict v = Valid \<and> cv_certificate_artifact v \<noteq> None"

lemma validate_checked_iff:
  "fst (validate_checked_evidence e v p k fp auth) \<longleftrightarrow> checked_pair e v p k fp (set auth)"
  unfolding validate_checked_evidence_def checked_pair_def
  by (simp only: fst_conv if_distrib [of fst] split: if_splits) blast

lemma resolve_check_iff:
  "fst (resolve_check_reference r eb vb p k fp auth) \<longleftrightarrow>
     (\<exists>e v. eb (ref_evidence_id r) = Some e \<and> vb (ref_checker_verdict_id r) = Some v \<and>
        cv_evidence_id v = ref_evidence_id r \<and> checked_pair e v p k fp (set auth))"
  by (cases "eb (ref_evidence_id r)"; cases "vb (ref_checker_verdict_id r)")
    (simp_all add: resolve_check_reference_def validate_checked_iff)

text \<open>Authorising more checkers never withdraws a check.\<close>

lemma resolve_check_mono:
  "set auth \<subseteq> set auth' \<Longrightarrow> fst (resolve_check_reference r eb vb p k fp auth) \<Longrightarrow>
     fst (resolve_check_reference r eb vb p k fp auth')"
  by (auto simp: resolve_check_iff checked_pair_def)

end
