(* ===== verification/Rci_Graph.thy ===== *)
theory Rci_Graph
  imports Rci_Prelude
begin

text \<open>
  The depth-first search that \<open>warrant/support.py\<close> nests in \<open>ancestry_is_acyclic\<close> and in
  \<open>support_graph_is_acyclic\<close>: a set of nodes on the current path (\<open>visiting\<close>), a set of
  finished nodes (\<open>visited\<close>), failure on a node met again on its own path and on an edge to a
  node that is not declared. The search is defined with fuel for its nesting depth; one unit more
  than the number of declared nodes is always enough. The search succeeds from a list of nodes
  exactly when no node reachable from them lies on a cycle or has an undeclared successor.
\<close>

section \<open>The search\<close>

type_synonym dfs_state = "string set \<times> string set"

function visit ::
  "nat \<Rightarrow> (string \<Rightarrow> string list) \<Rightarrow> (string \<Rightarrow> bool) \<Rightarrow> string \<Rightarrow> dfs_state \<Rightarrow> (bool \<times> dfs_state) option"
  and visit_list ::
  "nat \<Rightarrow> (string \<Rightarrow> string list) \<Rightarrow> (string \<Rightarrow> bool) \<Rightarrow> string list \<Rightarrow> dfs_state \<Rightarrow> (bool \<times> dfs_state) option"
  where
  "visit 0 succs known v st = None"
| "visit (Suc n) succs known v st =
    (if v \<in> fst st then Some (False, st)
     else if v \<in> snd st then Some (True, st)
     else (case visit_list n succs known (succs v) (insert v (fst st), snd st) of
         None \<Rightarrow> None
       | Some (ok, st') \<Rightarrow>
         if ok then Some (True, (fst st' - {v}, insert v (snd st'))) else Some (False, st')))"
| "visit_list n succs known [] st = Some (True, st)"
| "visit_list n succs known (p # ps) st =
    (if \<not> known p then Some (False, st)
     else (case visit n succs known p st of
         None \<Rightarrow> None
       | Some (ok, st') \<Rightarrow> if ok then visit_list n succs known ps st' else Some (False, st')))"
  by pat_completeness auto
termination
  by (relation "measures [\<lambda>x. case x of Inl (n, _) \<Rightarrow> n | Inr (n, _) \<Rightarrow> n,
        \<lambda>x. case x of Inl _ \<Rightarrow> 0 | Inr (_, _, _, ps, _) \<Rightarrow> Suc (length ps)]") auto

abbreviation edges :: "(string \<Rightarrow> string list) \<Rightarrow> (string \<times> string) set" where
  "edges succs \<equiv> {(v, p). p \<in> set (succs v)}"

text \<open>A finished set: its successors are declared and finished, and none of it lies on a cycle.\<close>

definition finished :: "(string \<Rightarrow> string list) \<Rightarrow> (string \<Rightarrow> bool) \<Rightarrow> string set \<Rightarrow> bool" where
  "finished succs known V \<longleftrightarrow>
     (\<forall>v \<in> V. \<forall>p \<in> set (succs v). known p \<and> p \<in> V) \<and> (\<forall>v \<in> V. (v, v) \<notin> (edges succs)\<^sup>+)"

text \<open>A defect below a node: a cycle or an undeclared successor that can be reached from it.\<close>

definition defective :: "(string \<Rightarrow> string list) \<Rightarrow> (string \<Rightarrow> bool) \<Rightarrow> string \<Rightarrow> bool" where
  "defective succs known v \<longleftrightarrow> (\<exists>x. (v, x) \<in> (edges succs)\<^sup>* \<and>
     ((x, x) \<in> (edges succs)\<^sup>+ \<or> (\<exists>p \<in> set (succs x). \<not> known p)))"

lemma finished_reach:
  assumes "finished succs known V" "v \<in> V" "(v, x) \<in> (edges succs)\<^sup>*"
  shows "x \<in> V"
  using assms(3,2) by (induction rule: rtrancl_induct) (use assms(1) in \<open>auto simp: finished_def\<close>)

lemma finished_not_defective: "finished succs known V \<Longrightarrow> v \<in> V \<Longrightarrow> \<not> defective succs known v"
proof
  assume fin: "finished succs known V" "v \<in> V" and "defective succs known v"
  then obtain x where "(v, x) \<in> (edges succs)\<^sup>*"
      and x: "(x, x) \<in> (edges succs)\<^sup>+ \<or> (\<exists>p \<in> set (succs x). \<not> known p)"
    unfolding defective_def by blast
  then have "x \<in> V" using finished_reach [OF fin] by blast
  with x fin(1) show False unfolding finished_def by blast
qed

lemma finished_insert:
  assumes "finished succs known V" "v \<notin> V" "\<forall>p \<in> set (succs v). known p \<and> p \<in> V"
  shows "finished succs known (insert v V)"
proof -
  have "(v, v) \<notin> (edges succs)\<^sup>+"
  proof
    assume "(v, v) \<in> (edges succs)\<^sup>+"
    then obtain p where "p \<in> set (succs v)" "(p, v) \<in> (edges succs)\<^sup>*"
      by (auto dest: tranclD)
    with assms show False using finished_reach [OF assms(1)] by blast
  qed
  with assms show ?thesis by (auto simp: finished_def)
qed

section \<open>A successful search\<close>

lemma visit_True:
  "visit n succs known v st = Some (True, st') \<Longrightarrow> finished succs known (snd st) \<Longrightarrow>
     fst st \<inter> snd st = {} \<Longrightarrow>
     fst st' = fst st \<and> snd st \<subseteq> snd st' \<and> v \<in> snd st' \<and> finished succs known (snd st') \<and>
     fst st \<inter> snd st' = {}"
  "visit_list n succs known ps st = Some (True, st') \<Longrightarrow> finished succs known (snd st) \<Longrightarrow>
     fst st \<inter> snd st = {} \<Longrightarrow>
     fst st' = fst st \<and> snd st \<subseteq> snd st' \<and> (\<forall>p \<in> set ps. known p \<and> p \<in> snd st') \<and>
     finished succs known (snd st') \<and> fst st \<inter> snd st' = {}"
proof (induction n succs known v st and n succs known ps st arbitrary: st' and st'
    rule: visit_visit_list.induct)
  case (2 n succs known v st)
  show ?case
  proof (cases "v \<in> fst st \<or> v \<in> snd st")
    case True
    with 2(2) have "st' = st" "v \<in> snd st" by (simp_all split: if_splits)
    with 2(3,4) show ?thesis by blast
  next
    case False
    with 2(2) obtain s where
      s: "visit_list n succs known (succs v) (insert v (fst st), snd st) = Some (True, s)"
      and st': "st' = (fst s - {v}, insert v (snd s))"
      by (auto split: option.splits if_splits)
    have "fst s = insert v (fst st) \<and> snd st \<subseteq> snd s \<and>
        (\<forall>p \<in> set (succs v). known p \<and> p \<in> snd s) \<and> finished succs known (snd s) \<and>
        insert v (fst st) \<inter> snd s = {}"
      using 2(1) [OF _ _ s] False 2(3,4) by auto
    then show ?thesis using st' False by (auto intro: finished_insert)
  qed
next
  case (4 n succs known p ps st)
  from 4(3) obtain s where s: "visit n succs known p st = Some (True, s)"
      "visit_list n succs known ps s = Some (True, st')" "known p"
    by (auto split: option.splits if_splits)
  have m: "fst s = fst st \<and> snd st \<subseteq> snd s \<and> p \<in> snd s \<and> finished succs known (snd s) \<and>
      fst st \<inter> snd s = {}"
    using 4(1) [OF _ s(1) 4(4,5)] s(3) by blast
  have "fst st' = fst s \<and> snd s \<subseteq> snd st' \<and> (\<forall>p \<in> set ps. known p \<and> p \<in> snd st') \<and>
      finished succs known (snd st') \<and> fst s \<inter> snd st' = {}"
    using 4(2) [of "(True, s)" True s st'] s m by simp
  with m s(3) show ?case by auto
qed auto

section \<open>A failed search\<close>

lemma defective_step: "p \<in> set (succs v) \<Longrightarrow> defective succs known p \<Longrightarrow> defective succs known v"
  unfolding defective_def by (blast intro: converse_rtrancl_into_rtrancl)

lemma visit_False:
  "visit n succs known v st = Some (False, st') \<Longrightarrow> finished succs known (snd st) \<Longrightarrow>
     fst st \<inter> snd st = {} \<Longrightarrow> \<forall>x \<in> fst st. (x, v) \<in> (edges succs)\<^sup>+ \<Longrightarrow> defective succs known v"
  "visit_list n succs known ps st = Some (False, st') \<Longrightarrow> finished succs known (snd st) \<Longrightarrow>
     fst st \<inter> snd st = {} \<Longrightarrow> \<forall>p \<in> set ps. \<forall>x \<in> fst st. (x, p) \<in> (edges succs)\<^sup>+ \<Longrightarrow>
     \<exists>p \<in> set ps. \<not> known p \<or> defective succs known p"
proof (induction n succs known v st and n succs known ps st arbitrary: st' and st'
    rule: visit_visit_list.induct)
  case (2 n succs known v st)
  show ?case
  proof (cases "v \<in> fst st")
    case True
    with 2(5) show ?thesis by (auto simp: defective_def)
  next
    case False
    with 2(2) have s: "visit_list n succs known (succs v) (insert v (fst st), snd st) = Some (False, st')"
      and nv: "v \<notin> snd st"
      by (auto split: option.splits if_splits)
    have path: "\<forall>p \<in> set (succs v). \<forall>x \<in> insert v (fst st). (x, p) \<in> (edges succs)\<^sup>+"
      using 2(5) by (auto intro: trancl.intros trancl_into_trancl)
    have "\<exists>p \<in> set (succs v). \<not> known p \<or> defective succs known p"
      using 2(1) [OF False nv s] path 2(3,4) nv by auto
    then show ?thesis
      by (auto intro: defective_step) (auto simp: defective_def)
  qed
next
  case (4 n succs known p ps st)
  show ?case
  proof (cases "known p")
    case True
    with 4(3) consider (here) s where "visit n succs known p st = Some (False, s)"
      | (later) s where "visit n succs known p st = Some (True, s)"
          "visit_list n succs known ps s = Some (False, st')"
      by (auto split: option.splits if_splits)
    then show ?thesis
    proof cases
      case here
      with 4(1) [of s] True 4(4,5,6) show ?thesis by auto
    next
      case later
      have "fst s = fst st" "finished succs known (snd s)" "fst st \<inter> snd s = {}"
        using visit_True(1) [OF later(1) 4(4,5)] by auto
      with 4(2) [of "(True, s)" True s st'] True later 4(6) show ?thesis by auto
    qed
  qed simp
qed auto

section \<open>Enough fuel\<close>

lemma visit_total:
  "card (K - fst st) < n \<Longrightarrow> finite K \<Longrightarrow> v \<in> K \<Longrightarrow> (\<And>x. known x \<Longrightarrow> x \<in> K) \<Longrightarrow>
     finished succs known (snd st) \<Longrightarrow> fst st \<inter> snd st = {} \<Longrightarrow> \<exists>r. visit n succs known v st = Some r"
  "card (K - fst st) < n \<Longrightarrow> finite K \<Longrightarrow> (\<And>x. known x \<Longrightarrow> x \<in> K) \<Longrightarrow>
     finished succs known (snd st) \<Longrightarrow> fst st \<inter> snd st = {} \<Longrightarrow> \<exists>r. visit_list n succs known ps st = Some r"
proof (induction n succs known v st and n succs known ps st rule: visit_visit_list.induct)
  case (2 n succs known v st)
  show ?case
  proof (cases "v \<in> fst st \<or> v \<in> snd st")
    case False
    have "card (K - insert v (fst st)) < card (K - fst st)"
      using False 2(3,4) by (intro psubset_card_mono) auto
    then have "card (K - fst (insert v (fst st), snd st)) < n" using 2(2) by simp
    then obtain ok st' where
      "visit_list n succs known (succs v) (insert v (fst st), snd st) = Some (ok, st')"
      using 2(1) [OF _ _ _ 2(3)] 2(5,6,7) False by fastforce
    with False show ?thesis by (cases ok) auto
  qed auto
next
  case (4 n succs known p ps st)
  show ?case
  proof (cases "known p")
    case True
    then obtain ok s where s: "visit n succs known p st = Some (ok, s)"
      using 4(1) [OF _ 4(3,4)] 4(5,6,7) by fastforce
    show ?thesis
    proof (cases ok)
      case True
      with s have "visit n succs known p st = Some (True, s)" by simp
      from visit_True(1) [OF this 4(6,7)] have "fst s = fst st" "finished succs known (snd s)"
        "fst st \<inter> snd s = {}" by auto
      with 4(2) [of "(ok, s)" ok s] s True \<open>known p\<close> 4(3,4,5) show ?thesis by auto
    qed (use s \<open>known p\<close> in auto)
  qed auto
qed auto

section \<open>Searching from every declared node\<close>

definition search_all :: "(string \<Rightarrow> string list) \<Rightarrow> string list \<Rightarrow> bool" where
  "search_all succs keys =
     (case visit_list (Suc (length keys)) succs (\<lambda>p. p \<in> set keys) keys ({}, {}) of
        None \<Rightarrow> False | Some (ok, _) \<Rightarrow> ok)"

text \<open>The fuel of \<open>search_all\<close> never runs out.\<close>

lemma search_all_fuel:
  "\<exists>r. visit_list (Suc (length keys)) succs (\<lambda>p. p \<in> set keys) keys ({}, {}) = Some r"
  by (rule visit_total(2) [of "set keys"])
    (auto simp: finished_def less_Suc_eq_le card_length)

lemma search_all_iff:
  "search_all succs keys \<longleftrightarrow>
     (\<forall>v \<in> set keys. set (succs v) \<subseteq> set keys) \<and> (\<forall>v \<in> set keys. (v, v) \<notin> (edges succs)\<^sup>+)"
proof -
  let ?known = "\<lambda>p. p \<in> set keys"
  have init: "finished succs ?known (snd ({}, {}))" "fst ({}, {}) \<inter> snd ({}, {}) = {}"
    by (simp_all add: finished_def)
  obtain ok st where r: "visit_list (Suc (length keys)) succs ?known keys ({}, {}) = Some (ok, st)"
    using search_all_fuel [of keys succs] by auto
  then have ok: "search_all succs keys = ok" by (simp add: search_all_def)
  show ?thesis
  proof (cases ok)
    case True
    with r have "visit_list (Suc (length keys)) succs ?known keys ({}, {}) = Some (True, st)" by simp
    from visit_True(2) [OF this init]
    have fin: "\<forall>v \<in> set keys. v \<in> snd st" "finished succs ?known (snd st)" by blast+
    then have "(v, v) \<notin> (edges succs)\<^sup>+ \<and> set (succs v) \<subseteq> set keys" if "v \<in> set keys" for v
      using that unfolding finished_def by blast
    with True ok show ?thesis by blast
  next
    case False
    with r have "visit_list (Suc (length keys)) succs ?known keys ({}, {}) = Some (False, st)" by simp
    from visit_False(2) [OF this init] obtain p where p: "p \<in> set keys" "defective succs ?known p"
      by auto
    have "\<exists>v \<in> set keys. \<not> set (succs v) \<subseteq> set keys \<or> (v, v) \<in> (edges succs)\<^sup>+"
    proof (rule ccontr)
      assume none: "\<not> ?thesis"
      from p obtain x where x: "(p, x) \<in> (edges succs)\<^sup>*"
        "(x, x) \<in> (edges succs)\<^sup>+ \<or> (\<exists>q \<in> set (succs x). \<not> ?known q)"
        by (auto simp: defective_def)
      from x(1) p(1) have "x \<in> set keys"
        by (induction rule: rtrancl_induct) (use none in auto)
      with x(2) none show False by auto
    qed
    with False ok show ?thesis by auto
  qed
qed

end
