(* ===== verification/Rci_Support.thy ===== *)
theory Rci_Support
  imports Rci_Warrant Rci_Graph
begin

text \<open>
  The ATMS-like support calculations of \<open>warrant/support.py\<close>: minimal support environments, the
  open boundary, standing environments, the grounded lemmas (a least fixed point computed by a
  \<open>while changed\<close> loop), the active theory, and the two acyclicity gates. Iteration over a
  Python set is modelled in sorted order; the results do not depend on it.
\<close>

section \<open>Minimal environments\<close>

definition env_rank :: "support_environment \<Rightarrow> string \<times> string \<times> string \<times> nat \<times> string list \<times> string" where
  "env_rank e = (env_scope_fingerprint e, env_binding_revision e,
     (case env_finite_universe_hash e of None \<Rightarrow> [] | Some h \<Rightarrow> h),
     length (env_assumption_ids e), env_assumption_ids e, env_id e)"

definition same_universe :: "support_environment \<Rightarrow> support_environment \<Rightarrow> bool" where
  "same_universe a b \<longleftrightarrow> env_scope_fingerprint a = env_scope_fingerprint b \<and>
     env_binding_revision a = env_binding_revision b \<and>
     env_finite_universe_hash a = env_finite_universe_hash b"

definition env_covers :: "support_environment \<Rightarrow> support_environment \<Rightarrow> bool" where
  "env_covers a b \<longleftrightarrow> same_universe a b \<and> assumptions a \<subseteq> assumptions b"

text \<open>\<open>{e.id: e for e in environments}.values()\<close>: one entry per identity, in the order in
  which the identities first appear, each with the last record of that identity.\<close>

definition unique_by_id :: "('a \<Rightarrow> string) \<Rightarrow> 'a list \<Rightarrow> 'a list" where
  "unique_by_id key xs =
     List.map_filter (\<lambda>k. index_by key xs k) (rev (remdups (rev (map key xs))))"

definition minimize_support_environments :: "support_environment list \<Rightarrow> support_environment list" where
  "minimize_support_environments environments =
     fst (keep_uncovered env_covers [] (sort_key env_rank (unique_by_id env_id environments)))"

definition compute_open_boundary ::
  "string list \<Rightarrow> support_environment \<Rightarrow> string list \<Rightarrow> string list" where
  "compute_open_boundary required e discharged =
     sorted_list_of_set (set required - (assumptions e \<union> set discharged))"

section \<open>Standing environments and applicable routes\<close>

text \<open>The records a support computation reads: owned evidence, owned verdicts and the authorised
  checkers.\<close>

record check_base =
  cb_evidence :: "evidence list"
  cb_verdicts :: "verdict_record list"
  cb_authorized :: "string list"

definition resolves :: "check_base \<Rightarrow> check_reference \<Rightarrow> string \<Rightarrow> proposition_kind \<Rightarrow> string \<Rightarrow> bool" where
  "resolves cb r proposition_id kind fp =
     fst (resolve_check_reference r (evidence_index (cb_evidence cb))
       (checker_verdict_index (cb_verdicts cb)) proposition_id kind fp (cb_authorized cb))"

definition nogood_blocks :: "check_base \<Rightarrow> string \<Rightarrow> support_environment \<Rightarrow> nogood \<Rightarrow> bool" where
  "nogood_blocks cb policy_version e n \<longleftrightarrow>
     ng_scope_fingerprint n = env_scope_fingerprint e \<and>
     ng_binding_revision n = env_binding_revision e \<and>
     ng_finite_universe_hash n = env_finite_universe_hash e \<and>
     ng_policy_version n = policy_version \<and>
     resolves cb (ng_check n) (ng_id n) Existential (ng_scope_fingerprint n) \<and>
     set (ng_incompatible_assumption_ids n) \<subseteq> assumptions e"

definition support_environment_stands ::
  "support_environment \<Rightarrow> string set \<Rightarrow> nogood list \<Rightarrow> check_base \<Rightarrow> string \<Rightarrow> bool" where
  "support_environment_stands e current nogoods cb policy_version =
    (if \<not> resolves cb (env_realizability_check e) (env_id e) Existential (env_scope_fingerprint e)
     then False
     else if \<not> assumptions e \<subseteq> current then False
     else \<not> list_ex (nogood_blocks cb policy_version e) nogoods)"

definition guard_stands :: "applicability \<Rightarrow> string set \<Rightarrow> bool" where
  "guard_stands a context \<longleftrightarrow>
     (app_condition_id a = ''always'' \<or> app_condition_id a \<in> context) \<and>
     set (app_required_context_ids a) \<subseteq> context"

definition applicability_stands :: "warranted_lemma \<Rightarrow> string set \<Rightarrow> bool" where
  "applicability_stands l context = guard_stands (lv_applicability (wl_version l)) context"

definition route_applicable ::
  "(string \<Rightarrow> digest) \<Rightarrow> warranted_lemma \<Rightarrow> support_route \<Rightarrow> string set \<Rightarrow> string set \<Rightarrow> nogood list \<Rightarrow>
     check_base \<Rightarrow> bool" where
  "route_applicable sha l r current context nogoods cb \<longleftrightarrow>
     route_in_scope sha (lv_scope (wl_version l)) r \<and>
     resolves cb (route_certificate_check r) (lv_relation_id (wl_version l))
       (lv_proposition_kind (wl_version l)) (scope_fingerprint sha (lv_scope (wl_version l))) \<and>
     applicability_stands l context \<and>
     support_environment_stands (route_environment r) current nogoods cb
       (ls_policy_version (wl_support l))"

section \<open>Grounded lemmas\<close>

text \<open>One run of the inner \<open>for\<close> loop: the grounded identities and whether any was added. The
  loop is generic in the key of an element, its eligibility and the test that it stands on what is
  grounded so far.\<close>

fun ground_pass ::
  "('l \<Rightarrow> string) \<Rightarrow> ('l \<Rightarrow> bool) \<Rightarrow> ('l \<Rightarrow> string set \<Rightarrow> bool) \<Rightarrow> 'l list \<Rightarrow> string set \<Rightarrow> bool \<Rightarrow>
     string set \<times> bool" where
  "ground_pass key eligible stands [] g changed = (g, changed)"
| "ground_pass key eligible stands (l # ls) g changed =
    (if key l \<in> g \<or> \<not> eligible l then ground_pass key eligible stands ls g changed
     else if stands l g then ground_pass key eligible stands ls (insert (key l) g) True
     else ground_pass key eligible stands ls g changed)"

lemma ground_pass_grows:
  "ground_pass key eligible stands ls g c = (g', c') \<Longrightarrow>
     g \<subseteq> g' \<and> g' \<subseteq> g \<union> key ` set ls \<and> (c' \<longleftrightarrow> c \<or> g \<noteq> g')"
  by (induction ls arbitrary: g c) (fastforce split: if_splits)+

function ground_loop ::
  "('l \<Rightarrow> string) \<Rightarrow> ('l \<Rightarrow> bool) \<Rightarrow> ('l \<Rightarrow> string set \<Rightarrow> bool) \<Rightarrow> 'l list \<Rightarrow> string set \<Rightarrow> string set" where
  "ground_loop key eligible stands ls g =
    (let (g', changed) = ground_pass key eligible stands ls g False in
     if changed then ground_loop key eligible stands ls g' else g')"
  by pat_completeness auto
termination
proof (relation "measure (\<lambda>(key, eligible, stands, ls, g). card (key ` set ls - g))")
  fix key :: "'l \<Rightarrow> string" and eligible stands ls g x g' changed
  assume x: "x = ground_pass key eligible stands ls g False" "(g', changed) = x" "changed"
  then have "g \<subset> g'" "g' \<subseteq> g \<union> key ` set ls"
    using ground_pass_grows [of key eligible stands ls g False g' changed] by auto
  then have "key ` set ls - g' \<subset> key ` set ls - g" by blast
  then have "card (key ` set ls - g') < card (key ` set ls - g)"
    by (intro psubset_card_mono) auto
  then show "((key, eligible, stands, ls, g'), key, eligible, stands, ls, g)
      \<in> measure (\<lambda>(key, eligible, stands, ls, g). card (key ` set ls - g))" by simp
qed simp

declare ground_loop.simps [simp del]

definition lemma_stands ::
  "(string \<Rightarrow> digest) \<Rightarrow> string set \<Rightarrow> string set \<Rightarrow> nogood list \<Rightarrow> check_base \<Rightarrow> warranted_lemma \<Rightarrow>
     string set \<Rightarrow> bool" where
  "lemma_stands sha current context nogoods cb l grounded =
     list_ex (\<lambda>r. route_applicable sha l r current context nogoods cb \<and>
         set (route_required_dependency_ids r) \<subseteq> grounded)
       (ls_support_routes (wl_support l))"

definition is_hard :: "warranted_lemma \<Rightarrow> bool" where
  "is_hard l \<longleftrightarrow> ls_warrant_class (wl_support l) = Hard"

definition grounded_lemma_ids ::
  "(string \<Rightarrow> digest) \<Rightarrow> warranted_lemma list \<Rightarrow> string set \<Rightarrow> string set \<Rightarrow> nogood list \<Rightarrow> check_base \<Rightarrow>
     string set" where
  "grounded_lemma_ids sha lemmas current context nogoods cb =
     ground_loop (\<lambda>l. wl_id l) is_hard (lemma_stands sha current context nogoods cb) lemmas {}"

text \<open>The specification: the least set of identities closed under "a hard lemma with an applicable
  route whose required dependencies are all in the set".\<close>

inductive derivable ::
  "('l \<Rightarrow> string) \<Rightarrow> ('l \<Rightarrow> bool) \<Rightarrow> ('l \<Rightarrow> string set \<Rightarrow> bool) \<Rightarrow> 'l list \<Rightarrow> string \<Rightarrow> bool"
  for key eligible stands ls where
  derive: "l \<in> set ls \<Longrightarrow> eligible l \<Longrightarrow> stands l D \<Longrightarrow>
     (\<And>d. d \<in> D \<Longrightarrow> derivable key eligible stands ls d) \<Longrightarrow> derivable key eligible stands ls (key l)"

text \<open>The contract of the loop: standing is monotone in what is grounded.\<close>

locale monotone_support =
  fixes key :: "'l \<Rightarrow> string" and eligible :: "'l \<Rightarrow> bool" and stands :: "'l \<Rightarrow> string set \<Rightarrow> bool"
  assumes stands_mono: "stands l A \<Longrightarrow> A \<subseteq> B \<Longrightarrow> stands l B"
begin

lemma pass_sound:
  assumes "ground_pass key eligible stands ls' g c = (g', c')" "set ls' \<subseteq> set ls"
    and "\<forall>x \<in> g. derivable key eligible stands ls x"
  shows "\<forall>x \<in> g'. derivable key eligible stands ls x"
  using assms
proof (induction ls' arbitrary: g c)
  case (Cons l ls')
  have new: "derivable key eligible stands ls (key l)" if "eligible l" "stands l g"
    using that Cons.prems(2,3) by (intro derive [of l ls eligible stands g key]) auto
  show ?case
  proof (cases "key l \<in> g \<or> \<not> eligible l \<or> \<not> stands l g")
    case True
    then have "ground_pass key eligible stands ls' g c = (g', c')"
      using Cons.prems(1) by (auto split: if_splits)
    then show ?thesis using Cons.IH Cons.prems(2,3) by auto
  next
    case False
    then have "ground_pass key eligible stands ls' (insert (key l) g) True = (g', c')"
      using Cons.prems(1) by auto
    moreover have "\<forall>x \<in> insert (key l) g. derivable key eligible stands ls x"
      using new False Cons.prems(3) by blast
    ultimately show ?thesis using Cons.IH [of "insert (key l) g" True] Cons.prems(2) by auto
  qed
qed simp

lemma pass_fixpoint:
  "ground_pass key eligible stands ls g c = (g, c') \<Longrightarrow> l \<in> set ls \<Longrightarrow> eligible l \<Longrightarrow> stands l g \<Longrightarrow> key l \<in> g"
proof (induction ls arbitrary: c)
  case (Cons m ls)
  show ?case
  proof (cases "key m \<in> g \<or> \<not> eligible m \<or> \<not> stands m g")
    case True
    then have "ground_pass key eligible stands ls g c = (g, c')"
      using Cons.prems(1) by (auto split: if_splits)
    with Cons True show ?thesis by auto
  next
    case False
    then have "ground_pass key eligible stands ls (insert (key m) g) True = (g, c')"
      using Cons.prems(1) by auto
    with ground_pass_grows have "insert (key m) g \<subseteq> g" by blast
    with False show ?thesis by blast
  qed
qed simp

lemma loop_step:
  obtains (stop) "ground_loop key eligible stands ls g = g"
      "\<And>l. l \<in> set ls \<Longrightarrow> eligible l \<Longrightarrow> stands l g \<Longrightarrow> key l \<in> g"
    | (more) g' where "ground_pass key eligible stands ls g False = (g', True)"
      "ground_loop key eligible stands ls g = ground_loop key eligible stands ls g'"
      "card (key ` set ls - g') < card (key ` set ls - g)"
proof -
  obtain g' c where p: "ground_pass key eligible stands ls g False = (g', c)" by fastforce
  show thesis
  proof (cases c)
    case True
    with ground_pass_grows [OF p] have "g \<subset> g'" "g' \<subseteq> g \<union> key ` set ls" by auto
    then have "key ` set ls - g' \<subset> key ` set ls - g" by blast
    then have "card (key ` set ls - g') < card (key ` set ls - g)" by (intro psubset_card_mono) auto
    with p True more [of g'] show thesis by (simp add: ground_loop.simps [of key eligible stands ls g])
  next
    case False
    with ground_pass_grows [OF p] have "g' = g" by auto
    with p False stop pass_fixpoint [of ls g False c] show thesis
      by (simp add: ground_loop.simps [of key eligible stands ls g])
  qed
qed

lemma loop_sound:
  assumes "\<forall>x \<in> g. derivable key eligible stands ls x"
  shows "\<forall>x \<in> ground_loop key eligible stands ls g. derivable key eligible stands ls x"
  using assms
proof (induction "card (key ` set ls - g)" arbitrary: g rule: less_induct)
  case less
  show ?case
  proof (cases rule: loop_step [of ls g])
    case (more g')
    then have "\<forall>x \<in> g'. derivable key eligible stands ls x"
      using pass_sound [of ls g False g' True ls] less.prems by blast
    with less.hyps [OF more(3)] more(2) show ?thesis by simp
  qed (use less.prems in simp)
qed

lemma loop_closed:
  assumes "l \<in> set ls" "eligible l" "stands l (ground_loop key eligible stands ls g)"
  shows "key l \<in> ground_loop key eligible stands ls g"
  using assms
proof (induction "card (key ` set ls - g)" arbitrary: g rule: less_induct)
  case less
  show ?case
    by (cases rule: loop_step [of ls g]) (use less in auto)
qed

lemma loop_iff_derivable: "x \<in> ground_loop key eligible stands ls {} \<longleftrightarrow> derivable key eligible stands ls x"
proof
  show "x \<in> ground_loop key eligible stands ls {} \<Longrightarrow> derivable key eligible stands ls x"
    using loop_sound [of "{}" ls] by blast
  show "derivable key eligible stands ls x \<Longrightarrow> x \<in> ground_loop key eligible stands ls {}"
  proof (induction rule: derivable.induct)
    case (derive l D)
    then have "stands l (ground_loop key eligible stands ls {})"
      using stands_mono [of l D] by blast
    with derive(1,2) show ?case by (rule loop_closed)
  qed
qed

end

interpretation lemma_grounding: monotone_support "\<lambda>l. wl_id l" is_hard
  "lemma_stands sha current ctx nogoods cb" for sha current ctx nogoods cb
  by unfold_locales (auto simp: lemma_stands_def list_ex_iff)

section \<open>The active theory\<close>

definition route_rank :: "support_route \<Rightarrow> nat \<times> string list \<times> string" where
  "route_rank r = (length (env_assumption_ids (route_environment r)),
     env_assumption_ids (route_environment r), route_id r)"

definition route_covers :: "support_route \<Rightarrow> support_route \<Rightarrow> bool" where
  "route_covers a b \<longleftrightarrow> route_assumptions a \<subseteq> route_assumptions b"

definition minimal_routes :: "support_route list \<Rightarrow> support_route list \<times> support_route list" where
  "minimal_routes routes = keep_uncovered route_covers [] (sort_key route_rank routes)"

text \<open>The standing of an identity after an append-only history: the last change wins, and an
  identity without a change stands.\<close>

definition route_standing :: "route_change list \<Rightarrow> string \<Rightarrow> support_standing" where
  "route_standing changes i = (case index_by rc_support_route_id changes i of
     None \<Rightarrow> Standing | Some c \<Rightarrow> rc_standing c)"

definition nogood_standing :: "nogood_change list \<Rightarrow> string \<Rightarrow> support_standing" where
  "nogood_standing changes i = (case index_by nc_nogood_id changes i of
     None \<Rightarrow> Standing | Some c \<Rightarrow> nc_standing c)"

definition lemma_selected :: "(string \<Rightarrow> digest) \<Rightarrow> theory_selector \<Rightarrow> warranted_lemma \<Rightarrow> bool" where
  "lemma_selected sha sel l \<longleftrightarrow>
     scope_fingerprint sha (lv_scope (wl_version l)) = sel_scope_fingerprint sel \<and>
     scope_binding_revision (lv_scope (wl_version l)) = sel_binding_revision sel \<and>
     scope_finite_universe_hash (lv_scope (wl_version l)) = sel_finite_universe_hash sel \<and>
     ls_policy_version (wl_support l) = sel_policy_version sel"

definition with_standing_routes :: "route_change list \<Rightarrow> warranted_lemma \<Rightarrow> warranted_lemma" where
  "with_standing_routes changes l =
    l\<lparr>wl_support := (wl_support l)\<lparr>ls_support_routes :=
        filter (\<lambda>r. route_standing changes (route_id r) = Standing) (all_support_routes (wl_support l)),
      ls_historical_support_routes := []\<rparr>\<rparr>"

definition selected_lemmas ::
  "(string \<Rightarrow> digest) \<Rightarrow> theory_selector \<Rightarrow> route_change list \<Rightarrow> warranted_lemma list \<Rightarrow> warranted_lemma list" where
  "selected_lemmas sha sel changes lemmas =
     filter (\<lambda>l. ls_support_routes (wl_support l) \<noteq> [])
       (map (with_standing_routes changes) (filter (lemma_selected sha sel) lemmas))"

definition nogood_selected :: "theory_selector \<Rightarrow> nogood_change list \<Rightarrow> nogood \<Rightarrow> bool" where
  "nogood_selected sel changes n \<longleftrightarrow>
     ng_scope_fingerprint n = sel_scope_fingerprint sel \<and>
     ng_binding_revision n = sel_binding_revision sel \<and>
     ng_finite_universe_hash n = sel_finite_universe_hash sel \<and>
     ng_policy_version n = sel_policy_version sel \<and>
     nogood_standing changes (ng_id n) = Standing"

definition lemma_view ::
  "(string \<Rightarrow> digest) \<Rightarrow> theory_selector \<Rightarrow> nogood list \<Rightarrow> check_base \<Rightarrow> string set \<Rightarrow> warranted_lemma \<Rightarrow>
     active_lemma_view result" where
  "lemma_view sha sel nogoods cb grounded l =
    (let applicable = filter (\<lambda>r. route_applicable sha l r (set (sel_current_assumption_ids sel))
             (set (sel_current_context_ids sel)) nogoods cb \<and>
           set (route_required_dependency_ids r) \<subseteq> grounded) (ls_support_routes (wl_support l));
         minimal = fst (minimal_routes applicable)
     in case minimal of
          [] \<Rightarrow> Inl (IndexError ''minimal_routes'')
        | primary # _ \<Rightarrow> construct valid_active_view ''ActiveLemmaView''
            \<lparr>alv_lemma_version_id = wl_id l, alv_relation_id = lv_relation_id (wl_version l),
             alv_standing_support_route_id = route_id primary,
             alv_standing_support_route_ids = map route_id minimal,
             alv_scope_fingerprint = sel_scope_fingerprint sel,
             alv_binding_revision = sel_binding_revision sel,
             alv_finite_universe_hash = sel_finite_universe_hash sel,
             alv_policy_version = sel_policy_version sel\<rparr>)"

definition select_active_theory ::
  "(string \<Rightarrow> digest) \<Rightarrow> warranted_lemma list \<Rightarrow> theory_selector \<Rightarrow> nogood list \<Rightarrow> route_change list \<Rightarrow>
     nogood_change list \<Rightarrow> check_base \<Rightarrow> active_lemma_view list result" where
  "select_active_theory sha lemmas sel nogoods route_changes nogood_changes cb =
    (let lemma_tuple = selected_lemmas sha sel route_changes lemmas;
         nogood_tuple = filter (nogood_selected sel nogood_changes) nogoods;
         grounded = grounded_lemma_ids sha lemma_tuple (set (sel_current_assumption_ids sel))
           (set (sel_current_context_ids sel)) nogood_tuple cb
     in collect_results (map (lemma_view sha sel nogood_tuple cb grounded)
          (filter (\<lambda>l. wl_id l \<in> grounded) (sort_key (\<lambda>l. wl_id l) lemma_tuple))))"

definition active_lemma_ids ::
  "(string \<Rightarrow> digest) \<Rightarrow> warranted_lemma list \<Rightarrow> theory_selector \<Rightarrow> nogood list \<Rightarrow> route_change list \<Rightarrow>
     nogood_change list \<Rightarrow> check_base \<Rightarrow> string set result" where
  "active_lemma_ids sha lemmas sel nogoods route_changes nogood_changes cb =
     map_sum id (\<lambda>views. set (map alv_lemma_version_id views))
       (select_active_theory sha lemmas sel nogoods route_changes nogood_changes cb)"

section \<open>Acyclicity\<close>

text \<open>A dict \<open>{version: predecessors}\<close> as its item list, the keys distinct.\<close>

definition predecessors_of :: "(string \<times> string list) list \<Rightarrow> string \<Rightarrow> string list" where
  "predecessors_of m v = (case map_of m v of None \<Rightarrow> [] | Some ps \<Rightarrow> ps)"

definition ancestry_is_acyclic :: "(string \<times> string list) list \<Rightarrow> bool" where
  "ancestry_is_acyclic m = search_all (predecessors_of m) (map fst m)"

definition support_successors :: "warranted_lemma list \<Rightarrow> string \<Rightarrow> string list" where
  "support_successors lemmas node =
    (case index_by (\<lambda>l. wl_id l) lemmas node of None \<Rightarrow> []
     | Some l \<Rightarrow> sorted_list_of_set
         (\<Union> (set (map (\<lambda>r. set (route_required_dependency_ids r)) (all_support_routes (wl_support l))))
          \<inter> set (map (\<lambda>l. wl_id l) lemmas)))"

definition support_graph_is_acyclic :: "warranted_lemma list \<Rightarrow> bool" where
  "support_graph_is_acyclic lemmas =
     search_all (support_successors lemmas) (rev (remdups (rev (map (\<lambda>l. wl_id l) lemmas))))"

section \<open>Covering\<close>

lemma canonical_psubset_length:
  "canonical xs \<Longrightarrow> canonical ys \<Longrightarrow> set xs \<subseteq> set ys \<Longrightarrow> \<not> set ys \<subseteq> set xs \<Longrightarrow> length xs < length ys"
  by (rule psubset_length) (auto simp: canonical_def)

interpretation env_order: ranked_cover env_covers env_rank valid_environment
proof unfold_locales
  fix a b
  assume v: "valid_environment a" "valid_environment b" and c: "env_covers a b" "\<not> env_covers b a"
  then have "length (env_assumption_ids a) < length (env_assumption_ids b)"
    by (intro canonical_psubset_length) (auto simp: env_covers_def same_universe_def valid_environment_def)
  with c show "env_rank a < env_rank b"
    by (simp add: env_rank_def env_covers_def same_universe_def)
qed (auto simp: env_covers_def same_universe_def)

interpretation route_order: ranked_cover route_covers route_rank valid_route
proof unfold_locales
  fix a b
  assume v: "valid_route a" "valid_route b" and c: "route_covers a b" "\<not> route_covers b a"
  then have "length (env_assumption_ids (route_environment a)) < length (env_assumption_ids (route_environment b))"
    by (intro canonical_psubset_length) (auto simp: route_covers_def valid_route_def valid_environment_def)
  then show "route_rank a < route_rank b" by (simp add: route_rank_def)
qed (auto simp: route_covers_def)

lemma set_map_filter: "set (List.map_filter f xs) = {y. \<exists>x \<in> set xs. f x = Some y}"
  by (induction xs) (auto simp: List.map_filter_simps split: option.splits)

lemma unique_by_id_subset: "set (unique_by_id key xs) \<subseteq> set xs"
  by (auto simp: unique_by_id_def set_map_filter dest: index_by_SomeD)

lemma unique_by_id_distinct:
  assumes "distinct (map key xs)"
  shows "set (unique_by_id key xs) = set xs"
proof
  show "set xs \<subseteq> set (unique_by_id key xs)"
  proof
    fix x assume x: "x \<in> set xs"
    then have "index_by key xs (key x) = Some x"
      by (simp add: index_by_distinct [OF assms] find_by_distinct [OF assms])
    with x show "x \<in> set (unique_by_id key xs)" by (auto simp: unique_by_id_def set_map_filter)
  qed
qed (rule unique_by_id_subset)

lemma minimal_routes_mset: "minimal_routes rs = (k, d) \<Longrightarrow> mset k + mset d = mset rs"
  using route_order.kept_dropped_mset [of "[]" "sort_key route_rank rs" k d]
  by (simp add: minimal_routes_def)

lemma minimal_routes_distinct:
  assumes "minimal_routes rs = (k, d)" "distinct (map route_id rs)"
  shows "distinct (map route_id (k @ d))"
proof -
  have "mset (map route_id (k @ d)) = mset (map route_id rs)"
    using minimal_routes_mset [OF assms(1)] by (metis mset_append mset_map)
  then show ?thesis using assms(2) by (metis mset_eq_imp_distinct_iff)
qed

lemma minimal_routes_set: "minimal_routes rs = (k, d) \<Longrightarrow> set k \<union> set d = set rs"
  using minimal_routes_mset [of rs k d] by (metis set_mset_mset set_mset_union)

lemma minimal_routes_nonempty: "rs \<noteq> [] \<Longrightarrow> fst (minimal_routes rs) \<noteq> []"
proof -
  assume "rs \<noteq> []"
  then have "0 < length (sort_key route_rank rs)" by simp
  then have "sort_key route_rank rs \<noteq> []" by (rule length_greater_0_conv [THEN iffD1])
  then show ?thesis
    using keep_uncovered_Nil_hd [of "sort_key route_rank rs" route_covers]
    by (auto simp: minimal_routes_def)
qed

section \<open>Views of grounded lemmas\<close>

lemma collect_results_Inr:
  "\<forall>x \<in> set xs. \<exists>v. f x = Inr v \<and> g v = h x \<Longrightarrow>
     \<exists>vs. collect_results (map f xs) = Inr vs \<and> map g vs = map h xs"
  by (induction xs) auto

lemma collect_results_set: "collect_results rs = Inr vs \<Longrightarrow> v \<in> set vs \<Longrightarrow> Inr v \<in> set rs"
  by (induction rs arbitrary: vs) (auto simp: map_sum_Inr_iff split: sum.splits)

lemma selected_route_ids:
  assumes "valid_warranted_lemma sha l"
  shows "distinct (map route_id (ls_support_routes (wl_support (with_standing_routes ch l))))"
  using assms
  by (simp add: with_standing_routes_def valid_warranted_lemma_def valid_lemma_support_def distinct_map_filter)

lemma with_standing_id [simp]: "wl_version (with_standing_routes ch l) = wl_version l"
  by (simp add: with_standing_routes_def)

lemma selected_distinct:
  assumes "distinct (map (\<lambda>l. wl_id l) lemmas)"
  shows "distinct (map (\<lambda>l. wl_id l) (selected_lemmas sha sel ch lemmas))"
proof -
  have "distinct (map (\<lambda>l. wl_id l) (map (with_standing_routes ch) (filter (lemma_selected sha sel) lemmas)))"
    using assms by (simp add: comp_def distinct_map_filter)
  then show ?thesis unfolding selected_lemmas_def by (rule distinct_map_filter)
qed

lemma grounded_stands:
  assumes "distinct (map (\<lambda>l. wl_id l) ls)" "l \<in> set ls"
    and "wl_id l \<in> grounded_lemma_ids sha ls current ctx nogoods cb"
  shows "lemma_stands sha current ctx nogoods cb l (grounded_lemma_ids sha ls current ctx nogoods cb)"
proof -
  let ?G = "grounded_lemma_ids sha ls current ctx nogoods cb"
  let ?st = "lemma_stands sha current ctx nogoods cb"
  have G: "x \<in> ?G \<longleftrightarrow> derivable (\<lambda>l. wl_id l) is_hard ?st ls x" for x
    unfolding grounded_lemma_ids_def by (rule lemma_grounding.loop_iff_derivable)
  from assms(3) have "derivable (\<lambda>l. wl_id l) is_hard ?st ls (wl_id l)" by (simp only: G)
  then obtain m D where m: "wl_id l = wl_id m" "m \<in> set ls" "?st m D" "\<forall>d \<in> D. d \<in> ?G"
    unfolding G by cases auto
  have "m = l" using assms(1,2) m(1,2) by (metis (mono_tags, lifting) distinct_map inj_onD)
  with m(3,4) lemma_grounding.stands_mono [of sha current ctx nogoods cb l D ?G] show ?thesis by blast
qed

lemma grounded_subset: "grounded_lemma_ids sha ls current ctx nogoods cb \<subseteq> (\<lambda>l. wl_id l) ` set ls"
proof
  fix x assume "x \<in> grounded_lemma_ids sha ls current ctx nogoods cb"
  then have "derivable (\<lambda>l. wl_id l) is_hard (lemma_stands sha current ctx nogoods cb) ls x"
    unfolding grounded_lemma_ids_def by (simp only: lemma_grounding.loop_iff_derivable)
  then show "x \<in> (\<lambda>l. wl_id l) ` set ls" by cases auto
qed

lemma lemma_view_ok:
  assumes "lemma_stands sha (set (sel_current_assumption_ids sel)) (set (sel_current_context_ids sel)) ngs cb l G"
    and "distinct (map route_id (ls_support_routes (wl_support l)))"
  shows "\<exists>v. lemma_view sha sel ngs cb G l = Inr v \<and> alv_lemma_version_id v = wl_id l"
proof -
  let ?ok = "\<lambda>r. route_applicable sha l r (set (sel_current_assumption_ids sel))
      (set (sel_current_context_ids sel)) ngs cb \<and> set (route_required_dependency_ids r) \<subseteq> G"
  let ?app = "filter ?ok (ls_support_routes (wl_support l))"
  have "?app \<noteq> []" using assms(1) by (auto simp: lemma_stands_def list_ex_iff filter_empty_conv)
  obtain k d where kd: "minimal_routes ?app = (k, d)" by fastforce
  then have k: "k \<noteq> []" using minimal_routes_nonempty [OF \<open>?app \<noteq> []\<close>] by simp
  have "distinct (map route_id k)"
    using minimal_routes_distinct [OF kd] assms(2) by (simp add: distinct_map_filter)
  with k kd show ?thesis
    by (cases k) (simp_all add: lemma_view_def construct_def valid_active_view_def)
qed

section \<open>Properties\<close>

text \<open>minimising support environments keeps a cover and nothing more. Over valid environments
  with distinct identities the result contains only given environments, every given environment
  is covered by a kept one of the same scope, binding and universe with no more assumptions, and
  no kept environment covers another.\<close>

theorem minimize_support_environments_exact:
  assumes "\<forall>e \<in> set es. valid_environment e" "distinct (map env_id es)"
  shows "set (minimize_support_environments es) \<subseteq> set es \<and>
    (\<forall>e \<in> set es. \<exists>m \<in> set (minimize_support_environments es). env_covers m e) \<and>
    sorted_wrt (\<lambda>a b. \<not> env_covers a b \<and> \<not> env_covers b a) (minimize_support_environments es)"
proof -
  let ?u = "sort_key env_rank (unique_by_id env_id es)"
  have u: "set ?u = set es" by (simp add: unique_by_id_distinct [OF assms(2)])
  obtain k d where kd: "keep_uncovered env_covers [] ?u = (k, d)" by fastforce
  then have m: "minimize_support_environments es = k" by (simp add: minimize_support_environments_def)
  have "set k \<subseteq> set es" using env_order.kept_subset [OF kd] u by simp
  moreover have "\<forall>e \<in> set es. \<exists>m \<in> set k. env_covers m e"
    using env_order.kept_covers_all [OF kd] u by blast
  moreover have "sorted_wrt (\<lambda>a b. \<not> env_covers a b \<and> \<not> env_covers b a) k"
    by (rule env_order.sorted_kept_antichain [OF kd]) (use assms unique_by_id_distinct in auto)
  ultimately show ?thesis by (simp only: m simp_thms)
qed

definition demo_env :: "string \<Rightarrow> string list \<Rightarrow> support_environment" where
  "demo_env i as = \<lparr>env_id = i, env_scope_fingerprint = ''s'', env_binding_revision = ''b'',
     env_assumption_ids = as, env_finite_universe_hash = None,
     env_realizability_check = \<lparr>ref_evidence_id = ''e'', ref_checker_verdict_id = ''v''\<rparr>\<rparr>"

theorem minimize_support_environments_exact_witness:
  "\<exists>m \<in> set (minimize_support_environments
       [demo_env ''x'' [''a'', ''b''], demo_env ''y'' [''a''], demo_env ''z'' [''c'']]).
     env_covers m (demo_env ''x'' [''a'', ''b''])"
proof -
  have "\<forall>e \<in> set [demo_env ''x'' [''a'', ''b''], demo_env ''y'' [''a''], demo_env ''z'' [''c'']].
      valid_environment e"
    by (simp add: demo_env_def valid_environment_def valid_check_reference_def canonical_def)
  from minimize_support_environments_exact [OF this] show ?thesis
    by (simp add: demo_env_def)
qed

text \<open>C23: the grounded lemmas are the least fixed point of support. An identity is grounded exactly
  when it can be derived by finitely many applications of the rule "a hard lemma is grounded if one
  of its routes is applicable and all the dependencies the route requires are grounded"; the loop
  reaches it in every order of the lemmas.\<close>

theorem grounded_lemma_ids_least_fixpoint:
  "x \<in> grounded_lemma_ids sha lemmas current ctx nogoods cb \<longleftrightarrow>
     derivable (\<lambda>l. wl_id l) is_hard (lemma_stands sha current ctx nogoods cb) lemmas x"
  unfolding grounded_lemma_ids_def by (rule lemma_grounding.loop_iff_derivable)

text \<open>An unsupported cycle grounds nothing. If every route of every lemma named in a set of
  identities requires a dependency in that same set, no identity of the set is grounded.\<close>

theorem unsupported_cycle_not_grounded:
  assumes "\<forall>l \<in> set lemmas. wl_id l \<in> S \<longrightarrow>
      (\<forall>r \<in> set (ls_support_routes (wl_support l)). set (route_required_dependency_ids r) \<inter> S \<noteq> {})"
  shows "grounded_lemma_ids sha lemmas current ctx nogoods cb \<inter> S = {}"
proof -
  have "x \<notin> S" if "derivable (\<lambda>l. wl_id l) is_hard (lemma_stands sha current ctx nogoods cb) lemmas x" for x
    using that
  proof (induction rule: derivable.induct)
    case (derive l D)
    then obtain r where "r \<in> set (ls_support_routes (wl_support l))" "set (route_required_dependency_ids r) \<subseteq> D"
      by (auto simp: lemma_stands_def list_ex_iff)
    with derive assms show ?case by blast
  qed
  then show ?thesis
    unfolding grounded_lemma_ids_def by (auto simp: lemma_grounding.loop_iff_derivable)
qed

definition demo_scope :: scope where
  "demo_scope = \<lparr>scope_id = ''s'', scope_binding_revision = ''b'', scope_assumption_ids = [],
     scope_applicability_guard_id = None, scope_finite_universe_hash = None, scope_closed_world = False\<rparr>"

definition demo_route :: "string \<Rightarrow> string \<Rightarrow> string list \<Rightarrow> string list \<Rightarrow> support_route" where
  "demo_route i conclusion as deps = \<lparr>route_id = i, route_conclusion_id = conclusion,
     route_environment = (demo_env (''env-'' @ i) as)\<lparr>
       env_scope_fingerprint := scope_fingerprint (\<lambda>x. x) demo_scope\<rparr>,
     route_required_dependency_ids = deps, route_open_dependency_ids = [],
     route_certificate_check = \<lparr>ref_evidence_id = ''e'', ref_checker_verdict_id = ''v''\<rparr>,
     route_warrant_refs = [''w''], route_justification_refs = [], route_provenance_refs = []\<rparr>"

definition demo_lemma :: "string \<Rightarrow> support_route list \<Rightarrow> warranted_lemma" where
  "demo_lemma i routes = \<lparr>wl_version = \<lparr>lv_id = i, lv_relation_id = ''p'', lv_proposition_kind = Existential,
       lv_scope = demo_scope, lv_applicability = \<lparr>app_condition_id = ''always'', app_required_context_ids = []\<rparr>,
       lv_source_claim_ids = [''c''], lv_predecessor_refs = []\<rparr>,
     wl_support = \<lparr>ls_lemma_version_id = i, ls_policy_version = ''pol'', ls_support_routes = routes,
       ls_historical_support_routes = [], ls_warrant_class = Hard, ls_certificate_refs = [],
       ls_provenance_refs = []\<rparr>\<rparr>"

theorem unsupported_cycle_not_grounded_witness:
  "grounded_lemma_ids (\<lambda>x. x)
     [demo_lemma ''a'' [demo_route ''ra'' ''a'' [] [''b'']], demo_lemma ''b'' [demo_route ''rb'' ''b'' [] [''a'']]]
     {} {} [] \<lparr>cb_evidence = [], cb_verdicts = [], cb_authorized = []\<rparr> \<inter> {''a'', ''b''} = {}"
  by (rule unsupported_cycle_not_grounded) (simp add: demo_lemma_def demo_route_def)

text \<open>the active theory is total and exact. For valid lemmas with distinct identities the
  selection never fails, and it yields one view per grounded lemma of the selected support class,
  in the order of the lemma identities.\<close>

theorem select_active_theory_exact:
  assumes "\<forall>l \<in> set lemmas. valid_warranted_lemma sha l" "distinct (map (\<lambda>l. wl_id l) lemmas)"
  shows "\<exists>views. select_active_theory sha lemmas sel nogoods rchanges nchanges cb = Inr views \<and>
    map alv_lemma_version_id views = sorted_list_of_set
      (grounded_lemma_ids sha (selected_lemmas sha sel rchanges lemmas)
        (set (sel_current_assumption_ids sel)) (set (sel_current_context_ids sel))
        (filter (nogood_selected sel nchanges) nogoods) cb)"
proof -
  let ?ls = "selected_lemmas sha sel rchanges lemmas"
  let ?ngs = "filter (nogood_selected sel nchanges) nogoods"
  let ?G = "grounded_lemma_ids sha ?ls (set (sel_current_assumption_ids sel))
      (set (sel_current_context_ids sel)) ?ngs cb"
  let ?picked = "filter (\<lambda>l. wl_id l \<in> ?G) (sort_key (\<lambda>l. wl_id l) ?ls)"
  have dist: "distinct (map (\<lambda>l. wl_id l) ?ls)" by (rule selected_distinct [OF assms(2)])
  have "\<forall>l \<in> set ?picked. \<exists>v. lemma_view sha sel ?ngs cb ?G l = Inr v \<and> alv_lemma_version_id v = wl_id l"
  proof
    fix l assume "l \<in> set ?picked"
    then have l: "l \<in> set ?ls" "wl_id l \<in> ?G" by auto
    then obtain m where "m \<in> set lemmas" "l = with_standing_routes rchanges m"
      by (auto simp: selected_lemmas_def)
    then have "distinct (map route_id (ls_support_routes (wl_support l)))"
      using selected_route_ids assms(1) by blast
    with grounded_stands [OF dist l] lemma_view_ok
    show "\<exists>v. lemma_view sha sel ?ngs cb ?G l = Inr v \<and> alv_lemma_version_id v = wl_id l" by blast
  qed
  from collect_results_Inr [OF this] obtain views
    where v: "collect_results (map (lemma_view sha sel ?ngs cb ?G) ?picked) = Inr views"
      "map alv_lemma_version_id views = map (\<lambda>l. wl_id l) ?picked"
    by (elim exE conjE)
  have "sorted (map (\<lambda>l. wl_id l) ?picked)" by (rule sorted_filter) simp
  moreover have "distinct (map (\<lambda>l. wl_id l) ?picked)"
  proof (rule distinct_map_filter)
    have "mset (map (\<lambda>l. wl_id l) (sort_key (\<lambda>l. wl_id l) ?ls)) = mset (map (\<lambda>l. wl_id l) ?ls)" by simp
    with dist show "distinct (map (\<lambda>l. wl_id l) (sort_key (\<lambda>l. wl_id l) ?ls))"
      using mset_eq_imp_distinct_iff by blast
  qed
  moreover have "set (map (\<lambda>l. wl_id l) ?picked) = ?G"
    using grounded_subset [of sha ?ls "set (sel_current_assumption_ids sel)"
        "set (sel_current_context_ids sel)" ?ngs cb] by (auto simp: image_iff)
  ultimately have "map (\<lambda>l. wl_id l) ?picked = sorted_list_of_set ?G"
    by (metis sorted_list_of_set.idem_if_sorted_distinct)
  with v show ?thesis by (simp add: select_active_theory_def Let_def)
qed

definition demo_selector :: theory_selector where
  "demo_selector = \<lparr>sel_scope_fingerprint = ''s'', sel_binding_revision = ''b'', sel_finite_universe_hash = None,
     sel_policy_version = ''pol'', sel_current_assumption_ids = [], sel_current_context_ids = []\<rparr>"

lemma demo_lemma_valid: "valid_warranted_lemma (\<lambda>x. x) (demo_lemma ''a'' [demo_route ''ra'' ''a'' [''h''] []])"
proof -
  have "scope_fingerprint (\<lambda>x. x) demo_scope \<noteq> []"
    by (simp add: scope_fingerprint_def content_fingerprint_def)
  then show ?thesis
    by (simp add: valid_warranted_lemma_def demo_lemma_def demo_route_def valid_lemma_version_def
        demo_scope_def valid_scope_def valid_applicability_def valid_lemma_support_def
        all_support_routes_def valid_route_def demo_env_def valid_environment_def
        valid_check_reference_def canonical_def route_in_scope_def)
qed

theorem select_active_theory_exact_witness:
  "\<exists>views. select_active_theory (\<lambda>x. x) [demo_lemma ''a'' [demo_route ''ra'' ''a'' [''h''] []]]
     demo_selector [] [] [] \<lparr>cb_evidence = [], cb_verdicts = [], cb_authorized = []\<rparr> = Inr views"
  using select_active_theory_exact [of "[demo_lemma ''a'' [demo_route ''ra'' ''a'' [''h''] []]]" "\<lambda>x. x"]
    demo_lemma_valid by fastforce

text \<open>the ancestry gate accepts a version map exactly when every predecessor is itself a version
  of the map and no version is its own proper ancestor; the depth-first search always terminates
  with an answer.\<close>

theorem ancestry_is_acyclic_iff:
  "ancestry_is_acyclic m \<longleftrightarrow>
     (\<Union>v \<in> fst ` set m. set (predecessors_of m v)) \<subseteq> fst ` set m \<and>
     acyclic {(v, p). p \<in> set (predecessors_of m v)}"
proof -
  have "v \<in> fst ` set m" if "(v, p) \<in> {(v, p). p \<in> set (predecessors_of m v)}\<^sup>+" for v p
  proof -
    from tranclD [OF that] obtain q where "q \<in> set (predecessors_of m v)" by blast
    then have "map_of m v \<noteq> None" by (cases "map_of m v") (simp_all add: predecessors_of_def)
    then show ?thesis by (simp add: map_of_eq_None_iff)
  qed
  then have "(\<forall>v \<in> fst ` set m. (v, v) \<notin> {(v, p). p \<in> set (predecessors_of m v)}\<^sup>+) \<longleftrightarrow>
      acyclic {(v, p). p \<in> set (predecessors_of m v)}"
    unfolding acyclic_def by meson
  then show ?thesis
    unfolding ancestry_is_acyclic_def search_all_iff set_map UN_subset_iff by (simp only:)
qed

text \<open>the support gate accepts a set of lemmas exactly when the graph of required dependencies
  among the lemmas has no cycle.\<close>

theorem support_graph_is_acyclic_iff:
  "support_graph_is_acyclic lemmas \<longleftrightarrow> acyclic {(v, p). p \<in> set (support_successors lemmas v)}"
proof -
  let ?keys = "rev (remdups (rev (map (\<lambda>l. wl_id l) lemmas)))"
  have fin: "finite (A \<inter> set (map (\<lambda>l. wl_id l) lemmas))" for A by simp
  have sub: "set (support_successors lemmas v) \<subseteq> set ?keys" for v
    by (auto simp: support_successors_def set_sorted_list_of_set [OF fin] split: option.splits)
  have dom: "v \<in> set ?keys" if "p \<in> set (support_successors lemmas v)" for v p
  proof (rule ccontr)
    assume "v \<notin> set ?keys"
    then have "index_by (\<lambda>l. wl_id l) lemmas v = None" by (simp add: index_by_None_iff)
    with that show False by (simp add: support_successors_def)
  qed
  have "v \<in> set ?keys" if "(v, v) \<in> {(v, p). p \<in> set (support_successors lemmas v)}\<^sup>+" for v
    using tranclD [OF that] dom by blast
  then show ?thesis
    unfolding support_graph_is_acyclic_def search_all_iff acyclic_def using sub by blast
qed

end
