(* ===== verification/Rci_Policy.thy ===== *)
theory Rci_Policy
  imports Rci_Support
begin

text \<open>
  The warrant policy of \<open>warrant/policy.py\<close>: the warrant class an evidence/check pair earns and
  the gates a promotion passes before a lemma is created. A promotion may also raise: the lemma
  records it builds are validated, and a failed validation is a \<open>ValidationError\<close> and not a
  rejection.
\<close>

datatype promotion_outcome = Accepted | Rejected

record promotion_decision =
  pd_outcome :: promotion_outcome
  pd_warrant_class :: warrant_class
  pd_reason :: string
  pd_lemma :: "warranted_lemma option"

definition valid_promotion_decision :: "promotion_decision \<Rightarrow> bool" where
  "valid_promotion_decision d \<longleftrightarrow> (pd_outcome d = Accepted) = (pd_lemma d \<noteq> None)"

definition rejected :: "warrant_class \<Rightarrow> string \<Rightarrow> promotion_decision" where
  "rejected w reason = \<lparr>pd_outcome = Rejected, pd_warrant_class = w, pd_reason = reason, pd_lemma = None\<rparr>"

section \<open>The warrant of one piece of evidence\<close>

definition decide_evidence_warrant ::
  "(string \<Rightarrow> digest) \<Rightarrow> evidence \<Rightarrow> verdict_record \<Rightarrow> string \<Rightarrow> proposition_kind \<Rightarrow> scope \<Rightarrow> string list \<Rightarrow>
     warrant_class \<times> string" where
  "decide_evidence_warrant sha e v proposition_id kind sc authorized =
    (if ev_kind e \<in> {ModelOutput, Reification}
     then (NoWarrant, ''model output and reification provide no warrant'')
     else
       let (checked, reason) =
         validate_checked_evidence e v proposition_id kind (scope_fingerprint sha sc) authorized in
       if \<not> checked then (NoWarrant, reason)
       else if ev_kind e = IndependentWitness then
         (if kind \<noteq> Existential then (NoWarrant, ''a witness warrants only its exact existential'')
          else (Hard, ''exact scoped existential witness''))
       else if ev_kind e = ExhaustiveUnsat then
         (if ev_closed_finite_universe e \<and>
             (\<not> scope_closed_world sc \<or> scope_finite_universe_hash sc = None \<or>
              ev_finite_universe_hash e \<noteq> scope_finite_universe_hash sc)
          then (NoWarrant, ''closed-finite evidence does not match the scoped universe'')
          else if ev_closed_finite_universe e
          then (Hard, ''exhaustive UNSAT over a closed finite universe'')
          else (Soft, ''UNSAT universe was not declared closed''))
       else if ev_kind e = Z3Unsat then (SolverTrusted, ''Z3-only UNSAT remains soft'')
       else if ev_kind e \<in> {Heuristic, Retrieval, ObservationEvidence}
       then (Soft, ''policy-authorized evidence is provisional support'')
       else (NoWarrant, ''unsupported evidence kind''))"

section \<open>Promotion\<close>

record promotion_request =
  pr_lemma_id :: string
  pr_relation_id :: string
  pr_proposition_kind :: proposition_kind
  pr_scope :: scope
  pr_applicability :: applicability
  pr_support_routes :: "support_route list"
  pr_evidence :: evidence
  pr_checker_verdict :: verdict_record
  pr_check_base :: check_base
  pr_policy_version :: string
  pr_provenance_refs :: "string list"
  pr_source_claim_ids :: "string list"
  pr_predecessor_refs :: "string list"
  pr_existing_lemmas :: "warranted_lemma list"
  pr_current_assumption_ids :: "string list"
  pr_current_context_ids :: "string list"

definition referenced_verdict_ids :: "promotion_request \<Rightarrow> string set" where
  "referenced_verdict_ids p = insert (cv_id (pr_checker_verdict p))
     (\<Union> (set (map (\<lambda>r. {ref_checker_verdict_id (route_certificate_check r),
        ref_checker_verdict_id (env_realizability_check (route_environment r))}) (pr_support_routes p))))"

text \<open>The sorted digests of the certificates behind the referenced verdicts, one per verdict.\<close>

definition certificate_refs :: "promotion_request \<Rightarrow> string list" where
  "certificate_refs p = sort (List.map_filter
     (\<lambda>i. case checker_verdict_index (cb_verdicts (pr_check_base p)) i of None \<Rightarrow> None
        | Some v \<Rightarrow> map_option art_digest (cv_certificate_artifact v))
     (sorted_list_of_set (referenced_verdict_ids p)))"

definition candidate_version :: "promotion_request \<Rightarrow> lemma_version" where
  "candidate_version p = \<lparr>lv_id = pr_lemma_id p, lv_relation_id = pr_relation_id p,
     lv_proposition_kind = pr_proposition_kind p, lv_scope = pr_scope p,
     lv_applicability = pr_applicability p, lv_source_claim_ids = pr_source_claim_ids p,
     lv_predecessor_refs = pr_predecessor_refs p\<rparr>"

definition candidate_support :: "promotion_request \<Rightarrow> lemma_support" where
  "candidate_support p =
    (let (minimal, historical) = minimal_routes (pr_support_routes p) in
     \<lparr>ls_lemma_version_id = pr_lemma_id p, ls_policy_version = pr_policy_version p,
      ls_support_routes = minimal, ls_historical_support_routes = historical,
      ls_warrant_class = Hard, ls_certificate_refs = certificate_refs p,
      ls_provenance_refs = pr_provenance_refs p\<rparr>)"

definition candidate_lemma :: "(string \<Rightarrow> digest) \<Rightarrow> promotion_request \<Rightarrow> warranted_lemma result" where
  "candidate_lemma sha p =
    (if \<not> valid_lemma_version (candidate_version p) then Inl (ValidationError ''LemmaVersion'')
     else if \<not> valid_lemma_support (candidate_support p) then Inl (ValidationError ''LemmaSupport'')
     else construct (valid_warranted_lemma sha) ''WarrantedLemma''
       \<lparr>wl_version = candidate_version p, wl_support = candidate_support p\<rparr>)"

text \<open>\<open>{lemma.id: lemma.version.predecessor_refs for lemma in all_lemmas}\<close>.\<close>

definition predecessor_map :: "warranted_lemma list \<Rightarrow> (string \<times> string list) list" where
  "predecessor_map lemmas =
     map (\<lambda>l. (wl_id l, lv_predecessor_refs (wl_version l))) (unique_by_id (\<lambda>l. wl_id l) lemmas)"

definition same_support_class :: "(string \<Rightarrow> digest) \<Rightarrow> promotion_request \<Rightarrow> warranted_lemma list" where
  "same_support_class sha p = filter (\<lambda>l.
     scope_fingerprint sha (lv_scope (wl_version l)) = scope_fingerprint sha (pr_scope p) \<and>
     scope_binding_revision (lv_scope (wl_version l)) = scope_binding_revision (pr_scope p) \<and>
     scope_finite_universe_hash (lv_scope (wl_version l)) = scope_finite_universe_hash (pr_scope p) \<and>
     ls_policy_version (wl_support l) = pr_policy_version p) (pr_existing_lemmas p)"

definition grounded_dependencies :: "(string \<Rightarrow> digest) \<Rightarrow> promotion_request \<Rightarrow> string set" where
  "grounded_dependencies sha p = grounded_lemma_ids sha (same_support_class sha p)
     (set (pr_current_assumption_ids p)) (set (pr_current_context_ids p)) [] (pr_check_base p)"

definition closed_route :: "(string \<Rightarrow> digest) \<Rightarrow> promotion_request \<Rightarrow> support_route \<Rightarrow> bool" where
  "closed_route sha p r \<longleftrightarrow>
     route_open_dependency_ids r = [] \<and>
     set (route_required_dependency_ids r) \<subseteq> grounded_dependencies sha p \<and>
     resolves (pr_check_base p) (route_certificate_check r) (pr_relation_id p)
       (pr_proposition_kind p) (scope_fingerprint sha (pr_scope p)) \<and>
     resolves (pr_check_base p) (env_realizability_check (route_environment r))
       (env_id (route_environment r)) Existential (scope_fingerprint sha (pr_scope p)) \<and>
     route_in_scope sha (pr_scope p) r"

definition decide_promotion ::
  "(string \<Rightarrow> digest) \<Rightarrow> promotion_request \<Rightarrow> promotion_decision result" where
  "decide_promotion sha p =
    (let cb = pr_check_base p; e = pr_evidence p; v = pr_checker_verdict p in
     if pr_policy_version p = []
     then Inr (rejected NoWarrant ''promotion requires an exact warrant-policy version'')
     else if evidence_index (cb_evidence cb) (ev_id e) \<noteq> Some e
     then Inr (rejected NoWarrant ''promotion evidence is not an owned immutable record'')
     else if checker_verdict_index (cb_verdicts cb) (cv_id v) \<noteq> Some v
     then Inr (rejected NoWarrant ''promotion checker verdict is not an owned immutable record'')
     else
       let (warrant_class, reason) = decide_evidence_warrant sha e v (pr_relation_id p)
             (pr_proposition_kind p) (pr_scope p) (cb_authorized cb) in
       if warrant_class \<noteq> Hard then Inr (rejected warrant_class reason)
       else if pr_support_routes p = []
       then Inr (rejected NoWarrant ''promotion requires an explicit support environment'')
       else if list_ex (\<lambda>r. route_conclusion_id r \<noteq> pr_lemma_id p) (pr_support_routes p)
       then Inr (rejected NoWarrant ''support route conclusion does not match the proposed lemma'')
       else (case candidate_lemma sha p of
           Inl err \<Rightarrow> Inl err
         | Inr candidate \<Rightarrow>
           let all_lemmas = pr_existing_lemmas p @ [candidate] in
           if \<not> support_graph_is_acyclic all_lemmas
           then Inr (rejected NoWarrant
                  ''positive support cycle rejected atomically by the active milestone'')
           else if \<not> ancestry_is_acyclic (predecessor_map all_lemmas)
           then Inr (rejected NoWarrant ''authoritative version ancestry would become cyclic'')
           else if \<not> guard_stands (pr_applicability p) (set (pr_current_context_ids p))
           then Inr (rejected NoWarrant
                  ''the applicability guard is not active in the checked context'')
           else if \<not> list_ex (closed_route sha p) (ls_support_routes (wl_support candidate))
           then Inr (rejected NoWarrant
                  ''no support route is dependency-closed and independently realizable'')
           else Inr \<lparr>pd_outcome = Accepted, pd_warrant_class = Hard, pd_reason = reason,
                     pd_lemma = Some candidate\<rparr>))"

section \<open>What a hard warrant needs\<close>

definition hard_evidence ::
  "(string \<Rightarrow> digest) \<Rightarrow> evidence \<Rightarrow> verdict_record \<Rightarrow> string \<Rightarrow> proposition_kind \<Rightarrow> scope \<Rightarrow> string set \<Rightarrow> bool" where
  "hard_evidence sha e v proposition_id kind sc authorized \<longleftrightarrow>
     checked_pair e v proposition_id kind (scope_fingerprint sha sc) authorized \<and>
     (ev_kind e = IndependentWitness \<and> kind = Existential \<or>
      ev_kind e = ExhaustiveUnsat \<and> ev_closed_finite_universe e \<and> scope_closed_world sc \<and>
      scope_finite_universe_hash sc \<noteq> None \<and>
      ev_finite_universe_hash e = scope_finite_universe_hash sc)"

lemma decide_evidence_hard_iff:
  "fst (decide_evidence_warrant sha e v p k sc auth) = Hard \<longleftrightarrow>
     hard_evidence sha e v p k sc (set auth)"
proof -
  obtain c w where cw: "validate_checked_evidence e v p k (scope_fingerprint sha sc) auth = (c, w)"
    by fastforce
  have c: "c \<longleftrightarrow> checked_pair e v p k (scope_fingerprint sha sc) (set auth)"
    using validate_checked_iff [of e v p k "scope_fingerprint sha sc" auth] cw by simp
  show ?thesis
    unfolding decide_evidence_warrant_def hard_evidence_def cw c [symmetric]
    by (cases "ev_kind e") (simp_all split: if_splits)
qed

lemma rejected_sel [simp]:
  "pd_outcome (rejected w r) = Rejected" "pd_lemma (rejected w r) = None"
  "pd_warrant_class (rejected w r) = w"
  by (simp_all add: rejected_def)

text \<open>The gates of an accepted promotion, as the branches test them; \<open>Rci_Promotion\<close> states what they mean.\<close>

definition promotion_gates :: "(string \<Rightarrow> digest) \<Rightarrow> promotion_request \<Rightarrow> warranted_lemma \<Rightarrow> bool" where
  "promotion_gates sha p candidate \<longleftrightarrow>
     pr_policy_version p \<noteq> [] \<and>
     evidence_index (cb_evidence (pr_check_base p)) (ev_id (pr_evidence p)) = Some (pr_evidence p) \<and>
     checker_verdict_index (cb_verdicts (pr_check_base p)) (cv_id (pr_checker_verdict p))
       = Some (pr_checker_verdict p) \<and>
     hard_evidence sha (pr_evidence p) (pr_checker_verdict p) (pr_relation_id p)
       (pr_proposition_kind p) (pr_scope p) (set (cb_authorized (pr_check_base p))) \<and>
     pr_support_routes p \<noteq> [] \<and>
     list_all (\<lambda>r. route_conclusion_id r = pr_lemma_id p) (pr_support_routes p) \<and>
     candidate_lemma sha p = Inr candidate \<and>
     support_graph_is_acyclic (pr_existing_lemmas p @ [candidate]) \<and>
     ancestry_is_acyclic (predecessor_map (pr_existing_lemmas p @ [candidate])) \<and>
     guard_stands (pr_applicability p) (set (pr_current_context_ids p)) \<and>
     list_ex (closed_route sha p) (ls_support_routes (wl_support candidate))"

lemma decide_promotion_accepted_iff:
  "(\<exists>d. decide_promotion sha p = Inr d \<and> pd_outcome d = Accepted \<and> pd_lemma d = Some candidate) \<longleftrightarrow>
     promotion_gates sha p candidate"
proof -
  obtain w r where wr: "decide_evidence_warrant sha (pr_evidence p) (pr_checker_verdict p) (pr_relation_id p)
             (pr_proposition_kind p) (pr_scope p) (cb_authorized (pr_check_base p)) = (w, r)"
    by fastforce
  have w: "w = Hard \<longleftrightarrow> hard_evidence sha (pr_evidence p) (pr_checker_verdict p) (pr_relation_id p)
       (pr_proposition_kind p) (pr_scope p) (set (cb_authorized (pr_check_base p)))"
    using decide_evidence_hard_iff [of sha "pr_evidence p" "pr_checker_verdict p" "pr_relation_id p"
        "pr_proposition_kind p" "pr_scope p" "cb_authorized (pr_check_base p)"] wr by simp
  have ex: "\<not> list_ex (\<lambda>r. route_conclusion_id r \<noteq> pr_lemma_id p) (pr_support_routes p) \<longleftrightarrow>
      list_all (\<lambda>r. route_conclusion_id r = pr_lemma_id p) (pr_support_routes p)"
    by (auto simp: list_ex_iff list_all_iff)
  show ?thesis
    unfolding promotion_gates_def w [symmetric] ex [symmetric] decide_promotion_def wr Let_def
    by (cases "candidate_lemma sha p") (auto split: if_splits)
qed

lemma candidate_lemma_InrD:
  "candidate_lemma sha p = Inr l \<Longrightarrow>
     l = \<lparr>wl_version = candidate_version p, wl_support = candidate_support p\<rparr> \<and> valid_warranted_lemma sha l"
  by (auto simp: candidate_lemma_def construct_def split: if_splits)

lemma minimal_routes_covered:
  "minimal_routes rs = (k, d) \<Longrightarrow> h \<in> set d \<Longrightarrow> \<exists>c \<in> set k. route_covers c h"
  unfolding minimal_routes_def by (rule keep_uncovered_dropped)

text \<open>Splitting is stable: the kept routes followed by the dominated ones split the same way, so the
  routes stored in a promotion event lead to the same lemma when the promotion is decided again.\<close>

section \<open>A concrete promotion\<close>

definition demo_artifact :: "string \<Rightarrow> artifact_ref" where
  "demo_artifact d = \<lparr>art_algorithm = ''sha256'', art_digest = d, art_size = 1, art_media_type = None,
     art_encoding = None\<rparr>"

definition demo_evidence :: "string \<Rightarrow> string \<Rightarrow> evidence" where
  "demo_evidence i proposition = \<lparr>ev_id = i, ev_kind = IndependentWitness, ev_proposition_id = proposition,
     ev_proposition_kind = Existential, ev_scope_fingerprint = scope_fingerprint (\<lambda>x. x) demo_scope,
     ev_artifact = demo_artifact ''a'', ev_closed_finite_universe = False, ev_finite_universe_hash = None\<rparr>"

definition demo_verdict :: "string \<Rightarrow> string \<Rightarrow> string \<Rightarrow> string \<Rightarrow> verdict_record" where
  "demo_verdict i e proposition certificate = \<lparr>cv_id = i, cv_evidence_id = e,
     cv_evidence_artifact = demo_artifact ''a'', cv_proposition_id = proposition,
     cv_proposition_kind = Existential, cv_scope_fingerprint = scope_fingerprint (\<lambda>x. x) demo_scope,
     cv_checker_id = ''checker'', cv_checker_version = ''1'', cv_verdict = Valid,
     cv_verdict_artifact = demo_artifact ''a'', cv_certificate_artifact = Some (demo_artifact certificate)\<rparr>"

text \<open>A promotion of the relation \<open>p\<close> by one route whose certificate check and realizability check
  have the given certificate digests.\<close>

definition demo_promotion :: "string \<Rightarrow> string \<Rightarrow> promotion_request" where
  "demo_promotion c1 c2 = \<lparr>pr_lemma_id = ''L'', pr_relation_id = ''p'', pr_proposition_kind = Existential,
     pr_scope = demo_scope,
     pr_applicability = \<lparr>app_condition_id = ''always'', app_required_context_ids = []\<rparr>,
     pr_support_routes = [(demo_route ''r'' ''L'' [] [])\<lparr>route_environment :=
        (route_environment (demo_route ''r'' ''L'' [] []))\<lparr>env_realizability_check :=
           \<lparr>ref_evidence_id = ''e2'', ref_checker_verdict_id = ''v2''\<rparr>\<rparr>\<rparr>],
     pr_evidence = demo_evidence ''e'' ''p'', pr_checker_verdict = demo_verdict ''v'' ''e'' ''p'' c1,
     pr_check_base = \<lparr>cb_evidence = [demo_evidence ''e'' ''p'', demo_evidence ''e2'' ''env-r''],
       cb_verdicts = [demo_verdict ''v'' ''e'' ''p'' c1, demo_verdict ''v2'' ''e2'' ''env-r'' c2],
       cb_authorized = [''checker'']\<rparr>,
     pr_policy_version = ''pol'', pr_provenance_refs = [], pr_source_claim_ids = [''c''],
     pr_predecessor_refs = [], pr_existing_lemmas = [], pr_current_assumption_ids = [],
     pr_current_context_ids = []\<rparr>"

lemma demo_certificate_refs: "certificate_refs (demo_promotion c1 c2) = sort [c1, c2]"
proof -
  have ids: "referenced_verdict_ids (demo_promotion c1 c2) = {''v'', ''v2''}"
    by (auto simp: referenced_verdict_ids_def demo_promotion_def demo_route_def demo_env_def demo_verdict_def)
  have sl: "sorted_list_of_set {''v'', ''v2''} = [''v'', ''v2'']"
    by (rule sorted_list_of_set.sorted_key_list_of_set_unique [THEN iffD1]) simp_all
  show ?thesis
    unfolding certificate_refs_def ids sl
    by (simp add: demo_promotion_def checker_verdict_index_def index_by_def demo_verdict_def
        demo_artifact_def List.map_filter_simps)
qed

lemma demo_version_valid: "valid_lemma_version (candidate_version (demo_promotion c1 c2))"
  by (simp add: candidate_version_def demo_promotion_def valid_lemma_version_def valid_scope_def
      demo_scope_def valid_applicability_def)

lemma demo_fp_nonempty: "scope_fingerprint (\<lambda>x. x) demo_scope \<noteq> []"
  by (simp add: scope_fingerprint_def content_fingerprint_def)

lemma demo_support:
  "ls_support_routes (candidate_support (demo_promotion c1 c2)) = pr_support_routes (demo_promotion c1 c2)"
  "ls_historical_support_routes (candidate_support (demo_promotion c1 c2)) = []"
  "ls_certificate_refs (candidate_support (demo_promotion c1 c2)) = sort [c1, c2]"
  by (simp_all add: candidate_support_def minimal_routes_def demo_certificate_refs del: sort_key_simps)
     (simp_all add: demo_promotion_def)

lemma demo_support_valid:
  assumes "c1 \<noteq> c2"
  shows "valid_lemma_support (candidate_support (demo_promotion c1 c2))"
  using assms demo_fp_nonempty
  by (simp add: valid_lemma_support_def all_support_routes_def demo_support)
     (simp add: demo_promotion_def candidate_support_def split_beta minimal_routes_def demo_route_def
       demo_env_def valid_route_def valid_environment_def valid_check_reference_def canonical_def)

lemma demo_candidate:
  assumes "c1 \<noteq> c2"
  shows "candidate_lemma (\<lambda>x. x) (demo_promotion c1 c2) =
    Inr \<lparr>wl_version = candidate_version (demo_promotion c1 c2),
         wl_support = candidate_support (demo_promotion c1 c2)\<rparr>"
  using demo_support_valid [OF assms] demo_version_valid [of c1 c2]
  by (simp add: candidate_lemma_def construct_def valid_warranted_lemma_def all_support_routes_def demo_support)
     (simp add: demo_promotion_def candidate_version_def candidate_support_def split_beta
       route_in_scope_def demo_route_def demo_env_def demo_scope_def)

lemma demo_gates:
  assumes "c1 \<noteq> c2"
  shows "promotion_gates (\<lambda>x. x) (demo_promotion c1 c2)
     \<lparr>wl_version = candidate_version (demo_promotion c1 c2),
      wl_support = candidate_support (demo_promotion c1 c2)\<rparr>"
proof -
  let ?p = "demo_promotion c1 c2"
  let ?l = "\<lparr>wl_version = candidate_version ?p, wl_support = candidate_support ?p\<rparr>"
  have succ: "support_successors [?l] v = []" for v
    by (simp add: support_successors_def index_by_def all_support_routes_def demo_support)
       (simp add: demo_promotion_def demo_route_def)
  have "support_graph_is_acyclic [?l]"
    by (simp add: support_graph_is_acyclic_def search_all_iff succ)
  moreover have "ancestry_is_acyclic (predecessor_map [?l])"
    by (simp add: ancestry_is_acyclic_def predecessor_map_def unique_by_id_def index_by_def
        List.map_filter_simps search_all_def predecessors_of_def candidate_version_def demo_promotion_def)
  moreover have "closed_route (\<lambda>x. x) ?p (hd (pr_support_routes ?p))"
    by (simp add: closed_route_def demo_promotion_def demo_route_def resolves_def resolve_check_iff
        evidence_index_def checker_verdict_index_def index_by_def demo_evidence_def demo_verdict_def
        checked_pair_def demo_env_def route_in_scope_def) (simp add: demo_scope_def)
  moreover have "hard_evidence (\<lambda>x. x) (pr_evidence ?p) (pr_checker_verdict ?p) (pr_relation_id ?p)
       (pr_proposition_kind ?p) (pr_scope ?p) (set (cb_authorized (pr_check_base ?p)))"
    by (simp add: demo_promotion_def hard_evidence_def checked_pair_def demo_evidence_def demo_verdict_def)
  ultimately show ?thesis
    unfolding promotion_gates_def demo_candidate [OF assms]
    by (simp add: demo_support)
       (simp add: demo_promotion_def evidence_index_def checker_verdict_index_def index_by_def
         demo_evidence_def demo_verdict_def demo_route_def guard_stands_def)
qed

section \<open>Properties\<close>

text \<open>C25: hard warrant is exact. The policy grants the HARD class exactly to independently checked
  evidence pinned to the same evidence record, artifact, proposition, kind and scope by an
  authorised checker with a VALID certified verdict, that is either a witness of an existential
  proposition or an exhaustive UNSAT over the closed finite universe of the scope. Model output,
  reification, retrieval, heuristics, observations and a solver-only UNSAT never reach it.\<close>

theorem hard_warrant_exact:
  "fst (decide_evidence_warrant sha e v proposition_id kind sc authorized) = Hard \<longleftrightarrow>
     checked_pair e v proposition_id kind (scope_fingerprint sha sc) (set authorized) \<and>
     (ev_kind e = IndependentWitness \<and> kind = Existential \<or>
      ev_kind e = ExhaustiveUnsat \<and> ev_closed_finite_universe e \<and> scope_closed_world sc \<and>
      scope_finite_universe_hash sc \<noteq> None \<and>
      ev_finite_universe_hash e = scope_finite_universe_hash sc)"
  unfolding decide_evidence_hard_iff hard_evidence_def ..

text \<open>an accepted lemma is well formed and loses no support. It is a valid lemma of the request's
  scope with a hard warrant; its minimal and historical routes together are exactly the requested
  routes; the minimal ones form an antichain, and each historical one is covered by a minimal one.\<close>

theorem accepted_lemma_keeps_support:
  assumes "decide_promotion sha p = Inr d" "pd_outcome d = Accepted" "pd_lemma d = Some l"
  shows "valid_warranted_lemma sha l \<and> ls_warrant_class (wl_support l) = Hard \<and>
    lv_scope (wl_version l) = pr_scope p \<and>
    mset (all_support_routes (wl_support l)) = mset (pr_support_routes p) \<and>
    (\<forall>h \<in> set (ls_historical_support_routes (wl_support l)).
       \<exists>c \<in> set (ls_support_routes (wl_support l)). route_assumptions c \<subseteq> route_assumptions h) \<and>
    antichain (map route_assumptions (ls_support_routes (wl_support l)))"
proof -
  have "promotion_gates sha p l" using assms decide_promotion_accepted_iff by blast
  then have c: "candidate_lemma sha p = Inr l" by (simp add: promotion_gates_def)
  obtain k h where kh: "minimal_routes (pr_support_routes p) = (k, h)" by fastforce
  have l: "l = \<lparr>wl_version = candidate_version p, wl_support = candidate_support p\<rparr>"
    and v: "valid_warranted_lemma sha l" using candidate_lemma_InrD [OF c] by blast+
  have "antichain (map route_assumptions (ls_support_routes (wl_support l)))"
    using v by (simp add: valid_warranted_lemma_def valid_lemma_support_def)
  with l v kh minimal_routes_mset [OF kh] minimal_routes_covered [OF kh] show ?thesis
    by (simp add: candidate_support_def candidate_version_def all_support_routes_def route_covers_def)
qed

theorem accepted_lemma_keeps_support_witness:
  "\<exists>d l. decide_promotion (\<lambda>x. x) (demo_promotion ''c1'' ''c2'') = Inr d \<and> pd_lemma d = Some l \<and>
     mset (all_support_routes (wl_support l)) = mset (pr_support_routes (demo_promotion ''c1'' ''c2''))"
proof -
  obtain d l where d: "decide_promotion (\<lambda>x. x) (demo_promotion ''c1'' ''c2'') = Inr d"
      "pd_outcome d = Accepted" "pd_lemma d = Some l"
    using demo_gates [of "''c1''" "''c2''"] decide_promotion_accepted_iff by fastforce
  with accepted_lemma_keeps_support [OF d] show ?thesis by blast
qed

text \<open>C27: two certificates with one digest make a promotion raise. If the early gates pass and two
  of the referenced verdicts carry certificates with the same digest, the decision is not a
  rejection: building the lemma support fails with a validation error.\<close>

theorem shared_certificate_raises:
  assumes "pr_policy_version p \<noteq> []"
    and "evidence_index (cb_evidence (pr_check_base p)) (ev_id (pr_evidence p)) = Some (pr_evidence p)"
    and "checker_verdict_index (cb_verdicts (pr_check_base p)) (cv_id (pr_checker_verdict p))
       = Some (pr_checker_verdict p)"
    and "hard_evidence sha (pr_evidence p) (pr_checker_verdict p) (pr_relation_id p)
       (pr_proposition_kind p) (pr_scope p) (set (cb_authorized (pr_check_base p)))"
    and "pr_support_routes p \<noteq> []" "\<forall>r \<in> set (pr_support_routes p). route_conclusion_id r = pr_lemma_id p"
    and "valid_lemma_version (candidate_version p)" "\<not> distinct (certificate_refs p)"
  shows "decide_promotion sha p = Inl (ValidationError ''LemmaSupport'')"
proof -
  have "\<not> valid_lemma_support (candidate_support p)"
    using assms(8) by (simp add: valid_lemma_support_def candidate_support_def split_beta)
  then have c: "candidate_lemma sha p = Inl (ValidationError ''LemmaSupport'')"
    using assms(7) by (simp add: candidate_lemma_def)
  obtain w r where wr: "decide_evidence_warrant sha (pr_evidence p) (pr_checker_verdict p) (pr_relation_id p)
             (pr_proposition_kind p) (pr_scope p) (cb_authorized (pr_check_base p)) = (w, r)"
    by fastforce
  then have "w = Hard" using assms(4) by (metis decide_evidence_hard_iff fst_conv)
  with wr c assms(1-3,5,6) show ?thesis by (auto simp: decide_promotion_def Let_def list_ex_iff)
qed

theorem shared_certificate_raises_witness:
  "decide_promotion (\<lambda>x. x) (demo_promotion ''c'' ''c'') = Inl (ValidationError ''LemmaSupport'')"
proof (rule shared_certificate_raises)
  show "\<not> distinct (certificate_refs (demo_promotion ''c'' ''c''))" by (simp add: demo_certificate_refs)
  show "valid_lemma_version (candidate_version (demo_promotion ''c'' ''c''))" by (rule demo_version_valid)
qed (simp_all add: demo_promotion_def evidence_index_def checker_verdict_index_def index_by_def
    demo_evidence_def demo_verdict_def hard_evidence_def checked_pair_def demo_route_def)

end
