(* ===== verification/Rci_Planning.thy ===== *)
theory Rci_Planning
  imports Rci_Claims
begin

text \<open>
  The deterministic scheduler: the replay-owned plan records of \<open>core/planning.py\<close> and the selection
  of \<open>orchestration/scheduler.py\<close>. An attempt-count mapping is its item list, with distinct keys.
  Plan identities and input fingerprints are digests of the complete content, as in the code; the
  SHA-256 digest is the parameter \<open>sha\<close>.
\<close>

section \<open>Plan records (core/planning.py)\<close>

datatype plan_status = PlanReady | PlanSatisfied | PlanUnknown

fun plan_status_value :: "plan_status \<Rightarrow> string" where
  "plan_status_value PlanReady = ''ready''"
| "plan_status_value PlanSatisfied = ''satisfied''"
| "plan_status_value PlanUnknown = ''unknown_under_present_binding''"

datatype plan_reason =
    StepBudgetExhausted | InsufficientEventBudget | NoOpenObligation | UnresolvedNonopenObligation
  | DependenciesOrAttemptsExhausted | DeterministicPriority

fun plan_reason_value :: "plan_reason \<Rightarrow> string" where
  "plan_reason_value StepBudgetExhausted = ''step_budget_exhausted''"
| "plan_reason_value InsufficientEventBudget = ''insufficient_event_budget''"
| "plan_reason_value NoOpenObligation = ''no_open_obligation''"
| "plan_reason_value UnresolvedNonopenObligation = ''unresolved_nonopen_obligation''"
| "plan_reason_value DependenciesOrAttemptsExhausted = ''dependencies_or_attempt_budget_exhausted''"
| "plan_reason_value DeterministicPriority = ''deterministic_priority_order''"

record attempt_key =
  key_obligation_fingerprint :: digest
  key_contract_id :: string
  key_contract_version :: string
  key_binding_revision :: string

definition valid_attempt_key :: "attempt_key \<Rightarrow> bool" where
  "valid_attempt_key k \<longleftrightarrow> valid_sha256 (key_obligation_fingerprint k) \<and> key_contract_id k \<noteq> [] \<and>
     key_contract_version k \<noteq> [] \<and> key_binding_revision k \<noteq> []"

definition attempt_key_json :: "attempt_key \<Rightarrow> json" where
  "attempt_key_json k = JObj
    [(''obligation_fingerprint'', JStr (key_obligation_fingerprint k)),
     (''contract_id'', JStr (key_contract_id k)), (''contract_version'', JStr (key_contract_version k)),
     (''binding_revision'', JStr (key_binding_revision k))]"

record step_plan =
  plan_id :: string
  plan_input_fingerprint :: digest
  plan_policy_version :: string
  plan_status_of :: plan_status
  plan_selected_obligation_id :: "string option"
  plan_selected_attempt_key :: "attempt_key option"
  plan_reason_of :: plan_reason
  plan_remaining_budget :: int

definition step_plan_id :: "(string \<Rightarrow> digest) \<Rightarrow> digest \<Rightarrow> string \<Rightarrow> plan_status \<Rightarrow> string option \<Rightarrow>
    attempt_key option \<Rightarrow> plan_reason \<Rightarrow> int \<Rightarrow> string" where
  "step_plan_id sha input_fingerprint policy_version status selected_id selected_key reason remaining =
     ''step-plan:'' @ content_fingerprint sha ''rci.step-plan.v1'' (JObj
       [(''input_fingerprint'', JStr input_fingerprint), (''policy_version'', JStr policy_version),
        (''status'', JStr (plan_status_value status)), (''selected_obligation_id'', opt_str selected_id),
        (''selected_attempt_key'', (case selected_key of None \<Rightarrow> JNull | Some k \<Rightarrow> attempt_key_json k)),
        (''reason'', JStr (plan_reason_value reason)), (''remaining_budget'', JInt remaining)])"

definition valid_step_plan :: "(string \<Rightarrow> digest) \<Rightarrow> step_plan \<Rightarrow> bool" where
  "valid_step_plan sha p \<longleftrightarrow> valid_sha256 (plan_input_fingerprint p) \<and>
     pred_option valid_attempt_key (plan_selected_attempt_key p) \<and> 0 \<le> plan_remaining_budget p \<and>
     (plan_status_of p = PlanReady) =
       (plan_selected_obligation_id p \<noteq> None \<and> plan_selected_attempt_key p \<noteq> None) \<and>
     (plan_selected_obligation_id p = None) = (plan_selected_attempt_key p = None) \<and>
     plan_policy_version p \<noteq> [] \<and>
     plan_id p = step_plan_id sha (plan_input_fingerprint p) (plan_policy_version p)
       (plan_status_of p) (plan_selected_obligation_id p) (plan_selected_attempt_key p)
       (plan_reason_of p) (plan_remaining_budget p)"

definition build_step_plan :: "(string \<Rightarrow> digest) \<Rightarrow> digest \<Rightarrow> string \<Rightarrow> plan_status \<Rightarrow> string option \<Rightarrow>
    attempt_key option \<Rightarrow> plan_reason \<Rightarrow> int \<Rightarrow> step_plan result" where
  "build_step_plan sha input_fingerprint policy_version status selected_id selected_key reason remaining =
    construct (valid_step_plan sha) ''StepPlan''
      \<lparr>plan_id = step_plan_id sha input_fingerprint policy_version status selected_id selected_key
         reason remaining,
       plan_input_fingerprint = input_fingerprint, plan_policy_version = policy_version,
       plan_status_of = status, plan_selected_obligation_id = selected_id,
       plan_selected_attempt_key = selected_key, plan_reason_of = reason,
       plan_remaining_budget = remaining\<rparr>"

section \<open>Scheduler entries (orchestration/scheduler.py)\<close>

record obligation_entry =
  entry_obligation :: obligation
  entry_attempt_key :: attempt_key
  entry_creation_sequence :: int
  entry_dependency_depth :: int

definition valid_entry :: "(string \<Rightarrow> digest) \<Rightarrow> obligation_entry \<Rightarrow> bool" where
  "valid_entry sha e \<longleftrightarrow> valid_obligation (entry_obligation e) \<and> valid_attempt_key (entry_attempt_key e) \<and>
     0 \<le> entry_creation_sequence e \<and> 0 \<le> entry_dependency_depth e \<and>
     key_obligation_fingerprint (entry_attempt_key e) = obligation_fingerprint sha (entry_obligation e) \<and>
     key_binding_revision (entry_attempt_key e) = obl_binding_revision (entry_obligation e)"

fun obligation_status_value :: "obligation_status \<Rightarrow> string" where
  "obligation_status_value Open = ''open''"
| "obligation_status_value Blocked = ''blocked''"
| "obligation_status_value Satisfied = ''satisfied''"
| "obligation_status_value Impossible = ''impossible''"
| "obligation_status_value StatusUnknown = ''unknown''"

definition obligation_json :: "obligation \<Rightarrow> json" where
  "obligation_json q = JObj
    [(''id'', JStr (obl_id q)), (''kind'', JStr (obligation_kind_value (obl_kind q))),
     (''carrier_id'', JStr (obl_carrier_id q)), (''args'', JList (map arg_json (obl_args q))),
     (''scope'', scope_json (obl_scope q)), (''binding_revision'', JStr (obl_binding_revision q)),
     (''parent_obligation_ids'', str_list (obl_parent_obligation_ids q)),
     (''priority_vector'', JList (map JInt (obl_priority_vector q))),
     (''status'', JStr (obligation_status_value (obl_status q)))]"

definition entry_json :: "obligation_entry \<Rightarrow> json" where
  "entry_json e = JObj
    [(''obligation'', obligation_json (entry_obligation e)),
     (''attempt_key'', attempt_key_json (entry_attempt_key e)),
     (''creation_sequence'', JInt (entry_creation_sequence e)),
     (''dependency_depth'', JInt (entry_dependency_depth e))]"

abbreviation safety_kinds :: "obligation_kind set" where
  "safety_kinds \<equiv> {LocalizeConflict, DischargeOpenDependency}"

definition arrival_key :: "obligation_entry \<Rightarrow> int \<times> string" where
  "arrival_key e = (entry_creation_sequence e, obl_id (entry_obligation e))"

definition entry_fingerprint :: "(string \<Rightarrow> digest) \<Rightarrow> obligation_entry \<Rightarrow> digest" where
  "entry_fingerprint sha e = obligation_fingerprint sha (entry_obligation e)"

definition same_work :: "(string \<Rightarrow> digest) \<Rightarrow> obligation_entry \<Rightarrow> obligation_entry \<Rightarrow> bool" where
  "same_work sha m e \<longleftrightarrow> entry_fingerprint sha m = entry_fingerprint sha e"

text \<open>\<open>by_fingerprint.setdefault(...)\<close> over the entries in arrival order: the dict keeps the first
  entry of each fingerprint, in insertion order.\<close>

definition deduplicate_obligations ::
  "(string \<Rightarrow> digest) \<Rightarrow> obligation_entry list \<Rightarrow> obligation_entry list" where
  "deduplicate_obligations sha entries =
     fst (keep_uncovered (same_work sha) [] (sort_key arrival_key entries))"

definition priority_key :: "obligation_entry \<Rightarrow> int \<times> int list \<times> int \<times> int \<times> string" where
  "priority_key e =
    ((if obl_kind (entry_obligation e) \<in> safety_kinds then 0 else 1),
     map uminus (obl_priority_vector (entry_obligation e)), entry_dependency_depth e,
     entry_creation_sequence e, obl_id (entry_obligation e))"

text \<open>Python's \<open>min(xs, key=f)\<close>: the first of the elements with the least key.\<close>

fun min_by :: "('a \<Rightarrow> 'k::linorder) \<Rightarrow> 'a \<Rightarrow> 'a list \<Rightarrow> 'a" where
  "min_by f m [] = m"
| "min_by f m (x # xs) = min_by f (if f x < f m then x else m) xs"

record schedule =
  sch_entries :: "obligation_entry list"
  sch_completed :: "string list"
  sch_attempt_counts :: "(attempt_key \<times> int) list"
  sch_steps_used :: int
  sch_step_budget :: int
  sch_ready_event_cost :: int
  sch_max_attempts_per_key :: int
  sch_policy_version :: string

text \<open>\<open>completed_obligation_ids\<close> is a frozenset; it is given by a list of its elements and read as a
  set, and printed sorted without repetitions.\<close>

definition scheduler_input :: "schedule \<Rightarrow> json" where
  "scheduler_input s = JObj
    [(''entries'', JList (map entry_json (sort_key arrival_key (sch_entries s)))),
     (''completed_obligation_ids'', str_list (sorted_list_of_set (set (sch_completed s)))),
     (''attempt_counts'', JList (map (\<lambda>(k, c). JObj [(''attempt_key'', attempt_key_json k), (''count'', JInt c)])
        (sort_key (\<lambda>(k, c). (key_obligation_fingerprint k, key_contract_id k, key_contract_version k,
           key_binding_revision k)) (sch_attempt_counts s)))),
     (''steps_used'', JInt (sch_steps_used s)), (''step_budget'', JInt (sch_step_budget s)),
     (''ready_event_cost'', JInt (sch_ready_event_cost s)),
     (''max_attempts_per_key'', JInt (sch_max_attempts_per_key s)),
     (''policy_version'', JStr (sch_policy_version s))]"

definition attempts_of :: "schedule \<Rightarrow> attempt_key \<Rightarrow> int" where
  "attempts_of s k = (case map_of (sch_attempt_counts s) k of None \<Rightarrow> 0 | Some c \<Rightarrow> c)"

definition entry_ready :: "schedule \<Rightarrow> obligation_entry \<Rightarrow> bool" where
  "entry_ready s e \<longleftrightarrow> set (obl_parent_obligation_ids (entry_obligation e)) \<subseteq> set (sch_completed s) \<and>
     attempts_of s (entry_attempt_key e) < sch_max_attempts_per_key s"

definition entry_open :: "obligation_entry \<Rightarrow> bool" where
  "entry_open e \<longleftrightarrow> obl_status (entry_obligation e) = Open"

definition plan_next :: "(string \<Rightarrow> digest) \<Rightarrow> schedule \<Rightarrow> step_plan result" where
  "plan_next sha s =
    (if sch_steps_used s < 0 \<or> sch_step_budget s < 1 \<or> sch_ready_event_cost s < 1 \<or>
        sch_max_attempts_per_key s < 1
     then Inl (ValueError ''scheduler budgets must be positive and usage nonnegative'')
     else if sch_policy_version s = []
     then Inl (ValueError ''scheduler policy version is required'')
     else if list_ex (\<lambda>(k, c). c < 0) (sch_attempt_counts s)
     then Inl (ValueError ''attempt counts must be nonnegative integers'')
     else
       let fp = content_fingerprint sha ''rci.scheduler-input.v1'' (scheduler_input s);
           remaining = max (sch_step_budget s - sch_steps_used s) 0;
           plan = build_step_plan sha fp (sch_policy_version s)
       in
       if remaining = 0 then plan PlanUnknown None None StepBudgetExhausted 0
       else
         let deduplicated = deduplicate_obligations sha (sch_entries s);
             open_entries = filter entry_open deduplicated in
         if open_entries = [] then
           (let unresolved = list_ex (\<lambda>e. obl_status (entry_obligation e) \<noteq> Satisfied) deduplicated in
            plan (if unresolved then PlanUnknown else PlanSatisfied) None None
              (if unresolved then UnresolvedNonopenObligation else NoOpenObligation) remaining)
         else (case filter (entry_ready s) open_entries of
             [] \<Rightarrow> plan PlanUnknown None None DependenciesOrAttemptsExhausted remaining
           | e # es \<Rightarrow>
             if remaining < sch_ready_event_cost s
             then plan PlanUnknown None None InsufficientEventBudget remaining
             else
               let selected = min_by priority_key e es in
               plan PlanReady (Some (obl_id (entry_obligation selected)))
                 (Some (entry_attempt_key selected)) DeterministicPriority
                 (remaining - sch_ready_event_cost s)))"

text \<open>What the code relies on of SHA-256: a digest is 64 lower-case hexadecimal digits.\<close>

definition hex_digests :: "(string \<Rightarrow> digest) \<Rightarrow> bool" where
  "hex_digests sha \<longleftrightarrow> (\<forall>x. valid_sha256 (sha x))"

section \<open>Deduplication\<close>

interpretation work_order: ranked_cover "same_work sha" arrival_key "\<lambda>_. True"
  by unfold_locales (auto simp: same_work_def)

lemma keep_first:
  assumes "keep_uncovered (same_work sha) kept xs = (k, d)"
    and "sorted (map arrival_key (kept @ xs))"
    and "\<And>m x. m \<in> set kept \<Longrightarrow> x \<in> set kept \<Longrightarrow> same_work sha m x \<Longrightarrow> arrival_key m \<le> arrival_key x"
  shows "m \<in> set k \<Longrightarrow> x \<in> set kept \<union> set xs \<Longrightarrow> same_work sha m x \<Longrightarrow> arrival_key m \<le> arrival_key x"
  using assms
proof (induction xs arbitrary: kept k d m x)
  case (Cons y ys)
  show ?case
  proof (cases "\<exists>n \<in> set kept. same_work sha n y")
    case True
    then obtain n where n: "n \<in> set kept" "same_work sha n y" by blast
    from True Cons.prems(4) obtain d' where kd: "keep_uncovered (same_work sha) kept ys = (k, d')"
      by (auto split: prod.splits)
    have srt: "sorted (map arrival_key (kept @ ys))" using Cons.prems(5) by (simp add: sorted_append)
    note IH = Cons.IH [OF Cons.prems(1) _ _ kd srt Cons.prems(6)]
    show ?thesis
    proof (cases "x = y")
      case True
      have "arrival_key m \<le> arrival_key n"
        using IH [of n] n Cons.prems(3) True by (auto simp: same_work_def)
      also have "\<dots> \<le> arrival_key y" using n Cons.prems(5) by (auto simp: sorted_append)
      finally show ?thesis using True by simp
    next
      case False
      with IH [of x] Cons.prems(2,3) show ?thesis by auto
    qed
  next
    case False
    then have kd: "keep_uncovered (same_work sha) (kept @ [y]) ys = (k, d)"
      using Cons.prems(4) by simp
    show ?thesis
      by (rule Cons.IH [OF Cons.prems(1) _ Cons.prems(3) kd])
        (use Cons.prems False in \<open>auto simp: same_work_def sorted_append\<close>)
  qed
qed simp

lemma dedupe_subset: "set (deduplicate_obligations sha es) \<subseteq> set es"
  unfolding deduplicate_obligations_def
  using work_order.kept_subset [of sha "[]" "sort_key arrival_key es"]
  by (metis Un_empty_left empty_set prod.collapse set_sort)

lemma dedupe_covers: "e \<in> set es \<Longrightarrow> \<exists>m \<in> set (deduplicate_obligations sha es). same_work sha m e"
  unfolding deduplicate_obligations_def
  using work_order.kept_covers_all [of sha "[]" "sort_key arrival_key es"]
  by (metis prod.collapse set_sort)

lemma distinct_if_apart: "sorted_wrt (\<noteq>) xs \<Longrightarrow> distinct xs"
  by (induction xs) auto

lemma dedupe_distinct: "distinct (map (entry_fingerprint sha) (deduplicate_obligations sha es))"
proof -
  have "sorted_wrt (\<lambda>x y. \<not> same_work sha x y \<and> \<not> same_work sha y x) (deduplicate_obligations sha es)"
    unfolding deduplicate_obligations_def
    by (rule work_order.sorted_kept_antichain [OF surjective_pairing]) simp
  then have "sorted_wrt (\<noteq>) (map (entry_fingerprint sha) (deduplicate_obligations sha es))"
    by (simp add: sorted_wrt_map same_work_def sorted_wrt_mono_rel [rotated])
  then show ?thesis by (rule distinct_if_apart)
qed

lemma dedupe_earliest:
  assumes "m \<in> set (deduplicate_obligations sha es)" "e \<in> set es" "same_work sha m e"
  shows "arrival_key m \<le> arrival_key e"
  by (rule keep_first [OF surjective_pairing, of "[]" "sort_key arrival_key es"])
    (use assms in \<open>auto simp: deduplicate_obligations_def\<close>)

section \<open>Selection\<close>

lemma min_by_in: "min_by f m xs \<in> set (m # xs)"
  by (induction xs arbitrary: m) auto

lemma min_by_least: "x \<in> set (m # xs) \<Longrightarrow> f (min_by f m xs) \<le> f x"
proof (induction xs arbitrary: m x)
  case (Cons y ys)
  have "f (min_by f (if f y < f m then y else m) ys) \<le> f (if f y < f m then y else m)"
    by (rule Cons.IH) simp
  then show ?case
    using Cons.prems Cons.IH [of x "if f y < f m then y else m"] by (auto split: if_splits)
qed simp

definition ready_entries :: "(string \<Rightarrow> digest) \<Rightarrow> schedule \<Rightarrow> obligation_entry list" where
  "ready_entries sha s =
     filter (entry_ready s) (filter entry_open (deduplicate_obligations sha (sch_entries s)))"

definition valid_schedule :: "(string \<Rightarrow> digest) \<Rightarrow> schedule \<Rightarrow> bool" where
  "valid_schedule sha s \<longleftrightarrow> 0 \<le> sch_steps_used s \<and> 1 \<le> sch_step_budget s \<and> 1 \<le> sch_ready_event_cost s \<and>
     1 \<le> sch_max_attempts_per_key s \<and> sch_policy_version s \<noteq> [] \<and>
     list_all (\<lambda>(k, c). 0 \<le> c) (sch_attempt_counts s) \<and> list_all (valid_entry sha) (sch_entries s)"

lemma valid_schedule_guards:
  assumes "valid_schedule sha s"
  shows "\<not> (sch_steps_used s < 0 \<or> sch_step_budget s < 1 \<or> sch_ready_event_cost s < 1 \<or>
        sch_max_attempts_per_key s < 1)"
    "sch_policy_version s \<noteq> []" "\<not> list_ex (\<lambda>(k, c). c < 0) (sch_attempt_counts s)"
  using assms by (auto simp: valid_schedule_def list_all_iff list_ex_iff)

lemma build_unselected:
  assumes "hex_digests sha" "status \<noteq> PlanReady" "0 \<le> remaining" "pv \<noteq> []"
  shows "\<exists>p. build_step_plan sha (content_fingerprint sha ns j) pv status None None reason remaining = Inr p \<and>
    valid_step_plan sha p \<and> plan_status_of p = status \<and> plan_reason_of p = reason \<and>
    plan_remaining_budget p = remaining"
  using assms by (simp add: build_step_plan_def construct_def valid_step_plan_def content_fingerprint_def
      hex_digests_def)

lemma build_selected:
  assumes "hex_digests sha" "0 \<le> remaining" "pv \<noteq> []" "valid_attempt_key k"
  shows "\<exists>p. build_step_plan sha (content_fingerprint sha ns j) pv PlanReady (Some i) (Some k) reason remaining
      = Inr p \<and>
    valid_step_plan sha p \<and> plan_status_of p = PlanReady \<and> plan_selected_obligation_id p = Some i \<and>
    plan_selected_attempt_key p = Some k \<and> plan_remaining_budget p = remaining"
  using assms by (simp add: build_step_plan_def construct_def valid_step_plan_def content_fingerprint_def
      hex_digests_def)

abbreviation remaining_steps :: "schedule \<Rightarrow> int" where
  "remaining_steps s \<equiv> max (sch_step_budget s - sch_steps_used s) 0"

definition all_satisfied :: "(string \<Rightarrow> digest) \<Rightarrow> schedule \<Rightarrow> bool" where
  "all_satisfied sha s \<longleftrightarrow> list_all (\<lambda>e. obl_status (entry_obligation e) = Satisfied)
     (deduplicate_obligations sha (sch_entries s))"

lemma all_satisfied_no_open:
  "all_satisfied sha s \<Longrightarrow> filter entry_open (deduplicate_obligations sha (sch_entries s)) = []"
  by (auto simp: all_satisfied_def entry_open_def list_all_iff filter_empty_conv)

definition plan_meets :: "(string \<Rightarrow> digest) \<Rightarrow> schedule \<Rightarrow> step_plan \<Rightarrow> bool" where
  "plan_meets sha s p \<longleftrightarrow> valid_step_plan sha p \<and>
     (plan_status_of p = PlanReady) =
       (ready_entries sha s \<noteq> [] \<and> sch_ready_event_cost s \<le> remaining_steps s) \<and>
     (plan_status_of p = PlanSatisfied) = (0 < remaining_steps s \<and> all_satisfied sha s) \<and>
     (plan_status_of p = PlanReady \<longrightarrow>
       plan_remaining_budget p = remaining_steps s - sch_ready_event_cost s \<and>
       (\<exists>e \<in> set (ready_entries sha s).
          plan_selected_obligation_id p = Some (obl_id (entry_obligation e)) \<and>
          plan_selected_attempt_key p = Some (entry_attempt_key e) \<and>
          (\<forall>e' \<in> set (ready_entries sha s). priority_key e \<le> priority_key e')))"

lemma plan_unselected_meets:
  assumes "hex_digests sha" "valid_schedule sha s" "status \<noteq> PlanReady" "0 \<le> remaining"
    and "ready_entries sha s = [] \<or> remaining_steps s < sch_ready_event_cost s"
    and "(status = PlanSatisfied) = (0 < remaining_steps s \<and> all_satisfied sha s)"
  shows "\<exists>p. build_step_plan sha (content_fingerprint sha ns j) (sch_policy_version s) status None None
      reason remaining = Inr p \<and> plan_meets sha s p"
proof -
  obtain p where p: "build_step_plan sha (content_fingerprint sha ns j) (sch_policy_version s) status None None
      reason remaining = Inr p" "valid_step_plan sha p" "plan_status_of p = status"
    using build_unselected [OF assms(1,3,4) valid_schedule_guards(2) [OF assms(2)], where ns = ns and j = j and reason = reason] by blast
  have "plan_meets sha s p"
    using p(2,3) assms(3,5,6) unfolding plan_meets_def by auto
  with p(1) show ?thesis by blast
qed

lemma plan_selected_meets:
  assumes sha: "hex_digests sha" and s: "valid_schedule sha s"
    and r: "ready_entries sha s = e # es" and cost: "sch_ready_event_cost s \<le> remaining_steps s"
  shows "\<exists>p. build_step_plan sha (content_fingerprint sha ns j) (sch_policy_version s) PlanReady
      (Some (obl_id (entry_obligation (min_by priority_key e es))))
      (Some (entry_attempt_key (min_by priority_key e es))) DeterministicPriority
      (remaining_steps s - sch_ready_event_cost s) = Inr p \<and> plan_meets sha s p"
proof -
  let ?m = "min_by priority_key e es"
  have m: "?m \<in> set (ready_entries sha s)" using min_by_in [of priority_key e es] by (simp add: r)
  then have "?m \<in> set (sch_entries s)" and "entry_open ?m"
    using dedupe_subset [of sha "sch_entries s"] by (auto simp: ready_entries_def)
  then have k: "valid_attempt_key (entry_attempt_key ?m)"
    using s by (auto simp: valid_schedule_def valid_entry_def list_all_iff)
  have ns: "\<not> all_satisfied sha s"
    using all_satisfied_no_open [of sha s] r unfolding ready_entries_def by force
  have nonneg: "0 \<le> remaining_steps s - sch_ready_event_cost s" using cost by simp
  obtain p where p: "build_step_plan sha (content_fingerprint sha ns j) (sch_policy_version s) PlanReady
      (Some (obl_id (entry_obligation ?m))) (Some (entry_attempt_key ?m)) DeterministicPriority
      (remaining_steps s - sch_ready_event_cost s) = Inr p"
    and q: "valid_step_plan sha p" "plan_status_of p = PlanReady"
      "plan_selected_obligation_id p = Some (obl_id (entry_obligation ?m))"
      "plan_selected_attempt_key p = Some (entry_attempt_key ?m)"
      "plan_remaining_budget p = remaining_steps s - sch_ready_event_cost s"
    using build_selected [OF sha nonneg valid_schedule_guards(2) [OF s] k] by blast
  have least: "\<forall>e' \<in> set (ready_entries sha s). priority_key ?m \<le> priority_key e'"
    using min_by_least [of _ e es priority_key] by (simp add: r)
  have "plan_meets sha s p"
    unfolding plan_meets_def using q m least ns cost r by auto
  with p show ?thesis by blast
qed

abbreviation schedule_plan where
  "schedule_plan sha s \<equiv> build_step_plan sha
     (content_fingerprint sha ''rci.scheduler-input.v1'' (scheduler_input s)) (sch_policy_version s)"

lemma plan_next_exhausted:
  assumes "valid_schedule sha s" "remaining_steps s = 0"
  shows "plan_next sha s = schedule_plan sha s PlanUnknown None None StepBudgetExhausted 0"
  unfolding plan_next_def Let_def if_not_P [OF valid_schedule_guards(1) [OF assms(1)]]
    if_not_P [OF valid_schedule_guards(2) [OF assms(1)]]
    if_not_P [OF valid_schedule_guards(3) [OF assms(1)]] if_P [OF assms(2)] ..

lemma plan_next_none_open:
  assumes "valid_schedule sha s" "remaining_steps s \<noteq> 0"
    and "filter entry_open (deduplicate_obligations sha (sch_entries s)) = []"
  shows "plan_next sha s =
    schedule_plan sha s (if all_satisfied sha s then PlanSatisfied else PlanUnknown) None None
      (if all_satisfied sha s then NoOpenObligation else UnresolvedNonopenObligation) (remaining_steps s)"
proof -
  have "list_ex (\<lambda>e. obl_status (entry_obligation e) \<noteq> Satisfied)
      (deduplicate_obligations sha (sch_entries s)) = (\<not> all_satisfied sha s)"
    by (auto simp: all_satisfied_def list_ex_iff list_all_iff)
  then show ?thesis
    unfolding plan_next_def Let_def if_not_P [OF valid_schedule_guards(1) [OF assms(1)]]
      if_not_P [OF valid_schedule_guards(2) [OF assms(1)]]
      if_not_P [OF valid_schedule_guards(3) [OF assms(1)]] if_not_P [OF assms(2)] if_P [OF assms(3)]
    by simp
qed

lemma plan_next_some_open:
  assumes "valid_schedule sha s" "remaining_steps s \<noteq> 0"
    and "filter entry_open (deduplicate_obligations sha (sch_entries s)) \<noteq> []"
  shows "plan_next sha s = (case ready_entries sha s of
      [] \<Rightarrow> schedule_plan sha s PlanUnknown None None DependenciesOrAttemptsExhausted (remaining_steps s)
    | e # es \<Rightarrow> if remaining_steps s < sch_ready_event_cost s
      then schedule_plan sha s PlanUnknown None None InsufficientEventBudget (remaining_steps s)
      else schedule_plan sha s PlanReady
        (Some (obl_id (entry_obligation (min_by priority_key e es))))
        (Some (entry_attempt_key (min_by priority_key e es))) DeterministicPriority
        (remaining_steps s - sch_ready_event_cost s))"
  unfolding plan_next_def Let_def if_not_P [OF valid_schedule_guards(1) [OF assms(1)]]
    if_not_P [OF valid_schedule_guards(2) [OF assms(1)]]
    if_not_P [OF valid_schedule_guards(3) [OF assms(1)]] if_not_P [OF assms(2)]
    if_not_P [OF assms(3)] ready_entries_def ..

lemma plan_next_meets:
  assumes sha: "hex_digests sha" and s: "valid_schedule sha s"
  shows "\<exists>p. plan_next sha s = Inr p \<and> plan_meets sha s p"
proof -
  let ?O = "filter entry_open (deduplicate_obligations sha (sch_entries s))"
  have cost: "1 \<le> sch_ready_event_cost s" using s by (simp add: valid_schedule_def)
  have sat: "?O = []" if "all_satisfied sha s" using all_satisfied_no_open [OF that] .
  have none: "ready_entries sha s = []" if "?O = []" using that by (simp add: ready_entries_def)
  note un = plan_unselected_meets [OF sha s]
  consider "remaining_steps s = 0" | "remaining_steps s \<noteq> 0" "?O = []"
    | "remaining_steps s \<noteq> 0" "?O \<noteq> []" "ready_entries sha s = []"
    | e es where "remaining_steps s \<noteq> 0" "?O \<noteq> []" "ready_entries sha s = e # es"
    by (cases "ready_entries sha s") auto
  then show ?thesis
  proof cases
    case 1
    show ?thesis unfolding plan_next_exhausted [OF s 1] by (rule un) (use 1 cost in simp_all)
  next
    case 2
    show ?thesis unfolding plan_next_none_open [OF s 2] by (rule un) (use 2 none in auto)
  next
    case 3
    show ?thesis unfolding plan_next_some_open [OF s 3(1,2)] 3(3) list.case
      by (rule un) (use 3 sat in auto)
  next
    case (4 e es)
    show ?thesis
    proof (cases "remaining_steps s < sch_ready_event_cost s")
      case True
      show ?thesis unfolding plan_next_some_open [OF s 4(1,2)] 4(3) list.case if_P [OF True]
        by (rule un) (use True 4(2) sat in auto)
    next
      case False
      then have "sch_ready_event_cost s \<le> remaining_steps s" by (simp only: not_less)
      from plan_selected_meets [OF sha s 4(3) this] show ?thesis
        unfolding plan_next_some_open [OF s 4(1,2)] 4(3) list.case if_not_P [OF False] .
    qed
  qed
qed

section \<open>Properties\<close>

text \<open>C20: the scheduler is total and picks the best ready obligation. On valid entries and budgets it
  always returns a valid plan. The plan is READY exactly when some open, deduplicated obligation has
  all its parents completed and attempts left, and the remaining budget pays for the step; it then
  selects such an entry with the least priority key (safety kinds first, then the priority vector,
  depth, age and identity) and charges the budget. It is SATISFIED exactly when budget is left and
  every deduplicated obligation is satisfied; in every other case it is UNKNOWN.\<close>

theorem plan_next_total_and_best:
  assumes "hex_digests sha" and "valid_schedule sha s"
  shows "\<exists>p. plan_next sha s = Inr p \<and> valid_step_plan sha p \<and>
     (plan_status_of p = PlanReady) =
       (ready_entries sha s \<noteq> [] \<and> sch_ready_event_cost s \<le> remaining_steps s) \<and>
     (plan_status_of p = PlanSatisfied) = (0 < remaining_steps s \<and> all_satisfied sha s) \<and>
     (plan_status_of p = PlanReady \<longrightarrow>
       plan_remaining_budget p = remaining_steps s - sch_ready_event_cost s \<and>
       (\<exists>e \<in> set (ready_entries sha s).
          plan_selected_obligation_id p = Some (obl_id (entry_obligation e)) \<and>
          plan_selected_attempt_key p = Some (entry_attempt_key e) \<and>
          (\<forall>e' \<in> set (ready_entries sha s). priority_key e \<le> priority_key e')))"
  using plan_next_meets [OF assms] unfolding plan_meets_def .

text \<open>the plan does not depend on the order in which the entries are given, as long as no two
  entries share both the creation sequence and the obligation identity.\<close>

theorem plan_next_order_independent:
  assumes "mset es = mset (sch_entries s)" "distinct (map arrival_key (sch_entries s))"
  shows "plan_next sha (s\<lparr>sch_entries := es\<rparr>) = plan_next sha s"
proof -
  have "sort_key arrival_key (sch_entries s) = sort_key arrival_key es"
    using assms by (intro sort_key_inj_key_eq) (simp_all add: distinct_map)
  then have "scheduler_input (s\<lparr>sch_entries := es\<rparr>) = scheduler_input s"
    and "deduplicate_obligations sha es = deduplicate_obligations sha (sch_entries s)"
    by (simp_all add: scheduler_input_def deduplicate_obligations_def)
  moreover have "entry_ready (s\<lparr>sch_entries := es\<rparr>) = entry_ready s"
    by (rule ext) (simp add: entry_ready_def attempts_of_def)
  ultimately show ?thesis unfolding plan_next_def Let_def by (simp cong: list.case_cong if_cong)
qed

text \<open>Deduplication keeps exactly one entry of each obligation fingerprint, the earliest.\<close>

theorem deduplicate_keeps_earliest:
  "distinct (map (entry_fingerprint sha) (deduplicate_obligations sha es)) \<and>
   set (deduplicate_obligations sha es) \<subseteq> set es \<and>
   entry_fingerprint sha ` set (deduplicate_obligations sha es) = entry_fingerprint sha ` set es \<and>
   (m \<in> set (deduplicate_obligations sha es) \<and> e \<in> set es \<and>
     entry_fingerprint sha m = entry_fingerprint sha e \<longrightarrow> arrival_key m \<le> arrival_key e)"
proof -
  have "entry_fingerprint sha e' \<in> entry_fingerprint sha ` set (deduplicate_obligations sha es)"
    if e': "e' \<in> set es" for e'
  proof -
    obtain n where "n \<in> set (deduplicate_obligations sha es)" "same_work sha n e'"
      using dedupe_covers [OF e'] by blast
    then show ?thesis unfolding same_work_def by (metis imageI)
  qed
  then have "entry_fingerprint sha ` set (deduplicate_obligations sha es) = entry_fingerprint sha ` set es"
    by (intro subset_antisym image_mono dedupe_subset image_subsetI)
  moreover have "arrival_key m \<le> arrival_key e"
    if "m \<in> set (deduplicate_obligations sha es)" "e \<in> set es" "entry_fingerprint sha m = entry_fingerprint sha e"
    using dedupe_earliest [OF that(1,2)] that(3) unfolding same_work_def .
  ultimately show ?thesis using dedupe_distinct [of sha es] dedupe_subset [of sha es]
    by (intro conjI impI) simp_all
qed

text \<open>Two entries of which only the younger one is a conflict to localize.\<close>

definition zero_digest :: "string \<Rightarrow> digest" where
  "zero_digest x = replicate 64 (CHR ''0'')"

lemma zero_digest_hex [simp]: "hex_digests zero_digest"
  unfolding hex_digests_def zero_digest_def by (auto simp: valid_sha256_def list_all_iff)

definition example_entry :: "string \<Rightarrow> obligation_kind \<Rightarrow> int \<Rightarrow> obligation_entry" where
  "example_entry i kind n =
    \<lparr>entry_obligation = (example_obligation i [])\<lparr>obl_kind := kind\<rparr>,
     entry_attempt_key = \<lparr>key_obligation_fingerprint = replicate 64 (CHR ''0''), key_contract_id = ''c'',
       key_contract_version = ''1'', key_binding_revision = ''b1''\<rparr>,
     entry_creation_sequence = n, entry_dependency_depth = 0\<rparr>"

definition example_schedule :: schedule where
  "example_schedule =
    \<lparr>sch_entries = [example_entry ''o1'' Characterize 1], sch_completed = [], sch_attempt_counts = [],
     sch_steps_used = 0, sch_step_budget = 3, sch_ready_event_cost = 1, sch_max_attempts_per_key = 2,
     sch_policy_version = ''v''\<rparr>"

lemma example_schedule_evaluates:
  "valid_schedule zero_digest example_schedule \<and> ready_entries zero_digest example_schedule \<noteq> []"
  by code_simp

theorem plan_next_total_and_best_witness:
  "\<exists>p. plan_next zero_digest example_schedule = Inr p \<and> plan_status_of p = PlanReady \<and>
     plan_remaining_budget p = 2"
proof -
  have "remaining_steps example_schedule = 3" "sch_ready_event_cost example_schedule = 1"
    by (simp_all add: example_schedule_def)
  then show ?thesis
    using plan_next_total_and_best [OF zero_digest_hex, of example_schedule] example_schedule_evaluates by auto
qed

theorem plan_next_order_independent_witness:
  "plan_next id (example_schedule\<lparr>sch_entries := [example_entry ''o2'' LocalizeConflict 2,
      example_entry ''o1'' Characterize 1]\<rparr>) =
   plan_next id (example_schedule\<lparr>sch_entries := [example_entry ''o1'' Characterize 1,
      example_entry ''o2'' LocalizeConflict 2]\<rparr>)"
  using plan_next_order_independent
    [of "[example_entry ''o2'' LocalizeConflict 2, example_entry ''o1'' Characterize 1]"
      "example_schedule\<lparr>sch_entries := [example_entry ''o1'' Characterize 1,
        example_entry ''o2'' LocalizeConflict 2]\<rparr>" id]
  by (simp add: arrival_key_def example_entry_def)

theorem deduplicate_keeps_earliest_witness:
  "deduplicate_obligations id [example_entry ''o2'' Characterize 2, example_entry ''o1'' Characterize 1] =
     [example_entry ''o1'' Characterize 1] \<and>
   arrival_key (example_entry ''o1'' Characterize 1) \<le> arrival_key (example_entry ''o2'' Characterize 2)"
proof -
  let ?es = "[example_entry ''o2'' Characterize 2, example_entry ''o1'' Characterize 1]"
  have "deduplicate_obligations id ?es = [example_entry ''o1'' Characterize 1] \<and>
      entry_fingerprint id (example_entry ''o1'' Characterize 1) = entry_fingerprint id (example_entry ''o2'' Characterize 2)"
    by code_simp
  then show ?thesis
    using deduplicate_keeps_earliest [of id ?es "example_entry ''o1'' Characterize 1"
        "example_entry ''o2'' Characterize 2"]
    by simp
qed

end
