(* ===== verification/Rci_Backlog.thy ===== *)
theory Rci_Backlog
  imports Rci_Claims
begin

text \<open>
  The backlog component: the records of \<open>backlog/models.py\<close>, the shadow reconciliation of findings
  against items and the bounded apply projection of \<open>backlog/reconcile.py\<close>. The dict \<open>by_id\<close> of the
  projection is the list of its values in insertion order, keyed by the item identity. Texts are
  UTF-8 bytes, so \<open>str.strip\<close> removes the byte sequences of Python's white space and \<open>s[-7:]\<close> counts
  code points.
\<close>

section \<open>Text helpers\<close>

definition space_texts :: "string list" where
  "space_texts =
    [[CHR 0x09], [CHR 0x0A], [CHR 0x0B], [CHR 0x0C], [CHR 0x0D], [CHR 0x1C], [CHR 0x1D], [CHR 0x1E],
     [CHR 0x1F], [CHR 0x20], [CHR 0xC2, CHR 0x85], [CHR 0xC2, CHR 0xA0],
     [CHR 0xE1, CHR 0x9A, CHR 0x80]] @
    map (\<lambda>c. [CHR 0xE2, CHR 0x80, c])
      [CHR 0x80, CHR 0x81, CHR 0x82, CHR 0x83, CHR 0x84, CHR 0x85, CHR 0x86, CHR 0x87, CHR 0x88,
       CHR 0x89, CHR 0x8A, CHR 0xA8, CHR 0xA9, CHR 0xAF] @
    [[CHR 0xE2, CHR 0x81, CHR 0x9F], [CHR 0xE3, CHR 0x80, CHR 0x80]]"

text \<open>Remove leading occurrences of the given texts; each round removes at least one byte.\<close>

fun strip_left :: "nat \<Rightarrow> string list \<Rightarrow> string \<Rightarrow> string" where
  "strip_left 0 ws s = s"
| "strip_left (Suc n) ws s =
    (case List.find (\<lambda>w. take (length w) s = w) ws of None \<Rightarrow> s
     | Some w \<Rightarrow> strip_left n ws (drop (length w) s))"

definition strip :: "string \<Rightarrow> string" where
  "strip s = (let l = strip_left (length s) space_texts s in
     rev (strip_left (length l) (map rev space_texts) (rev l)))"

fun take_code_points :: "nat \<Rightarrow> string \<Rightarrow> string" where
  "take_code_points 0 s = []"
| "take_code_points (Suc n) [] = []"
| "take_code_points (Suc n) (c # s) = c # take_code_points
     (if 128 \<le> (of_char c :: nat) \<and> (of_char c :: nat) < 192 then Suc n else n) s"

definition last_code_points :: "nat \<Rightarrow> string \<Rightarrow> string" where
  "last_code_points n s = rev (take_code_points n (rev s))"

section \<open>Records (backlog/models.py)\<close>

definition backlog_fingerprint :: "(string \<Rightarrow> digest) \<Rightarrow> string \<Rightarrow> string \<Rightarrow> string \<Rightarrow> digest" where
  "backlog_fingerprint sha title consequence source =
     sha (canonical_json (str_list [strip title, strip consequence, strip source]))"

datatype evidence_status =
  CheckedOpen | CheckedBlocked | CheckedClosable | StaleEvidence | UnknownEvidence | ContradictedEvidence

abbreviation checked_evidence_statuses :: "evidence_status set" where
  "checked_evidence_statuses \<equiv> {CheckedOpen, CheckedBlocked, CheckedClosable}"

datatype backlog_effect_kind = CreateEffect | DedupeEffect | RankEffect | BlockEffect | CloseEffect

fun effect_kind_value :: "backlog_effect_kind \<Rightarrow> string" where
  "effect_kind_value CreateEffect = ''create''"
| "effect_kind_value DedupeEffect = ''dedupe''"
| "effect_kind_value RankEffect = ''rank''"
| "effect_kind_value BlockEffect = ''block''"
| "effect_kind_value CloseEffect = ''close''"

abbreviation g1_applicable_effect_kinds :: "backlog_effect_kind set" where
  "g1_applicable_effect_kinds \<equiv> {CreateEffect, DedupeEffect, RankEffect, BlockEffect}"

record backlog_finding =
  find_id :: string
  find_title :: string
  find_protected_consequence :: string
  find_source :: string
  find_evidence_status :: evidence_status
  find_evidence_digest :: "string option"
  find_workspace_digest :: string
  find_priority :: int
  find_recurrence_of :: "string option"

definition valid_finding :: "backlog_finding \<Rightarrow> bool" where
  "valid_finding f \<longleftrightarrow> find_id f \<noteq> [] \<and> find_title f \<noteq> [] \<and> find_protected_consequence f \<noteq> [] \<and>
     find_source f \<noteq> [] \<and> find_workspace_digest f \<noteq> [] \<and>
     (find_evidence_status f \<in> checked_evidence_statuses \<longrightarrow>
        find_evidence_digest f \<noteq> None \<and> find_evidence_digest f \<noteq> Some [])"

definition finding_fingerprint :: "(string \<Rightarrow> digest) \<Rightarrow> backlog_finding \<Rightarrow> digest" where
  "finding_fingerprint sha f =
     backlog_fingerprint sha (find_title f) (find_protected_consequence f) (find_source f)"

record backlog_item =
  item_id :: string
  item_fingerprint :: string
  item_title :: string
  item_protected_consequence :: string
  item_source :: string
  item_rank :: int
  item_blocked :: bool
  item_closed :: bool
  item_recurrence_of :: "string option"

record backlog_effect =
  be_id :: string
  be_kind :: backlog_effect_kind
  be_finding_id :: string
  be_target_item_id :: string
  be_fingerprint :: string
  be_title :: string
  be_protected_consequence :: string
  be_source :: string
  be_recurrence_of :: "string option"
  be_rank :: "int option"
  be_evidence_digest :: string
  be_workspace_digest :: string
  be_reason :: string

record backlog_policy =
  allowed_apply_effects :: "backlog_effect_kind set"
  proposal_only_effects :: "backlog_effect_kind set"

definition valid_policy :: "backlog_policy \<Rightarrow> bool" where
  "valid_policy p \<longleftrightarrow> allowed_apply_effects p \<inter> proposal_only_effects p = {} \<and>
     allowed_apply_effects p \<subseteq> g1_applicable_effect_kinds \<and> CloseEffect \<in> proposal_only_effects p"

definition constitutional_policy :: backlog_policy where
  "constitutional_policy = \<lparr>allowed_apply_effects = g1_applicable_effect_kinds,
     proposal_only_effects = {CloseEffect}\<rparr>"

section \<open>Reconciliation (backlog/reconcile.py)\<close>

definition effect_id :: "(string \<Rightarrow> digest) \<Rightarrow> backlog_effect_kind \<Rightarrow> backlog_finding \<Rightarrow> string \<Rightarrow> string \<Rightarrow> string" where
  "effect_id sha kind f target evidence_digest = ''bfx_'' @ take 24 (sha
     (effect_kind_value kind @ CHR 0x00 # find_id f @ CHR 0x00 # target @ CHR 0x00 # evidence_digest))"

definition make_effect ::
  "(string \<Rightarrow> digest) \<Rightarrow> backlog_effect_kind \<Rightarrow> backlog_finding \<Rightarrow> string \<Rightarrow> string \<Rightarrow> int option \<Rightarrow>
     backlog_effect result" where
  "make_effect sha kind f target reason rank =
    (case find_evidence_digest f of
       None \<Rightarrow> Inl (ValueError ''applicable backlog effects require checked evidence'')
     | Some digest \<Rightarrow> Inr
        \<lparr>be_id = effect_id sha kind f target digest, be_kind = kind, be_finding_id = find_id f,
         be_target_item_id = target, be_fingerprint = finding_fingerprint sha f,
         be_title = find_title f, be_protected_consequence = find_protected_consequence f,
         be_source = find_source f, be_recurrence_of = find_recurrence_of f, be_rank = rank,
         be_evidence_digest = digest, be_workspace_digest = find_workspace_digest f,
         be_reason = reason\<rparr>)"

fun sequence_results :: "'a result list \<Rightarrow> 'a list result" where
  "sequence_results [] = Inr []"
| "sequence_results (r # rs) =
    (case r of Inl e \<Rightarrow> Inl e | Inr x \<Rightarrow> map_sum id ((#) x) (sequence_results rs))"

definition effective_finding :: "backlog_item option \<Rightarrow> backlog_item option \<Rightarrow> backlog_finding \<Rightarrow> backlog_finding" where
  "effective_finding matched prior_closed f =
    (case (matched, prior_closed, find_recurrence_of f) of
       (None, Some p, None) \<Rightarrow> f\<lparr>find_recurrence_of := Some (item_id p)\<rparr>
     | _ \<Rightarrow> f)"

definition finding_target ::
  "(string \<Rightarrow> digest) \<Rightarrow> backlog_item option \<Rightarrow> backlog_item option \<Rightarrow> backlog_finding \<Rightarrow> string" where
  "finding_target sha matched prior_closed f =
    (case matched of Some m \<Rightarrow> item_id m
     | None \<Rightarrow> if find_recurrence_of (effective_finding matched prior_closed f) \<noteq> None
         then ''item_'' @ take 16 (finding_fingerprint sha f) @ ''_'' @ last_code_points 7 (find_id f)
         else ''item_'' @ take 24 (finding_fingerprint sha f))"

definition finding_effects ::
  "(string \<Rightarrow> digest) \<Rightarrow> backlog_item option \<Rightarrow> backlog_item option \<Rightarrow> backlog_finding \<Rightarrow>
     backlog_effect list result" where
  "finding_effects sha matched prior_closed f =
    (let target = finding_target sha matched prior_closed f in
     sequence_results
       ([if matched = None
         then make_effect sha CreateEffect (effective_finding matched prior_closed f) target
           (if prior_closed \<noteq> None then ''linked recurrence'' else ''new exact fingerprint'') None
         else make_effect sha DedupeEffect f target ''exact fingerprint match'' None,
         make_effect sha RankEffect f target ''deterministic checked-evidence priority''
           (Some (find_priority f))] @
        (if find_evidence_status f = CheckedBlocked
         then [make_effect sha BlockEffect f target ''checked prerequisite is open'' None]
         else if find_evidence_status f = CheckedClosable
         then [make_effect sha CloseEffect f target
                ''fresh checked closure evidence; proposal-only in G1'' None]
         else [])))"

definition shadow_item ::
  "(string \<Rightarrow> digest) \<Rightarrow> backlog_item option \<Rightarrow> backlog_item option \<Rightarrow> backlog_finding \<Rightarrow> backlog_item" where
  "shadow_item sha matched prior_closed f =
    \<lparr>item_id = finding_target sha matched prior_closed f, item_fingerprint = finding_fingerprint sha f,
     item_title = find_title f, item_protected_consequence = find_protected_consequence f,
     item_source = find_source f, item_rank = find_priority f, item_blocked = False,
     item_closed = False,
     item_recurrence_of = find_recurrence_of (effective_finding matched prior_closed f)\<rparr>"

fun reconcile_loop ::
  "(string \<Rightarrow> digest) \<Rightarrow> (string \<Rightarrow> backlog_item option) \<Rightarrow> (string \<Rightarrow> backlog_item option) \<Rightarrow>
     backlog_finding list \<Rightarrow> backlog_effect list result" where
  "reconcile_loop sha existing closed [] = Inr []"
| "reconcile_loop sha existing closed (f # fs) =
    (if find_evidence_status f \<notin> checked_evidence_statuses then reconcile_loop sha existing closed fs
     else
       let fp = finding_fingerprint sha f; matched = existing fp; prior_closed = closed fp in
       (case finding_effects sha matched prior_closed f of
          Inl err \<Rightarrow> Inl err
        | Inr es \<Rightarrow> map_sum id ((@) es) (reconcile_loop sha
            (if matched = None then existing(fp \<mapsto> shadow_item sha matched prior_closed f) else existing)
            closed fs)))"

definition reconcile ::
  "(string \<Rightarrow> digest) \<Rightarrow> backlog_item list \<Rightarrow> backlog_finding list \<Rightarrow> backlog_effect list result" where
  "reconcile sha items findings =
     reconcile_loop sha (index_by item_fingerprint (filter (\<lambda>i. \<not> item_closed i) items))
       (index_by item_fingerprint (filter item_closed items))
       (sort_key (\<lambda>f. (- find_priority f, find_id f)) findings)"

section \<open>The apply projection\<close>

definition put_item :: "backlog_item \<Rightarrow> backlog_item list \<Rightarrow> backlog_item list" where
  "put_item x items =
    (if item_id x \<in> item_id ` set items
     then map (\<lambda>y. if item_id y = item_id x then x else y) items else items @ [x])"

definition created_item :: "backlog_effect \<Rightarrow> backlog_item" where
  "created_item e =
    \<lparr>item_id = be_target_item_id e, item_fingerprint = be_fingerprint e, item_title = be_title e,
     item_protected_consequence = be_protected_consequence e, item_source = be_source e,
     item_rank = 0, item_blocked = False, item_closed = False,
     item_recurrence_of = be_recurrence_of e\<rparr>"

definition apply_effect :: "backlog_policy \<Rightarrow> backlog_effect \<Rightarrow> backlog_item list \<Rightarrow> backlog_item list result" where
  "apply_effect policy e by_id =
    (if be_kind e \<notin> allowed_apply_effects policy
     then Inl (PermissionError (''effect '' @ effect_kind_value (be_kind e) @ '' is not authorized for G1 apply''))
     else case find_by item_id (be_target_item_id e) by_id of
       None \<Rightarrow> if be_kind e = CreateEffect then Inr (put_item (created_item e) by_id)
         else Inl (ValueError ''non-create effect targets an unknown item'')
     | Some item \<Rightarrow>
         if be_kind e = CreateEffect then
           (if item_fingerprint item \<noteq> be_fingerprint e
            then Inl (ValueError ''create effect target identity has different content'')
            else Inr by_id)
         else if item_fingerprint item \<noteq> be_fingerprint e
         then Inl (ValueError ''effect fingerprint does not match its target item'')
         else (case be_kind e of
             RankEffect \<Rightarrow> Inr (put_item (item\<lparr>item_rank := (case be_rank e of None \<Rightarrow> 0 | Some r \<Rightarrow> r)\<rparr>) by_id)
           | BlockEffect \<Rightarrow> Inr (put_item (item\<lparr>item_blocked := True\<rparr>) by_id)
           | DedupeEffect \<Rightarrow> Inr by_id
           | _ \<Rightarrow> Inl (RuntimeError ''unhandled authorized backlog effect'')))"

fun apply_loop :: "backlog_policy \<Rightarrow> backlog_effect list \<Rightarrow> backlog_item list \<Rightarrow> backlog_item list result" where
  "apply_loop policy [] by_id = Inr by_id"
| "apply_loop policy (e # es) by_id =
    (case apply_effect policy e by_id of Inl err \<Rightarrow> Inl err | Inr by_id' \<Rightarrow> apply_loop policy es by_id')"

text \<open>\<open>{item.id: item for item in items}\<close>.\<close>

definition items_by_id :: "backlog_item list \<Rightarrow> backlog_item list" where
  "items_by_id items = fold put_item items []"

definition item_order :: "backlog_item \<Rightarrow> int \<times> string" where
  "item_order i = (- item_rank i, item_id i)"

definition apply_effects ::
  "backlog_item list \<Rightarrow> backlog_effect list \<Rightarrow> backlog_policy \<Rightarrow> backlog_item list result" where
  "apply_effects items effects policy =
     map_sum id (sort_key item_order) (apply_loop policy effects (items_by_id items))"

section \<open>The projection as a keyed collection\<close>

abbreviation ids_distinct :: "backlog_item list \<Rightarrow> bool" where
  "ids_distinct xs \<equiv> distinct (map item_id xs)"

lemma ids_put_item: "item_id ` set (put_item x xs) = insert (item_id x) (item_id ` set xs)"
  by (auto simp: put_item_def image_iff split: if_splits)

lemma map_ids_put: "map item_id (map (\<lambda>y. if item_id y = item_id x then x else y) xs) = map item_id xs"
  by (induction xs) auto

lemma ids_distinct_put: "ids_distinct xs \<Longrightarrow> ids_distinct (put_item x xs)"
  unfolding put_item_def using map_ids_put [of x xs]
  by (cases "item_id x \<in> item_id ` set xs") (simp_all del: map_map)

lemma put_item_mset: "mset xs = mset ys \<Longrightarrow> mset (put_item x xs) = mset (put_item x ys)"
  by (auto simp: put_item_def dest: mset_eq_setD)

lemma find_by_mset:
  assumes "mset xs = mset ys" "distinct (map key xs)"
  shows "find_by key k xs = find_by key k ys"
proof (cases "find_by key k xs")
  case None
  then show ?thesis by (metis assms(1) find_by_None_iff mset_eq_setD)
next
  case (Some x)
  have "distinct (map key ys)"
    using assms by (metis mset_eq_imp_distinct_iff mset_map)
  moreover have "x \<in> set ys" "key x = k"
    using Some assms(1) by (auto dest: find_by_SomeD mset_eq_setD)
  ultimately show ?thesis using Some find_by_distinct by fastforce
qed

text \<open>Two runs that differ only in the order of the dict give the same answer, up to that order.\<close>

definition same_answer :: "backlog_item list result \<Rightarrow> backlog_item list result \<Rightarrow> bool" where
  "same_answer r r' = (case (r, r') of
     (Inl e, Inl e') \<Rightarrow> e = e'
   | (Inr xs, Inr ys) \<Rightarrow> mset xs = mset ys \<and> ids_distinct xs
   | _ \<Rightarrow> False)"

lemma apply_effect_order:
  assumes "mset xs = mset ys" "ids_distinct xs"
  shows "same_answer (apply_effect policy e xs) (apply_effect policy e ys)"
  unfolding apply_effect_def find_by_mset [OF assms]
  by (cases "find_by item_id (be_target_item_id e) ys"; cases "be_kind e")
    (simp_all add: same_answer_def ids_distinct_put put_item_mset [OF assms(1)] assms)

lemma apply_loop_order:
  assumes "mset xs = mset ys" "ids_distinct xs"
  shows "same_answer (apply_loop policy es xs) (apply_loop policy es ys)"
  using assms
proof (induction es arbitrary: xs ys)
  case (Cons e es)
  note o = apply_effect_order [OF Cons.prems, of policy e]
  show ?case
  proof (cases "apply_effect policy e xs")
    case (Inl a)
    with o show ?thesis by (cases "apply_effect policy e ys") (simp_all add: same_answer_def)
  next
    case (Inr zs)
    with o obtain ws where "apply_effect policy e ys = Inr ws" "mset zs = mset ws" "ids_distinct zs"
      by (cases "apply_effect policy e ys") (simp_all add: same_answer_def)
    with Inr Cons.IH [of zs ws] show ?thesis by simp
  qed
qed (simp add: same_answer_def)

lemma apply_loop_append:
  "apply_loop policy (es @ fs) xs =
     (case apply_loop policy es xs of Inl err \<Rightarrow> Inl err | Inr ys \<Rightarrow> apply_loop policy fs ys)"
  by (induction es arbitrary: xs) (auto split: sum.splits)

lemma fold_put_distinct: "ids_distinct acc \<Longrightarrow> ids_distinct (fold put_item xs acc)"
  by (induction xs arbitrary: acc) (simp_all add: ids_distinct_put)

lemma ids_distinct_by_id [simp]: "ids_distinct (items_by_id xs)"
  unfolding items_by_id_def by (rule fold_put_distinct) simp

lemma fold_put_append: "ids_distinct (acc @ xs) \<Longrightarrow> fold put_item xs acc = acc @ xs"
proof (induction xs arbitrary: acc)
  case (Cons x xs)
  then have "put_item x acc = acc @ [x]" by (auto simp: put_item_def)
  with Cons.prems Cons.IH [of "acc @ [x]"] show ?case by simp
qed simp

lemma items_by_id_distinct: "ids_distinct xs \<Longrightarrow> items_by_id xs = xs"
  unfolding items_by_id_def by (simp add: fold_put_append)

lemma sort_items_eq:
  assumes "mset xs = mset ys" "ids_distinct xs"
  shows "sort_key item_order xs = sort_key item_order ys"
proof -
  have "inj_on item_id (set xs)" using assms(2) by (simp add: distinct_map)
  then have "inj_on item_order (set xs)" by (auto simp: item_order_def inj_on_def)
  then show ?thesis using assms(1) by (intro sort_key_inj_key_eq) auto
qed

lemma ids_distinct_sort: "ids_distinct xs \<Longrightarrow> ids_distinct (sort_key item_order xs)"
  using mset_eq_imp_distinct_iff [of "map item_id (sort_key item_order xs)" "map item_id xs"] by simp

lemma apply_loop_distinct:
  "apply_loop policy es xs = Inr ys \<Longrightarrow> ids_distinct xs \<Longrightarrow> ids_distinct ys"
  using apply_loop_order [of xs xs policy es] by (simp add: same_answer_def)

lemma apply_effects_append:
  "apply_effects items (es @ fs) policy =
     (case apply_effects items es policy of Inl err \<Rightarrow> Inl err | Inr items' \<Rightarrow> apply_effects items' fs policy)"
proof (cases "apply_loop policy es (items_by_id items)")
  case (Inl err)
  then show ?thesis by (simp add: apply_effects_def apply_loop_append)
next
  case (Inr ys)
  then have d: "ids_distinct ys" by (rule apply_loop_distinct) simp
  then have s: "items_by_id (sort_key item_order ys) = sort_key item_order ys"
    by (simp add: items_by_id_distinct ids_distinct_sort)
  have "same_answer (apply_loop policy fs ys) (apply_loop policy fs (sort_key item_order ys))"
    by (rule apply_loop_order) (simp_all add: d)
  with Inr s show ?thesis
    by (auto simp: apply_effects_def apply_loop_append same_answer_def
        split: sum.splits intro: sort_items_eq)
qed

section \<open>What the projection keeps\<close>

definition item_core where
  "item_core i = (item_id i, item_fingerprint i, item_title i, item_protected_consequence i,
     item_source i, item_closed i, item_recurrence_of i)"

text \<open>One run from \<open>xs\<close> to \<open>ys\<close> keeps every item, keeps blocked items blocked and adds open items only.\<close>

definition kept_items :: "backlog_item list \<Rightarrow> backlog_item list \<Rightarrow> bool" where
  "kept_items xs ys \<longleftrightarrow>
     (\<forall>x \<in> set xs. \<exists>y \<in> set ys. item_core y = item_core x \<and> (item_blocked x \<longrightarrow> item_blocked y)) \<and>
     (\<forall>y \<in> set ys. item_closed y \<longrightarrow> (\<exists>x \<in> set xs. item_core x = item_core y))"

lemma kept_refl: "kept_items xs xs"
  by (auto simp: kept_items_def)

lemma kept_trans: "kept_items xs ys \<Longrightarrow> kept_items ys zs \<Longrightarrow> kept_items xs zs"
proof -
  assume a: "kept_items xs ys" and b: "kept_items ys zs"
  have "\<exists>z \<in> set zs. item_core z = item_core x \<and> (item_blocked x \<longrightarrow> item_blocked z)" if "x \<in> set xs" for x
  proof -
    from a that obtain y where "y \<in> set ys" "item_core y = item_core x" "item_blocked x \<longrightarrow> item_blocked y"
      unfolding kept_items_def by blast
    with b show ?thesis unfolding kept_items_def by metis
  qed
  moreover have "\<exists>x \<in> set xs. item_core x = item_core z" if "z \<in> set zs" "item_closed z" for z
  proof -
    from b that obtain y where y: "y \<in> set ys" "item_core y = item_core z"
      unfolding kept_items_def by blast
    then have "item_closed y" using that(2) by (simp add: item_core_def)
    with a y show ?thesis unfolding kept_items_def by metis
  qed
  ultimately show ?thesis unfolding kept_items_def by blast
qed

lemma kept_put_old:
  assumes "i \<in> set xs" "ids_distinct xs" "item_core j = item_core i" "item_blocked i \<longrightarrow> item_blocked j"
  shows "kept_items xs (put_item j xs)"
proof -
  have ji: "item_id j = item_id i" using assms(3) by (simp add: item_core_def)
  have only: "y = i" if "y \<in> set xs" "item_id y = item_id j" for y
    using that assms(1,2) ji by (metis distinct_map inj_onD)
  have p: "put_item j xs = map (\<lambda>y. if item_id y = item_id j then j else y) xs"
    using assms(1) ji by (simp add: put_item_def)
  show ?thesis
    unfolding kept_items_def p set_map using assms only by (auto simp: image_iff)
qed

lemma kept_put_new:
  assumes "item_id j \<notin> item_id ` set xs" "\<not> item_closed j"
  shows "kept_items xs (put_item j xs)"
  using assms by (auto simp: kept_items_def put_item_def)

lemma apply_effect_keeps:
  assumes "apply_effect policy e xs = Inr ys" "ids_distinct xs"
  shows "kept_items xs ys"
proof (cases "find_by item_id (be_target_item_id e) xs")
  case None
  then have "ys = put_item (created_item e) xs"
    using assms(1) by (simp add: apply_effect_def split: if_splits)
  moreover have "item_id (created_item e) \<notin> item_id ` set xs"
    using None by (simp add: created_item_def find_by_None_iff)
  ultimately show ?thesis by (simp add: kept_put_new created_item_def)
next
  case (Some i)
  then have i: "i \<in> set xs" by (blast dest: find_by_SomeD)
  have "ys = xs \<or> (\<exists>j. ys = put_item j xs \<and> item_core j = item_core i \<and> (item_blocked i \<longrightarrow> item_blocked j))"
    using assms(1) Some
    by (auto simp: apply_effect_def item_core_def split: if_splits backlog_effect_kind.splits)
  then show ?thesis using kept_put_old [OF i assms(2)] kept_refl by blast
qed

lemma apply_loop_keeps:
  "apply_loop policy es xs = Inr ys \<Longrightarrow> ids_distinct xs \<Longrightarrow> kept_items xs ys"
proof (induction es arbitrary: xs)
  case (Cons e es)
  then obtain zs where z: "apply_effect policy e xs = Inr zs" "apply_loop policy es zs = Inr ys"
    by (auto split: sum.splits)
  have "ids_distinct zs" using apply_loop_distinct [of policy "[e]" xs zs] z(1) Cons.prems(2) by simp
  then show ?case using Cons.IH [OF z(2)] apply_effect_keeps [OF z(1) Cons.prems(2)] kept_trans by blast
qed (simp add: kept_refl)

lemma apply_loop_allowed:
  "apply_loop policy es xs = Inr ys \<Longrightarrow> e \<in> set es \<Longrightarrow> be_kind e \<in> allowed_apply_effects policy"
  by (induction es arbitrary: xs) (auto simp: apply_effect_def split: sum.splits if_splits)

section \<open>Reconciliation\<close>

text \<open>What an effect proposed for a finding carries: the finding's identity, fingerprint and checked
  evidence; a closure only for a closable finding.\<close>

definition effect_of_finding :: "(string \<Rightarrow> digest) \<Rightarrow> backlog_finding \<Rightarrow> backlog_effect \<Rightarrow> bool" where
  "effect_of_finding sha f e \<longleftrightarrow> be_finding_id e = find_id f \<and> be_fingerprint e = finding_fingerprint sha f \<and>
     find_evidence_digest f = Some (be_evidence_digest e) \<and>
     (be_kind e = CloseEffect \<longrightarrow> find_evidence_status f = CheckedClosable) \<and>
     (be_kind e = BlockEffect \<longrightarrow> find_evidence_status f = CheckedBlocked)"

abbreviation ranked_ids :: "backlog_effect list \<Rightarrow> string list" where
  "ranked_ids es \<equiv> map be_finding_id (filter (\<lambda>e. be_kind e = RankEffect) es)"

lemma effective_finding_simps [simp]:
  "find_id (effective_finding m p f) = find_id f"
  "find_evidence_digest (effective_finding m p f) = find_evidence_digest f"
  "finding_fingerprint sha (effective_finding m p f) = finding_fingerprint sha f"
  by (simp_all add: effective_finding_def finding_fingerprint_def split: option.splits)

lemma make_effect_Some:
  assumes "find_evidence_digest f = Some d"
  obtains e where "make_effect sha kind f target reason rank = Inr e" "be_kind e = kind"
    "be_finding_id e = find_id f" "be_fingerprint e = finding_fingerprint sha f" "be_evidence_digest e = d"
  using assms by (simp add: make_effect_def)

lemma finding_effects_ok:
  assumes "find_evidence_digest f = Some d"
  shows "\<exists>es. finding_effects sha m p f = Inr es \<and> ranked_ids es = [find_id f] \<and>
    list_all (effect_of_finding sha f) es"
  unfolding finding_effects_def Let_def make_effect_def effective_finding_simps assms option.case
  by (simp add: effect_of_finding_def assms)

lemma reconcile_loop_ok:
  assumes "list_all valid_finding fs"
  shows "\<exists>es. reconcile_loop sha existing closed fs = Inr es \<and>
    ranked_ids es = map find_id (filter (\<lambda>f. find_evidence_status f \<in> checked_evidence_statuses) fs) \<and>
    (\<forall>e \<in> set es. \<exists>f \<in> set fs. find_evidence_status f \<in> checked_evidence_statuses \<and> effect_of_finding sha f e)"
  using assms
proof (induction fs arbitrary: existing)
  case (Cons f fs)
  show ?case
  proof (cases "find_evidence_status f \<in> checked_evidence_statuses")
    case False
    with Cons.IH [of existing] Cons.prems show ?thesis by fastforce
  next
    case True
    let ?fp = "finding_fingerprint sha f"
    let ?ex = "if existing ?fp = None then existing(?fp \<mapsto> shadow_item sha (existing ?fp) (closed ?fp) f)
      else existing"
    obtain d where d: "find_evidence_digest f = Some d" using True Cons.prems by (auto simp: valid_finding_def)
    obtain es where es: "finding_effects sha (existing ?fp) (closed ?fp) f = Inr es"
      "ranked_ids es = [find_id f]" "list_all (effect_of_finding sha f) es"
      using finding_effects_ok [OF d, of sha "existing ?fp" "closed ?fp"] by auto
    obtain es' where es': "reconcile_loop sha ?ex closed fs = Inr es'"
      "ranked_ids es' = map find_id (filter (\<lambda>f. find_evidence_status f \<in> checked_evidence_statuses) fs)"
      "\<forall>e \<in> set es'. \<exists>f \<in> set fs. find_evidence_status f \<in> checked_evidence_statuses \<and> effect_of_finding sha f e"
      using Cons.IH [of ?ex] Cons.prems by auto
    have "reconcile_loop sha existing closed (f # fs) = Inr (es @ es')"
      using True es(1) es'(1) by (simp add: Let_def)
    then show ?thesis using True es(2,3) es'(2,3) by (fastforce simp: list_all_iff)
  qed
qed simp

section \<open>Properties\<close>

text \<open>applying backlog effects composes. Applying two sequences in turn, each time through a fresh
  projection that is re-indexed and re-sorted, gives exactly what applying their concatenation gives,
  failures included; so replaying the recorded effects one at a time is the batch projection.\<close>

theorem apply_effects_compose:
  "apply_effects items (es @ fs) policy =
     (case apply_effects items es policy of Inl err \<Rightarrow> Inl err | Inr items' \<Rightarrow> apply_effects items' fs policy)"
  by (rule apply_effects_append)

text \<open>the apply projection never closes and never forgets. Under a valid policy a successful
  application contains no closing effect; every item is still there with its identity, content and
  closure, a blocked item is still blocked, and a closed item in the result was closed before.\<close>

theorem apply_effects_never_close:
  assumes "apply_effects items es policy = Inr out" "valid_policy policy"
  shows "(\<forall>e \<in> set es. be_kind e \<noteq> CloseEffect) \<and> kept_items (items_by_id items) out"
proof -
  obtain ys where ys: "apply_loop policy es (items_by_id items) = Inr ys" "out = sort_key item_order ys"
    using assms(1) unfolding apply_effects_def map_sum_Inr_iff by blast
  have "kept_items (items_by_id items) ys" by (rule apply_loop_keeps [OF ys(1)]) simp
  then have "kept_items (items_by_id items) out" by (simp add: kept_items_def ys(2))
  moreover have "be_kind e \<noteq> CloseEffect" if "e \<in> set es" for e
    using apply_loop_allowed [OF ys(1) that] assms(2) unfolding valid_policy_def by auto
  ultimately show ?thesis by simp
qed

text \<open>C34: reconciliation is total on valid findings and proposes only what the evidence warrants. It
  never raises; each checked finding is ranked exactly once, in the order of priority and identity;
  every effect carries the fingerprint and the exact checked evidence of a finding; closing is
  proposed only for findings checked closable and blocking only for findings checked blocked. The
  trace does not depend on the order of the findings when their identities are distinct.\<close>

theorem reconcile_total_and_grounded:
  assumes "list_all valid_finding findings"
  shows "\<exists>es. reconcile sha items findings = Inr es \<and>
    ranked_ids es = map find_id (filter (\<lambda>f. find_evidence_status f \<in> checked_evidence_statuses)
      (sort_key (\<lambda>f. (- find_priority f, find_id f)) findings)) \<and>
    (\<forall>e \<in> set es. \<exists>f \<in> set findings.
      find_evidence_status f \<in> checked_evidence_statuses \<and> effect_of_finding sha f e) \<and>
    (mset fs = mset findings \<and> distinct (map find_id findings) \<longrightarrow> reconcile sha items fs = Inr es)"
proof -
  let ?key = "\<lambda>f. (- find_priority f, find_id f)"
  obtain es where es: "reconcile sha items findings = Inr es"
    and props: "ranked_ids es = map find_id (filter (\<lambda>f. find_evidence_status f \<in> checked_evidence_statuses)
        (sort_key ?key findings))"
      "\<forall>e \<in> set es. \<exists>f \<in> set findings. find_evidence_status f \<in> checked_evidence_statuses \<and> effect_of_finding sha f e"
    using reconcile_loop_ok [of "sort_key ?key findings" sha
        "index_by item_fingerprint (filter (\<lambda>i. \<not> item_closed i) items)"
        "index_by item_fingerprint (filter item_closed items)"] assms
    unfolding reconcile_def by (auto simp: list_all_iff)
  have "reconcile sha items fs = Inr es" if "mset fs = mset findings" "distinct (map find_id findings)"
  proof -
    have "inj_on ?key (set findings)" using that(2) by (auto simp: distinct_map inj_on_def)
    then have "sort_key ?key findings = sort_key ?key fs"
      using that(1) by (intro sort_key_inj_key_eq) auto
    then show ?thesis using es by (simp add: reconcile_def)
  qed
  with es props show ?thesis by blast
qed

definition example_finding :: "string \<Rightarrow> evidence_status \<Rightarrow> int \<Rightarrow> backlog_finding" where
  "example_finding i status priority =
    \<lparr>find_id = i, find_title = '' t'' @ i, find_protected_consequence = ''c'', find_source = ''s'',
     find_evidence_status = status, find_evidence_digest = Some ''d'', find_workspace_digest = ''w'',
     find_priority = priority, find_recurrence_of = None\<rparr>"

theorem reconcile_total_and_grounded_witness:
  "\<exists>es. reconcile id [] [example_finding ''f1'' CheckedOpen 1, example_finding ''f2'' CheckedClosable 2] =
     Inr es \<and> ranked_ids es = [''f2'', ''f1'']"
proof -
  let ?fs = "[example_finding ''f1'' CheckedOpen 1, example_finding ''f2'' CheckedClosable 2]"
  have v: "list_all valid_finding ?fs" by code_simp
  obtain es where es: "reconcile id [] ?fs = Inr es"
    "ranked_ids es = map find_id (filter (\<lambda>f. find_evidence_status f \<in> checked_evidence_statuses)
      (sort_key (\<lambda>f. (- find_priority f, find_id f)) ?fs))"
    using reconcile_total_and_grounded [OF v, of id "[]"] by blast
  then show ?thesis by (simp add: example_finding_def)
qed

definition example_effect :: "backlog_effect_kind \<Rightarrow> backlog_effect" where
  "example_effect kind = \<lparr>be_id = ''e'', be_kind = kind, be_finding_id = ''f'', be_target_item_id = ''i'',
     be_fingerprint = ''fp'', be_title = ''t'', be_protected_consequence = ''c'', be_source = ''s'',
     be_recurrence_of = None, be_rank = Some 7, be_evidence_digest = ''d'', be_workspace_digest = ''w'',
     be_reason = ''r''\<rparr>"

theorem apply_effects_never_close_witness:
  "\<exists>out. apply_effects [] [example_effect CreateEffect, example_effect BlockEffect] constitutional_policy =
     Inr out \<and> kept_items [] out"
proof -
  let ?es = "[example_effect CreateEffect, example_effect BlockEffect]"
  have v: "valid_policy constitutional_policy" by code_simp
  have "is_ok (apply_effects [] ?es constitutional_policy)" by code_simp
  then obtain out where out: "apply_effects [] ?es constitutional_policy = Inr out"
    by (auto simp: is_ok_iff)
  from apply_effects_never_close [OF out v] out show ?thesis by (simp add: items_by_id_def)
qed

end
