(* ===== verification/Rci_Effects.thy ===== *)
theory Rci_Effects
  imports Rci_Claims
begin

text \<open>
  The effect lifecycle records of \<open>core/effects.py\<close>: requests, attempt plans with their route
  snapshots, terminal outcomes, captured returns, decoded results, and the per-request state with its
  validators. The tagged unions of the code are datatypes with the code's variants.
\<close>

section \<open>Requests and plans\<close>

record transform_evidence =
  te_id :: ident
  te_version :: string
  te_input_artifact :: artifact_ref
  te_output_artifact :: artifact_ref

definition valid_transform :: "transform_evidence \<Rightarrow> bool" where
  "valid_transform t \<longleftrightarrow> valid_identifier (te_id t) \<and> valid_text (te_version t) \<and>
     valid_artifact_ref (te_input_artifact t) \<and> valid_artifact_ref (te_output_artifact t)"

record route_snapshot =
  rs_id :: ident
  rs_definition_id :: ident
  rs_definition_version :: string
  rs_definition_artifact :: artifact_ref
  rs_backend_id :: ident
  rs_adapter_id :: ident
  rs_adapter_version :: string
  rs_endpoint_or_channel :: "string option"
  rs_transport :: "string option"
  rs_execution_environment_artifact :: artifact_ref
  rs_request_or_action_digest :: digest
  rs_transform_evidence :: "transform_evidence list"

definition valid_route_snapshot :: "route_snapshot \<Rightarrow> bool" where
  "valid_route_snapshot r \<longleftrightarrow> valid_identifier (rs_id r) \<and> valid_identifier (rs_definition_id r) \<and>
     valid_text (rs_definition_version r) \<and> valid_artifact_ref (rs_definition_artifact r) \<and>
     valid_identifier (rs_backend_id r) \<and> valid_identifier (rs_adapter_id r) \<and>
     valid_text (rs_adapter_version r) \<and> pred_option valid_text (rs_endpoint_or_channel r) \<and>
     pred_option valid_text (rs_transport r) \<and>
     valid_artifact_ref (rs_execution_environment_artifact r) \<and>
     valid_sha256 (rs_request_or_action_digest r) \<and>
     list_all valid_transform (rs_transform_evidence r) \<and>
     distinct (map te_id (rs_transform_evidence r))"

record effect_request =
  req_id :: ident
  req_step_plan_id :: ident
  req_effect_kind :: ident
  req_adapter_id :: ident
  req_input_artifact :: artifact_ref
  req_timeout_seconds :: int

definition valid_effect_request :: "effect_request \<Rightarrow> bool" where
  "valid_effect_request r \<longleftrightarrow> valid_identifier (req_id r) \<and> valid_identifier (req_step_plan_id r) \<and>
     valid_identifier (req_effect_kind r) \<and> valid_identifier (req_adapter_id r) \<and>
     valid_artifact_ref (req_input_artifact r) \<and>
     1 \<le> req_timeout_seconds r \<and> req_timeout_seconds r \<le> 86400"

record effect_attempt_plan =
  ap_id :: ident
  ap_request_id :: ident
  ap_route :: route_snapshot

definition valid_attempt_plan :: "effect_attempt_plan \<Rightarrow> bool" where
  "valid_attempt_plan p \<longleftrightarrow> valid_identifier (ap_id p) \<and> valid_identifier (ap_request_id p) \<and>
     valid_route_snapshot (ap_route p)"

section \<open>Outcomes\<close>

datatype no_attempt_reason = NoAttemptPolicyDenied | NoAttemptUnsupported | BudgetExhausted | DependenciesOpen
datatype not_presented_reason = NotPresentedPolicyDenied | NotPresentedUnsupported | PreflightFailed
datatype capture_failure_reason = CaptureErrorReason | OutputLimit | StorageErrorReason
datatype presentation_unknown_reason = TimeoutReason | TransportError | InternalFailure
datatype cancellation_reason = CallerCancelled | PolicyCancelled | Shutdown

record no_attempt_disposition =
  na_id :: ident
  na_request_id :: ident
  na_step_plan_id :: ident
  na_reason_kind :: no_attempt_reason
  na_diagnostics :: "artifact_ref option"

definition valid_no_attempt :: "no_attempt_disposition \<Rightarrow> bool" where
  "valid_no_attempt d \<longleftrightarrow> valid_identifier (na_id d) \<and> valid_identifier (na_request_id d) \<and>
     valid_identifier (na_step_plan_id d) \<and> pred_option valid_artifact_ref (na_diagnostics d)"

record external_return =
  er_id :: ident
  er_attempt_id :: ident
  er_route_id :: ident
  er_source_id :: "ident option"
  er_source_revision :: "string option"
  er_capture_boundary :: string
  er_capture_encoding :: string
  er_captured_at :: datetime
  er_raw_payload :: captured_payload

definition valid_external_return :: "external_return \<Rightarrow> bool" where
  "valid_external_return r \<longleftrightarrow> valid_identifier (er_id r) \<and> valid_identifier (er_attempt_id r) \<and>
     valid_identifier (er_route_id r) \<and> pred_option valid_identifier (er_source_id r) \<and>
     pred_option valid_text (er_source_revision r) \<and> valid_text (er_capture_boundary r) \<and>
     valid_text (er_capture_encoding r) \<and> is_ok (require_utc (er_captured_at r)) \<and>
     valid_captured_payload (er_raw_payload r)"

datatype attempt_outcome =
    NotPresentedOutcome (outcome_attempt_id: ident) (outcome_route_id: ident)
      not_presented_reason "artifact_ref option"
  | CaptureFailedOutcome (outcome_attempt_id: ident) (outcome_route_id: ident)
      capture_failure_reason artifact_ref
  | PresentationUnknownOutcome (outcome_attempt_id: ident) (outcome_route_id: ident)
      presentation_unknown_reason artifact_ref
  | CancelledOutcome (outcome_attempt_id: ident) (outcome_route_id: ident)
      cancellation_reason "artifact_ref option"
  | ReturnedOutcome (outcome_attempt_id: ident) (outcome_route_id: ident) external_return

fun valid_outcome :: "attempt_outcome \<Rightarrow> bool" where
  "valid_outcome (NotPresentedOutcome a r _ d) =
     (valid_identifier a \<and> valid_identifier r \<and> pred_option valid_artifact_ref d)"
| "valid_outcome (CaptureFailedOutcome a r _ d) =
     (valid_identifier a \<and> valid_identifier r \<and> valid_artifact_ref d)"
| "valid_outcome (PresentationUnknownOutcome a r _ d) =
     (valid_identifier a \<and> valid_identifier r \<and> valid_artifact_ref d)"
| "valid_outcome (CancelledOutcome a r _ d) =
     (valid_identifier a \<and> valid_identifier r \<and> pred_option valid_artifact_ref d)"
| "valid_outcome (ReturnedOutcome a r e) =
     (valid_identifier a \<and> valid_identifier r \<and> valid_external_return e \<and>
      er_attempt_id e = a \<and> er_route_id e = r)"

text \<open>The captured return of an optional outcome, if it returned.\<close>

fun returned_id :: "attempt_outcome option \<Rightarrow> ident option" where
  "returned_id (Some (ReturnedOutcome _ _ e)) = Some (er_id e)"
| "returned_id _ = None"

section \<open>Decoding\<close>

datatype result_content =
    WitnessResult ident artifact_ref
  | CounterexampleResult ident artifact_ref
  | SeparatorResult ident ident artifact_ref
  | EquivalenceCertificateResult ident artifact_ref
  | ConflictResult ident ident
  | PrerequisiteResult ident ident artifact_ref
  | ReachabilityWitnessResult ident ident artifact_ref
  | UnreachabilityCertificateResult ident ident artifact_ref
  | SuccessResult ident
  | FailureResult ident "artifact_ref option"
  | UnknownResult ident

fun valid_result_content :: "result_content \<Rightarrow> bool" where
  "valid_result_content (WitnessResult p a) = (valid_identifier p \<and> valid_artifact_ref a)"
| "valid_result_content (CounterexampleResult p a) = (valid_identifier p \<and> valid_artifact_ref a)"
| "valid_result_content (SeparatorResult l r a) =
     (valid_identifier l \<and> valid_identifier r \<and> valid_artifact_ref a)"
| "valid_result_content (EquivalenceCertificateResult p a) = (valid_identifier p \<and> valid_artifact_ref a)"
| "valid_result_content (ConflictResult l r) = (valid_identifier l \<and> valid_identifier r)"
| "valid_result_content (PrerequisiteResult l r a) =
     (valid_identifier l \<and> valid_identifier r \<and> valid_artifact_ref a)"
| "valid_result_content (ReachabilityWitnessResult l r a) =
     (valid_identifier l \<and> valid_identifier r \<and> valid_artifact_ref a)"
| "valid_result_content (UnreachabilityCertificateResult l r a) =
     (valid_identifier l \<and> valid_identifier r \<and> valid_artifact_ref a)"
| "valid_result_content (SuccessResult p) = valid_identifier p"
| "valid_result_content (FailureResult p d) = (valid_identifier p \<and> pred_option valid_artifact_ref d)"
| "valid_result_content (UnknownResult p) = valid_identifier p"

record canonical_result =
  result_id :: ident
  result_semantic_artifact :: artifact_ref
  result_content_of :: result_content

definition valid_result :: "canonical_result \<Rightarrow> bool" where
  "valid_result r \<longleftrightarrow> valid_identifier (result_id r) \<and> valid_artifact_ref (result_semantic_artifact r) \<and>
     valid_result_content (result_content_of r)"

datatype decode_content =
    Decoded canonical_result
  | MalformedDecode artifact_ref
  | UnsupportedDecode string
  | FailedDecode artifact_ref

record decode_outcome =
  dec_id :: ident
  dec_external_return_id :: ident
  dec_decoder_id :: ident
  dec_decoder_version :: string
  dec_content :: decode_content

fun decoded_result :: "decode_content \<Rightarrow> canonical_result option" where
  "decoded_result (Decoded r) = Some r"
| "decoded_result _ = None"

definition valid_decode :: "decode_outcome \<Rightarrow> bool" where
  "valid_decode d \<longleftrightarrow> valid_identifier (dec_id d) \<and> valid_identifier (dec_external_return_id d) \<and>
     valid_identifier (dec_decoder_id d) \<and> valid_text (dec_decoder_version d) \<and>
     (case dec_content d of Decoded r \<Rightarrow> valid_result r | MalformedDecode a \<Rightarrow> valid_artifact_ref a
      | UnsupportedDecode t \<Rightarrow> valid_text t | FailedDecode a \<Rightarrow> valid_artifact_ref a)"

section \<open>The state of a request\<close>

record attempt_state =
  att_plan :: effect_attempt_plan
  att_started :: bool
  att_started_event_id :: "ident option"
  att_started_at :: "datetime option"
  att_outcome :: "attempt_outcome option"

definition new_attempt :: "effect_attempt_plan \<Rightarrow> attempt_state" where
  "new_attempt p = \<lparr>att_plan = p, att_started = False, att_started_event_id = None,
     att_started_at = None, att_outcome = None\<rparr>"

definition valid_attempt_state :: "attempt_state \<Rightarrow> bool" where
  "valid_attempt_state a \<longleftrightarrow> valid_attempt_plan (att_plan a) \<and>
     pred_option valid_identifier (att_started_event_id a) \<and>
     pred_option (\<lambda>t. is_ok (require_utc t)) (att_started_at a) \<and>
     pred_option valid_outcome (att_outcome a) \<and>
     att_started a = (att_started_event_id a \<noteq> None \<and> att_started_at a \<noteq> None) \<and>
     (att_outcome a \<noteq> None \<longrightarrow> att_started a)"

record effect_request_state =
  ers_request :: effect_request
  ers_attempts :: "attempt_state list"
  ers_no_attempt_dispositions :: "no_attempt_disposition list"
  ers_decode_outcomes :: "decode_outcome list"
  ers_accepted_decoded_outcome_id :: "ident option"

abbreviation ers_id :: "effect_request_state \<Rightarrow> ident" where
  "ers_id r \<equiv> req_id (ers_request r)"

abbreviation att_id :: "attempt_state \<Rightarrow> ident" where
  "att_id a \<equiv> ap_id (att_plan a)"

definition new_request :: "effect_request \<Rightarrow> effect_request_state" where
  "new_request r = \<lparr>ers_request = r, ers_attempts = [], ers_no_attempt_dispositions = [],
     ers_decode_outcomes = [], ers_accepted_decoded_outcome_id = None\<rparr>"

definition return_ids :: "effect_request_state \<Rightarrow> ident list" where
  "return_ids r = List.map_filter (\<lambda>a. returned_id (att_outcome a)) (ers_attempts r)"

definition find_decode :: "effect_request_state \<Rightarrow> ident \<Rightarrow> decode_outcome option" where
  "find_decode r i = find_by dec_id i (ers_decode_outcomes r)"

definition accepted_result :: "effect_request_state \<Rightarrow> canonical_result option" where
  "accepted_result r =
    (case ers_accepted_decoded_outcome_id r of None \<Rightarrow> None
     | Some i \<Rightarrow> Option.bind (find_decode r i) (\<lambda>d. decoded_result (dec_content d)))"

definition valid_request_state :: "effect_request_state \<Rightarrow> bool" where
  "valid_request_state r \<longleftrightarrow> valid_effect_request (ers_request r) \<and>
     list_all valid_attempt_state (ers_attempts r) \<and>
     list_all valid_no_attempt (ers_no_attempt_dispositions r) \<and>
     list_all valid_decode (ers_decode_outcomes r) \<and>
     distinct (map att_id (ers_attempts r)) \<and>
     distinct (map na_id (ers_no_attempt_dispositions r)) \<and>
     distinct (return_ids r) \<and> distinct (map dec_id (ers_decode_outcomes r)) \<and>
     list_all (\<lambda>d. dec_external_return_id d \<in> set (return_ids r)) (ers_decode_outcomes r) \<and>
     pred_option valid_identifier (ers_accepted_decoded_outcome_id r) \<and>
     (ers_accepted_decoded_outcome_id r \<noteq> None \<longrightarrow> accepted_result r \<noteq> None)"

section \<open>Updates of a request\<close>

text \<open>The three tuple comprehensions of the reducer that rewrite one attempt in place.\<close>

definition start_attempt :: "ident \<Rightarrow> ident \<Rightarrow> datetime \<Rightarrow> effect_request_state \<Rightarrow> effect_request_state" where
  "start_attempt attempt_id event_id at r = r\<lparr>ers_attempts := map (\<lambda>a. if att_id a = attempt_id
     then \<lparr>att_plan = att_plan a, att_started = True, att_started_event_id = Some event_id,
           att_started_at = Some at, att_outcome = None\<rparr> else a) (ers_attempts r)\<rparr>"

definition finish_attempt :: "attempt_outcome \<Rightarrow> effect_request_state \<Rightarrow> effect_request_state" where
  "finish_attempt oc r = r\<lparr>ers_attempts := map (\<lambda>a. if att_id a = outcome_attempt_id oc
     then a\<lparr>att_outcome := Some oc\<rparr> else a) (ers_attempts r)\<rparr>"

end
