(* ===== verification/Rci_State.thy ===== *)
theory Rci_State
  imports Rci_Policy Rci_Planning Rci_Backlog Rci_Effects
begin

text \<open>
  The inquiry aggregate of \<open>core/state.py\<close>: the record \<open>InquiryState\<close> with the collections the
  foundation, claims, support and warrant commands own, its accessors, and the lifecycle validator
  that runs on every construction. A nested record is validated again whenever the state is rebuilt
  from its dump, so the element validators are part of \<open>valid_state\<close>. The collections of the probe,
  memory, learning, compression and project milestones are not fields of the model; they are empty
  in every state the modelled commands reach, and the validator's clauses on them hold trivially.
\<close>

section \<open>The aggregate\<close>

datatype inquiry_status = NotStarted | Active

record inquiry_state =
  st_status :: inquiry_status
  st_inquiry_id :: "ident option"
  st_sequence :: nat
  st_manifest_artifact :: "artifact_ref option"
  st_policy_version :: "ident option"
  st_context :: "inquiry_context option"
  st_backlog_effects :: "backlog_effect list"
  st_step_plans :: "step_plan list"
  st_effect_requests :: "effect_request_state list"
  st_claims :: "claim list"
  st_conflicts :: "conflict list"
  st_obligations :: "obligation list"
  st_obligation_dispositions :: "obligation_disposition list"
  st_candidates :: "candidate list"
  st_residuals :: "residual list"
  st_corrections :: "correction list"
  st_guard_changes :: "guard_change list"
  st_nogoods :: "nogood list"
  st_route_changes :: "route_change list"
  st_nogood_changes :: "nogood_change list"
  st_evidence_records :: "evidence list"
  st_checker_verdicts :: "verdict_record list"
  st_warrant_decisions :: "warrant_decision list"
  st_lemma_versions :: "lemma_version list"
  st_lemma_supports :: "lemma_support list"
  st_promotion_links :: "promotion_link list"

definition initial_state :: inquiry_state where
  "initial_state =
    \<lparr>st_status = NotStarted, st_inquiry_id = None, st_sequence = 0, st_manifest_artifact = None,
     st_policy_version = None, st_context = None, st_backlog_effects = [], st_step_plans = [],
     st_effect_requests = [], st_claims = [], st_conflicts = [], st_obligations = [],
     st_obligation_dispositions = [], st_candidates = [], st_residuals = [], st_corrections = [],
     st_guard_changes = [], st_nogoods = [], st_route_changes = [], st_nogood_changes = [],
     st_evidence_records = [], st_checker_verdicts = [], st_warrant_decisions = [],
     st_lemma_versions = [], st_lemma_supports = [], st_promotion_links = []\<rparr>"

section \<open>Accessors\<close>

definition request_by_id :: "inquiry_state \<Rightarrow> ident \<Rightarrow> effect_request_state option" where
  "request_by_id s i = find_by ers_id i (st_effect_requests s)"

definition backlog_effect_by_id :: "inquiry_state \<Rightarrow> string \<Rightarrow> backlog_effect option" where
  "backlog_effect_by_id s i = find_by be_id i (st_backlog_effects s)"

definition step_plan_by_id :: "inquiry_state \<Rightarrow> string \<Rightarrow> step_plan option" where
  "step_plan_by_id s i = find_by plan_id i (st_step_plans s)"

definition claim_by_id :: "inquiry_state \<Rightarrow> string \<Rightarrow> claim option" where
  "claim_by_id s i = find_by claim_id i (st_claims s)"

definition obligation_by_id :: "inquiry_state \<Rightarrow> string \<Rightarrow> obligation option" where
  "obligation_by_id s i = find_by obl_id i (st_obligations s)"

text \<open>The last disposition of an obligation; \<open>index_by\<close> gives the last matching record.\<close>

definition disposition_tail :: "inquiry_state \<Rightarrow> string \<Rightarrow> obligation_disposition option" where
  "disposition_tail s i = index_by disp_obligation_id (st_obligation_dispositions s) i"

definition current_obligation_status :: "inquiry_state \<Rightarrow> string \<Rightarrow> obligation_status option" where
  "current_obligation_status s i = (case obligation_by_id s i of None \<Rightarrow> None
     | Some q \<Rightarrow> Some (case disposition_tail s i of Some d \<Rightarrow> disp_status d | None \<Rightarrow> obl_status q))"

definition latest_guard_change :: "inquiry_state \<Rightarrow> string \<Rightarrow> guard_change option" where
  "latest_guard_change s c = index_by guard_condition_id (st_guard_changes s) c"

definition nogood_by_id :: "inquiry_state \<Rightarrow> string \<Rightarrow> nogood option" where
  "nogood_by_id s i = find_by ng_id i (st_nogoods s)"

definition routes_of :: "lemma_support list \<Rightarrow> support_route list" where
  "routes_of supports = concat (map all_support_routes supports)"

definition support_route_by_id :: "inquiry_state \<Rightarrow> string \<Rightarrow> support_route option" where
  "support_route_by_id s i = find_by route_id i (routes_of (st_lemma_supports s))"

definition latest_route_change :: "inquiry_state \<Rightarrow> string \<Rightarrow> route_change option" where
  "latest_route_change s i = index_by rc_support_route_id (st_route_changes s) i"

definition latest_nogood_change :: "inquiry_state \<Rightarrow> string \<Rightarrow> nogood_change option" where
  "latest_nogood_change s i = index_by nc_nogood_id (st_nogood_changes s) i"

definition standing_context_ids :: "inquiry_state \<Rightarrow> string set" where
  "standing_context_ids s = set (filter
     (\<lambda>c. map_option guard_standing_of (latest_guard_change s c) = Some GuardStanding)
     (map guard_condition_id (st_guard_changes s)))"

definition evidence_by_id :: "inquiry_state \<Rightarrow> string \<Rightarrow> evidence option" where
  "evidence_by_id s i = find_by ev_id i (st_evidence_records s)"

definition warrant_decision_by_id :: "inquiry_state \<Rightarrow> string \<Rightarrow> warrant_decision option" where
  "warrant_decision_by_id s i = find_by wd_id i (st_warrant_decisions s)"

definition checker_verdict_by_id :: "inquiry_state \<Rightarrow> string \<Rightarrow> verdict_record option" where
  "checker_verdict_by_id s i = find_by cv_id i (st_checker_verdicts s)"

text \<open>The join of a version with its support; a version without support is a \<open>KeyError\<close>, a join
  that violates its validator a validation failure.\<close>

definition join_lemma ::
  "(string \<Rightarrow> digest) \<Rightarrow> lemma_support list \<Rightarrow> lemma_version \<Rightarrow> warranted_lemma result" where
  "join_lemma sha supports v =
    (case index_by ls_lemma_version_id supports (lv_id v) of None \<Rightarrow> Inl (KeyError (lv_id v))
     | Some supp \<Rightarrow> construct (valid_warranted_lemma sha) ''WarrantedLemma''
         \<lparr>wl_version = v, wl_support = supp\<rparr>)"

definition join_lemmas ::
  "(string \<Rightarrow> digest) \<Rightarrow> lemma_support list \<Rightarrow> lemma_version list \<Rightarrow> warranted_lemma list result" where
  "join_lemmas sha supports versions = collect_results (map (join_lemma sha supports) versions)"

definition warranted_lemmas :: "(string \<Rightarrow> digest) \<Rightarrow> inquiry_state \<Rightarrow> warranted_lemma list result" where
  "warranted_lemmas sha s = join_lemmas sha (st_lemma_supports s) (st_lemma_versions s)"

definition current_theory_selector :: "inquiry_state \<Rightarrow> inquiry_context \<Rightarrow> theory_selector result" where
  "current_theory_selector s ctx = construct valid_selector ''TheorySelector''
    \<lparr>sel_scope_fingerprint = ctx_scope_fingerprint ctx, sel_binding_revision = ctx_binding_revision ctx,
     sel_finite_universe_hash = ctx_finite_universe_hash ctx,
     sel_policy_version = ctx_warrant_policy_version ctx,
     sel_current_assumption_ids = sort (ctx_assumption_ids ctx),
     sel_current_context_ids = sorted_list_of_set (standing_context_ids s)\<rparr>"

definition state_check_base :: "inquiry_state \<Rightarrow> inquiry_context \<Rightarrow> check_base" where
  "state_check_base s ctx = \<lparr>cb_evidence = st_evidence_records s, cb_verdicts = st_checker_verdicts s,
     cb_authorized = ctx_discharge_mechanism_ids ctx\<rparr>"

definition active_theory :: "(string \<Rightarrow> digest) \<Rightarrow> inquiry_state \<Rightarrow> active_lemma_view list result" where
  "active_theory sha s = (case st_context s of None \<Rightarrow> Inr []
     | Some ctx \<Rightarrow> (case current_theory_selector s ctx of Inl e \<Rightarrow> Inl e
        | Inr sel \<Rightarrow> (case warranted_lemmas sha s of Inl e \<Rightarrow> Inl e
           | Inr lemmas \<Rightarrow> select_active_theory sha lemmas sel (st_nogoods s) (st_route_changes s)
               (st_nogood_changes s) (state_check_base s ctx))))"

section \<open>The lifecycle validator\<close>

definition no_records :: "inquiry_state \<Rightarrow> bool" where
  "no_records s \<longleftrightarrow> st_backlog_effects s = [] \<and> st_step_plans s = [] \<and> st_effect_requests s = [] \<and>
     st_claims s = [] \<and> st_conflicts s = [] \<and> st_obligations s = [] \<and>
     st_obligation_dispositions s = [] \<and> st_candidates s = [] \<and> st_residuals s = [] \<and>
     st_corrections s = [] \<and> st_guard_changes s = [] \<and> st_nogoods s = [] \<and> st_route_changes s = [] \<and>
     st_nogood_changes s = [] \<and> st_evidence_records s = [] \<and> st_checker_verdicts s = [] \<and>
     st_warrant_decisions s = [] \<and> st_lemma_versions s = [] \<and> st_lemma_supports s = [] \<and>
     st_promotion_links s = []"

definition valid_lifecycle :: "inquiry_state \<Rightarrow> bool" where
  "valid_lifecycle s \<longleftrightarrow> (case st_status s of
     NotStarted \<Rightarrow> st_sequence s = 0 \<and> st_inquiry_id s = None \<and> st_manifest_artifact s = None \<and>
       st_policy_version s = None \<and> st_context s = None \<and> no_records s
   | Active \<Rightarrow> st_inquiry_id s \<noteq> None \<and> st_manifest_artifact s \<noteq> None \<and>
       st_policy_version s \<noteq> None \<and> st_context s \<noteq> None)"

definition valid_header :: "inquiry_state \<Rightarrow> bool" where
  "valid_header s \<longleftrightarrow> pred_option valid_identifier (st_inquiry_id s) \<and>
     pred_option valid_artifact_ref (st_manifest_artifact s) \<and>
     pred_option valid_identifier (st_policy_version s) \<and> pred_option valid_context (st_context s)"

text \<open>Requests, attempts, returns, decodes and results: unique across the inquiry.\<close>

definition global_attempt_ids :: "effect_request_state list \<Rightarrow> ident list" where
  "global_attempt_ids rs = concat (map (\<lambda>r. map att_id (ers_attempts r)) rs)"

definition global_return_ids :: "effect_request_state list \<Rightarrow> ident list" where
  "global_return_ids rs = concat (map return_ids rs)"

definition global_decode_ids :: "effect_request_state list \<Rightarrow> ident list" where
  "global_decode_ids rs = concat (map (\<lambda>r. map dec_id (ers_decode_outcomes r)) rs)"

definition global_result_ids :: "effect_request_state list \<Rightarrow> ident list" where
  "global_result_ids rs = List.map_filter (\<lambda>r. map_option result_id (accepted_result r)) rs"

definition valid_requests :: "inquiry_state \<Rightarrow> bool" where
  "valid_requests s \<longleftrightarrow> list_all valid_request_state (st_effect_requests s) \<and>
     distinct (map ers_id (st_effect_requests s)) \<and>
     list_all (\<lambda>r. req_step_plan_id (ers_request r) \<in> set (map plan_id (st_step_plans s)))
       (st_effect_requests s) \<and>
     distinct (global_attempt_ids (st_effect_requests s)) \<and>
     distinct (global_return_ids (st_effect_requests s)) \<and>
     distinct (global_decode_ids (st_effect_requests s)) \<and>
     distinct (global_result_ids (st_effect_requests s))"

text \<open>\<open>plan.selected_obligation_id or ""\<close>.\<close>

definition id_or_empty :: "string option \<Rightarrow> string" where
  "id_or_empty i = (case i of None \<Rightarrow> [] | Some x \<Rightarrow> x)"

definition plan_owns :: "(string \<Rightarrow> digest) \<Rightarrow> obligation option \<Rightarrow> attempt_key option \<Rightarrow> bool" where
  "plan_owns sha q k = (case (q, k) of
     (Some q, Some k) \<Rightarrow> key_obligation_fingerprint k = obligation_fingerprint sha q \<and>
       key_binding_revision k = obl_binding_revision q
   | _ \<Rightarrow> False)"

definition valid_plans :: "(string \<Rightarrow> digest) \<Rightarrow> inquiry_state \<Rightarrow> bool" where
  "valid_plans sha s \<longleftrightarrow> list_all (valid_step_plan sha) (st_step_plans s) \<and>
     distinct (map plan_id (st_step_plans s)) \<and>
     list_all (\<lambda>p. Some (plan_policy_version p) = map_option ctx_scheduler_policy_version (st_context s) \<and>
        (plan_status_of p = PlanReady \<longrightarrow>
           plan_owns sha (index_by obl_id (st_obligations s) (id_or_empty (plan_selected_obligation_id p)))
             (plan_selected_attempt_key p))) (st_step_plans s)"

definition valid_claim_records :: "inquiry_state \<Rightarrow> bool" where
  "valid_claim_records s \<longleftrightarrow>
     list_all valid_claim (st_claims s) \<and> distinct (map claim_id (st_claims s)) \<and>
     list_all valid_conflict (st_conflicts s) \<and> distinct (map conflict_id (st_conflicts s)) \<and>
     list_all (\<lambda>c. {fst (conflict_claim_ids c), snd (conflict_claim_ids c)} \<subseteq> set (map claim_id (st_claims s)))
       (st_conflicts s) \<and>
     list_all valid_obligation (st_obligations s) \<and> distinct (map obl_id (st_obligations s)) \<and>
     list_all valid_disposition (st_obligation_dispositions s) \<and>
     distinct (map disp_id (st_obligation_dispositions s)) \<and>
     list_all (\<lambda>d. disp_obligation_id d \<in> set (map obl_id (st_obligations s)))
       (st_obligation_dispositions s)"

definition valid_side_records :: "inquiry_state \<Rightarrow> bool" where
  "valid_side_records s \<longleftrightarrow>
     distinct (map be_id (st_backlog_effects s)) \<and>
     list_all valid_candidate (st_candidates s) \<and> distinct (map cand_id (st_candidates s)) \<and>
     list_all valid_residual (st_residuals s) \<and> distinct (map resid_id (st_residuals s)) \<and>
     list_all valid_correction (st_corrections s) \<and> distinct (map corr_id (st_corrections s)) \<and>
     list_all valid_guard_change (st_guard_changes s) \<and> distinct (map guard_id (st_guard_changes s))"

definition verdict_pins :: "evidence option \<Rightarrow> verdict_record \<Rightarrow> bool" where
  "verdict_pins eo v = (case eo of None \<Rightarrow> False | Some e \<Rightarrow>
     cv_evidence_artifact v = ev_artifact e \<and> cv_proposition_id v = ev_proposition_id e \<and>
     cv_proposition_kind v = ev_proposition_kind e \<and> cv_scope_fingerprint v = ev_scope_fingerprint e)"

definition decision_pins :: "evidence option \<Rightarrow> verdict_record option \<Rightarrow> warrant_decision \<Rightarrow> bool" where
  "decision_pins eo vo d = (case (eo, vo) of
     (Some e, Some v) \<Rightarrow> cv_evidence_id v = ev_id e \<and> wd_proposition_id d = ev_proposition_id e \<and>
       wd_proposition_kind d = ev_proposition_kind e \<and> wd_scope_fingerprint d = ev_scope_fingerprint e \<and>
       cv_proposition_id v = wd_proposition_id d \<and> cv_proposition_kind v = wd_proposition_kind d \<and>
       cv_scope_fingerprint v = wd_scope_fingerprint d
   | _ \<Rightarrow> False)"

definition valid_warrants :: "inquiry_state \<Rightarrow> bool" where
  "valid_warrants s \<longleftrightarrow>
     list_all valid_evidence (st_evidence_records s) \<and> distinct (map ev_id (st_evidence_records s)) \<and>
     list_all valid_verdict_record (st_checker_verdicts s) \<and>
     distinct (map cv_id (st_checker_verdicts s)) \<and>
     list_all (\<lambda>v. verdict_pins (index_by ev_id (st_evidence_records s) (cv_evidence_id v)) v)
       (st_checker_verdicts s) \<and>
     list_all valid_warrant_decision (st_warrant_decisions s) \<and>
     distinct (map wd_id (st_warrant_decisions s)) \<and>
     list_all (\<lambda>d. decision_pins (index_by ev_id (st_evidence_records s) (wd_evidence_id d))
        (index_by cv_id (st_checker_verdicts s) (wd_checker_verdict_id d)) d) (st_warrant_decisions s)"

definition reference_owned :: "evidence list \<Rightarrow> verdict_record list \<Rightarrow> check_reference \<Rightarrow> bool" where
  "reference_owned es vs r \<longleftrightarrow> index_by ev_id es (ref_evidence_id r) \<noteq> None \<and>
     map_option cv_evidence_id (index_by cv_id vs (ref_checker_verdict_id r)) = Some (ref_evidence_id r)"

definition route_owned :: "evidence list \<Rightarrow> verdict_record list \<Rightarrow> support_route \<Rightarrow> bool" where
  "route_owned es vs r \<longleftrightarrow> reference_owned es vs (route_certificate_check r) \<and>
     reference_owned es vs (env_realizability_check (route_environment r))"

definition link_owned ::
  "claim list \<Rightarrow> warrant_decision list \<Rightarrow> lemma_support list \<Rightarrow> promotion_link \<Rightarrow> bool" where
  "link_owned claims ds supports l \<longleftrightarrow> set (pl_source_claim_ids l) \<subseteq> set (map claim_id claims) \<and>
     (\<exists>d supp. index_by wd_id ds (pl_warrant_decision_id l) = Some d \<and>
        index_by ls_lemma_version_id supports (pl_lemma_version_id l) = Some supp \<and>
        ls_policy_version supp = wd_policy_version d)"

text \<open>Versions, supports and links align, the routes are unique, and both graphs are acyclic.\<close>

definition aligned_lemmas ::
  "(string \<Rightarrow> digest) \<Rightarrow> lemma_version list \<Rightarrow> lemma_support list \<Rightarrow> promotion_link list \<Rightarrow> bool" where
  "aligned_lemmas sha versions supports links \<longleftrightarrow>
     list_all valid_lemma_version versions \<and> distinct (map lv_id versions) \<and>
     list_all valid_lemma_support supports \<and> distinct (map ls_lemma_version_id supports) \<and>
     list_all valid_promotion_link links \<and> distinct (map pl_id links) \<and>
     set (map lv_id versions) = set (map ls_lemma_version_id supports) \<and>
     set (map lv_id versions) = set (map pl_lemma_version_id links) \<and>
     distinct (map route_id (routes_of supports)) \<and>
     (case join_lemmas sha supports versions of Inl _ \<Rightarrow> False
      | Inr lemmas \<Rightarrow> support_graph_is_acyclic lemmas) \<and>
     ancestry_is_acyclic (map (\<lambda>v. (lv_id v, lv_predecessor_refs v)) versions)"

definition valid_lemmas :: "(string \<Rightarrow> digest) \<Rightarrow> inquiry_state \<Rightarrow> bool" where
  "valid_lemmas sha s \<longleftrightarrow>
     aligned_lemmas sha (st_lemma_versions s) (st_lemma_supports s) (st_promotion_links s) \<and>
     list_all (route_owned (st_evidence_records s) (st_checker_verdicts s)) (routes_of (st_lemma_supports s)) \<and>
     list_all (link_owned (st_claims s) (st_warrant_decisions s) (st_lemma_supports s)) (st_promotion_links s)"

text \<open>A standing history: each change extends the exact tail of its subject and changes its standing,
  which starts as standing.\<close>

fun standing_history ::
  "('c \<Rightarrow> string) \<Rightarrow> ('c \<Rightarrow> string) \<Rightarrow> ('c \<Rightarrow> string option) \<Rightarrow> ('c \<Rightarrow> support_standing) \<Rightarrow>
     (string \<Rightarrow> 'c option) \<Rightarrow> 'c list \<Rightarrow> bool" where
  "standing_history subj ident pred standing tail [] = True"
| "standing_history subj ident pred standing tail (c # cs) =
    (pred c = map_option ident (tail (subj c)) \<and>
     standing c \<noteq> (case tail (subj c) of None \<Rightarrow> Standing | Some t \<Rightarrow> standing t) \<and>
     standing_history subj ident pred standing (tail(subj c \<mapsto> c)) cs)"

definition nogood_owned ::
  "evidence list \<Rightarrow> verdict_record list \<Rightarrow> warrant_decision list \<Rightarrow> inquiry_context option \<Rightarrow> nogood \<Rightarrow> bool" where
  "nogood_owned es vs ds ctx n \<longleftrightarrow>
    (\<exists>e v d c. index_by ev_id es (ref_evidence_id (ng_check n)) = Some e \<and>
       index_by cv_id vs (ref_checker_verdict_id (ng_check n)) = Some v \<and>
       index_by wd_id ds (ng_warrant_decision_id n) = Some d \<and> ctx = Some c \<and>
       cv_evidence_id v = ev_id e \<and> wd_warrant_class d = Hard \<and> wd_id d = ng_warrant_decision_id n \<and>
       wd_evidence_id d = ev_id e \<and> wd_checker_verdict_id d = cv_id v \<and>
       wd_proposition_id d = ng_id n \<and> wd_proposition_kind d = Existential \<and>
       wd_scope_fingerprint d = ng_scope_fingerprint n \<and> wd_policy_version d = ng_policy_version n \<and>
       ng_scope_fingerprint n = ctx_scope_fingerprint c \<and>
       ng_binding_revision n = ctx_binding_revision c \<and>
       ng_finite_universe_hash n = ctx_finite_universe_hash c \<and>
       ng_policy_version n = ctx_warrant_policy_version c)"

text \<open>Both lookups written as case distinctions, for evaluation.\<close>

lemma link_owned_code [code]:
  "link_owned claims ds supports l \<longleftrightarrow> set (pl_source_claim_ids l) \<subseteq> set (map claim_id claims) \<and>
     (case (index_by wd_id ds (pl_warrant_decision_id l),
            index_by ls_lemma_version_id supports (pl_lemma_version_id l)) of
        (Some d, Some supp) \<Rightarrow> ls_policy_version supp = wd_policy_version d | _ \<Rightarrow> False)"
  by (auto simp: link_owned_def split: option.splits)

lemma nogood_owned_code [code]:
  "nogood_owned es vs ds ctx n \<longleftrightarrow>
    (case (index_by ev_id es (ref_evidence_id (ng_check n)),
           index_by cv_id vs (ref_checker_verdict_id (ng_check n)),
           index_by wd_id ds (ng_warrant_decision_id n), ctx) of
       (Some e, Some v, Some d, Some c) \<Rightarrow>
         cv_evidence_id v = ev_id e \<and> wd_warrant_class d = Hard \<and> wd_id d = ng_warrant_decision_id n \<and>
         wd_evidence_id d = ev_id e \<and> wd_checker_verdict_id d = cv_id v \<and>
         wd_proposition_id d = ng_id n \<and> wd_proposition_kind d = Existential \<and>
         wd_scope_fingerprint d = ng_scope_fingerprint n \<and> wd_policy_version d = ng_policy_version n \<and>
         ng_scope_fingerprint n = ctx_scope_fingerprint c \<and>
         ng_binding_revision n = ctx_binding_revision c \<and>
         ng_finite_universe_hash n = ctx_finite_universe_hash c \<and>
         ng_policy_version n = ctx_warrant_policy_version c
     | _ \<Rightarrow> False)"
  by (cases ctx) (auto simp: nogood_owned_def split: option.splits)

definition valid_standing :: "inquiry_state \<Rightarrow> bool" where
  "valid_standing s \<longleftrightarrow>
     list_all valid_route_change (st_route_changes s) \<and> distinct (map rc_id (st_route_changes s)) \<and>
     list_all (\<lambda>c. rc_support_route_id c \<in> set (map route_id (routes_of (st_lemma_supports s)))) (st_route_changes s) \<and>
     standing_history rc_support_route_id rc_id rc_predecessor_id rc_standing (\<lambda>_. None)
       (st_route_changes s) \<and>
     list_all valid_nogood (st_nogoods s) \<and> distinct (map ng_id (st_nogoods s)) \<and>
     list_all valid_nogood_change (st_nogood_changes s) \<and> distinct (map nc_id (st_nogood_changes s)) \<and>
     list_all (\<lambda>c. nc_nogood_id c \<in> set (map ng_id (st_nogoods s))) (st_nogood_changes s) \<and>
     standing_history nc_nogood_id nc_id nc_predecessor_id nc_standing (\<lambda>_. None)
       (st_nogood_changes s) \<and>
     list_all (nogood_owned (st_evidence_records s) (st_checker_verdicts s) (st_warrant_decisions s)
       (st_context s)) (st_nogoods s)"

definition valid_state :: "(string \<Rightarrow> digest) \<Rightarrow> inquiry_state \<Rightarrow> bool" where
  "valid_state sha s \<longleftrightarrow> valid_lifecycle s \<and> valid_header s \<and> valid_requests s \<and> valid_plans sha s \<and>
     valid_claim_records s \<and> valid_side_records s \<and> valid_warrants s \<and> valid_lemmas sha s \<and>
     valid_standing s"

lemma initial_state_valid: "valid_state sha initial_state"
  by (simp add: valid_state_def initial_state_def valid_lifecycle_def no_records_def valid_header_def
      valid_requests_def valid_plans_def valid_claim_records_def valid_side_records_def
      valid_warrants_def valid_lemmas_def aligned_lemmas_def valid_standing_def global_attempt_ids_def
      global_return_ids_def global_decode_ids_def global_result_ids_def routes_of_def
      join_lemmas_def support_graph_is_acyclic_def ancestry_is_acyclic_def search_all_def
      List.map_filter_simps)

end
