(* ===== verification/Rci_Commands.thy ===== *)
theory Rci_Commands
  imports Rci_State
begin

text \<open>
  The command side of \<open>core/transitions.py\<close>: the command and event vocabulary of \<open>core/commands.py\<close>
  and \<open>core/events.py\<close> for the foundation, effect, claim, support and warrant milestones, and one
  definition per branch of \<open>decide\<close>. Commands and events share the fields of their base classes
  (event identity, inquiry identity, time; the event's schema version is the constant 1). A raised
  exception is \<open>Inl\<close>; the empty list is the branch's \<open>return ()\<close>.
\<close>

section \<open>Vocabulary\<close>

record message_base =
  msg_event_id :: ident
  msg_inquiry_id :: ident
  msg_occurred_at :: datetime

definition valid_base :: "message_base \<Rightarrow> bool" where
  "valid_base b \<longleftrightarrow> valid_identifier (msg_event_id b) \<and> valid_identifier (msg_inquiry_id b) \<and>
     is_ok (require_utc (msg_occurred_at b))"

declare valid_base_def [valid_defs]

record warrant_request =
  wr_decision_id :: ident
  wr_evidence_id :: ident
  wr_checker_verdict_id :: ident
  wr_proposition_id :: ident
  wr_proposition_kind :: proposition_kind
  wr_scope :: scope

record promote_request =
  pc_promotion_id :: ident
  pc_lemma_id :: ident
  pc_relation_id :: ident
  pc_proposition_kind :: proposition_kind
  pc_scope :: scope
  pc_applicability :: applicability
  pc_support_routes :: "support_route list"
  pc_warrant_decision_id :: ident
  pc_provenance_refs :: "ident list"
  pc_source_claim_ids :: "ident list"
  pc_predecessor_refs :: "ident list"

datatype command =
    StartInquiry (cmd_base: message_base) artifact_ref ident inquiry_context
  | RecordBacklogEffect (cmd_base: message_base) backlog_effect
  | RecordStepPlan (cmd_base: message_base) step_plan
  | RequestEffect (cmd_base: message_base) effect_request
  | PlanEffectAttempt (cmd_base: message_base) effect_attempt_plan
  | StartEffectAttempt (cmd_base: message_base) ident
  | RecordNoAttemptDisposition (cmd_base: message_base) no_attempt_disposition
  | RecordAttemptOutcome (cmd_base: message_base) ident attempt_outcome
  | RecordDecodeOutcome (cmd_base: message_base) ident decode_outcome
  | AcceptEffectResult (cmd_base: message_base) ident ident
  | AdmitClaim (cmd_base: message_base) claim
  | OpenObligation (cmd_base: message_base) obligation
  | RecordObligationDisposition (cmd_base: message_base) obligation_disposition
  | RecordCandidate (cmd_base: message_base) candidate
  | RecordResidual (cmd_base: message_base) residual
  | AppendCorrection (cmd_base: message_base) correction
  | ChangeGuardStanding (cmd_base: message_base) guard_change
  | RecordNogood (cmd_base: message_base) nogood
  | ChangeSupportRouteStanding (cmd_base: message_base) route_change
  | ChangeNogoodStanding (cmd_base: message_base) nogood_change
  | RecordEvidence (cmd_base: message_base) evidence
  | RecordCheckerVerdict (cmd_base: message_base) verdict_record
  | EvaluateWarrant (cmd_base: message_base) warrant_request
  | PromoteClaim (cmd_base: message_base) promote_request

datatype event =
    InquiryStarted (ev_base: message_base) artifact_ref ident inquiry_context
  | BacklogEffectRecorded (ev_base: message_base) backlog_effect
  | StepPlanRecorded (ev_base: message_base) step_plan
  | EffectRequested (ev_base: message_base) effect_request
  | EffectAttemptPlanned (ev_base: message_base) effect_attempt_plan
  | EffectAttemptStarted (ev_base: message_base) ident
  | EffectNoAttemptDispositionRecorded (ev_base: message_base) no_attempt_disposition
  | EffectAttemptOutcomeRecorded (ev_base: message_base) ident attempt_outcome
  | EffectDecodeOutcomeRecorded (ev_base: message_base) ident decode_outcome
  | EffectResultAccepted (ev_base: message_base) ident ident
  | ClaimAdmitted (ev_base: message_base) claim "conflict list" "obligation list"
  | ObligationOpened (ev_base: message_base) obligation
  | ObligationDispositionRecorded (ev_base: message_base) obligation_disposition
  | CandidateRecorded (ev_base: message_base) candidate
  | ResidualRecorded (ev_base: message_base) residual
  | CorrectionAppended (ev_base: message_base) correction
  | GuardStandingChanged (ev_base: message_base) guard_change
  | NogoodRecorded (ev_base: message_base) nogood
  | SupportRouteStandingChanged (ev_base: message_base) route_change
  | NogoodStandingChanged (ev_base: message_base) nogood_change
  | EvidenceRecorded (ev_base: message_base) evidence
  | CheckerVerdictRecorded (ev_base: message_base) verdict_record
  | WarrantDecisionRecorded (ev_base: message_base) scope warrant_decision
  | LemmaPromoted (ev_base: message_base) lemma_version lemma_support promotion_link

section \<open>Guards\<close>

text \<open>\<open>if not condition: raise error\<close>, and the identity check every recording branch starts with:
  the same record again is a no-op, a different record under the same identity is refused.\<close>

definition check :: "bool \<Rightarrow> rci_error \<Rightarrow> 'a result \<Rightarrow> 'a result" where
  "check b err k = (if b then k else Inl err)"

definition once :: "'r option \<Rightarrow> 'r \<Rightarrow> string \<Rightarrow> event list result \<Rightarrow> event list result" where
  "once existing r message k = (case existing of None \<Rightarrow> k
     | Some x \<Rightarrow> if x = r then Inr [] else Inl (IdentityConflictError message))"

lemma check_Inr_iff [simp]: "check b err k = Inr x \<longleftrightarrow> b \<and> k = Inr x"
  by (simp add: check_def)

lemma check_True [simp]: "check True err k = k"
  by (simp add: check_def)

lemma once_Inr_Cons_iff [simp]:
  "once existing r message k = Inr (e # es) \<longleftrightarrow> existing = None \<and> k = Inr (e # es)"
  by (cases existing) (simp_all add: once_def)

lemma once_None [simp]: "once None r message k = k"
  by (simp add: once_def)

lemma once_same [simp]: "once (Some r) r message k = Inr []"
  by (simp add: once_def)

definition require_request :: "inquiry_state \<Rightarrow> ident \<Rightarrow> (effect_request_state \<Rightarrow> 'a result) \<Rightarrow> 'a result" where
  "require_request s i k = (case request_by_id s i of
     None \<Rightarrow> Inl (InvalidCommandError (''unknown effect request: '' @ i)) | Some r \<Rightarrow> k r)"

lemma require_request_Inr_iff [simp]:
  "require_request s i k = Inr x \<longleftrightarrow> (\<exists>r. request_by_id s i = Some r \<and> k r = Inr x)"
  by (simp add: require_request_def split: option.splits)

section \<open>Helpers of transitions.py\<close>

definition known_entity_ids :: "inquiry_state \<Rightarrow> string set" where
  "known_entity_ids s = set (map claim_id (st_claims s) @ map conflict_id (st_conflicts s) @
     map obl_id (st_obligations s) @ map cand_id (st_candidates s) @ map resid_id (st_residuals s) @
     map lv_id (st_lemma_versions s))"

definition scope_matches_context :: "(string \<Rightarrow> digest) \<Rightarrow> inquiry_state \<Rightarrow> scope \<Rightarrow> bool" where
  "scope_matches_context sha s sc = (case st_context s of None \<Rightarrow> False
     | Some ctx \<Rightarrow> scope_id sc = ctx_scope_id ctx \<and> scope_fingerprint sha sc = ctx_scope_fingerprint ctx \<and>
         scope_binding_revision sc = ctx_binding_revision ctx \<and>
         scope_assumption_ids sc = ctx_assumption_ids ctx \<and>
         scope_applicability_guard_id sc = ctx_guard_condition_id ctx \<and>
         scope_finite_universe_hash sc = ctx_finite_universe_hash ctx \<and>
         scope_closed_world sc = ctx_closed_world ctx)"

definition claim_attack_discharged :: "(string \<Rightarrow> digest) \<Rightarrow> inquiry_state \<Rightarrow> claim \<Rightarrow> bool result" where
  "claim_attack_discharged sha s c = (case claim_proposition_id c of None \<Rightarrow> Inr False
     | Some p \<Rightarrow> map_sum id (\<lambda>views.
         let active_ids = set (map alv_lemma_version_id views) in
         list_ex (\<lambda>v. lv_id v \<in> active_ids \<and> lv_relation_id v = p \<and>
           scope_fingerprint sha (lv_scope v) = scope_fingerprint sha (claim_scope c)) (st_lemma_versions s))
         (active_theory sha s))"

fun derive_conflicts ::
  "(string \<Rightarrow> digest) \<Rightarrow> claim \<Rightarrow> string set \<Rightarrow> claim list \<Rightarrow> conflict list result" where
  "derive_conflicts sha c known [] = Inr []"
| "derive_conflicts sha c known (x # xs) =
    (case structural_conflict sha x c of Inl err \<Rightarrow> Inl err
     | Inr None \<Rightarrow> derive_conflicts sha c known xs
     | Inr (Some cf) \<Rightarrow>
         if conflict_id cf \<in> known then derive_conflicts sha c known xs
         else map_sum id ((#) cf) (derive_conflicts sha c (insert (conflict_id cf) known) xs))"

fun fresh_obligations :: "(string \<Rightarrow> digest) \<Rightarrow> digest set \<Rightarrow> obligation list \<Rightarrow> obligation list" where
  "fresh_obligations sha known [] = []"
| "fresh_obligations sha known (q # qs) =
    (if obligation_fingerprint sha q \<in> known then fresh_obligations sha known qs
     else q # fresh_obligations sha (insert (obligation_fingerprint sha q) known) qs)"

definition derive_claim_consequences ::
  "(string \<Rightarrow> digest) \<Rightarrow> inquiry_state \<Rightarrow> claim \<Rightarrow> (conflict list \<times> obligation list) result" where
  "derive_claim_consequences sha s c =
    (case derive_conflicts sha c (set (map conflict_id (st_conflicts s))) (st_claims s) of Inl err \<Rightarrow> Inl err
     | Inr found \<Rightarrow>
       let conflicts = sort_key conflict_id found;
           known = set (map (obligation_fingerprint sha) (st_obligations s));
           finish = (\<lambda>attacks. (conflicts, sort_key obl_id
             (fresh_obligations sha known (attacks @ map (conflict_obligation sha) conflicts)))) in
       (case mandatory_attack_obligation sha c of None \<Rightarrow> Inr (finish [])
        | Some attack \<Rightarrow> map_sum id (\<lambda>discharged. finish (if discharged then [] else [attack]))
            (claim_attack_discharged sha s c)))"

section \<open>Start, backlog and plans\<close>

definition decide_start ::
  "inquiry_state \<Rightarrow> message_base \<Rightarrow> artifact_ref \<Rightarrow> ident \<Rightarrow> inquiry_context \<Rightarrow> event list result" where
  "decide_start s b manifest policy ctx =
    (if st_status s = NotStarted then Inr [InquiryStarted b manifest policy ctx]
     else if st_inquiry_id s = Some (msg_inquiry_id b) \<and> st_manifest_artifact s = Some manifest \<and>
       st_policy_version s = Some policy \<and> st_context s = Some ctx then Inr []
     else Inl (IdentityConflictError ''the inquiry identity is already bound to different data''))"

definition require_active :: "inquiry_state \<Rightarrow> ident \<Rightarrow> 'a result \<Rightarrow> 'a result" where
  "require_active s i k =
     check (st_status s = Active) (InvalidCommandError ''the inquiry has not been started'')
     (check (st_inquiry_id s = Some i)
       (InvalidCommandError ''the command inquiry id does not match the aggregate'') k)"

fun project_backlog :: "backlog_item list \<Rightarrow> backlog_effect list \<Rightarrow> backlog_item list result" where
  "project_backlog items [] = Inr items"
| "project_backlog items (e # es) = (case apply_effects items [e] constitutional_policy of
     Inl err \<Rightarrow> Inl err | Inr items' \<Rightarrow> project_backlog items' es)"

text \<open>\<open>except (PermissionError, ValueError)\<close>: the domain and validation errors are value errors too.\<close>

definition backlog_failure :: "rci_error \<Rightarrow> rci_error" where
  "backlog_failure err = (case err of KeyError m \<Rightarrow> KeyError m | IndexError m \<Rightarrow> IndexError m
     | RuntimeError m \<Rightarrow> RuntimeError m
     | _ \<Rightarrow> InvalidCommandError (''invalid backlog effect sequence: '' @ error_text err))"

definition decide_backlog_effect ::
  "inquiry_state \<Rightarrow> message_base \<Rightarrow> backlog_effect \<Rightarrow> event list result" where
  "decide_backlog_effect s b e =
     check (be_kind e \<in> g1_applicable_effect_kinds)
       (InvalidCommandError (''backlog effect '' @ effect_kind_value (be_kind e) @ '' is proposal-only in G1''))
     (once (backlog_effect_by_id s (be_id e)) e ''backlog effect id was reused for different content''
       (case project_backlog [] (st_backlog_effects s) of Inl err \<Rightarrow> Inl (backlog_failure err)
        | Inr items \<Rightarrow> (case apply_effects items [e] constitutional_policy of
            Inl err \<Rightarrow> Inl (backlog_failure err) | Inr _ \<Rightarrow> Inr [BacklogEffectRecorded b e])))"

definition decide_step_plan :: "(string \<Rightarrow> digest) \<Rightarrow> inquiry_state \<Rightarrow> message_base \<Rightarrow> step_plan \<Rightarrow> event list result" where
  "decide_step_plan sha s b p =
     once (step_plan_by_id s (plan_id p)) p ''step plan id was reused''
     (check (map_option ctx_scheduler_policy_version (st_context s) = Some (plan_policy_version p))
       (InvalidCommandError ''step plan policy does not match the inquiry context'')
     (if plan_status_of p = PlanReady then
       (case (obligation_by_id s (id_or_empty (plan_selected_obligation_id p)), plan_selected_attempt_key p) of
          (Some q, Some k) \<Rightarrow>
            check (current_obligation_status s (obl_id q) = Some Open)
              (InvalidCommandError ''ready step plan must select an open obligation'')
            (check (key_obligation_fingerprint k = obligation_fingerprint sha q \<and>
                key_binding_revision k = obl_binding_revision q)
              (InvalidCommandError ''step plan attempt key does not match the exact obligation'')
            (Inr [StepPlanRecorded b p]))
        | _ \<Rightarrow> Inl (InvalidCommandError ''ready step plan must select an owned obligation''))
      else Inr [StepPlanRecorded b p]))"

section \<open>The effect lifecycle\<close>

definition decide_request_effect ::
  "(string \<Rightarrow> digest) \<Rightarrow> inquiry_state \<Rightarrow> message_base \<Rightarrow> effect_request \<Rightarrow> event list result" where
  "decide_request_effect sha s b r =
     once (map_option ers_request (request_by_id s (req_id r))) r
       ''effect request id was reused for different content''
     (case step_plan_by_id s (req_step_plan_id r) of
        None \<Rightarrow> Inl (EffectLifecycleError ''an effect request requires a persisted step plan'')
      | Some p \<Rightarrow>
        check (plan_status_of p = PlanReady)
          (EffectLifecycleError ''an effect request requires a ready step plan'')
        (check (plan_owns sha (obligation_by_id s (id_or_empty (plan_selected_obligation_id p)))
            (plan_selected_attempt_key p))
          (EffectLifecycleError ''effect request step plan does not own an exact obligation and attempt key'')
        (Inr [EffectRequested b r])))"

definition all_attempts :: "inquiry_state \<Rightarrow> attempt_state list" where
  "all_attempts s = concat (map ers_attempts (st_effect_requests s))"

definition decide_plan_attempt ::
  "inquiry_state \<Rightarrow> message_base \<Rightarrow> effect_attempt_plan \<Rightarrow> event list result" where
  "decide_plan_attempt s b p = require_request s (ap_request_id p) (\<lambda>r.
     once (map_option att_plan (find_by att_id (ap_id p) (all_attempts s))) p
       ''attempt id was reused for a different plan''
     (check (ers_accepted_decoded_outcome_id r = None)
       (EffectLifecycleError ''a resolved request cannot plan another attempt'')
     (Inr [EffectAttemptPlanned b p])))"

definition containing_request :: "inquiry_state \<Rightarrow> ident \<Rightarrow> effect_request_state option" where
  "containing_request s i = List.find (\<lambda>r. list_ex (\<lambda>a. att_id a = i) (ers_attempts r)) (st_effect_requests s)"

definition attempt_of :: "effect_request_state \<Rightarrow> ident \<Rightarrow> attempt_state option" where
  "attempt_of r i = find_by att_id i (ers_attempts r)"

definition decide_start_attempt :: "inquiry_state \<Rightarrow> message_base \<Rightarrow> ident \<Rightarrow> event list result" where
  "decide_start_attempt s b i =
    (case containing_request s i of
       None \<Rightarrow> Inl (EffectLifecycleError ''an attempt start requires a persisted attempt plan'')
     | Some r \<Rightarrow> (case attempt_of r i of
         None \<Rightarrow> Inl (RuntimeError ''StopIteration'')
       | Some a \<Rightarrow>
         if att_started a then Inr []
         else check (ers_accepted_decoded_outcome_id r = None)
             (EffectLifecycleError ''a resolved request cannot start another attempt'')
           (check (att_outcome a = None)
             (EffectLifecycleError ''an attempt cannot start after a terminal outcome'')
           (Inr [EffectAttemptStarted b i]))))"

definition decide_no_attempt ::
  "inquiry_state \<Rightarrow> message_base \<Rightarrow> no_attempt_disposition \<Rightarrow> event list result" where
  "decide_no_attempt s b d = require_request s (na_request_id d) (\<lambda>r.
     check (na_step_plan_id d = req_step_plan_id (ers_request r))
       (EffectLifecycleError ''a no-attempt disposition must reference its request's persisted step plan'')
     (once (find_by na_id (na_id d) (concat (map ers_no_attempt_dispositions (st_effect_requests s)))) d
       ''no-attempt disposition id was reused''
     (check (ers_accepted_decoded_outcome_id r = None)
       (EffectLifecycleError ''a resolved request cannot record a new no-attempt disposition'')
     (Inr [EffectNoAttemptDispositionRecorded b d]))))"

definition decide_attempt_outcome ::
  "inquiry_state \<Rightarrow> message_base \<Rightarrow> ident \<Rightarrow> attempt_outcome \<Rightarrow> event list result" where
  "decide_attempt_outcome s b i oc = require_request s i (\<lambda>r.
     case attempt_of r (outcome_attempt_id oc) of
       None \<Rightarrow> Inl (EffectLifecycleError ''an outcome requires a persisted attempt plan'')
     | Some a \<Rightarrow>
       check (att_started a) (EffectLifecycleError ''an attempt must start before a terminal outcome'')
       (check (rs_id (ap_route (att_plan a)) = outcome_route_id oc)
         (EffectLifecycleError ''outcome route does not match the attempt plan'')
       (case att_outcome a of
          Some x \<Rightarrow> if x = oc then Inr []
            else Inl (EffectLifecycleError ''an attempt can have only one terminal outcome'')
        | None \<Rightarrow>
          check (case returned_id (Some oc) of None \<Rightarrow> True
              | Some j \<Rightarrow> j \<notin> set (global_return_ids (st_effect_requests s)))
            (IdentityConflictError ''external return id was already captured'')
          (Inr [EffectAttemptOutcomeRecorded b i oc]))))"

definition decide_decode_outcome ::
  "inquiry_state \<Rightarrow> message_base \<Rightarrow> ident \<Rightarrow> decode_outcome \<Rightarrow> event list result" where
  "decide_decode_outcome s b i d = require_request s i (\<lambda>r.
     once (find_by dec_id (dec_id d) (concat (map ers_decode_outcomes (st_effect_requests s)))) d
       ''decode outcome id was reused''
     (check (dec_external_return_id d \<in> set (return_ids r))
       (EffectLifecycleError ''a decode outcome requires this request's captured return'')
     (Inr [EffectDecodeOutcomeRecorded b i d])))"

text \<open>\<open>isinstance(decoded, Decoded)\<close> for the recorded outcome of that identity.\<close>

definition decoded_by :: "effect_request_state \<Rightarrow> ident \<Rightarrow> canonical_result option" where
  "decoded_by r i = Option.bind (find_decode r i) (\<lambda>d. decoded_result (dec_content d))"

definition decide_accept_result ::
  "inquiry_state \<Rightarrow> message_base \<Rightarrow> ident \<Rightarrow> ident \<Rightarrow> event list result" where
  "decide_accept_result s b i j = require_request s i (\<lambda>r.
     case ers_accepted_decoded_outcome_id r of
       Some x \<Rightarrow> if x = j then Inr []
         else Inl (EffectLifecycleError ''an effect request can accept at most one result'')
     | None \<Rightarrow> check (decoded_by r j \<noteq> None)
         (EffectLifecycleError ''only a recorded successful Decoded outcome can be accepted'')
         (Inr [EffectResultAccepted b i j]))"

end
