(* ===== verification/Rci_Decide.thy ===== *)
theory Rci_Decide
  imports Rci_Commands
begin

text \<open>
  The remaining branches of \<open>decide\<close> in \<open>core/transitions.py\<close> (claims, obligations and their
  dispositions, candidates, residuals, corrections, guard, route and nogood standing, evidence,
  verdicts, warrant decisions and promotion) and \<open>decide\<close> itself.
\<close>

section \<open>Claims and obligations\<close>

definition decide_admit_claim ::
  "(string \<Rightarrow> digest) \<Rightarrow> inquiry_state \<Rightarrow> message_base \<Rightarrow> claim \<Rightarrow> event list result" where
  "decide_admit_claim sha s b c =
     once (claim_by_id s (claim_id c)) c ''claim id was reused for different content''
     (check (claim_status_of c = Provisional)
       (InvalidCommandError ''new question-derived claims must begin provisional'')
     (check (scope_matches_context sha s (claim_scope c))
       (InvalidCommandError ''claim scope does not match the inquiry context'')
     (map_sum id (\<lambda>(conflicts, obligations). [ClaimAdmitted b c conflicts obligations])
       (derive_claim_consequences sha s c))))"

definition decide_open_obligation ::
  "(string \<Rightarrow> digest) \<Rightarrow> inquiry_state \<Rightarrow> message_base \<Rightarrow> obligation \<Rightarrow> event list result" where
  "decide_open_obligation sha s b q =
     once (obligation_by_id s (obl_id q)) q ''obligation id was reused for different content''
     (if obligation_fingerprint sha q \<in> set (map (obligation_fingerprint sha) (st_obligations s)) then Inr []
      else check (obl_status q = Open) (InvalidCommandError ''new obligations must begin open'')
     (check (scope_matches_context sha s (obl_scope q))
       (InvalidCommandError ''obligation scope does not match the inquiry context'')
     (check (set (obl_parent_obligation_ids q) \<subseteq> set (map obl_id (st_obligations s)))
       (InvalidCommandError ''obligation parent references must already exist'')
     (Inr [ObligationOpened b q]))))"

fun lawful_statuses :: "obligation_status \<Rightarrow> obligation_status set" where
  "lawful_statuses Open = {Blocked, Satisfied, Impossible, StatusUnknown}"
| "lawful_statuses Blocked = {Open, Satisfied, StatusUnknown}"
| "lawful_statuses StatusUnknown = {Open}"
| "lawful_statuses Satisfied = {Open}"
| "lawful_statuses Impossible = {Open}"

definition hard_decision_ids :: "(string \<Rightarrow> digest) \<Rightarrow> inquiry_state \<Rightarrow> obligation \<Rightarrow> string set" where
  "hard_decision_ids sha s q = set (map wd_id (filter (\<lambda>d. wd_warrant_class d = Hard \<and>
     wd_proposition_id d = obl_carrier_id q \<and>
     wd_scope_fingerprint d = scope_fingerprint sha (obl_scope q)) (st_warrant_decisions s)))"

text \<open>The plan of a request is a ready plan for exactly this obligation.\<close>

definition plan_for_obligation :: "(string \<Rightarrow> digest) \<Rightarrow> obligation \<Rightarrow> step_plan option \<Rightarrow> bool" where
  "plan_for_obligation sha q plan = (case plan of None \<Rightarrow> False
     | Some p \<Rightarrow> plan_status_of p = PlanReady \<and> plan_selected_obligation_id p = Some (obl_id q) \<and>
         plan_owns sha (Some q) (plan_selected_attempt_key p))"

definition accepted_decode_ids :: "(string \<Rightarrow> digest) \<Rightarrow> inquiry_state \<Rightarrow> obligation \<Rightarrow> string set" where
  "accepted_decode_ids sha s q = set (List.map_filter (\<lambda>r.
     case ers_accepted_decoded_outcome_id r of None \<Rightarrow> None
     | Some i \<Rightarrow> if plan_for_obligation sha q (step_plan_by_id s (req_step_plan_id (ers_request r)))
         then Some i else None) (st_effect_requests s))"

definition decide_obligation_disposition ::
  "(string \<Rightarrow> digest) \<Rightarrow> inquiry_state \<Rightarrow> message_base \<Rightarrow> obligation_disposition \<Rightarrow> event list result" where
  "decide_obligation_disposition sha s b d =
    (case obligation_by_id s (disp_obligation_id d) of
       None \<Rightarrow> Inl (InvalidCommandError ''obligation disposition references an unknown obligation'')
     | Some q \<Rightarrow>
       once (find_by disp_id (disp_id d) (st_obligation_dispositions s)) d
         ''obligation disposition id was reused''
       (let tail = disposition_tail s (obl_id q);
            current = (case tail of Some t \<Rightarrow> disp_status t | None \<Rightarrow> obl_status q) in
        check (disp_predecessor_id d = map_option disp_id tail)
          (InvalidCommandError ''obligation disposition must extend the current history tail'')
        (check (disp_status d \<noteq> current)
          (InvalidCommandError ''obligation disposition must change standing'')
        (check (disp_status d \<noteq> Impossible)
          (InvalidCommandError ''generic dispositions cannot establish impossibility; use a typed checked discharge'')
        (check (disp_status d = Satisfied \<longrightarrow> disp_evidence_refs d \<noteq> [] \<and>
             set (disp_evidence_refs d) \<subseteq> hard_decision_ids sha s q \<union> accepted_decode_ids sha s q)
          (InvalidCommandError ''satisfied obligations require owned evidence tied to the exact obligation and scope'')
        (check (disp_status d \<in> lawful_statuses current)
          (InvalidCommandError ''illegal obligation status transition'')
        (Inr [ObligationDispositionRecorded b d])))))))"

section \<open>Candidates, residuals, corrections and guards\<close>

definition decide_candidate :: "(string \<Rightarrow> digest) \<Rightarrow> inquiry_state \<Rightarrow> message_base \<Rightarrow> candidate \<Rightarrow> event list result" where
  "decide_candidate sha s b c =
     once (find_by cand_id (cand_id c) (st_candidates s)) c ''candidate id was reused''
     (check (scope_matches_context sha s (cand_scope c))
       (InvalidCommandError ''candidate scope does not match the inquiry context'')
     (Inr [CandidateRecorded b c]))"

definition decide_residual :: "(string \<Rightarrow> digest) \<Rightarrow> inquiry_state \<Rightarrow> message_base \<Rightarrow> residual \<Rightarrow> event list result" where
  "decide_residual sha s b r =
     once (find_by resid_id (resid_id r) (st_residuals s)) r ''residual id was reused''
     (check (scope_matches_context sha s (resid_scope r))
       (InvalidCommandError ''residual scope does not match the inquiry context'')
     (check (set (resid_source_obligation_ids r) \<subseteq> set (map obl_id (st_obligations s)))
       (InvalidCommandError ''residual references an unknown obligation'')
     (Inr [ResidualRecorded b r])))"

definition decide_correction :: "(string \<Rightarrow> digest) \<Rightarrow> inquiry_state \<Rightarrow> message_base \<Rightarrow> correction \<Rightarrow> event list result" where
  "decide_correction sha s b c =
     once (find_by corr_id (corr_id c) (st_corrections s)) c ''correction id was reused''
     (check (scope_matches_context sha s (corr_scope c))
       (InvalidCommandError ''correction scope does not match the inquiry context'')
     (check (corr_target_id c \<in> known_entity_ids s)
       (InvalidCommandError ''correction target is not recorded'')
     (check (set (corr_related_ids c) \<subseteq> known_entity_ids s)
       (InvalidCommandError ''correction relation references an unknown record'')
     (Inr [CorrectionAppended b c]))))"

definition decide_guard_standing :: "inquiry_state \<Rightarrow> message_base \<Rightarrow> guard_change \<Rightarrow> event list result" where
  "decide_guard_standing s b g =
     once (find_by guard_id (guard_id g) (st_guard_changes s)) g ''guard-change id was reused''
     (check (map_option ctx_scope_fingerprint (st_context s) = Some (guard_scope_fingerprint g))
       (InvalidCommandError ''guard change scope does not match the inquiry context'')
     (let latest = latest_guard_change s (guard_condition_id g) in
      check (guard_predecessor_id g = map_option guard_id latest)
        (InvalidCommandError ''guard change must extend the current history tail'')
      (check (map_option guard_standing_of latest \<noteq> Some (guard_standing_of g))
        (InvalidCommandError ''guard change must change standing'')
      (Inr [GuardStandingChanged b g]))))"

section \<open>Support standing\<close>

definition nogood_matches_context :: "inquiry_context \<Rightarrow> nogood \<Rightarrow> bool" where
  "nogood_matches_context ctx n \<longleftrightarrow> ng_scope_fingerprint n = ctx_scope_fingerprint ctx \<and>
     ng_binding_revision n = ctx_binding_revision ctx \<and>
     ng_finite_universe_hash n = ctx_finite_universe_hash ctx \<and>
     ng_policy_version n = ctx_warrant_policy_version ctx"

definition nogood_decision_exact :: "warrant_decision \<Rightarrow> nogood \<Rightarrow> bool" where
  "nogood_decision_exact d n \<longleftrightarrow> wd_warrant_class d = Hard \<and> wd_proposition_id d = ng_id n \<and>
     wd_proposition_kind d = Existential \<and> wd_scope_fingerprint d = ng_scope_fingerprint n \<and>
     wd_policy_version d = ng_policy_version n \<and> wd_evidence_id d = ref_evidence_id (ng_check n) \<and>
     wd_checker_verdict_id d = ref_checker_verdict_id (ng_check n)"

definition decide_nogood :: "inquiry_state \<Rightarrow> message_base \<Rightarrow> nogood \<Rightarrow> event list result" where
  "decide_nogood s b n =
     once (nogood_by_id s (ng_id n)) n ''nogood id was reused''
     (case st_context s of
        None \<Rightarrow> Inl (InvalidCommandError ''nogood does not match the current support class'')
      | Some ctx \<Rightarrow>
        check (nogood_matches_context ctx n)
          (InvalidCommandError ''nogood does not match the current support class'')
        (check (case warrant_decision_by_id s (ng_warrant_decision_id n) of None \<Rightarrow> False
            | Some d \<Rightarrow> nogood_decision_exact d n)
          (InvalidCommandError ''nogood requires an exact recorded hard warrant decision'')
        (let (checked, reason) = resolve_check_reference (ng_check n)
               (evidence_index (st_evidence_records s)) (checker_verdict_index (st_checker_verdicts s))
               (ng_id n) Existential (ng_scope_fingerprint n) (ctx_discharge_mechanism_ids ctx) in
         check checked
           (InvalidCommandError (''nogood check is not independently valid: '' @ reason))
         (Inr [NogoodRecorded b n]))))"

definition decide_route_standing :: "inquiry_state \<Rightarrow> message_base \<Rightarrow> route_change \<Rightarrow> event list result" where
  "decide_route_standing s b c =
     once (find_by rc_id (rc_id c) (st_route_changes s)) c ''support-route standing-change id was reused''
     (check (support_route_by_id s (rc_support_route_id c) \<noteq> None)
       (InvalidCommandError ''support-route standing change references an unknown route'')
     (let latest = latest_route_change s (rc_support_route_id c) in
      check (rc_predecessor_id c = map_option rc_id latest)
        (InvalidCommandError ''support-route standing change must extend its exact tail'')
      (check (rc_standing c \<noteq> (case latest of None \<Rightarrow> Standing | Some t \<Rightarrow> rc_standing t))
        (InvalidCommandError ''support-route standing change must change standing'')
      (Inr [SupportRouteStandingChanged b c]))))"

definition decide_nogood_standing :: "inquiry_state \<Rightarrow> message_base \<Rightarrow> nogood_change \<Rightarrow> event list result" where
  "decide_nogood_standing s b c =
     once (find_by nc_id (nc_id c) (st_nogood_changes s)) c ''nogood standing-change id was reused''
     (check (nogood_by_id s (nc_nogood_id c) \<noteq> None)
       (InvalidCommandError ''nogood standing change references an unknown nogood'')
     (let latest = latest_nogood_change s (nc_nogood_id c) in
      check (nc_predecessor_id c = map_option nc_id latest)
        (InvalidCommandError ''nogood standing change must extend its exact tail'')
      (check (nc_standing c \<noteq> (case latest of None \<Rightarrow> Standing | Some t \<Rightarrow> nc_standing t))
        (InvalidCommandError ''nogood standing change must change standing'')
      (Inr [NogoodStandingChanged b c]))))"

section \<open>Evidence, verdicts, warrants\<close>

definition decide_evidence :: "inquiry_state \<Rightarrow> message_base \<Rightarrow> evidence \<Rightarrow> event list result" where
  "decide_evidence s b e =
     check (map_option ctx_scope_fingerprint (st_context s) = Some (ev_scope_fingerprint e))
       (InvalidCommandError ''evidence scope does not match the inquiry context'')
     (once (evidence_by_id s (ev_id e)) e ''evidence id was reused'' (Inr [EvidenceRecorded b e]))"

definition decide_verdict :: "inquiry_state \<Rightarrow> message_base \<Rightarrow> verdict_record \<Rightarrow> event list result" where
  "decide_verdict s b v =
     check (evidence_by_id s (cv_evidence_id v) \<noteq> None)
       (InvalidCommandError ''checker verdict requires recorded evidence'')
     (check (verdict_pins (evidence_by_id s (cv_evidence_id v)) v)
       (InvalidCommandError ''checker verdict does not match the exact evidence record'')
     (once (checker_verdict_by_id s (cv_id v)) v ''checker verdict id was reused''
       (Inr [CheckerVerdictRecorded b v])))"

definition warrant_record ::
  "(string \<Rightarrow> digest) \<Rightarrow> inquiry_context \<Rightarrow> warrant_request \<Rightarrow> evidence \<Rightarrow> verdict_record \<Rightarrow> warrant_decision" where
  "warrant_record sha ctx w e v =
    (let (cls, reason) = decide_evidence_warrant sha e v (wr_proposition_id w) (wr_proposition_kind w)
           (wr_scope w) (ctx_discharge_mechanism_ids ctx) in
     \<lparr>wd_id = wr_decision_id w, wd_evidence_id = ev_id e, wd_checker_verdict_id = cv_id v,
      wd_proposition_id = wr_proposition_id w, wd_proposition_kind = wr_proposition_kind w,
      wd_scope_fingerprint = scope_fingerprint sha (wr_scope w), wd_warrant_class = cls,
      wd_reason = reason, wd_policy_version = ctx_warrant_policy_version ctx\<rparr>)"

definition decide_warrant ::
  "(string \<Rightarrow> digest) \<Rightarrow> inquiry_state \<Rightarrow> message_base \<Rightarrow> warrant_request \<Rightarrow> event list result" where
  "decide_warrant sha s b w =
     check (scope_matches_context sha s (wr_scope w))
       (InvalidCommandError ''warrant scope does not match the inquiry context'')
     (case (evidence_by_id s (wr_evidence_id w), checker_verdict_by_id s (wr_checker_verdict_id w)) of
        (Some e, Some v) \<Rightarrow>
          check (cv_evidence_id v = ev_id e)
            (InvalidCommandError ''warrant evidence and checker verdict do not align'')
          (case st_context s of
             None \<Rightarrow> Inl (InvalidCommandError ''an active inquiry requires warrant policy context'')
           | Some ctx \<Rightarrow> (case construct valid_warrant_decision ''WarrantDecisionRecord''
                 (warrant_record sha ctx w e v) of
               Inl err \<Rightarrow> Inl err
             | Inr d \<Rightarrow> once (warrant_decision_by_id s (wr_decision_id w)) d
                 ''warrant decision id was reused'' (Inr [WarrantDecisionRecorded b (wr_scope w) d])))
      | _ \<Rightarrow> Inl (InvalidCommandError ''warrant evaluation requires recorded evidence and check''))"

section \<open>Promotion\<close>

definition promotion_of ::
  "inquiry_state \<Rightarrow> inquiry_context \<Rightarrow> promote_request \<Rightarrow> evidence \<Rightarrow> verdict_record \<Rightarrow> warranted_lemma list \<Rightarrow>
     promotion_request" where
  "promotion_of s ctx p e v lemmas =
    \<lparr>pr_lemma_id = pc_lemma_id p, pr_relation_id = pc_relation_id p,
     pr_proposition_kind = pc_proposition_kind p, pr_scope = pc_scope p,
     pr_applicability = pc_applicability p, pr_support_routes = pc_support_routes p,
     pr_evidence = e, pr_checker_verdict = v, pr_check_base = state_check_base s ctx,
     pr_policy_version = ctx_warrant_policy_version ctx, pr_provenance_refs = pc_provenance_refs p,
     pr_source_claim_ids = pc_source_claim_ids p, pr_predecessor_refs = pc_predecessor_refs p,
     pr_existing_lemmas = lemmas, pr_current_assumption_ids = ctx_assumption_ids ctx,
     pr_current_context_ids = sorted_list_of_set (standing_context_ids s)\<rparr>"

definition promotion_link_of :: "promote_request \<Rightarrow> warranted_lemma \<Rightarrow> warrant_decision \<Rightarrow> promotion_link" where
  "promotion_link_of p l d = \<lparr>pl_id = pc_promotion_id p, pl_lemma_version_id = wl_id l,
     pl_source_claim_ids = pc_source_claim_ids p, pl_warrant_decision_id = wd_id d\<rparr>"

text \<open>The part of the branch after the promotion gates: link and identity.\<close>

definition finish_promotion ::
  "inquiry_state \<Rightarrow> message_base \<Rightarrow> promote_request \<Rightarrow> warranted_lemma \<Rightarrow> warrant_decision \<Rightarrow> event list result" where
  "finish_promotion s b p l d =
    (case construct valid_promotion_link ''PromotionLink'' (promotion_link_of p l d) of
       Inl err \<Rightarrow> Inl err
     | Inr link \<Rightarrow>
       let existing_version = find_by lv_id (wl_id l) (st_lemma_versions s);
           existing_link = find_by pl_id (pl_id link) (st_promotion_links s) in
       if existing_version \<noteq> None \<or> existing_link \<noteq> None then
         (if existing_version = Some (wl_version l) \<and> existing_link = Some link \<and>
             find_by ls_lemma_version_id (wl_id l) (st_lemma_supports s) = Some (wl_support l)
          then Inr [] else Inl (IdentityConflictError ''lemma or promotion identity was reused''))
       else Inr [LemmaPromoted b (wl_version l) (wl_support l) link])"

definition promotion_sources_ok :: "(string \<Rightarrow> digest) \<Rightarrow> promote_request \<Rightarrow> claim \<Rightarrow> bool \<times> bool" where
  "promotion_sources_ok sha p c =
    (scope_fingerprint sha (claim_scope c) = scope_fingerprint sha (pc_scope p),
     claim_proposition_id c = None \<or> claim_proposition_id c = Some (pc_relation_id p))"

definition decision_for_promotion :: "(string \<Rightarrow> digest) \<Rightarrow> promote_request \<Rightarrow> warrant_decision \<Rightarrow> bool" where
  "decision_for_promotion sha p d \<longleftrightarrow> wd_warrant_class d = Hard \<and> wd_proposition_id d = pc_relation_id p \<and>
     wd_proposition_kind d = pc_proposition_kind p \<and>
     wd_scope_fingerprint d = scope_fingerprint sha (pc_scope p)"

definition decide_promote ::
  "(string \<Rightarrow> digest) \<Rightarrow> inquiry_state \<Rightarrow> message_base \<Rightarrow> promote_request \<Rightarrow> event list result" where
  "decide_promote sha s b p =
    (let sources = map (claim_by_id s) (pc_source_claim_ids p); found = map the sources in
     check (pc_source_claim_ids p \<noteq> [] \<and> None \<notin> set sources)
       (InvalidCommandError ''promotion must preserve recorded source claims'')
     (check (list_all (\<lambda>c. fst (promotion_sources_ok sha p c)) found)
       (InvalidCommandError ''promotion scope differs from its source claim'')
     (check (list_all (\<lambda>c. snd (promotion_sources_ok sha p c)) found)
       (InvalidCommandError ''promotion proposition differs from its source claim'')
     (check (scope_matches_context sha s (pc_scope p))
       (InvalidCommandError ''promotion scope does not match the inquiry context'')
     (check (set (pc_predecessor_refs p) \<subseteq> set (map lv_id (st_lemma_versions s)))
       (InvalidCommandError ''promotion ancestry references an unknown lemma version'')
     (case warrant_decision_by_id s (pc_warrant_decision_id p) of
        None \<Rightarrow> Inl (InvalidCommandError ''promotion requires a recorded warrant decision'')
      | Some d \<Rightarrow>
        check (decision_for_promotion sha p d)
          (InvalidCommandError ''promotion requires an exact hard warrant decision'')
        (case (st_context s, evidence_by_id s (wd_evidence_id d),
               checker_verdict_by_id s (wd_checker_verdict_id d)) of
           (Some ctx, Some e, Some v) \<Rightarrow>
             check (list_all (\<lambda>r. wd_id d \<in> set (route_warrant_refs r)) (pc_support_routes p))
               (InvalidCommandError ''every support route must bind the warrant decision'')
             (case warranted_lemmas sha s of Inl err \<Rightarrow> Inl err
              | Inr lemmas \<Rightarrow> (case decide_promotion sha (promotion_of s ctx p e v lemmas) of
                  Inl err \<Rightarrow> Inl err
                | Inr decision \<Rightarrow> (case pd_lemma decision of
                    None \<Rightarrow> Inl (InvalidCommandError (pd_reason decision))
                  | Some l \<Rightarrow> check (pd_outcome decision = Accepted)
                      (InvalidCommandError (pd_reason decision)) (finish_promotion s b p l d))))
         | _ \<Rightarrow> Inl (InvalidCommandError ''promotion warrant evidence or check is unavailable''))))))))"

section \<open>The dispatcher\<close>

fun decide_active :: "(string \<Rightarrow> digest) \<Rightarrow> inquiry_state \<Rightarrow> command \<Rightarrow> event list result" where
  "decide_active sha s (StartInquiry b manifest policy ctx) = decide_start s b manifest policy ctx"
| "decide_active sha s (RecordBacklogEffect b e) = decide_backlog_effect s b e"
| "decide_active sha s (RecordStepPlan b p) = decide_step_plan sha s b p"
| "decide_active sha s (RequestEffect b r) = decide_request_effect sha s b r"
| "decide_active sha s (PlanEffectAttempt b p) = decide_plan_attempt s b p"
| "decide_active sha s (StartEffectAttempt b i) = decide_start_attempt s b i"
| "decide_active sha s (RecordNoAttemptDisposition b d) = decide_no_attempt s b d"
| "decide_active sha s (RecordAttemptOutcome b i oc) = decide_attempt_outcome s b i oc"
| "decide_active sha s (RecordDecodeOutcome b i d) = decide_decode_outcome s b i d"
| "decide_active sha s (AcceptEffectResult b i j) = decide_accept_result s b i j"
| "decide_active sha s (AdmitClaim b c) = decide_admit_claim sha s b c"
| "decide_active sha s (OpenObligation b q) = decide_open_obligation sha s b q"
| "decide_active sha s (RecordObligationDisposition b d) = decide_obligation_disposition sha s b d"
| "decide_active sha s (RecordCandidate b c) = decide_candidate sha s b c"
| "decide_active sha s (RecordResidual b r) = decide_residual sha s b r"
| "decide_active sha s (AppendCorrection b c) = decide_correction sha s b c"
| "decide_active sha s (ChangeGuardStanding b g) = decide_guard_standing s b g"
| "decide_active sha s (RecordNogood b n) = decide_nogood s b n"
| "decide_active sha s (ChangeSupportRouteStanding b c) = decide_route_standing s b c"
| "decide_active sha s (ChangeNogoodStanding b c) = decide_nogood_standing s b c"
| "decide_active sha s (RecordEvidence b e) = decide_evidence s b e"
| "decide_active sha s (RecordCheckerVerdict b v) = decide_verdict s b v"
| "decide_active sha s (EvaluateWarrant b w) = decide_warrant sha s b w"
| "decide_active sha s (PromoteClaim b p) = decide_promote sha s b p"

definition is_start :: "command \<Rightarrow> bool" where
  "is_start c = (case c of StartInquiry _ _ _ _ \<Rightarrow> True | _ \<Rightarrow> False)"

definition decide :: "(string \<Rightarrow> digest) \<Rightarrow> inquiry_state \<Rightarrow> command \<Rightarrow> event list result" where
  "decide sha s c = (if is_start c then decide_active sha s c
     else require_active s (msg_inquiry_id (cmd_base c)) (decide_active sha s c))"

end
