(* ===== verification/Rci_Evolve.thy ===== *)
theory Rci_Evolve
  imports Rci_Decide
begin

text \<open>
  The reducer of \<open>core/transitions.py\<close> and the replay of \<open>core/replay.py\<close>. \<open>advance\<close> is the
  construction of the next aggregate, which runs the lifecycle validator; \<open>matching\<close> is
  \<open>_require_matching_decision\<close>, which accepts an event only if the corresponding command would
  produce exactly it.
\<close>

section \<open>Construction of the next state\<close>

definition advance :: "(string \<Rightarrow> digest) \<Rightarrow> inquiry_state \<Rightarrow> inquiry_state result" where
  "advance sha s = construct (valid_state sha) ''InquiryState'' (s\<lparr>st_sequence := Suc (st_sequence s)\<rparr>)"

definition replace_request :: "effect_request_state \<Rightarrow> effect_request_state list \<Rightarrow> effect_request_state list" where
  "replace_request r' rs = map (\<lambda>r. if ers_id r = ers_id r' then r' else r) rs"

definition advance_request ::
  "(string \<Rightarrow> digest) \<Rightarrow> inquiry_state \<Rightarrow> effect_request_state \<Rightarrow> inquiry_state result" where
  "advance_request sha s r' =
    (case construct valid_request_state ''EffectRequestState'' r' of Inl err \<Rightarrow> Inl err
     | Inr r \<Rightarrow> advance sha (s\<lparr>st_effect_requests := replace_request r (st_effect_requests s)\<rparr>))"

definition matching ::
  "(string \<Rightarrow> digest) \<Rightarrow> inquiry_state \<Rightarrow> event \<Rightarrow> command \<Rightarrow> inquiry_state result \<Rightarrow> inquiry_state result" where
  "matching sha s e c k =
    (case decide sha s c of
       Inl err \<Rightarrow> Inl (if is_domain_error err then InvalidTransitionError (error_text err) else err)
     | Inr es \<Rightarrow> check (es = [e])
         (InvalidTransitionError ''domain event does not match the lawful command consequence'') k)"

section \<open>The effect lifecycle\<close>

definition evolve_requested ::
  "(string \<Rightarrow> digest) \<Rightarrow> inquiry_state \<Rightarrow> effect_request \<Rightarrow> inquiry_state result" where
  "evolve_requested sha s r =
     check (request_by_id s (req_id r) = None) (InvalidTransitionError ''duplicate effect request event'')
     (check (step_plan_by_id s (req_step_plan_id r) \<noteq> None)
       (InvalidTransitionError ''effect request references an unknown step plan'')
     (advance sha (s\<lparr>st_effect_requests := st_effect_requests s @ [new_request r]\<rparr>)))"

definition evolve_attempt_planned ::
  "(string \<Rightarrow> digest) \<Rightarrow> inquiry_state \<Rightarrow> effect_attempt_plan \<Rightarrow> inquiry_state result" where
  "evolve_attempt_planned sha s p = (case request_by_id s (ap_request_id p) of
     None \<Rightarrow> Inl (InvalidTransitionError ''attempt plan references an unknown request'')
   | Some r \<Rightarrow>
     check (ap_id p \<notin> set (global_attempt_ids (st_effect_requests s)))
       (InvalidTransitionError ''duplicate attempt plan event'')
     (check (ers_accepted_decoded_outcome_id r = None)
       (InvalidTransitionError ''resolved requests cannot gain attempts'')
     (advance_request sha s (r\<lparr>ers_attempts := ers_attempts r @ [new_attempt p]\<rparr>))))"

definition evolve_attempt_started ::
  "(string \<Rightarrow> digest) \<Rightarrow> inquiry_state \<Rightarrow> message_base \<Rightarrow> ident \<Rightarrow> inquiry_state result" where
  "evolve_attempt_started sha s b i = (case containing_request s i of
     None \<Rightarrow> Inl (InvalidTransitionError ''attempt start references an unknown attempt'')
   | Some r \<Rightarrow> (case attempt_of r i of None \<Rightarrow> Inl (RuntimeError ''StopIteration'')
     | Some a \<Rightarrow>
       check (\<not> att_started a) (InvalidTransitionError ''attempt already has start metadata'')
       (check (ers_accepted_decoded_outcome_id r = None)
         (InvalidTransitionError ''a resolved request cannot start another attempt'')
       (advance_request sha s (start_attempt i (msg_event_id b) (msg_occurred_at b) r)))))"

definition evolve_no_attempt ::
  "(string \<Rightarrow> digest) \<Rightarrow> inquiry_state \<Rightarrow> no_attempt_disposition \<Rightarrow> inquiry_state result" where
  "evolve_no_attempt sha s d = (case request_by_id s (na_request_id d) of
     None \<Rightarrow> Inl (InvalidTransitionError ''no-attempt disposition references an unknown request'')
   | Some r \<Rightarrow>
     check (na_step_plan_id d = req_step_plan_id (ers_request r))
       (InvalidTransitionError ''no-attempt disposition references a different persisted step plan'')
     (check (na_id d \<notin> set (map na_id (concat (map ers_no_attempt_dispositions (st_effect_requests s)))))
       (InvalidTransitionError ''duplicate no-attempt disposition event'')
     (check (ers_accepted_decoded_outcome_id r = None)
       (InvalidTransitionError ''resolved requests cannot gain no-attempt dispositions'')
     (advance_request sha s
       (r\<lparr>ers_no_attempt_dispositions := ers_no_attempt_dispositions r @ [d]\<rparr>)))))"

definition evolve_attempt_outcome ::
  "(string \<Rightarrow> digest) \<Rightarrow> inquiry_state \<Rightarrow> ident \<Rightarrow> attempt_outcome \<Rightarrow> inquiry_state result" where
  "evolve_attempt_outcome sha s i oc = (case request_by_id s i of
     None \<Rightarrow> Inl (InvalidTransitionError ''attempt outcome references an unknown request'')
   | Some r \<Rightarrow> (case attempt_of r (outcome_attempt_id oc) of
       None \<Rightarrow> Inl (InvalidTransitionError ''attempt outcome references an unknown attempt'')
     | Some a \<Rightarrow>
       check (att_started a) (InvalidTransitionError ''attempt outcome precedes attempt start'')
       (check (att_outcome a = None) (InvalidTransitionError ''an attempt already has an outcome'')
       (check (rs_id (ap_route (att_plan a)) = outcome_route_id oc)
         (InvalidTransitionError ''attempt outcome route mismatch'')
       (advance_request sha s (finish_attempt oc r))))))"

definition evolve_decode_outcome ::
  "(string \<Rightarrow> digest) \<Rightarrow> inquiry_state \<Rightarrow> ident \<Rightarrow> decode_outcome \<Rightarrow> inquiry_state result" where
  "evolve_decode_outcome sha s i d = (case request_by_id s i of
     None \<Rightarrow> Inl (InvalidTransitionError ''decode outcome references an unknown request'')
   | Some r \<Rightarrow>
     check (dec_id d \<notin> set (global_decode_ids (st_effect_requests s)))
       (InvalidTransitionError ''duplicate decode outcome event'')
     (check (dec_external_return_id d \<in> set (return_ids r))
       (InvalidTransitionError ''decode outcome has no captured external return'')
     (advance_request sha s (r\<lparr>ers_decode_outcomes := ers_decode_outcomes r @ [d]\<rparr>))))"

definition evolve_result_accepted ::
  "(string \<Rightarrow> digest) \<Rightarrow> inquiry_state \<Rightarrow> ident \<Rightarrow> ident \<Rightarrow> inquiry_state result" where
  "evolve_result_accepted sha s i j = (case request_by_id s i of
     None \<Rightarrow> Inl (InvalidTransitionError ''accepted result references an unknown request'')
   | Some r \<Rightarrow>
     check (ers_accepted_decoded_outcome_id r = None)
       (InvalidTransitionError ''an effect request already accepted a result'')
     (check (decoded_by r j \<noteq> None)
       (InvalidTransitionError ''accepted result must reference a successful decode'')
     (advance_request sha s (r\<lparr>ers_accepted_decoded_outcome_id := Some j\<rparr>))))"

section \<open>The reducer\<close>

definition evolve_started ::
  "(string \<Rightarrow> digest) \<Rightarrow> inquiry_state \<Rightarrow> message_base \<Rightarrow> artifact_ref \<Rightarrow> ident \<Rightarrow> inquiry_context \<Rightarrow>
     inquiry_state result" where
  "evolve_started sha s b manifest policy ctx =
     check (st_status s = NotStarted)
       (InvalidTransitionError ''InquiryStarted can only evolve an empty aggregate'')
     (construct (valid_state sha) ''InquiryState'' (initial_state\<lparr>st_status := Active,
       st_inquiry_id := Some (msg_inquiry_id b), st_sequence := 1, st_manifest_artifact := Some manifest,
       st_policy_version := Some policy, st_context := Some ctx\<rparr>))"

definition warrant_request_of :: "scope \<Rightarrow> warrant_decision \<Rightarrow> warrant_request" where
  "warrant_request_of sc d =
    \<lparr>wr_decision_id = wd_id d, wr_evidence_id = wd_evidence_id d,
     wr_checker_verdict_id = wd_checker_verdict_id d, wr_proposition_id = wd_proposition_id d,
     wr_proposition_kind = wd_proposition_kind d, wr_scope = sc\<rparr>"

definition promote_request_of :: "lemma_version \<Rightarrow> lemma_support \<Rightarrow> promotion_link \<Rightarrow> promote_request" where
  "promote_request_of v supp link =
    \<lparr>pc_promotion_id = pl_id link, pc_lemma_id = lv_id v, pc_relation_id = lv_relation_id v,
     pc_proposition_kind = lv_proposition_kind v, pc_scope = lv_scope v,
     pc_applicability = lv_applicability v, pc_support_routes = all_support_routes supp,
     pc_warrant_decision_id = pl_warrant_decision_id link,
     pc_provenance_refs = ls_provenance_refs supp, pc_source_claim_ids = lv_source_claim_ids v,
     pc_predecessor_refs = lv_predecessor_refs v\<rparr>"

fun evolve_active :: "(string \<Rightarrow> digest) \<Rightarrow> inquiry_state \<Rightarrow> event \<Rightarrow> inquiry_state result" where
  "evolve_active sha s (InquiryStarted b manifest policy ctx) = evolve_started sha s b manifest policy ctx"
| "evolve_active sha s (BacklogEffectRecorded b e) =
     matching sha s (BacklogEffectRecorded b e) (RecordBacklogEffect b e)
       (advance sha (s\<lparr>st_backlog_effects := st_backlog_effects s @ [e]\<rparr>))"
| "evolve_active sha s (StepPlanRecorded b p) =
     matching sha s (StepPlanRecorded b p) (RecordStepPlan b p)
       (advance sha (s\<lparr>st_step_plans := st_step_plans s @ [p]\<rparr>))"
| "evolve_active sha s (EffectRequested b r) = evolve_requested sha s r"
| "evolve_active sha s (EffectAttemptPlanned b p) = evolve_attempt_planned sha s p"
| "evolve_active sha s (EffectAttemptStarted b i) = evolve_attempt_started sha s b i"
| "evolve_active sha s (EffectNoAttemptDispositionRecorded b d) = evolve_no_attempt sha s d"
| "evolve_active sha s (EffectAttemptOutcomeRecorded b i oc) = evolve_attempt_outcome sha s i oc"
| "evolve_active sha s (EffectDecodeOutcomeRecorded b i d) = evolve_decode_outcome sha s i d"
| "evolve_active sha s (EffectResultAccepted b i j) = evolve_result_accepted sha s i j"
| "evolve_active sha s (ClaimAdmitted b c conflicts obligations) =
     matching sha s (ClaimAdmitted b c conflicts obligations) (AdmitClaim b c)
       (advance sha (s\<lparr>st_claims := st_claims s @ [c], st_conflicts := st_conflicts s @ conflicts,
         st_obligations := st_obligations s @ obligations\<rparr>))"
| "evolve_active sha s (ObligationOpened b q) =
     matching sha s (ObligationOpened b q) (OpenObligation b q)
       (advance sha (s\<lparr>st_obligations := st_obligations s @ [q]\<rparr>))"
| "evolve_active sha s (ObligationDispositionRecorded b d) =
     matching sha s (ObligationDispositionRecorded b d) (RecordObligationDisposition b d)
       (advance sha (s\<lparr>st_obligation_dispositions := st_obligation_dispositions s @ [d]\<rparr>))"
| "evolve_active sha s (CandidateRecorded b c) =
     matching sha s (CandidateRecorded b c) (RecordCandidate b c)
       (advance sha (s\<lparr>st_candidates := st_candidates s @ [c]\<rparr>))"
| "evolve_active sha s (ResidualRecorded b r) =
     matching sha s (ResidualRecorded b r) (RecordResidual b r)
       (advance sha (s\<lparr>st_residuals := st_residuals s @ [r]\<rparr>))"
| "evolve_active sha s (CorrectionAppended b c) =
     matching sha s (CorrectionAppended b c) (AppendCorrection b c)
       (advance sha (s\<lparr>st_corrections := st_corrections s @ [c]\<rparr>))"
| "evolve_active sha s (GuardStandingChanged b g) =
     matching sha s (GuardStandingChanged b g) (ChangeGuardStanding b g)
       (advance sha (s\<lparr>st_guard_changes := st_guard_changes s @ [g]\<rparr>))"
| "evolve_active sha s (NogoodRecorded b n) =
     matching sha s (NogoodRecorded b n) (RecordNogood b n)
       (advance sha (s\<lparr>st_nogoods := st_nogoods s @ [n]\<rparr>))"
| "evolve_active sha s (SupportRouteStandingChanged b c) =
     matching sha s (SupportRouteStandingChanged b c) (ChangeSupportRouteStanding b c)
       (advance sha (s\<lparr>st_route_changes := st_route_changes s @ [c]\<rparr>))"
| "evolve_active sha s (NogoodStandingChanged b c) =
     matching sha s (NogoodStandingChanged b c) (ChangeNogoodStanding b c)
       (advance sha (s\<lparr>st_nogood_changes := st_nogood_changes s @ [c]\<rparr>))"
| "evolve_active sha s (EvidenceRecorded b e) =
     matching sha s (EvidenceRecorded b e) (RecordEvidence b e)
       (advance sha (s\<lparr>st_evidence_records := st_evidence_records s @ [e]\<rparr>))"
| "evolve_active sha s (CheckerVerdictRecorded b v) =
     matching sha s (CheckerVerdictRecorded b v) (RecordCheckerVerdict b v)
       (advance sha (s\<lparr>st_checker_verdicts := st_checker_verdicts s @ [v]\<rparr>))"
| "evolve_active sha s (WarrantDecisionRecorded b sc d) =
     matching sha s (WarrantDecisionRecorded b sc d) (EvaluateWarrant b (warrant_request_of sc d))
       (advance sha (s\<lparr>st_warrant_decisions := st_warrant_decisions s @ [d]\<rparr>))"
| "evolve_active sha s (LemmaPromoted b v supp link) =
     matching sha s (LemmaPromoted b v supp link) (PromoteClaim b (promote_request_of v supp link))
       (advance sha (s\<lparr>st_lemma_versions := st_lemma_versions s @ [v],
         st_lemma_supports := st_lemma_supports s @ [supp],
         st_promotion_links := st_promotion_links s @ [link]\<rparr>))"

definition is_started_event :: "event \<Rightarrow> bool" where
  "is_started_event e = (case e of InquiryStarted _ _ _ _ \<Rightarrow> True | _ \<Rightarrow> False)"

definition evolve :: "(string \<Rightarrow> digest) \<Rightarrow> inquiry_state \<Rightarrow> event \<Rightarrow> inquiry_state result" where
  "evolve sha s e = (if is_started_event e then evolve_active sha s e
     else check (st_status s = Active \<and> st_inquiry_id s = Some (msg_inquiry_id (ev_base e)))
       (InvalidTransitionError ''event inquiry id does not match an active aggregate'')
       (evolve_active sha s e))"

section \<open>Replay (core/replay.py)\<close>

fun replay :: "(string \<Rightarrow> digest) \<Rightarrow> event list \<Rightarrow> inquiry_state \<Rightarrow> inquiry_state result" where
  "replay sha [] s = Inr s"
| "replay sha (e # es) s = (case evolve sha s e of Inl err \<Rightarrow> Inl err | Inr s' \<Rightarrow> replay sha es s')"

text \<open>One command handled as the runtime handles it: decide, then evolve by every event.\<close>

definition handle :: "(string \<Rightarrow> digest) \<Rightarrow> inquiry_state \<Rightarrow> command \<Rightarrow> (event list \<times> inquiry_state) result" where
  "handle sha s c = (case decide sha s c of Inl err \<Rightarrow> Inl err
     | Inr es \<Rightarrow> map_sum id (Pair es) (replay sha es s))"

end
