(* ===== verification/Rci_Invariant.thy ===== *)
theory Rci_Invariant
  imports Rci_Evolve
begin

text \<open>
  What each update of the aggregate keeps of the lifecycle validator: one lemma per collection, each
  saying which facts about the appended records make the rebuilt state valid. The decision lemmas of
  the next theory supply those facts from the guards of \<open>decide\<close>.
\<close>

lemma index_by_append:
  "index_by key (xs @ ys) k =
     (case index_by key ys k of Some y \<Rightarrow> Some y | None \<Rightarrow> index_by key xs k)"
  unfolding index_by_def rev_append find_by_append by (simp split: option.splits)

lemma index_by_fresh [simp]: "k \<notin> key ` set ys \<Longrightarrow> index_by key (xs @ ys) k = index_by key xs k"
  by (simp add: index_by_append index_by_None_iff [THEN iffD2])

lemma find_by_fresh: "find_by key k xs = None \<longleftrightarrow> k \<notin> set (map key xs)"
  by (simp add: find_by_None_iff)

text \<open>Each part of the validator reads only some of the collections.\<close>

lemma lifecycle_Active [simp]:
  "st_status s = Active \<Longrightarrow> valid_lifecycle s \<longleftrightarrow> st_inquiry_id s \<noteq> None \<and> st_manifest_artifact s \<noteq> None \<and>
     st_policy_version s \<noteq> None \<and> st_context s \<noteq> None"
  by (simp add: valid_lifecycle_def)

lemma frame_header [simp]:
  "valid_header (s\<lparr>st_sequence := x_sequence\<rparr>) = valid_header s"
  "valid_header (s\<lparr>st_backlog_effects := x_backlog_effects\<rparr>) = valid_header s"
  "valid_header (s\<lparr>st_step_plans := x_step_plans\<rparr>) = valid_header s"
  "valid_header (s\<lparr>st_effect_requests := x_effect_requests\<rparr>) = valid_header s"
  "valid_header (s\<lparr>st_claims := x_claims\<rparr>) = valid_header s"
  "valid_header (s\<lparr>st_conflicts := x_conflicts\<rparr>) = valid_header s"
  "valid_header (s\<lparr>st_obligations := x_obligations\<rparr>) = valid_header s"
  "valid_header (s\<lparr>st_obligation_dispositions := x_obligation_dispositions\<rparr>) = valid_header s"
  "valid_header (s\<lparr>st_candidates := x_candidates\<rparr>) = valid_header s"
  "valid_header (s\<lparr>st_residuals := x_residuals\<rparr>) = valid_header s"
  "valid_header (s\<lparr>st_corrections := x_corrections\<rparr>) = valid_header s"
  "valid_header (s\<lparr>st_guard_changes := x_guard_changes\<rparr>) = valid_header s"
  "valid_header (s\<lparr>st_nogoods := x_nogoods\<rparr>) = valid_header s"
  "valid_header (s\<lparr>st_route_changes := x_route_changes\<rparr>) = valid_header s"
  "valid_header (s\<lparr>st_nogood_changes := x_nogood_changes\<rparr>) = valid_header s"
  "valid_header (s\<lparr>st_evidence_records := x_evidence_records\<rparr>) = valid_header s"
  "valid_header (s\<lparr>st_checker_verdicts := x_checker_verdicts\<rparr>) = valid_header s"
  "valid_header (s\<lparr>st_warrant_decisions := x_warrant_decisions\<rparr>) = valid_header s"
  "valid_header (s\<lparr>st_lemma_versions := x_lemma_versions\<rparr>) = valid_header s"
  "valid_header (s\<lparr>st_lemma_supports := x_lemma_supports\<rparr>) = valid_header s"
  "valid_header (s\<lparr>st_promotion_links := x_promotion_links\<rparr>) = valid_header s"
  by (simp_all add: valid_header_def)

lemma frame_requests [simp]:
  "valid_requests (s\<lparr>st_sequence := x_sequence\<rparr>) = valid_requests s"
  "valid_requests (s\<lparr>st_backlog_effects := x_backlog_effects\<rparr>) = valid_requests s"
  "valid_requests (s\<lparr>st_claims := x_claims\<rparr>) = valid_requests s"
  "valid_requests (s\<lparr>st_conflicts := x_conflicts\<rparr>) = valid_requests s"
  "valid_requests (s\<lparr>st_obligations := x_obligations\<rparr>) = valid_requests s"
  "valid_requests (s\<lparr>st_obligation_dispositions := x_obligation_dispositions\<rparr>) = valid_requests s"
  "valid_requests (s\<lparr>st_candidates := x_candidates\<rparr>) = valid_requests s"
  "valid_requests (s\<lparr>st_residuals := x_residuals\<rparr>) = valid_requests s"
  "valid_requests (s\<lparr>st_corrections := x_corrections\<rparr>) = valid_requests s"
  "valid_requests (s\<lparr>st_guard_changes := x_guard_changes\<rparr>) = valid_requests s"
  "valid_requests (s\<lparr>st_nogoods := x_nogoods\<rparr>) = valid_requests s"
  "valid_requests (s\<lparr>st_route_changes := x_route_changes\<rparr>) = valid_requests s"
  "valid_requests (s\<lparr>st_nogood_changes := x_nogood_changes\<rparr>) = valid_requests s"
  "valid_requests (s\<lparr>st_evidence_records := x_evidence_records\<rparr>) = valid_requests s"
  "valid_requests (s\<lparr>st_checker_verdicts := x_checker_verdicts\<rparr>) = valid_requests s"
  "valid_requests (s\<lparr>st_warrant_decisions := x_warrant_decisions\<rparr>) = valid_requests s"
  "valid_requests (s\<lparr>st_lemma_versions := x_lemma_versions\<rparr>) = valid_requests s"
  "valid_requests (s\<lparr>st_lemma_supports := x_lemma_supports\<rparr>) = valid_requests s"
  "valid_requests (s\<lparr>st_promotion_links := x_promotion_links\<rparr>) = valid_requests s"
  by (simp_all add: valid_requests_def)

lemma frame_plans [simp]:
  "valid_plans sha (s\<lparr>st_sequence := x_sequence\<rparr>) = valid_plans sha s"
  "valid_plans sha (s\<lparr>st_backlog_effects := x_backlog_effects\<rparr>) = valid_plans sha s"
  "valid_plans sha (s\<lparr>st_effect_requests := x_effect_requests\<rparr>) = valid_plans sha s"
  "valid_plans sha (s\<lparr>st_claims := x_claims\<rparr>) = valid_plans sha s"
  "valid_plans sha (s\<lparr>st_conflicts := x_conflicts\<rparr>) = valid_plans sha s"
  "valid_plans sha (s\<lparr>st_obligation_dispositions := x_obligation_dispositions\<rparr>) = valid_plans sha s"
  "valid_plans sha (s\<lparr>st_candidates := x_candidates\<rparr>) = valid_plans sha s"
  "valid_plans sha (s\<lparr>st_residuals := x_residuals\<rparr>) = valid_plans sha s"
  "valid_plans sha (s\<lparr>st_corrections := x_corrections\<rparr>) = valid_plans sha s"
  "valid_plans sha (s\<lparr>st_guard_changes := x_guard_changes\<rparr>) = valid_plans sha s"
  "valid_plans sha (s\<lparr>st_nogoods := x_nogoods\<rparr>) = valid_plans sha s"
  "valid_plans sha (s\<lparr>st_route_changes := x_route_changes\<rparr>) = valid_plans sha s"
  "valid_plans sha (s\<lparr>st_nogood_changes := x_nogood_changes\<rparr>) = valid_plans sha s"
  "valid_plans sha (s\<lparr>st_evidence_records := x_evidence_records\<rparr>) = valid_plans sha s"
  "valid_plans sha (s\<lparr>st_checker_verdicts := x_checker_verdicts\<rparr>) = valid_plans sha s"
  "valid_plans sha (s\<lparr>st_warrant_decisions := x_warrant_decisions\<rparr>) = valid_plans sha s"
  "valid_plans sha (s\<lparr>st_lemma_versions := x_lemma_versions\<rparr>) = valid_plans sha s"
  "valid_plans sha (s\<lparr>st_lemma_supports := x_lemma_supports\<rparr>) = valid_plans sha s"
  "valid_plans sha (s\<lparr>st_promotion_links := x_promotion_links\<rparr>) = valid_plans sha s"
  by (simp_all add: valid_plans_def)

lemma frame_claim_records [simp]:
  "valid_claim_records (s\<lparr>st_sequence := x_sequence\<rparr>) = valid_claim_records s"
  "valid_claim_records (s\<lparr>st_backlog_effects := x_backlog_effects\<rparr>) = valid_claim_records s"
  "valid_claim_records (s\<lparr>st_step_plans := x_step_plans\<rparr>) = valid_claim_records s"
  "valid_claim_records (s\<lparr>st_effect_requests := x_effect_requests\<rparr>) = valid_claim_records s"
  "valid_claim_records (s\<lparr>st_candidates := x_candidates\<rparr>) = valid_claim_records s"
  "valid_claim_records (s\<lparr>st_residuals := x_residuals\<rparr>) = valid_claim_records s"
  "valid_claim_records (s\<lparr>st_corrections := x_corrections\<rparr>) = valid_claim_records s"
  "valid_claim_records (s\<lparr>st_guard_changes := x_guard_changes\<rparr>) = valid_claim_records s"
  "valid_claim_records (s\<lparr>st_nogoods := x_nogoods\<rparr>) = valid_claim_records s"
  "valid_claim_records (s\<lparr>st_route_changes := x_route_changes\<rparr>) = valid_claim_records s"
  "valid_claim_records (s\<lparr>st_nogood_changes := x_nogood_changes\<rparr>) = valid_claim_records s"
  "valid_claim_records (s\<lparr>st_evidence_records := x_evidence_records\<rparr>) = valid_claim_records s"
  "valid_claim_records (s\<lparr>st_checker_verdicts := x_checker_verdicts\<rparr>) = valid_claim_records s"
  "valid_claim_records (s\<lparr>st_warrant_decisions := x_warrant_decisions\<rparr>) = valid_claim_records s"
  "valid_claim_records (s\<lparr>st_lemma_versions := x_lemma_versions\<rparr>) = valid_claim_records s"
  "valid_claim_records (s\<lparr>st_lemma_supports := x_lemma_supports\<rparr>) = valid_claim_records s"
  "valid_claim_records (s\<lparr>st_promotion_links := x_promotion_links\<rparr>) = valid_claim_records s"
  by (simp_all add: valid_claim_records_def)

lemma frame_side_records [simp]:
  "valid_side_records (s\<lparr>st_sequence := x_sequence\<rparr>) = valid_side_records s"
  "valid_side_records (s\<lparr>st_step_plans := x_step_plans\<rparr>) = valid_side_records s"
  "valid_side_records (s\<lparr>st_effect_requests := x_effect_requests\<rparr>) = valid_side_records s"
  "valid_side_records (s\<lparr>st_claims := x_claims\<rparr>) = valid_side_records s"
  "valid_side_records (s\<lparr>st_conflicts := x_conflicts\<rparr>) = valid_side_records s"
  "valid_side_records (s\<lparr>st_obligations := x_obligations\<rparr>) = valid_side_records s"
  "valid_side_records (s\<lparr>st_obligation_dispositions := x_obligation_dispositions\<rparr>) = valid_side_records s"
  "valid_side_records (s\<lparr>st_nogoods := x_nogoods\<rparr>) = valid_side_records s"
  "valid_side_records (s\<lparr>st_route_changes := x_route_changes\<rparr>) = valid_side_records s"
  "valid_side_records (s\<lparr>st_nogood_changes := x_nogood_changes\<rparr>) = valid_side_records s"
  "valid_side_records (s\<lparr>st_evidence_records := x_evidence_records\<rparr>) = valid_side_records s"
  "valid_side_records (s\<lparr>st_checker_verdicts := x_checker_verdicts\<rparr>) = valid_side_records s"
  "valid_side_records (s\<lparr>st_warrant_decisions := x_warrant_decisions\<rparr>) = valid_side_records s"
  "valid_side_records (s\<lparr>st_lemma_versions := x_lemma_versions\<rparr>) = valid_side_records s"
  "valid_side_records (s\<lparr>st_lemma_supports := x_lemma_supports\<rparr>) = valid_side_records s"
  "valid_side_records (s\<lparr>st_promotion_links := x_promotion_links\<rparr>) = valid_side_records s"
  by (simp_all add: valid_side_records_def)

lemma frame_warrants [simp]:
  "valid_warrants (s\<lparr>st_sequence := x_sequence\<rparr>) = valid_warrants s"
  "valid_warrants (s\<lparr>st_backlog_effects := x_backlog_effects\<rparr>) = valid_warrants s"
  "valid_warrants (s\<lparr>st_step_plans := x_step_plans\<rparr>) = valid_warrants s"
  "valid_warrants (s\<lparr>st_effect_requests := x_effect_requests\<rparr>) = valid_warrants s"
  "valid_warrants (s\<lparr>st_claims := x_claims\<rparr>) = valid_warrants s"
  "valid_warrants (s\<lparr>st_conflicts := x_conflicts\<rparr>) = valid_warrants s"
  "valid_warrants (s\<lparr>st_obligations := x_obligations\<rparr>) = valid_warrants s"
  "valid_warrants (s\<lparr>st_obligation_dispositions := x_obligation_dispositions\<rparr>) = valid_warrants s"
  "valid_warrants (s\<lparr>st_candidates := x_candidates\<rparr>) = valid_warrants s"
  "valid_warrants (s\<lparr>st_residuals := x_residuals\<rparr>) = valid_warrants s"
  "valid_warrants (s\<lparr>st_corrections := x_corrections\<rparr>) = valid_warrants s"
  "valid_warrants (s\<lparr>st_guard_changes := x_guard_changes\<rparr>) = valid_warrants s"
  "valid_warrants (s\<lparr>st_nogoods := x_nogoods\<rparr>) = valid_warrants s"
  "valid_warrants (s\<lparr>st_route_changes := x_route_changes\<rparr>) = valid_warrants s"
  "valid_warrants (s\<lparr>st_nogood_changes := x_nogood_changes\<rparr>) = valid_warrants s"
  "valid_warrants (s\<lparr>st_lemma_versions := x_lemma_versions\<rparr>) = valid_warrants s"
  "valid_warrants (s\<lparr>st_lemma_supports := x_lemma_supports\<rparr>) = valid_warrants s"
  "valid_warrants (s\<lparr>st_promotion_links := x_promotion_links\<rparr>) = valid_warrants s"
  by (simp_all add: valid_warrants_def)

lemma frame_lemmas [simp]:
  "valid_lemmas sha (s\<lparr>st_sequence := x_sequence\<rparr>) = valid_lemmas sha s"
  "valid_lemmas sha (s\<lparr>st_backlog_effects := x_backlog_effects\<rparr>) = valid_lemmas sha s"
  "valid_lemmas sha (s\<lparr>st_step_plans := x_step_plans\<rparr>) = valid_lemmas sha s"
  "valid_lemmas sha (s\<lparr>st_effect_requests := x_effect_requests\<rparr>) = valid_lemmas sha s"
  "valid_lemmas sha (s\<lparr>st_conflicts := x_conflicts\<rparr>) = valid_lemmas sha s"
  "valid_lemmas sha (s\<lparr>st_obligations := x_obligations\<rparr>) = valid_lemmas sha s"
  "valid_lemmas sha (s\<lparr>st_obligation_dispositions := x_obligation_dispositions\<rparr>) = valid_lemmas sha s"
  "valid_lemmas sha (s\<lparr>st_candidates := x_candidates\<rparr>) = valid_lemmas sha s"
  "valid_lemmas sha (s\<lparr>st_residuals := x_residuals\<rparr>) = valid_lemmas sha s"
  "valid_lemmas sha (s\<lparr>st_corrections := x_corrections\<rparr>) = valid_lemmas sha s"
  "valid_lemmas sha (s\<lparr>st_guard_changes := x_guard_changes\<rparr>) = valid_lemmas sha s"
  "valid_lemmas sha (s\<lparr>st_nogoods := x_nogoods\<rparr>) = valid_lemmas sha s"
  "valid_lemmas sha (s\<lparr>st_route_changes := x_route_changes\<rparr>) = valid_lemmas sha s"
  "valid_lemmas sha (s\<lparr>st_nogood_changes := x_nogood_changes\<rparr>) = valid_lemmas sha s"
  by (simp_all add: valid_lemmas_def)

lemma frame_standing [simp]:
  "valid_standing (s\<lparr>st_sequence := x_sequence\<rparr>) = valid_standing s"
  "valid_standing (s\<lparr>st_backlog_effects := x_backlog_effects\<rparr>) = valid_standing s"
  "valid_standing (s\<lparr>st_step_plans := x_step_plans\<rparr>) = valid_standing s"
  "valid_standing (s\<lparr>st_effect_requests := x_effect_requests\<rparr>) = valid_standing s"
  "valid_standing (s\<lparr>st_claims := x_claims\<rparr>) = valid_standing s"
  "valid_standing (s\<lparr>st_conflicts := x_conflicts\<rparr>) = valid_standing s"
  "valid_standing (s\<lparr>st_obligations := x_obligations\<rparr>) = valid_standing s"
  "valid_standing (s\<lparr>st_obligation_dispositions := x_obligation_dispositions\<rparr>) = valid_standing s"
  "valid_standing (s\<lparr>st_candidates := x_candidates\<rparr>) = valid_standing s"
  "valid_standing (s\<lparr>st_residuals := x_residuals\<rparr>) = valid_standing s"
  "valid_standing (s\<lparr>st_corrections := x_corrections\<rparr>) = valid_standing s"
  "valid_standing (s\<lparr>st_guard_changes := x_guard_changes\<rparr>) = valid_standing s"
  "valid_standing (s\<lparr>st_lemma_versions := x_lemma_versions\<rparr>) = valid_standing s"
  "valid_standing (s\<lparr>st_promotion_links := x_promotion_links\<rparr>) = valid_standing s"
  by (simp_all add: valid_standing_def)

lemma valid_state_sequence:
  "st_status s = Active \<Longrightarrow> valid_state sha (s\<lparr>st_sequence := n\<rparr>) = valid_state sha s"
  by (simp add: valid_state_def)

lemma advance_ok:
  "st_status s = Active \<Longrightarrow> valid_state sha s \<Longrightarrow>
     advance sha s = Inr (s\<lparr>st_sequence := Suc (st_sequence s)\<rparr>)"
  by (simp add: advance_def construct_def valid_state_sequence)

lemma advance_Inr_iff:
  "advance sha s = Inr s' \<longleftrightarrow> s' = s\<lparr>st_sequence := Suc (st_sequence s)\<rparr> \<and> valid_state sha s'"
  by (auto simp: advance_def construct_Inr_iff)

section \<open>Side records\<close>

lemma keep_backlog:
  "valid_state sha s \<Longrightarrow> st_status s = Active \<Longrightarrow> be_id e \<notin> be_id ` set (st_backlog_effects s) \<Longrightarrow>
     valid_state sha (s\<lparr>st_backlog_effects := st_backlog_effects s @ [e]\<rparr>)"
  by (simp add: valid_state_def valid_side_records_def)

lemma keep_candidate:
  "valid_state sha s \<Longrightarrow> st_status s = Active \<Longrightarrow> valid_candidate c \<Longrightarrow>
     cand_id c \<notin> cand_id ` set (st_candidates s) \<Longrightarrow>
     valid_state sha (s\<lparr>st_candidates := st_candidates s @ [c]\<rparr>)"
  by (simp add: valid_state_def valid_side_records_def)

lemma keep_residual:
  "valid_state sha s \<Longrightarrow> st_status s = Active \<Longrightarrow> valid_residual c \<Longrightarrow>
     resid_id c \<notin> resid_id ` set (st_residuals s) \<Longrightarrow>
     valid_state sha (s\<lparr>st_residuals := st_residuals s @ [c]\<rparr>)"
  by (simp add: valid_state_def valid_side_records_def)

lemma keep_correction:
  "valid_state sha s \<Longrightarrow> st_status s = Active \<Longrightarrow> valid_correction c \<Longrightarrow>
     corr_id c \<notin> corr_id ` set (st_corrections s) \<Longrightarrow>
     valid_state sha (s\<lparr>st_corrections := st_corrections s @ [c]\<rparr>)"
  by (simp add: valid_state_def valid_side_records_def)

lemma keep_guard:
  "valid_state sha s \<Longrightarrow> st_status s = Active \<Longrightarrow> valid_guard_change c \<Longrightarrow>
     guard_id c \<notin> guard_id ` set (st_guard_changes s) \<Longrightarrow>
     valid_state sha (s\<lparr>st_guard_changes := st_guard_changes s @ [c]\<rparr>)"
  by (simp add: valid_state_def valid_side_records_def)

section \<open>Lookups survive appending\<close>

lemma index_by_extend:
  assumes "index_by key xs k = Some x" "distinct (map key (xs @ ys))"
  shows "index_by key (xs @ ys) k = Some x"
proof -
  have "x \<in> set xs" "key x = k" using index_by_SomeD [OF assms(1)] by blast+
  then have "k \<notin> key ` set ys" using assms(2) by auto
  then show ?thesis using assms(1) by simp
qed

lemma plan_owns_Some: "plan_owns sha q k \<Longrightarrow> \<exists>x. q = Some x"
  by (cases q) (simp_all add: plan_owns_def)

lemma plan_owns_extend:
  "plan_owns sha (index_by key xs i) k \<Longrightarrow> distinct (map key (xs @ ys)) \<Longrightarrow>
     plan_owns sha (index_by key (xs @ ys) i) k"
  by (metis plan_owns_Some index_by_extend)

lemma verdict_pins_Some: "verdict_pins eo v \<Longrightarrow> \<exists>e. eo = Some e"
  by (cases eo) (simp_all add: verdict_pins_def)

lemma verdict_pins_extend:
  "verdict_pins (index_by key xs i) v \<Longrightarrow> distinct (map key (xs @ ys)) \<Longrightarrow>
     verdict_pins (index_by key (xs @ ys) i) v"
  by (metis verdict_pins_Some index_by_extend)

lemma decision_pins_Some: "decision_pins eo vo d \<Longrightarrow> (\<exists>e. eo = Some e) \<and> (\<exists>v. vo = Some v)"
  by (cases eo; cases vo) (simp_all add: decision_pins_def)

lemma decision_pins_extend_evidence:
  "decision_pins (index_by key xs i) vo d \<Longrightarrow> distinct (map key (xs @ ys)) \<Longrightarrow>
     decision_pins (index_by key (xs @ ys) i) vo d"
  by (metis decision_pins_Some index_by_extend)

lemma decision_pins_extend_verdicts:
  "decision_pins eo (index_by key xs i) d \<Longrightarrow> distinct (map key (xs @ ys)) \<Longrightarrow>
     decision_pins eo (index_by key (xs @ ys) i) d"
  by (metis decision_pins_Some index_by_extend)

lemma reference_owned_extend:
  assumes "reference_owned es vs r"
  shows "distinct (map ev_id (es @ es')) \<Longrightarrow> reference_owned (es @ es') vs r"
    "distinct (map cv_id (vs @ vs')) \<Longrightarrow> reference_owned es (vs @ vs') r"
  using assms index_by_extend [of ev_id es "ref_evidence_id r" _ es']
    index_by_extend [of cv_id vs "ref_checker_verdict_id r" _ vs']
  by (auto simp: reference_owned_def)

lemma route_owned_extend:
  assumes "route_owned es vs r"
  shows "distinct (map ev_id (es @ es')) \<Longrightarrow> route_owned (es @ es') vs r"
    "distinct (map cv_id (vs @ vs')) \<Longrightarrow> route_owned es (vs @ vs') r"
  using assms unfolding route_owned_def by (simp_all add: reference_owned_extend)

lemma link_owned_extend:
  assumes "link_owned cs ds supps l"
  shows "link_owned (cs @ cs') ds supps l"
    "distinct (map wd_id (ds @ ds')) \<Longrightarrow> link_owned cs (ds @ ds') supps l"
    "distinct (map ls_lemma_version_id (supps @ supps')) \<Longrightarrow> link_owned cs ds (supps @ supps') l"
proof -
  obtain d supp where a: "index_by wd_id ds (pl_warrant_decision_id l) = Some d"
    "index_by ls_lemma_version_id supps (pl_lemma_version_id l) = Some supp"
    using assms unfolding link_owned_def by blast
  note x = index_by_extend [OF a(1)] index_by_extend [OF a(2)]
  show "link_owned (cs @ cs') ds supps l" using assms unfolding link_owned_def by auto
  show "distinct (map wd_id (ds @ ds')) \<Longrightarrow> link_owned cs (ds @ ds') supps l"
    "distinct (map ls_lemma_version_id (supps @ supps')) \<Longrightarrow> link_owned cs ds (supps @ supps') l"
    using assms a x unfolding link_owned_def by simp_all
qed

lemma nogood_owned_extend:
  assumes "nogood_owned es vs ds ctx n"
  shows "distinct (map ev_id (es @ es')) \<Longrightarrow> nogood_owned (es @ es') vs ds ctx n"
    "distinct (map cv_id (vs @ vs')) \<Longrightarrow> nogood_owned es (vs @ vs') ds ctx n"
    "distinct (map wd_id (ds @ ds')) \<Longrightarrow> nogood_owned es vs (ds @ ds') ctx n"
proof -
  obtain e v d c where a: "index_by ev_id es (ref_evidence_id (ng_check n)) = Some e"
    "index_by cv_id vs (ref_checker_verdict_id (ng_check n)) = Some v"
    "index_by wd_id ds (ng_warrant_decision_id n) = Some d" "ctx = Some c"
    using assms unfolding nogood_owned_def by blast
  note x = index_by_extend [OF a(1)] index_by_extend [OF a(2)] index_by_extend [OF a(3)]
  show "distinct (map ev_id (es @ es')) \<Longrightarrow> nogood_owned (es @ es') vs ds ctx n"
    "distinct (map cv_id (vs @ vs')) \<Longrightarrow> nogood_owned es (vs @ vs') ds ctx n"
    "distinct (map wd_id (ds @ ds')) \<Longrightarrow> nogood_owned es vs (ds @ ds') ctx n"
    using assms a x unfolding nogood_owned_def by simp_all
qed

section \<open>Plans, claims and obligations\<close>

lemma keep_plan:
  assumes "valid_state sha s" "st_status s = Active" "valid_step_plan sha p"
    and "plan_id p \<notin> plan_id ` set (st_step_plans s)"
    and "map_option ctx_scheduler_policy_version (st_context s) = Some (plan_policy_version p)"
    and "plan_status_of p = PlanReady \<Longrightarrow>
      plan_owns sha (index_by obl_id (st_obligations s) (id_or_empty (plan_selected_obligation_id p)))
        (plan_selected_attempt_key p)"
  shows "valid_state sha (s\<lparr>st_step_plans := st_step_plans s @ [p]\<rparr>)"
  using assms by (auto simp: valid_state_def valid_requests_def valid_plans_def list_all_iff)

lemma keep_claim:
  assumes "valid_state sha s" "st_status s = Active" "valid_claim c"
    and "claim_id c \<notin> claim_id ` set (st_claims s)"
  shows "valid_state sha (s\<lparr>st_claims := st_claims s @ [c]\<rparr>)"
  using assms
  by (auto simp: valid_state_def valid_claim_records_def valid_lemmas_def list_all_iff link_owned_extend(1))

lemma keep_conflicts:
  assumes "valid_state sha s" "st_status s = Active" "list_all valid_conflict cs"
    and "distinct (map conflict_id (st_conflicts s @ cs))"
    and "list_all (\<lambda>c. {fst (conflict_claim_ids c), snd (conflict_claim_ids c)} \<subseteq> claim_id ` set (st_claims s)) cs"
  shows "valid_state sha (s\<lparr>st_conflicts := st_conflicts s @ cs\<rparr>)"
  using assms by (auto simp: valid_state_def valid_claim_records_def list_all_iff)

lemma keep_obligations:
  assumes "valid_state sha s" "st_status s = Active" "list_all valid_obligation qs"
    and "distinct (map obl_id (st_obligations s @ qs))"
  shows "valid_state sha (s\<lparr>st_obligations := st_obligations s @ qs\<rparr>)"
proof -
  have "valid_plans sha (s\<lparr>st_obligations := st_obligations s @ qs\<rparr>)"
    using assms plan_owns_extend [OF _ assms(4)] by (auto simp: valid_state_def valid_plans_def list_all_iff)
  moreover have "valid_claim_records (s\<lparr>st_obligations := st_obligations s @ qs\<rparr>)"
    using assms by (auto simp: valid_state_def valid_claim_records_def list_all_iff)
  ultimately show ?thesis using assms(1,2) by (simp add: valid_state_def)
qed

lemma keep_disposition:
  assumes "valid_state sha s" "st_status s = Active" "valid_disposition d"
    and "disp_id d \<notin> disp_id ` set (st_obligation_dispositions s)"
    and "disp_obligation_id d \<in> obl_id ` set (st_obligations s)"
  shows "valid_state sha (s\<lparr>st_obligation_dispositions := st_obligation_dispositions s @ [d]\<rparr>)"
  using assms by (simp add: valid_state_def valid_claim_records_def)

section \<open>Evidence, verdicts and decisions\<close>

lemma keep_evidence:
  assumes "valid_state sha s" "st_status s = Active" "valid_evidence e"
    and "ev_id e \<notin> ev_id ` set (st_evidence_records s)"
  shows "valid_state sha (s\<lparr>st_evidence_records := st_evidence_records s @ [e]\<rparr>)"
proof -
  let ?s = "s\<lparr>st_evidence_records := st_evidence_records s @ [e]\<rparr>"
  have v: "valid_warrants s" "valid_lemmas sha s" "valid_standing s" using assms(1) by (simp_all add: valid_state_def)
  have d: "distinct (map ev_id (st_evidence_records s @ [e]))" using v(1) assms(4) by (simp add: valid_warrants_def)
  have "valid_warrants ?s"
    using v(1) assms(3,4) verdict_pins_extend [OF _ d] decision_pins_extend_evidence [OF _ d]
    by (simp add: valid_warrants_def list_all_iff)
  moreover have "valid_lemmas sha ?s"
    using v(2) route_owned_extend(1) [OF _ d] unfolding valid_lemmas_def by (simp add: list_all_iff)
  moreover have "valid_standing ?s"
    using v(3) nogood_owned_extend(1) [OF _ d] unfolding valid_standing_def by (simp add: list_all_iff)
  ultimately show ?thesis using assms(1,2) by (simp add: valid_state_def)
qed

lemma keep_verdict:
  assumes "valid_state sha s" "st_status s = Active" "valid_verdict_record v"
    and "cv_id v \<notin> cv_id ` set (st_checker_verdicts s)"
    and "verdict_pins (index_by ev_id (st_evidence_records s) (cv_evidence_id v)) v"
  shows "valid_state sha (s\<lparr>st_checker_verdicts := st_checker_verdicts s @ [v]\<rparr>)"
proof -
  let ?s = "s\<lparr>st_checker_verdicts := st_checker_verdicts s @ [v]\<rparr>"
  have v: "valid_warrants s" "valid_lemmas sha s" "valid_standing s" using assms(1) by (simp_all add: valid_state_def)
  have d: "distinct (map cv_id (st_checker_verdicts s @ [v]))" using v(1) assms(4) by (simp add: valid_warrants_def)
  have "valid_warrants ?s"
    using v(1) assms(3-5) decision_pins_extend_verdicts [OF _ d] by (simp add: valid_warrants_def list_all_iff)
  moreover have "valid_lemmas sha ?s"
    using v(2) route_owned_extend(2) [OF _ d] unfolding valid_lemmas_def by (simp add: list_all_iff)
  moreover have "valid_standing ?s"
    using v(3) nogood_owned_extend(2) [OF _ d] unfolding valid_standing_def by (simp add: list_all_iff)
  ultimately show ?thesis using assms(1,2) by (simp add: valid_state_def)
qed

lemma keep_decision:
  assumes "valid_state sha s" "st_status s = Active" "valid_warrant_decision d"
    and "wd_id d \<notin> wd_id ` set (st_warrant_decisions s)"
    and "decision_pins (index_by ev_id (st_evidence_records s) (wd_evidence_id d))
      (index_by cv_id (st_checker_verdicts s) (wd_checker_verdict_id d)) d"
  shows "valid_state sha (s\<lparr>st_warrant_decisions := st_warrant_decisions s @ [d]\<rparr>)"
proof -
  let ?s = "s\<lparr>st_warrant_decisions := st_warrant_decisions s @ [d]\<rparr>"
  have v: "valid_warrants s" "valid_lemmas sha s" "valid_standing s" using assms(1) by (simp_all add: valid_state_def)
  have ds: "distinct (map wd_id (st_warrant_decisions s @ [d]))" using v(1) assms(4) by (simp add: valid_warrants_def)
  have "valid_warrants ?s" using v(1) assms(3-5) by (simp add: valid_warrants_def)
  moreover have "valid_lemmas sha ?s"
    using v(2) link_owned_extend(2) [OF _ ds] unfolding valid_lemmas_def by (simp add: list_all_iff)
  moreover have "valid_standing ?s"
    using v(3) nogood_owned_extend(3) [OF _ ds] unfolding valid_standing_def by (simp add: list_all_iff)
  ultimately show ?thesis using assms(1,2) by (simp add: valid_state_def)
qed

section \<open>Standing histories\<close>

lemma standing_history_snoc:
  "standing_history subj ident pred standing tail (cs @ [c]) \<longleftrightarrow>
     standing_history subj ident pred standing tail cs \<and>
     (let t = (case index_by subj cs (subj c) of Some x \<Rightarrow> Some x | None \<Rightarrow> tail (subj c)) in
      pred c = map_option ident t \<and> standing c \<noteq> (case t of None \<Rightarrow> Standing | Some x \<Rightarrow> standing x))"
proof (induction cs arbitrary: tail)
  case (Cons x xs)
  have "(case index_by subj (x # xs) (subj c) of Some y \<Rightarrow> Some y | None \<Rightarrow> tail (subj c)) =
      (case index_by subj xs (subj c) of Some y \<Rightarrow> Some y | None \<Rightarrow> (tail(subj x \<mapsto> x)) (subj c))"
    using index_by_append [of subj "[x]" xs "subj c"]
    by (auto simp: index_by_def split: option.splits)
  with Cons.IH [of "tail(subj x \<mapsto> x)"] show ?case by (simp only: append_Cons standing_history.simps conj_assoc)
qed (simp add: index_by_def Let_def)

lemma keep_route_change:
  assumes "valid_state sha s" "st_status s = Active" "valid_route_change c"
    and "rc_id c \<notin> rc_id ` set (st_route_changes s)"
    and "rc_support_route_id c \<in> route_id ` set (routes_of (st_lemma_supports s))"
    and "rc_predecessor_id c = map_option rc_id (index_by rc_support_route_id (st_route_changes s) (rc_support_route_id c))"
    and "rc_standing c \<noteq> (case index_by rc_support_route_id (st_route_changes s) (rc_support_route_id c) of
      None \<Rightarrow> Standing | Some t \<Rightarrow> rc_standing t)"
  shows "valid_state sha (s\<lparr>st_route_changes := st_route_changes s @ [c]\<rparr>)"
  using assms by (simp add: valid_state_def valid_standing_def standing_history_snoc Let_def split: option.splits)

lemma keep_nogood_change:
  assumes "valid_state sha s" "st_status s = Active" "valid_nogood_change c"
    and "nc_id c \<notin> nc_id ` set (st_nogood_changes s)"
    and "nc_nogood_id c \<in> ng_id ` set (st_nogoods s)"
    and "nc_predecessor_id c = map_option nc_id (index_by nc_nogood_id (st_nogood_changes s) (nc_nogood_id c))"
    and "nc_standing c \<noteq> (case index_by nc_nogood_id (st_nogood_changes s) (nc_nogood_id c) of
      None \<Rightarrow> Standing | Some t \<Rightarrow> nc_standing t)"
  shows "valid_state sha (s\<lparr>st_nogood_changes := st_nogood_changes s @ [c]\<rparr>)"
  using assms by (simp add: valid_state_def valid_standing_def standing_history_snoc Let_def split: option.splits)

lemma keep_nogood:
  assumes "valid_state sha s" "st_status s = Active" "valid_nogood n"
    and "ng_id n \<notin> ng_id ` set (st_nogoods s)"
    and "nogood_owned (st_evidence_records s) (st_checker_verdicts s) (st_warrant_decisions s) (st_context s) n"
  shows "valid_state sha (s\<lparr>st_nogoods := st_nogoods s @ [n]\<rparr>)"
  using assms by (auto simp: valid_state_def valid_standing_def list_all_iff)

section \<open>Effect requests\<close>

lemma distinct_replace:
  assumes "distinct (xs @ a @ ys)" "distinct b"
    and "\<And>i. i \<in> set b \<Longrightarrow> i \<notin> set a \<Longrightarrow> i \<notin> set (xs @ a @ ys)"
  shows "distinct (xs @ b @ ys)"
proof -
  have "set b \<inter> set xs = {}" "set b \<inter> set ys = {}"
    using assms(1,3) by (fastforce simp: disjoint_iff)+
  then show ?thesis using assms(1,2) by auto
qed

lemma distinct_concat_replace:
  assumes "distinct (concat (map f (xs @ r # ys)))" "distinct (f r')"
    and "\<And>i. i \<in> set (f r') \<Longrightarrow> i \<notin> set (f r) \<Longrightarrow> i \<notin> set (concat (map f (xs @ r # ys)))"
  shows "distinct (concat (map f (xs @ r' # ys)))"
proof -
  note u = map_append concat_append list.map concat.simps
  have "distinct (concat (map f xs) @ f r' @ concat (map f ys))"
    by (rule distinct_replace [of _ "f r"]) (use assms [unfolded u] in blast)+
  then show ?thesis unfolding u .
qed

lemma map_filter_concat:
  "List.map_filter f xs = concat (map (\<lambda>x. case f x of None \<Rightarrow> [] | Some y \<Rightarrow> [y]) xs)"
  by (induction xs) (simp_all add: List.map_filter_simps split: option.splits)

lemma replace_request_split:
  assumes "find_by ers_id i rs = Some r" "distinct (map ers_id rs)" "ers_id r' = i"
  obtains xs ys where "rs = xs @ r # ys" "replace_request r' rs = xs @ r' # ys"
proof -
  have r: "r \<in> set rs" "ers_id r = i" using find_by_SomeD [OF assms(1)] by blast+
  then obtain xs ys where rs: "rs = xs @ r # ys" by (meson split_list)
  have keep: "map (\<lambda>x. if ers_id x = i then r' else x) zs = zs" if "i \<notin> ers_id ` set zs" for zs
    by (rule map_idI) (use that assms(3) in \<open>auto simp: image_iff\<close>)
  have "i \<notin> ers_id ` set xs" "i \<notin> ers_id ` set ys" using assms(2) r(2) by (auto simp: rs)
  then have "replace_request r' rs = xs @ r' # ys"
    using r(2) assms(3) unfolding rs replace_request_def by (simp add: keep)
  with rs that show ?thesis by blast
qed

lemma keep_new_request:
  assumes "valid_state sha s" "st_status s = Active" "valid_effect_request r"
    and "req_id r \<notin> ers_id ` set (st_effect_requests s)"
    and "req_step_plan_id r \<in> plan_id ` set (st_step_plans s)"
  shows "valid_state sha (s\<lparr>st_effect_requests := st_effect_requests s @ [new_request r]\<rparr>)"
proof -
  have "valid_request_state (new_request r)"
    using assms(3) by (simp add: valid_request_state_def new_request_def return_ids_def List.map_filter_simps)
  moreover have "accepted_result (new_request r) = None" by (simp add: accepted_result_def new_request_def)
  ultimately have "valid_requests (s\<lparr>st_effect_requests := st_effect_requests s @ [new_request r]\<rparr>)"
    using assms
    by (simp add: valid_state_def valid_requests_def global_attempt_ids_def global_return_ids_def
        global_decode_ids_def global_result_ids_def new_request_def return_ids_def map_filter_concat)
  then show ?thesis using assms(1,2) by (simp add: valid_state_def)
qed

text \<open>Replacing a request by a valid successor of the same request keeps the state valid if whatever
  identity the successor adds is new to the inquiry.\<close>

lemma keep_request:
  assumes "valid_state sha s" "st_status s = Active" "request_by_id s i = Some r"
    and "valid_request_state r'" "ers_request r' = ers_request r"
    and att: "\<And>j. j \<in> set (map att_id (ers_attempts r')) \<Longrightarrow> j \<notin> set (map att_id (ers_attempts r)) \<Longrightarrow>
      j \<notin> set (global_attempt_ids (st_effect_requests s))"
    and ret: "\<And>j. j \<in> set (return_ids r') \<Longrightarrow> j \<notin> set (return_ids r) \<Longrightarrow>
      j \<notin> set (global_return_ids (st_effect_requests s))"
    and dec: "\<And>j. j \<in> set (map dec_id (ers_decode_outcomes r')) \<Longrightarrow> j \<notin> set (map dec_id (ers_decode_outcomes r)) \<Longrightarrow>
      j \<notin> set (global_decode_ids (st_effect_requests s))"
    and res: "\<And>x. accepted_result r' = Some x \<Longrightarrow> accepted_result r \<noteq> Some x \<Longrightarrow>
      result_id x \<notin> set (global_result_ids (st_effect_requests s))"
  shows "valid_state sha (s\<lparr>st_effect_requests := replace_request r' (st_effect_requests s)\<rparr>)"
proof -
  let ?rs = "st_effect_requests s"
  have v: "valid_requests s" using assms(1) by (simp add: valid_state_def)
  have f: "find_by ers_id i ?rs = Some r" using assms(3) by (simp add: request_by_id_def)
  have i: "ers_id r' = i" using find_by_SomeD [OF f] assms(5) by simp
  obtain xs ys where rs: "?rs = xs @ r # ys" "replace_request r' ?rs = xs @ r' # ys"
    using replace_request_split [OF f _ i] v by (auto simp: valid_requests_def)
  let ?res = "\<lambda>r. case map_option result_id (accepted_result r) of None \<Rightarrow> [] | Some y \<Rightarrow> [y]"
  have d: "distinct (map att_id (ers_attempts r'))" "distinct (return_ids r')" "distinct (map dec_id (ers_decode_outcomes r'))"
    using assms(4) by (simp_all add: valid_request_state_def)
  have g: "distinct (global_attempt_ids ?rs)" "distinct (global_return_ids ?rs)"
    "distinct (global_decode_ids ?rs)" "distinct (global_result_ids ?rs)"
    using v by (simp_all add: valid_requests_def)
  have "distinct (global_attempt_ids (xs @ r' # ys))"
    using distinct_concat_replace [OF _ _ att [unfolded global_attempt_ids_def rs(1)]] g(1) d(1)
    unfolding global_attempt_ids_def rs(1) by blast
  moreover have "distinct (global_return_ids (xs @ r' # ys))"
    using distinct_concat_replace [OF _ _ ret [unfolded global_return_ids_def rs(1)]] g(2) d(2)
    unfolding global_return_ids_def rs(1) by blast
  moreover have "distinct (global_decode_ids (xs @ r' # ys))"
    using distinct_concat_replace [OF _ _ dec [unfolded global_decode_ids_def rs(1)]] g(3) d(3)
    unfolding global_decode_ids_def rs(1) by blast
  moreover have "distinct (global_result_ids (xs @ r' # ys))"
    unfolding global_result_ids_def map_filter_concat
  proof (rule distinct_concat_replace [where r = r])
    fix j assume "j \<in> set (?res r')" "j \<notin> set (?res r)"
    then obtain x where "accepted_result r' = Some x" "j = result_id x" "accepted_result r \<noteq> Some x"
      by (cases "accepted_result r'"; cases "accepted_result r") auto
    then show "j \<notin> set (concat (map ?res (xs @ r # ys)))"
      using res unfolding global_result_ids_def map_filter_concat rs(1) by blast
  qed (use g(4) in \<open>simp_all add: global_result_ids_def map_filter_concat rs(1) split: option.splits\<close>)
  ultimately have "valid_requests (s\<lparr>st_effect_requests := replace_request r' ?rs\<rparr>)"
    using v assms(4,5) rs by (simp add: valid_requests_def)
  then show ?thesis using assms(1,2) by (simp add: valid_state_def)
qed

section \<open>Promotion\<close>

lemma join_lemma_Inr_iff:
  "join_lemma sha supps v = Inr l \<longleftrightarrow> index_by ls_lemma_version_id supps (lv_id v) = Some (wl_support l) \<and>
     wl_version l = v \<and> valid_warranted_lemma sha l"
  by (cases l) (auto simp: join_lemma_def construct_Inr_iff split: option.splits)

lemma join_lemmas_versions: "join_lemmas sha supps vs = Inr ls \<Longrightarrow> map wl_version ls = vs"
proof -
  assume "join_lemmas sha supps vs = Inr ls"
  then have m: "map (join_lemma sha supps) vs = map Inr ls"
    unfolding join_lemmas_def by (rule collect_results_InrD)
  then have "length vs = length ls" by (metis length_map)
  then show ?thesis using m
    by (induction vs ls rule: list_induct2) (simp_all add: join_lemma_Inr_iff)
qed

lemma join_lemmas_snoc:
  assumes "join_lemmas sha supps vs = Inr ls" "valid_warranted_lemma sha l"
    and "distinct (map ls_lemma_version_id (supps @ [wl_support l]))"
  shows "join_lemmas sha (supps @ [wl_support l]) (vs @ [wl_version l]) = Inr (ls @ [l])"
proof -
  have m: "map (join_lemma sha supps) vs = map Inr ls"
    using assms(1) unfolding join_lemmas_def by (rule collect_results_InrD)
  have "join_lemma sha (supps @ [wl_support l]) v = join_lemma sha supps v" if v: "v \<in> set vs" for v
  proof -
    have "join_lemma sha supps v \<in> set (map Inr ls)" using v m [symmetric] by simp
    then obtain x where x: "join_lemma sha supps v = Inr x" by auto
    then have "join_lemma sha (supps @ [wl_support l]) v = Inr x"
      using index_by_extend [OF _ assms(3)] by (simp add: join_lemma_Inr_iff)
    with x show ?thesis by simp
  qed
  then have "map (join_lemma sha (supps @ [wl_support l])) vs = map Inr ls"
    unfolding m [symmetric] by (rule map_cong [OF refl])
  moreover have "join_lemma sha (supps @ [wl_support l]) (wl_version l) = Inr l"
    using assms(2) unfolding join_lemma_Inr_iff
    by (simp add: valid_warranted_lemma_def index_by_append) (simp add: index_by_def)
  moreover have "collect_results (map Inr ls) = Inr ls"
    using assms(1) m by (simp add: join_lemmas_def)
  ultimately show ?thesis unfolding join_lemmas_def by (simp add: collect_results_snoc)
qed

lemma unique_by_id_id: "distinct (map key xs) \<Longrightarrow> unique_by_id key xs = xs"
proof -
  assume d: "distinct (map key xs)"
  have "List.map_filter (index_by key xs) (map key ys) = ys" if "set ys \<subseteq> set xs" for ys
    using that
    by (induction ys) (simp_all add: List.map_filter_simps index_by_distinct [OF d] find_by_distinct [OF d])
  then show ?thesis using d by (simp add: unique_by_id_def distinct_remdups_id)
qed

lemma routes_of_snoc: "routes_of (supps @ [x]) = routes_of supps @ all_support_routes x"
  by (simp add: routes_of_def)

lemma aligned_snoc:
  assumes al: "aligned_lemmas sha vs supps links" and join: "join_lemmas sha supps vs = Inr ls"
    and l: "valid_warranted_lemma sha l" "wl_id l \<notin> lv_id ` set vs"
    and link: "valid_promotion_link link" "pl_id link \<notin> pl_id ` set links" "pl_lemma_version_id link = wl_id l"
    and routes: "route_id ` set (all_support_routes (wl_support l)) \<inter> route_id ` set (routes_of supps) = {}"
    and graph: "support_graph_is_acyclic (ls @ [l])"
    and anc: "ancestry_is_acyclic (predecessor_map (ls @ [l]))"
  shows "aligned_lemmas sha (vs @ [wl_version l]) (supps @ [wl_support l]) (links @ [link])"
proof -
  have ids: "lv_id ` set vs = ls_lemma_version_id ` set supps" "lv_id ` set vs = pl_lemma_version_id ` set links"
    using al unfolding aligned_lemmas_def set_map by blast+
  have lv: "ls_lemma_version_id (wl_support l) = wl_id l" using l(1) by (simp add: valid_warranted_lemma_def)
  have ds: "distinct (map ls_lemma_version_id (supps @ [wl_support l]))"
    using al l(2) ids(1) lv by (simp add: aligned_lemmas_def)
  have vs: "map wl_version ls = vs" by (rule join_lemmas_versions [OF join])
  have dl: "distinct (map (\<lambda>l. wl_id l) (ls @ [l]))"
  proof -
    have "distinct (map lv_id (map wl_version ls))" "wl_id l \<notin> lv_id ` set (map wl_version ls)"
      using al l(2) vs by (simp_all add: aligned_lemmas_def)
    then show ?thesis by (simp add: comp_def image_image)
  qed
  have "predecessor_map (ls @ [l]) =
      map (\<lambda>v. (lv_id v, lv_predecessor_refs v)) (vs @ [wl_version l])"
    unfolding predecessor_map_def unique_by_id_id [OF dl] vs [symmetric] by simp
  then have "ancestry_is_acyclic (map (\<lambda>v. (lv_id v, lv_predecessor_refs v)) (vs @ [wl_version l]))"
    using anc by simp
  moreover have "distinct (map route_id (routes_of (supps @ [wl_support l])))"
    using al l(1) routes
    by (auto simp: aligned_lemmas_def routes_of_def valid_warranted_lemma_def valid_lemma_support_def)
  ultimately show ?thesis
    using al l ds lv ids link join_lemmas_snoc [OF join l(1) ds] graph
    unfolding aligned_lemmas_def by (simp add: valid_warranted_lemma_def)
qed

lemma keep_lemma:
  assumes s: "valid_state sha s" "st_status s = Active" and join: "warranted_lemmas sha s = Inr ls"
    and al: "aligned_lemmas sha (st_lemma_versions s @ [wl_version l]) (st_lemma_supports s @ [wl_support l])
      (st_promotion_links s @ [link])"
    and routes: "list_all (route_owned (st_evidence_records s) (st_checker_verdicts s)) (all_support_routes (wl_support l))"
    and link: "link_owned (st_claims s) (st_warrant_decisions s) (st_lemma_supports s @ [wl_support l]) link"
  shows "valid_state sha (s\<lparr>st_lemma_versions := st_lemma_versions s @ [wl_version l],
    st_lemma_supports := st_lemma_supports s @ [wl_support l],
    st_promotion_links := st_promotion_links s @ [link]\<rparr>)"
proof -
  let ?s = "s\<lparr>st_lemma_versions := st_lemma_versions s @ [wl_version l],
    st_lemma_supports := st_lemma_supports s @ [wl_support l],
    st_promotion_links := st_promotion_links s @ [link]\<rparr>"
  have v: "valid_lemmas sha s" "valid_standing s" using s(1) by (simp_all add: valid_state_def)
  have d: "distinct (map ls_lemma_version_id (st_lemma_supports s @ [wl_support l]))"
    using al by (simp add: aligned_lemmas_def)
  have "list_all (link_owned (st_claims s) (st_warrant_decisions s) (st_lemma_supports s @ [wl_support l]))
      (st_promotion_links s)"
    using v(1) link_owned_extend(3) [OF _ d] unfolding valid_lemmas_def by (auto simp: list_all_iff)
  then have "valid_lemmas sha ?s"
    using v(1) al routes link unfolding valid_lemmas_def by (simp add: routes_of_snoc)
  moreover have "valid_standing ?s"
    using v(2) by (auto simp: valid_standing_def routes_of_snoc list_all_iff)
  ultimately show ?thesis using s by (simp add: valid_state_def)
qed

end
