(* ===== verification/Rci_Accept.thy ===== *)
theory Rci_Accept
  imports Rci_Invariant
begin

text \<open>
  Commands and events fit together: from a valid state, the event a valid command is decided into
  evolves the aggregate into a valid state again. Four branches of \<open>decide\<close> need a further condition
  that the lifecycle validator imposes and the branch itself does not check; \<open>reducible\<close> states it.
  \<open>Rci_Reduction\<close> shows that it is exact.
\<close>

section \<open>Valid commands\<close>

text \<open>What the constructors of the command classes guarantee.\<close>

fun valid_command :: "(string \<Rightarrow> digest) \<Rightarrow> command \<Rightarrow> bool" where
  "valid_command sha (StartInquiry b m p ctx) =
     (valid_base b \<and> valid_artifact_ref m \<and> valid_identifier p \<and> valid_context ctx)"
| "valid_command sha (RecordBacklogEffect b e) = valid_base b"
| "valid_command sha (RecordStepPlan b p) = (valid_base b \<and> valid_step_plan sha p)"
| "valid_command sha (RequestEffect b r) = (valid_base b \<and> valid_effect_request r)"
| "valid_command sha (PlanEffectAttempt b p) = (valid_base b \<and> valid_attempt_plan p)"
| "valid_command sha (StartEffectAttempt b i) = (valid_base b \<and> valid_identifier i)"
| "valid_command sha (RecordNoAttemptDisposition b d) = (valid_base b \<and> valid_no_attempt d)"
| "valid_command sha (RecordAttemptOutcome b i oc) =
     (valid_base b \<and> valid_identifier i \<and> valid_outcome oc)"
| "valid_command sha (RecordDecodeOutcome b i d) =
     (valid_base b \<and> valid_identifier i \<and> valid_decode d)"
| "valid_command sha (AcceptEffectResult b i j) =
     (valid_base b \<and> valid_identifier i \<and> valid_identifier j)"
| "valid_command sha (AdmitClaim b c) = (valid_base b \<and> valid_claim c)"
| "valid_command sha (OpenObligation b q) = (valid_base b \<and> valid_obligation q)"
| "valid_command sha (RecordObligationDisposition b d) = (valid_base b \<and> valid_disposition d)"
| "valid_command sha (RecordCandidate b c) = (valid_base b \<and> valid_candidate c)"
| "valid_command sha (RecordResidual b r) = (valid_base b \<and> valid_residual r)"
| "valid_command sha (AppendCorrection b c) = (valid_base b \<and> valid_correction c)"
| "valid_command sha (ChangeGuardStanding b g) = (valid_base b \<and> valid_guard_change g)"
| "valid_command sha (RecordNogood b n) = (valid_base b \<and> valid_nogood n)"
| "valid_command sha (ChangeSupportRouteStanding b c) = (valid_base b \<and> valid_route_change c)"
| "valid_command sha (ChangeNogoodStanding b c) = (valid_base b \<and> valid_nogood_change c)"
| "valid_command sha (RecordEvidence b e) = (valid_base b \<and> valid_evidence e)"
| "valid_command sha (RecordCheckerVerdict b v) = (valid_base b \<and> valid_verdict_record v)"
| "valid_command sha (EvaluateWarrant b w) =
     (valid_base b \<and> list_all valid_identifier [wr_decision_id w, wr_evidence_id w,
        wr_checker_verdict_id w, wr_proposition_id w] \<and> valid_scope (wr_scope w))"
| "valid_command sha (PromoteClaim b p) =
     (valid_base b \<and> list_all valid_identifier ([pc_promotion_id p, pc_lemma_id p, pc_relation_id p,
        pc_warrant_decision_id p] @ pc_provenance_refs p @ pc_source_claim_ids p @ pc_predecessor_refs p) \<and>
      valid_scope (pc_scope p) \<and> valid_applicability (pc_applicability p) \<and>
      list_all valid_route (pc_support_routes p))"

section \<open>Conditions the validator adds\<close>

text \<open>Four branches rely on more than they check: an accepted result must be new to the inquiry, the
  identities derived for a claim must not clash with recorded obligations, a warrant decision must be
  about the proposition, kind and scope of its evidence, and every route of a promotion must be new
  and reference owned checks. The warrant decision of a promotion must have been made under the
  warrant policy of the inquiry, which holds in every reachable state.\<close>

definition decided_under_policy :: "inquiry_state \<Rightarrow> string \<Rightarrow> bool" where
  "decided_under_policy s i = pred_option
     (\<lambda>d. Some (wd_policy_version d) = map_option ctx_warrant_policy_version (st_context s))
     (warrant_decision_by_id s i)"

fun reducible :: "(string \<Rightarrow> digest) \<Rightarrow> inquiry_state \<Rightarrow> command \<Rightarrow> bool" where
  "reducible sha s (AcceptEffectResult b i j) =
    (case Option.bind (request_by_id s i) (\<lambda>r. decoded_by r j) of None \<Rightarrow> True
     | Some x \<Rightarrow> result_id x \<notin> set (global_result_ids (st_effect_requests s)))"
| "reducible sha s (AdmitClaim b c) =
    (case derive_claim_consequences sha s c of Inl _ \<Rightarrow> True
     | Inr (cs, qs) \<Rightarrow> distinct (map obl_id (st_obligations s @ qs)))"
| "reducible sha s (EvaluateWarrant b w) =
    (case evidence_by_id s (wr_evidence_id w) of None \<Rightarrow> True
     | Some e \<Rightarrow> ev_proposition_id e = wr_proposition_id w \<and> ev_proposition_kind e = wr_proposition_kind w \<and>
         ev_scope_fingerprint e = scope_fingerprint sha (wr_scope w))"
| "reducible sha s (PromoteClaim b p) =
    (set (map route_id (pc_support_routes p)) \<inter> set (map route_id (routes_of (st_lemma_supports s))) = {} \<and>
     list_all (route_owned (st_evidence_records s) (st_checker_verdicts s)) (pc_support_routes p) \<and>
     decided_under_policy s (pc_warrant_decision_id p))"
| "reducible sha s _ = True"

section \<open>Shared steps\<close>

lemma matching_self: "decide sha s c = Inr [e] \<Longrightarrow> matching sha s e c k = k"
  by (simp add: matching_def)

lemma decide_activeD:
  assumes "decide sha s c = Inr es" "\<not> is_start c"
  shows "st_status s = Active" "st_inquiry_id s = Some (msg_inquiry_id (cmd_base c))"
    "decide_active sha s c = Inr es"
  using assms by (simp_all add: decide_def require_active_def)

lemma find_None_fresh: "find_by key k xs = None \<Longrightarrow> k \<notin> key ` set xs"
  by (simp add: find_by_None_iff)

lemma find_Some_key: "find_by key k xs \<noteq> None \<Longrightarrow> k \<in> key ` set xs"
  by (metis find_by_None_iff)

text \<open>The accepted form of a recording step: the event carries the base of the command and the reducer
  builds the named state.\<close>

definition accepted :: "(string \<Rightarrow> digest) \<Rightarrow> inquiry_state \<Rightarrow> command \<Rightarrow> event \<Rightarrow> inquiry_state \<Rightarrow> bool" where
  "accepted sha s c e t \<longleftrightarrow> ev_base e = cmd_base c \<and> evolve_active sha s e = advance sha t \<and>
     st_status t = Active \<and> valid_state sha t \<and> \<not> is_started_event e"

lemma accepted_evolves:
  assumes "accepted sha s c e t" "decide sha s c = Inr [e]" "\<not> is_start c"
  shows "evolve sha s e = Inr (t\<lparr>st_sequence := Suc (st_sequence t)\<rparr>)"
  using assms decide_activeD [OF assms(2,3)] by (simp add: accepted_def evolve_def advance_ok)

section \<open>Recording commands\<close>

lemmas accepted_simps = accepted_def matching_self is_start_def is_started_event_def

lemma accept_backlog:
  assumes "decide sha s (RecordBacklogEffect b e) = Inr [ev]" "valid_state sha s"
  shows "accepted sha s (RecordBacklogEffect b e) ev (s\<lparr>st_backlog_effects := st_backlog_effects s @ [e]\<rparr>)"
proof -
  note a = decide_activeD [OF assms(1)]
  have "ev = BacklogEffectRecorded b e" "backlog_effect_by_id s (be_id e) = None"
    using a(3) by (auto simp: is_start_def decide_backlog_effect_def split: sum.splits)
  then show ?thesis
    using a(1) assms keep_backlog [of sha s e]
    by (simp add: accepted_def matching_self backlog_effect_by_id_def find_None_fresh is_start_def
        is_started_event_def)
qed

lemma accept_plan:
  assumes "decide sha s (RecordStepPlan b p) = Inr [ev]" "valid_state sha s" "valid_step_plan sha p"
  shows "accepted sha s (RecordStepPlan b p) ev (s\<lparr>st_step_plans := st_step_plans s @ [p]\<rparr>)"
proof -
  note a = decide_activeD [OF assms(1)]
  have d: "ev = StepPlanRecorded b p" "step_plan_by_id s (plan_id p) = None"
    "map_option ctx_scheduler_policy_version (st_context s) = Some (plan_policy_version p)"
    using a(3) by (auto simp: is_start_def decide_step_plan_def split: if_splits option.splits)
  have own: "plan_owns sha (obligation_by_id s (id_or_empty (plan_selected_obligation_id p)))
      (plan_selected_attempt_key p)" if "plan_status_of p = PlanReady"
    using a(3) that by (auto simp: is_start_def decide_step_plan_def plan_owns_def split: option.splits)
  have "distinct (map obl_id (st_obligations s))"
    using assms(2) by (simp add: valid_state_def valid_claim_records_def)
  then have "valid_state sha (s\<lparr>st_step_plans := st_step_plans s @ [p]\<rparr>)"
    using a(1) d own assms(2,3)
    by (intro keep_plan) (simp_all add: is_start_def step_plan_by_id_def find_None_fresh
        obligation_by_id_def index_by_distinct)
  then show ?thesis
    using a(1) d(1) assms(1) by (simp add: accepted_def matching_self is_start_def is_started_event_def)
qed

lemma accept_candidate:
  assumes "decide sha s (RecordCandidate b x) = Inr [ev]" "valid_state sha s" "valid_candidate x"
  shows "accepted sha s (RecordCandidate b x) ev (s\<lparr>st_candidates := st_candidates s @ [x]\<rparr>)"
proof -
  note a = decide_activeD [OF assms(1)]
  have "ev = CandidateRecorded b x" "find_by cand_id (cand_id x) (st_candidates s) = None"
    using a(3) by (auto simp: is_start_def decide_candidate_def split: option.splits)
  then show ?thesis
    using a(1) assms keep_candidate [of sha s x] by (simp add: accepted_simps find_None_fresh)
qed

lemma accept_residual:
  assumes "decide sha s (RecordResidual b x) = Inr [ev]" "valid_state sha s" "valid_residual x"
  shows "accepted sha s (RecordResidual b x) ev (s\<lparr>st_residuals := st_residuals s @ [x]\<rparr>)"
proof -
  note a = decide_activeD [OF assms(1)]
  have "ev = ResidualRecorded b x" "find_by resid_id (resid_id x) (st_residuals s) = None"
    using a(3) by (auto simp: is_start_def decide_residual_def split: option.splits)
  then show ?thesis
    using a(1) assms keep_residual [of sha s x] by (simp add: accepted_simps find_None_fresh)
qed

lemma accept_correction:
  assumes "decide sha s (AppendCorrection b x) = Inr [ev]" "valid_state sha s" "valid_correction x"
  shows "accepted sha s (AppendCorrection b x) ev (s\<lparr>st_corrections := st_corrections s @ [x]\<rparr>)"
proof -
  note a = decide_activeD [OF assms(1)]
  have "ev = CorrectionAppended b x" "find_by corr_id (corr_id x) (st_corrections s) = None"
    using a(3) by (auto simp: is_start_def decide_correction_def split: option.splits)
  then show ?thesis
    using a(1) assms keep_correction [of sha s x] by (simp add: accepted_simps find_None_fresh)
qed

lemma accept_guard:
  assumes "decide sha s (ChangeGuardStanding b x) = Inr [ev]" "valid_state sha s" "valid_guard_change x"
  shows "accepted sha s (ChangeGuardStanding b x) ev (s\<lparr>st_guard_changes := st_guard_changes s @ [x]\<rparr>)"
proof -
  note a = decide_activeD [OF assms(1)]
  have "ev = GuardStandingChanged b x" "find_by guard_id (guard_id x) (st_guard_changes s) = None"
    using a(3) by (auto simp: is_start_def decide_guard_standing_def Let_def split: option.splits)
  then show ?thesis
    using a(1) assms keep_guard [of sha s x] by (simp add: accepted_simps find_None_fresh)
qed

lemma accept_evidence:
  assumes "decide sha s (RecordEvidence b x) = Inr [ev]" "valid_state sha s" "valid_evidence x"
  shows "accepted sha s (RecordEvidence b x) ev (s\<lparr>st_evidence_records := st_evidence_records s @ [x]\<rparr>)"
proof -
  note a = decide_activeD [OF assms(1)]
  have "ev = EvidenceRecorded b x" "find_by ev_id (ev_id x) (st_evidence_records s) = None"
    using a(3) by (auto simp: is_start_def decide_evidence_def evidence_by_id_def split: option.splits)
  then show ?thesis
    using a(1) assms keep_evidence [of sha s x] by (simp add: accepted_simps find_None_fresh)
qed

lemma accept_verdict:
  assumes "decide sha s (RecordCheckerVerdict b x) = Inr [ev]" "valid_state sha s" "valid_verdict_record x"
  shows "accepted sha s (RecordCheckerVerdict b x) ev (s\<lparr>st_checker_verdicts := st_checker_verdicts s @ [x]\<rparr>)"
proof -
  note a = decide_activeD [OF assms(1)]
  have d: "ev = CheckerVerdictRecorded b x" "find_by cv_id (cv_id x) (st_checker_verdicts s) = None"
    "verdict_pins (find_by ev_id (cv_evidence_id x) (st_evidence_records s)) x"
    using a(3) by (simp_all add: is_start_def decide_verdict_def evidence_by_id_def checker_verdict_by_id_def)
  have "distinct (map ev_id (st_evidence_records s))"
    using assms(2) by (simp add: valid_state_def valid_warrants_def)
  then show ?thesis
    using a(1) assms d keep_verdict [of sha s x]
    by (simp add: accepted_simps find_None_fresh index_by_distinct)
qed

lemma accept_obligation:
  assumes "decide sha s (OpenObligation b x) = Inr [ev]" "valid_state sha s" "valid_obligation x"
  shows "accepted sha s (OpenObligation b x) ev (s\<lparr>st_obligations := st_obligations s @ [x]\<rparr>)"
proof -
  note a = decide_activeD [OF assms(1)]
  have d: "ev = ObligationOpened b x" "find_by obl_id (obl_id x) (st_obligations s) = None"
    using a(3) by (auto simp: is_start_def decide_open_obligation_def obligation_by_id_def split: if_splits)
  have "distinct (map obl_id (st_obligations s @ [x]))"
    using assms(2) d(2) by (simp add: valid_state_def valid_claim_records_def find_None_fresh)
  then show ?thesis
    using a(1) assms d(1) keep_obligations [of sha s "[x]"] by (simp add: accepted_simps)
qed

lemma accept_disposition:
  assumes "decide sha s (RecordObligationDisposition b x) = Inr [ev]" "valid_state sha s" "valid_disposition x"
  shows "accepted sha s (RecordObligationDisposition b x) ev
    (s\<lparr>st_obligation_dispositions := st_obligation_dispositions s @ [x]\<rparr>)"
proof -
  note a = decide_activeD [OF assms(1)]
  have d: "ev = ObligationDispositionRecorded b x"
    "find_by disp_id (disp_id x) (st_obligation_dispositions s) = None"
    "find_by obl_id (disp_obligation_id x) (st_obligations s) \<noteq> None"
    using a(3)
    by (auto simp: is_start_def decide_obligation_disposition_def obligation_by_id_def Let_def split: option.splits)
  then show ?thesis
    using a(1) assms keep_disposition [of sha s x]
    by (simp add: accepted_simps find_None_fresh find_Some_key del: not_None_eq)
qed

lemma accept_route_change:
  assumes "decide sha s (ChangeSupportRouteStanding b x) = Inr [ev]" "valid_state sha s" "valid_route_change x"
  shows "accepted sha s (ChangeSupportRouteStanding b x) ev (s\<lparr>st_route_changes := st_route_changes s @ [x]\<rparr>)"
proof -
  note a = decide_activeD [OF assms(1)]
  let ?t = "index_by rc_support_route_id (st_route_changes s) (rc_support_route_id x)"
  have d: "ev = SupportRouteStandingChanged b x" "find_by rc_id (rc_id x) (st_route_changes s) = None"
    "find_by route_id (rc_support_route_id x) (routes_of (st_lemma_supports s)) \<noteq> None"
    "rc_predecessor_id x = map_option rc_id ?t"
    "rc_standing x \<noteq> (case ?t of None \<Rightarrow> Standing | Some t \<Rightarrow> rc_standing t)"
    using a(3) by (simp_all add: is_start_def decide_route_standing_def support_route_by_id_def
        latest_route_change_def Let_def)
  have "valid_state sha (s\<lparr>st_route_changes := st_route_changes s @ [x]\<rparr>)"
    using a(1) assms(2,3) d
    by (intro keep_route_change) (simp_all add: is_start_def find_None_fresh find_Some_key del: not_None_eq)
  then show ?thesis using a(1) d(1) assms(1) by (simp add: accepted_simps)
qed

lemma accept_nogood_change:
  assumes "decide sha s (ChangeNogoodStanding b x) = Inr [ev]" "valid_state sha s" "valid_nogood_change x"
  shows "accepted sha s (ChangeNogoodStanding b x) ev (s\<lparr>st_nogood_changes := st_nogood_changes s @ [x]\<rparr>)"
proof -
  note a = decide_activeD [OF assms(1)]
  let ?t = "index_by nc_nogood_id (st_nogood_changes s) (nc_nogood_id x)"
  have d: "ev = NogoodStandingChanged b x" "find_by nc_id (nc_id x) (st_nogood_changes s) = None"
    "find_by ng_id (nc_nogood_id x) (st_nogoods s) \<noteq> None"
    "nc_predecessor_id x = map_option nc_id ?t"
    "nc_standing x \<noteq> (case ?t of None \<Rightarrow> Standing | Some t \<Rightarrow> nc_standing t)"
    using a(3) by (simp_all add: is_start_def decide_nogood_standing_def nogood_by_id_def
        latest_nogood_change_def Let_def)
  have "valid_state sha (s\<lparr>st_nogood_changes := st_nogood_changes s @ [x]\<rparr>)"
    using a(1) assms(2,3) d
    by (intro keep_nogood_change) (simp_all add: is_start_def find_None_fresh find_Some_key del: not_None_eq)
  then show ?thesis using a(1) d(1) assms(1) by (simp add: accepted_simps)
qed

lemma accept_nogood:
  assumes "decide sha s (RecordNogood b x) = Inr [ev]" "valid_state sha s" "valid_nogood x"
  shows "accepted sha s (RecordNogood b x) ev (s\<lparr>st_nogoods := st_nogoods s @ [x]\<rparr>)"
proof -
  note a = decide_activeD [OF assms(1)]
  obtain ctx where ctx: "st_context s = Some ctx"
    using a(3) by (auto simp: is_start_def decide_nogood_def split: option.splits)
  let ?r = "resolve_check_reference (ng_check x) (evidence_index (st_evidence_records s))
    (checker_verdict_index (st_checker_verdicts s)) (ng_id x) Existential (ng_scope_fingerprint x)
    (ctx_discharge_mechanism_ids ctx)"
  have d: "ev = NogoodRecorded b x" "find_by ng_id (ng_id x) (st_nogoods s) = None"
    "nogood_matches_context ctx x" "fst ?r"
    using a(3) ctx by (simp_all add: is_start_def decide_nogood_def nogood_by_id_def split_beta)
  obtain w where w: "find_by wd_id (ng_warrant_decision_id x) (st_warrant_decisions s) = Some w"
    "nogood_decision_exact w x"
    using a(3) ctx by (auto simp: is_start_def decide_nogood_def warrant_decision_by_id_def split: option.splits)
  obtain e v where ev: "index_by ev_id (st_evidence_records s) (ref_evidence_id (ng_check x)) = Some e"
    "index_by cv_id (st_checker_verdicts s) (ref_checker_verdict_id (ng_check x)) = Some v"
    "cv_evidence_id v = ref_evidence_id (ng_check x)"
    using d(4) unfolding resolve_check_iff evidence_index_def checker_verdict_index_def by blast
  have "distinct (map wd_id (st_warrant_decisions s))"
    using assms(2) by (simp add: valid_state_def valid_warrants_def)
  then have "index_by wd_id (st_warrant_decisions s) (ng_warrant_decision_id x) = Some w"
    using w(1) by (simp add: index_by_distinct)
  then have "nogood_owned (st_evidence_records s) (st_checker_verdicts s) (st_warrant_decisions s) (st_context s) x"
    using ev w find_by_SomeD [OF w(1)] index_by_SomeD [OF ev(1)] index_by_SomeD [OF ev(2)] ctx d(3)
    unfolding nogood_owned_def nogood_decision_exact_def nogood_matches_context_def by simp
  then have "valid_state sha (s\<lparr>st_nogoods := st_nogoods s @ [x]\<rparr>)"
    using a(1) assms(2,3) d(2) by (intro keep_nogood) (simp_all add: is_start_def find_None_fresh)
  then show ?thesis using a(1) d(1) assms(1) by (simp add: accepted_simps)
qed

section \<open>The effect lifecycle\<close>

lemma advance_request_ok:
  "valid_request_state r \<Longrightarrow>
     advance_request sha s r = advance sha (s\<lparr>st_effect_requests := replace_request r (st_effect_requests s)\<rparr>)"
  by (simp add: advance_request_def construct_def)

lemma request_validD:
  "valid_state sha s \<Longrightarrow> request_by_id s i = Some r \<Longrightarrow>
     r \<in> set (st_effect_requests s) \<and> ers_id r = i \<and> valid_request_state r"
  by (auto simp: request_by_id_def valid_state_def valid_requests_def list_all_iff dest: find_by_SomeD)

lemma attempt_ids_global: "map att_id (all_attempts s) = global_attempt_ids (st_effect_requests s)"
  by (simp add: all_attempts_def global_attempt_ids_def map_concat comp_def)

lemma local_attempt_global:
  "r \<in> set (st_effect_requests s) \<Longrightarrow> j \<in> set (map att_id (ers_attempts r)) \<Longrightarrow>
     j \<in> set (global_attempt_ids (st_effect_requests s))"
  by (auto simp: global_attempt_ids_def)

lemma local_decode_global:
  "r \<in> set (st_effect_requests s) \<Longrightarrow> j \<in> set (map dec_id (ers_decode_outcomes r)) \<Longrightarrow>
     j \<in> set (global_decode_ids (st_effect_requests s))"
  by (auto simp: global_decode_ids_def)

lemma local_return_global:
  "r \<in> set (st_effect_requests s) \<Longrightarrow> j \<in> set (return_ids r) \<Longrightarrow>
     j \<in> set (global_return_ids (st_effect_requests s))"
  by (auto simp: global_return_ids_def)

lemma accepted_result_attempts [simp]:
  "accepted_result (r\<lparr>ers_attempts := x\<rparr>) = accepted_result r"
  "accepted_result (r\<lparr>ers_no_attempt_dispositions := y\<rparr>) = accepted_result r"
  by (simp_all add: accepted_result_def find_decode_def cong: option.case_cong)

lemma return_ids_frame [simp]:
  "return_ids (r\<lparr>ers_no_attempt_dispositions := y\<rparr>) = return_ids r"
  "return_ids (r\<lparr>ers_decode_outcomes := z\<rparr>) = return_ids r"
  "return_ids (r\<lparr>ers_accepted_decoded_outcome_id := w\<rparr>) = return_ids r"
  by (simp_all add: return_ids_def)

lemma map_filter_append: "List.map_filter f (xs @ ys) = List.map_filter f xs @ List.map_filter f ys"
  by (induction xs) (simp_all add: List.map_filter_simps split: option.splits)

text \<open>Rewriting the attempt of one identity in place.\<close>

lemma update_attempt_split:
  assumes "attempt_of r i = Some a" "distinct (map att_id (ers_attempts r))"
  obtains xs ys where "ers_attempts r = xs @ a # ys"
    "map (\<lambda>x. if att_id x = i then f x else x) (ers_attempts r) = xs @ f a # ys"
proof -
  have a: "a \<in> set (ers_attempts r)" "att_id a = i"
    using find_by_SomeD assms(1) unfolding attempt_of_def by force+
  then obtain xs ys where r: "ers_attempts r = xs @ a # ys" by (meson split_list)
  have n: "i \<notin> att_id ` set xs" "i \<notin> att_id ` set ys" using assms(2) a(2) r by auto
  have keep: "map (\<lambda>x. if att_id x = i then f x else x) zs = zs" if "i \<notin> att_id ` set zs" for zs
    by (rule map_idI) (use that in \<open>auto simp: image_iff\<close>)
  have "map (\<lambda>x. if att_id x = i then f x else x) (ers_attempts r) = xs @ f a # ys"
    using a(2) keep [OF n(1)] keep [OF n(2)] by (simp add: r)
  with r that show ?thesis by blast
qed

lemma accept_request:
  assumes "decide sha s (RequestEffect b r) = Inr [ev]" "valid_state sha s" "valid_effect_request r"
  shows "accepted sha s (RequestEffect b r) ev
    (s\<lparr>st_effect_requests := st_effect_requests s @ [new_request r]\<rparr>)"
proof -
  note a = decide_activeD [OF assms(1)]
  have d: "ev = EffectRequested b r" "find_by ers_id (req_id r) (st_effect_requests s) = None"
    "find_by plan_id (req_step_plan_id r) (st_step_plans s) \<noteq> None"
    using a(3) by (auto simp: is_start_def decide_request_effect_def request_by_id_def step_plan_by_id_def
        split: option.splits)
  then show ?thesis
    using a(1) assms(2,3) keep_new_request [of sha s r]
    by (simp add: accepted_simps evolve_requested_def request_by_id_def step_plan_by_id_def
        find_None_fresh find_Some_key del: not_None_eq)
qed

lemma accept_plan_attempt:
  assumes "decide sha s (PlanEffectAttempt b p) = Inr [ev]" "valid_state sha s" "valid_attempt_plan p"
  shows "\<exists>t. accepted sha s (PlanEffectAttempt b p) ev t"
proof -
  note a = decide_activeD [OF assms(1)]
  obtain r where r: "request_by_id s (ap_request_id p) = Some r" "ers_accepted_decoded_outcome_id r = None"
    and ev: "ev = EffectAttemptPlanned b p" and fresh: "ap_id p \<notin> set (global_attempt_ids (st_effect_requests s))"
    using a(3) attempt_ids_global [of s]
    by (auto simp: is_start_def decide_plan_attempt_def find_by_None_iff simp flip: set_map)
  note rv = request_validD [OF assms(2) r(1)]
  let ?r = "r\<lparr>ers_attempts := ers_attempts r @ [new_attempt p]\<rparr>"
  have ret: "return_ids ?r = return_ids r"
    by (simp add: return_ids_def map_filter_append new_attempt_def List.map_filter_simps)
  have "valid_request_state ?r"
    using rv assms(3) fresh local_attempt_global [of r s "ap_id p"] ret
    by (auto simp: valid_request_state_def new_attempt_def valid_attempt_state_def)
  moreover have "valid_state sha (s\<lparr>st_effect_requests := replace_request ?r (st_effect_requests s)\<rparr>)"
    by (rule keep_request [OF assms(2) _ r(1) calculation])
      (use a(1) fresh ret in \<open>auto simp: is_start_def new_attempt_def\<close>)
  ultimately show ?thesis
    using a(1) ev r fresh by (auto simp: accepted_simps evolve_attempt_planned_def advance_request_ok)
qed

lemma accept_no_attempt:
  assumes "decide sha s (RecordNoAttemptDisposition b d) = Inr [ev]" "valid_state sha s" "valid_no_attempt d"
  shows "\<exists>t. accepted sha s (RecordNoAttemptDisposition b d) ev t"
proof -
  note a = decide_activeD [OF assms(1)]
  let ?all = "concat (map ers_no_attempt_dispositions (st_effect_requests s))"
  obtain r where r: "request_by_id s (na_request_id d) = Some r" "ers_accepted_decoded_outcome_id r = None"
    "na_step_plan_id d = req_step_plan_id (ers_request r)"
    and ev: "ev = EffectNoAttemptDispositionRecorded b d" and fresh: "na_id d \<notin> na_id ` set ?all"
    using a(3) by (auto simp: is_start_def decide_no_attempt_def find_by_None_iff)
  note rv = request_validD [OF assms(2) r(1)]
  let ?r = "r\<lparr>ers_no_attempt_dispositions := ers_no_attempt_dispositions r @ [d]\<rparr>"
  have "na_id d \<notin> na_id ` set (ers_no_attempt_dispositions r)" using fresh rv by auto
  then have "valid_request_state ?r" using rv assms(3) by (simp add: valid_request_state_def)
  moreover have "valid_state sha (s\<lparr>st_effect_requests := replace_request ?r (st_effect_requests s)\<rparr>)"
    by (rule keep_request [OF assms(2) _ r(1) calculation]) (use a(1) in \<open>auto simp: is_start_def\<close>)
  ultimately show ?thesis
    using a(1) ev r fresh by (auto simp: accepted_simps evolve_no_attempt_def advance_request_ok)
qed

lemma accept_decode:
  assumes "decide sha s (RecordDecodeOutcome b i d) = Inr [ev]" "valid_state sha s" "valid_decode d"
  shows "\<exists>t. accepted sha s (RecordDecodeOutcome b i d) ev t"
proof -
  note a = decide_activeD [OF assms(1)]
  obtain r where r: "request_by_id s i = Some r" "dec_external_return_id d \<in> set (return_ids r)"
    and ev: "ev = EffectDecodeOutcomeRecorded b i d"
    and fresh: "dec_id d \<notin> set (global_decode_ids (st_effect_requests s))"
    using a(3) by (auto simp: is_start_def decide_decode_outcome_def find_by_None_iff global_decode_ids_def)
  note rv = request_validD [OF assms(2) r(1)]
  let ?r = "r\<lparr>ers_decode_outcomes := ers_decode_outcomes r @ [d]\<rparr>"
  have acc: "accepted_result ?r = accepted_result r"
    using rv by (auto simp: valid_request_state_def accepted_result_def find_decode_def find_by_append
        split: option.splits)
  have "valid_request_state ?r"
    using rv assms(3) r(2) fresh local_decode_global [of r s "dec_id d"] acc
    by (auto simp: valid_request_state_def split: option.splits)
  moreover have "valid_state sha (s\<lparr>st_effect_requests := replace_request ?r (st_effect_requests s)\<rparr>)"
    by (rule keep_request [OF assms(2) _ r(1) calculation]) (use a(1) fresh acc in \<open>auto simp: is_start_def\<close>)
  ultimately show ?thesis
    using a(1) ev r fresh by (auto simp: accepted_simps evolve_decode_outcome_def advance_request_ok)
qed

lemma accept_result:
  assumes "decide sha s (AcceptEffectResult b i j) = Inr [ev]" "valid_state sha s" "valid_identifier j"
    and "reducible sha s (AcceptEffectResult b i j)"
  shows "\<exists>t. accepted sha s (AcceptEffectResult b i j) ev t"
proof -
  note a = decide_activeD [OF assms(1)]
  obtain r where r: "request_by_id s i = Some r" "ers_accepted_decoded_outcome_id r = None"
    and dec: "decoded_by r j \<noteq> None" and ev: "ev = EffectResultAccepted b i j"
    using a(3) by (auto simp: is_start_def decide_accept_result_def split: option.splits if_splits)
  note rv = request_validD [OF assms(2) r(1)]
  let ?r = "r\<lparr>ers_accepted_decoded_outcome_id := Some j\<rparr>"
  have acc: "accepted_result ?r = decoded_by r j"
    by (simp add: accepted_result_def decoded_by_def find_decode_def)
  have "valid_request_state ?r"
    using rv assms(3) dec acc by (simp add: valid_request_state_def)
  moreover have "valid_state sha (s\<lparr>st_effect_requests := replace_request ?r (st_effect_requests s)\<rparr>)"
    by (rule keep_request [OF assms(2) _ r(1) calculation])
      (use a(1) acc assms(4) r(1) in \<open>auto simp: is_start_def\<close>)
  ultimately show ?thesis
    using a(1) ev r dec by (auto simp: accepted_simps evolve_result_accepted_def advance_request_ok)
qed

lemma containing_requestD:
  assumes "containing_request s i = Some r" "valid_state sha s"
  shows "request_by_id s (ers_id r) = Some r" "valid_request_state r"
proof -
  have r: "r \<in> set (st_effect_requests s)" using assms(1) by (auto simp: containing_request_def find_Some_iff)
  have "valid_requests s" using assms(2) by (simp add: valid_state_def)
  then show "request_by_id s (ers_id r) = Some r" "valid_request_state r"
    using r unfolding valid_requests_def request_by_id_def
    by (auto simp: list_all_iff intro: find_by_distinct)
qed

lemma accept_start_attempt:
  assumes "decide sha s (StartEffectAttempt b i) = Inr [ev]" "valid_state sha s" "valid_base b"
  shows "\<exists>t. accepted sha s (StartEffectAttempt b i) ev t"
proof -
  note a = decide_activeD [OF assms(1)]
  obtain r x where r: "containing_request s i = Some r" and x: "attempt_of r i = Some x"
    "\<not> att_started x" "ers_accepted_decoded_outcome_id r = None" "att_outcome x = None"
    and ev: "ev = EffectAttemptStarted b i"
    using a(3) by (auto simp: is_start_def decide_start_attempt_def split: option.splits if_splits)
  note rv = containing_requestD [OF r assms(2)]
  have dist: "distinct (map att_id (ers_attempts r))" using rv(2) by (simp add: valid_request_state_def)
  let ?f = "\<lambda>a. \<lparr>att_plan = att_plan a, att_started = True, att_started_event_id = Some (msg_event_id b),
    att_started_at = Some (msg_occurred_at b), att_outcome = None\<rparr>"
  obtain xs ys where split: "ers_attempts r = xs @ x # ys"
    "map (\<lambda>a. if att_id a = i then ?f a else a) (ers_attempts r) = xs @ ?f x # ys"
    by (rule update_attempt_split [OF x(1) dist, of ?f])
  let ?r = "start_attempt i (msg_event_id b) (msg_occurred_at b) r"
  have r': "?r = r\<lparr>ers_attempts := xs @ ?f x # ys\<rparr>"
    unfolding start_attempt_def split(2) ..
  have ret: "return_ids ?r = return_ids r"
    unfolding r' by (simp add: return_ids_def split(1) map_filter_append List.map_filter_simps x(4))
  have "valid_attempt_state (?f x)"
    using rv(2) assms(3) split(1)
    by (simp add: valid_request_state_def valid_attempt_state_def valid_base_def)
  then have "valid_request_state ?r"
    using rv(2) dist ret unfolding r' by (simp add: valid_request_state_def split(1))
  moreover have "valid_state sha (s\<lparr>st_effect_requests := replace_request ?r (st_effect_requests s)\<rparr>)"
    by (rule keep_request [OF assms(2) _ rv(1) calculation])
      (use a(1) ret in \<open>auto simp: is_start_def r' split(1)\<close>)
  ultimately show ?thesis
    using a(1) ev r x by (auto simp: accepted_simps evolve_attempt_started_def advance_request_ok)
qed

lemma accept_outcome:
  assumes "decide sha s (RecordAttemptOutcome b i oc) = Inr [ev]" "valid_state sha s" "valid_outcome oc"
  shows "\<exists>t. accepted sha s (RecordAttemptOutcome b i oc) ev t"
proof -
  note a = decide_activeD [OF assms(1)]
  obtain r where r: "request_by_id s i = Some r" and
    dr: "decide_attempt_outcome s b i oc = Inr [ev]"
    using a(3) by (auto simp: is_start_def decide_attempt_outcome_def)
  obtain x where x: "attempt_of r (outcome_attempt_id oc) = Some x"
    using dr r by (cases "attempt_of r (outcome_attempt_id oc)") (simp_all add: decide_attempt_outcome_def)
  have n: "att_outcome x = None"
    using dr r x by (cases "att_outcome x") (simp_all add: decide_attempt_outcome_def split: if_splits)
  have x: "attempt_of r (outcome_attempt_id oc) = Some x" "att_started x"
    "rs_id (ap_route (att_plan x)) = outcome_route_id oc" "att_outcome x = None"
    and fresh: "case returned_id (Some oc) of None \<Rightarrow> True
      | Some j \<Rightarrow> j \<notin> set (global_return_ids (st_effect_requests s))"
    and ev: "ev = EffectAttemptOutcomeRecorded b i oc"
    using dr r x n by (simp_all add: decide_attempt_outcome_def)
  note rv = request_validD [OF assms(2) r]
  have dist: "distinct (map att_id (ers_attempts r))" using rv by (simp add: valid_request_state_def)
  let ?f = "\<lambda>a. a\<lparr>att_outcome := Some oc\<rparr>"
  obtain xs ys where split: "ers_attempts r = xs @ x # ys"
    "map (\<lambda>a. if att_id a = outcome_attempt_id oc then ?f a else a) (ers_attempts r) = xs @ ?f x # ys"
    by (rule update_attempt_split [OF x(1) dist, of ?f])
  let ?mf = "List.map_filter (\<lambda>a. returned_id (att_outcome a))"
  let ?new = "case returned_id (Some oc) of None \<Rightarrow> [] | Some j \<Rightarrow> [j]"
  let ?r = "finish_attempt oc r"
  have r': "?r = r\<lparr>ers_attempts := xs @ ?f x # ys\<rparr>"
    unfolding finish_attempt_def split(2) ..
  have ret: "return_ids r = ?mf xs @ ?mf ys" "return_ids ?r = ?mf xs @ ?new @ ?mf ys"
    unfolding r' by (simp_all add: return_ids_def split(1) map_filter_append List.map_filter_simps x(4)
        split: option.splits)
  have new: "j \<notin> set (global_return_ids (st_effect_requests s))" if "j \<in> set ?new" for j
    using fresh that by (cases "returned_id (Some oc)") simp_all
  then have "distinct (return_ids ?r)"
    using rv local_return_global [of r s] unfolding ret(2)
    by (cases "returned_id (Some oc)") (auto simp: valid_request_state_def ret(1))
  moreover have "valid_attempt_state (?f x)"
    using rv assms(3) x(2) split(1) by (simp add: valid_request_state_def valid_attempt_state_def)
  moreover have "set (return_ids r) \<subseteq> set (return_ids ?r)" unfolding ret by auto
  ultimately have v: "valid_request_state ?r"
    using rv dist unfolding r' by (auto simp: valid_request_state_def split(1) list_all_iff)
  have "valid_state sha (s\<lparr>st_effect_requests := replace_request ?r (st_effect_requests s)\<rparr>)"
    by (rule keep_request [OF assms(2) _ r v])
      (use a(1) new ret in \<open>auto simp: is_start_def r' split(1)\<close>)
  then show ?thesis
    using a(1) ev r x v by (auto simp: accepted_simps evolve_attempt_outcome_def advance_request_ok)
qed

section \<open>Claims\<close>

lemma derive_conflicts_props:
  "derive_conflicts sha c known xs = Inr cs \<Longrightarrow>
     distinct (map conflict_id cs) \<and> conflict_id ` set cs \<inter> known = {} \<and>
     (\<forall>cf \<in> set cs. valid_conflict cf \<and> conflict_id cf \<noteq> [] \<and>
       {fst (conflict_claim_ids cf), snd (conflict_claim_ids cf)} \<subseteq> insert (claim_id c) (claim_id ` set xs))"
proof (induction xs arbitrary: known cs)
  case (Cons x xs)
  obtain o' where o: "structural_conflict sha x c = Inr o'"
    using Cons.prems by (auto split: sum.splits)
  show ?case
  proof (cases "\<exists>cf. o' = Some cf \<and> conflict_id cf \<notin> known")
    case False
    then have "derive_conflicts sha c known xs = Inr cs"
      using Cons.prems o by (auto split: option.splits if_splits)
    from Cons.IH [OF this] show ?thesis by auto
  next
    case True
    then obtain cf where cf: "o' = Some cf" "conflict_id cf \<notin> known" by blast
    then obtain ds where ds: "derive_conflicts sha c (insert (conflict_id cf) known) xs = Inr ds" "cs = cf # ds"
      using Cons.prems o by (auto simp: map_sum_Inr_iff)
    have s: "structural_conflict sha x c = Inr (Some cf)" using o cf(1) by simp
    have c: "cf = conflict_of sha x c" and v: "valid_conflict cf"
      using structural_conflict_SomeD [OF s] by blast+
    have nz: "conflict_id cf \<noteq> []" unfolding c by (simp add: conflict_of_def Let_def)
    have i: "{fst (conflict_claim_ids cf), snd (conflict_claim_ids cf)} = {claim_id x, claim_id c}"
      using structural_conflict_ids [OF s] by blast
    show ?thesis using Cons.IH [OF ds(1)] v i nz cf(2) unfolding ds(2) by auto
  qed
qed simp

lemma fresh_obligations_subset: "set (fresh_obligations sha known qs) \<subseteq> set qs"
  by (induction qs arbitrary: known) (auto split: if_splits)

lemma derive_consequences_shape:
  assumes "derive_claim_consequences sha s c = Inr (cs, qs)"
  shows "\<exists>found attacks.
    derive_conflicts sha c (set (map conflict_id (st_conflicts s))) (st_claims s) = Inr found \<and>
    cs = sort_key conflict_id found \<and> set attacks \<subseteq> set_option (mandatory_attack_obligation sha c) \<and>
    set qs \<subseteq> set (attacks @ map (conflict_obligation sha) cs)"
proof -
  obtain found where f: "derive_conflicts sha c (set (map conflict_id (st_conflicts s))) (st_claims s) = Inr found"
    using assms by (auto simp: derive_claim_consequences_def split: sum.splits)
  let ?fresh = "\<lambda>attacks. fresh_obligations sha (set (map (obligation_fingerprint sha) (st_obligations s)))
    (attacks @ map (conflict_obligation sha) cs)"
  have "cs = sort_key conflict_id found \<and> (\<exists>attacks. qs = sort_key obl_id (?fresh attacks) \<and>
      set attacks \<subseteq> set_option (mandatory_attack_obligation sha c))"
  proof (cases "mandatory_attack_obligation sha c")
    case None
    then show ?thesis using assms(1) f by (auto simp: derive_claim_consequences_def Let_def)
  next
    case (Some attack)
    then obtain d where "cs = sort_key conflict_id found" "qs = sort_key obl_id (?fresh (if d then [] else [attack]))"
      using assms(1) f by (auto simp: derive_claim_consequences_def Let_def map_sum_Inr_iff)
    then show ?thesis using Some by (intro conjI exI [of _ "if d then [] else [attack]"]) auto
  qed
  then obtain attacks where "cs = sort_key conflict_id found" "set qs = set (?fresh attacks)"
    "set attacks \<subseteq> set_option (mandatory_attack_obligation sha c)"
    by auto
  then show ?thesis using f fresh_obligations_subset by metis
qed

lemma derive_consequences_props:
  assumes "derive_claim_consequences sha s c = Inr (cs, qs)" "valid_claim c"
  shows "distinct (map conflict_id cs)" "conflict_id ` set cs \<inter> conflict_id ` set (st_conflicts s) = {}"
    "list_all valid_conflict cs" "list_all valid_obligation qs"
    "list_all (\<lambda>cf. {fst (conflict_claim_ids cf), snd (conflict_claim_ids cf)} \<subseteq>
       insert (claim_id c) (claim_id ` set (st_claims s))) cs"
proof -
  obtain found attacks where
    f: "derive_conflicts sha c (set (map conflict_id (st_conflicts s))) (st_claims s) = Inr found"
    and at: "cs = sort_key conflict_id found" "set qs \<subseteq> set (attacks @ map (conflict_obligation sha) cs)"
    "set attacks \<subseteq> set_option (mandatory_attack_obligation sha c)"
    using derive_consequences_shape [OF assms(1)] by blast
  note p = derive_conflicts_props [OF f]
  have m: "mset (map conflict_id cs) = mset (map conflict_id found)" by (simp add: at(1))
  then show "distinct (map conflict_id cs)" using p mset_eq_imp_distinct_iff by blast
  show "conflict_id ` set cs \<inter> conflict_id ` set (st_conflicts s) = {}" "list_all valid_conflict cs"
    "list_all (\<lambda>cf. {fst (conflict_claim_ids cf), snd (conflict_claim_ids cf)} \<subseteq>
       insert (claim_id c) (claim_id ` set (st_claims s))) cs"
    using p by (auto simp: at(1) list_all_iff)
  have "valid_obligation q" if "q \<in> set qs" for q
  proof -
    have "q \<in> set (attacks @ map (conflict_obligation sha) cs)"
      using that at(2) by blast
    then show ?thesis
      using at(1,3) attack_valid [OF _ assms(2)] valid_conflict_obligation [of _ sha] p by auto
  qed
  then show "list_all valid_obligation qs" by (simp add: list_all_iff)
qed

lemma accept_claim:
  assumes "decide sha s (AdmitClaim b c) = Inr [ev]" "valid_state sha s" "valid_claim c"
    and "reducible sha s (AdmitClaim b c)"
  shows "\<exists>t. accepted sha s (AdmitClaim b c) ev t"
proof -
  note a = decide_activeD [OF assms(1)]
  obtain cs qs where d: "derive_claim_consequences sha s c = Inr (cs, qs)" "ev = ClaimAdmitted b c cs qs"
    "find_by claim_id (claim_id c) (st_claims s) = None"
    using a(3) by (auto simp: is_start_def decide_admit_claim_def claim_by_id_def map_sum_Inr_iff)
  note p = derive_consequences_props [OF d(1) assms(3)]
  let ?s1 = "s\<lparr>st_claims := st_claims s @ [c]\<rparr>"
  let ?s2 = "?s1\<lparr>st_conflicts := st_conflicts ?s1 @ cs\<rparr>"
  let ?s3 = "?s2\<lparr>st_obligations := st_obligations ?s2 @ qs\<rparr>"
  have s1: "valid_state sha ?s1" "st_status ?s1 = Active"
    using a(1) assms(2,3) d(3) by (simp_all add: keep_claim find_None_fresh is_start_def)
  have "distinct (map conflict_id (st_conflicts s))"
    using assms(2) by (simp add: valid_state_def valid_claim_records_def)
  then have "distinct (map conflict_id (st_conflicts ?s1 @ cs))" using p(1,2) by auto
  moreover have "list_all (\<lambda>c. {fst (conflict_claim_ids c), snd (conflict_claim_ids c)} \<subseteq> claim_id ` set (st_claims ?s1)) cs"
    using p(5) by simp
  ultimately have s2: "valid_state sha ?s2" "st_status ?s2 = Active"
    using keep_conflicts [OF s1 p(3)] s1(2) by simp_all
  have "valid_state sha ?s3" using assms(4) d(1) p(4) by (intro keep_obligations [OF s2]) simp_all
  then have "accepted sha s (AdmitClaim b c) ev ?s3"
    using a(1) assms(1) d(2) by (simp add: accepted_simps)
  then show ?thesis by blast
qed

section \<open>Warrant decisions\<close>

lemma warrant_record_sel [simp]:
  "wd_id (warrant_record sha ctx w e v) = wr_decision_id w"
  "wd_evidence_id (warrant_record sha ctx w e v) = ev_id e"
  "wd_checker_verdict_id (warrant_record sha ctx w e v) = cv_id v"
  "wd_proposition_id (warrant_record sha ctx w e v) = wr_proposition_id w"
  "wd_proposition_kind (warrant_record sha ctx w e v) = wr_proposition_kind w"
  "wd_scope_fingerprint (warrant_record sha ctx w e v) = scope_fingerprint sha (wr_scope w)"
  by (simp_all add: warrant_record_def split_beta)

lemma decide_warrant_iff:
  "decide_warrant sha s b w = Inr [ev] \<longleftrightarrow>
     (\<exists>e v ctx. scope_matches_context sha s (wr_scope w) \<and>
        evidence_by_id s (wr_evidence_id w) = Some e \<and>
        checker_verdict_by_id s (wr_checker_verdict_id w) = Some v \<and> cv_evidence_id v = ev_id e \<and>
        st_context s = Some ctx \<and> valid_warrant_decision (warrant_record sha ctx w e v) \<and>
        warrant_decision_by_id s (wr_decision_id w) = None \<and>
        ev = WarrantDecisionRecorded b (wr_scope w) (warrant_record sha ctx w e v))"
  by (auto simp: decide_warrant_def construct_def split: option.splits if_splits)

lemma warrant_request_again:
  assumes "evidence_by_id s (wr_evidence_id w) = Some e"
    "checker_verdict_by_id s (wr_checker_verdict_id w) = Some v"
  shows "warrant_request_of (wr_scope w) (warrant_record sha ctx w e v) = w"
  using find_by_SomeD [OF assms(1) [unfolded evidence_by_id_def]]
    find_by_SomeD [OF assms(2) [unfolded checker_verdict_by_id_def]]
  by (simp add: warrant_request_of_def)

lemma accept_warrant:
  assumes "decide sha s (EvaluateWarrant b w) = Inr [ev]" "valid_state sha s"
    and "reducible sha s (EvaluateWarrant b w)"
  shows "\<exists>t. accepted sha s (EvaluateWarrant b w) ev t"
proof -
  note a = decide_activeD [OF assms(1)]
  obtain e v ctx where d: "evidence_by_id s (wr_evidence_id w) = Some e"
    "checker_verdict_by_id s (wr_checker_verdict_id w) = Some v" "cv_evidence_id v = ev_id e"
    "valid_warrant_decision (warrant_record sha ctx w e v)" "warrant_decision_by_id s (wr_decision_id w) = None"
    "ev = WarrantDecisionRecorded b (wr_scope w) (warrant_record sha ctx w e v)"
    using a(3) by (auto simp: is_start_def decide_warrant_iff)
  let ?d = "warrant_record sha ctx w e v"
  have w: "valid_warrants s" using assms(2) by (simp add: valid_state_def)
  then have idx: "index_by ev_id (st_evidence_records s) = (\<lambda>k. find_by ev_id k (st_evidence_records s))"
    "index_by cv_id (st_checker_verdicts s) = (\<lambda>k. find_by cv_id k (st_checker_verdicts s))"
    by (auto simp: valid_warrants_def index_by_distinct)
  have fe: "find_by ev_id (wr_evidence_id w) (st_evidence_records s) = Some e" "ev_id e = wr_evidence_id w"
    and fv: "find_by cv_id (wr_checker_verdict_id w) (st_checker_verdicts s) = Some v"
      "cv_id v = wr_checker_verdict_id w" "v \<in> set (st_checker_verdicts s)"
    using d(1,2) by (auto simp: evidence_by_id_def checker_verdict_by_id_def dest: find_by_SomeD)
  have "verdict_pins (Some e) v"
    using w fv(3) fe d(3) by (auto simp: valid_warrants_def list_all_iff idx)
  then have "decision_pins (index_by ev_id (st_evidence_records s) (wd_evidence_id ?d))
      (index_by cv_id (st_checker_verdicts s) (wd_checker_verdict_id ?d)) ?d"
    using fe fv d(1,3) assms(3) by (simp add: idx decision_pins_def verdict_pins_def)
  then have "valid_state sha (s\<lparr>st_warrant_decisions := st_warrant_decisions s @ [?d]\<rparr>)"
    using a(1) assms(2) d(4,5)
    by (intro keep_decision) (simp_all add: is_start_def warrant_decision_by_id_def find_None_fresh)
  then show ?thesis
    using a(1) assms(1) d(6) warrant_request_again [OF d(1,2), of sha ctx]
    by (auto simp: accepted_simps)
qed

section \<open>Promotion\<close>

text \<open>The guards of the promotion branch, before the promotion gates.\<close>

definition promotable ::
  "(string \<Rightarrow> digest) \<Rightarrow> inquiry_state \<Rightarrow> promote_request \<Rightarrow> warrant_decision \<Rightarrow> inquiry_context \<Rightarrow> evidence \<Rightarrow>
     verdict_record \<Rightarrow> warranted_lemma list \<Rightarrow> bool" where
  "promotable sha s p d ctx e v ls \<longleftrightarrow>
     pc_source_claim_ids p \<noteq> [] \<and> set (pc_source_claim_ids p) \<subseteq> claim_id ` set (st_claims s) \<and>
     list_all (\<lambda>i. promotion_sources_ok sha p (the (claim_by_id s i)) = (True, True)) (pc_source_claim_ids p) \<and>
     scope_matches_context sha s (pc_scope p) \<and>
     set (pc_predecessor_refs p) \<subseteq> set (map lv_id (st_lemma_versions s)) \<and>
     warrant_decision_by_id s (pc_warrant_decision_id p) = Some d \<and> decision_for_promotion sha p d \<and>
     st_context s = Some ctx \<and> evidence_by_id s (wd_evidence_id d) = Some e \<and>
     checker_verdict_by_id s (wd_checker_verdict_id d) = Some v \<and>
     list_all (\<lambda>r. wd_id d \<in> set (route_warrant_refs r)) (pc_support_routes p) \<and>
     warranted_lemmas sha s = Inr ls"

lemma finish_promotion_iff:
  "finish_promotion s b p l d = Inr [ev] \<longleftrightarrow>
     valid_promotion_link (promotion_link_of p l d) \<and> wl_id l \<notin> lv_id ` set (st_lemma_versions s) \<and>
     pc_promotion_id p \<notin> pl_id ` set (st_promotion_links s) \<and>
     ev = LemmaPromoted b (wl_version l) (wl_support l) (promotion_link_of p l d)"
proof -
  have "pl_id (promotion_link_of p l d) = pc_promotion_id p" by (simp add: promotion_link_of_def)
  then show ?thesis
    by (auto simp: finish_promotion_def construct_def Let_def find_by_None_iff simp flip: find_by_None_iff)
qed

lemma decide_promote_iff:
  "decide_promote sha s b p = Inr [ev] \<longleftrightarrow>
     (\<exists>d ctx e v ls l. promotable sha s p d ctx e v ls \<and>
        promotion_gates sha (promotion_of s ctx p e v ls) l \<and> finish_promotion s b p l d = Inr [ev])"
  (is "?L \<longleftrightarrow> ?R")
proof -
  let ?src = "map (claim_by_id s) (pc_source_claim_ids p)"
  have src: "None \<notin> set ?src \<longleftrightarrow> set (pc_source_claim_ids p) \<subseteq> claim_id ` set (st_claims s)"
  proof -
    have "None \<notin> set ?src \<longleftrightarrow> (\<forall>i \<in> set (pc_source_claim_ids p). claim_by_id s i \<noteq> None)"
      by (simp add: image_iff eq_commute [of None] del: not_None_eq)
    then show ?thesis by (simp add: claim_by_id_def find_by_None_iff subset_eq)
  qed
  have both: "list_all (\<lambda>c. fst (promotion_sources_ok sha p c)) (map the ?src) \<and>
      list_all (\<lambda>c. snd (promotion_sources_ok sha p c)) (map the ?src) \<longleftrightarrow>
      list_all (\<lambda>i. promotion_sources_ok sha p (the (claim_by_id s i)) = (True, True)) (pc_source_claim_ids p)"
    by (simp add: list_all_iff prod_eq_iff ball_conj_distrib)
  have gates: "(\<exists>dec l. decide_promotion sha q = Inr dec \<and> pd_lemma dec = Some l \<and> pd_outcome dec = Accepted \<and> P l)
      \<longleftrightarrow> (\<exists>l. promotion_gates sha q l \<and> P l)" for q P
    using decide_promotion_accepted_iff [of sha q] by blast
  have tail: "(case decide_promotion sha q of Inl err \<Rightarrow> Inl err
       | Inr decision \<Rightarrow> (case pd_lemma decision of None \<Rightarrow> Inl (InvalidCommandError (pd_reason decision))
           | Some l \<Rightarrow> check (pd_outcome decision = Accepted) (InvalidCommandError (pd_reason decision))
               (finish_promotion s b p l d))) = Inr [ev] \<longleftrightarrow>
      (\<exists>l. promotion_gates sha q l \<and> finish_promotion s b p l d = Inr [ev])" for q d
    unfolding gates [symmetric] by (auto split: sum.splits option.splits)
  show ?thesis
  proof (cases "warrant_decision_by_id s (pc_warrant_decision_id p)")
    case None
    then show ?thesis by (simp add: decide_promote_def Let_def promotable_def check_Inr_iff)
  next
    case (Some d)
    note wd = this
    show ?thesis
    proof (cases "(st_context s, evidence_by_id s (wd_evidence_id d), checker_verdict_by_id s (wd_checker_verdict_id d),
        warranted_lemmas sha s)")
      case (fields c e v w)
      then show ?thesis
        unfolding decide_promote_def Let_def promotable_def both [symmetric] src [symmetric] wd
        by (cases c; cases e; cases v; cases w) (simp_all add: check_Inr_iff tail)
    qed
  qed
qed

text \<open>The routes of a promoted lemma are the requested ones in another order, and the promotion
  decided again over them is the same.\<close>

lemma minimal_routes_perm:
  assumes "mset rs = mset rs'" "distinct (map route_id rs)"
  shows "minimal_routes rs = minimal_routes rs'"
proof -
  have "inj_on route_rank (set rs)"
    using assms(2) by (auto simp: distinct_map route_rank_def inj_on_def)
  then have "sort_key route_rank rs = sort_key route_rank rs'"
    using assms(1) by (intro sort_key_inj_key_eq) auto
  then show ?thesis by (simp add: minimal_routes_def)
qed

lemma candidate_support_routes:
  "mset (all_support_routes (candidate_support q)) = mset (pr_support_routes q)"
  using minimal_routes_mset [of "pr_support_routes q"]
  by (simp add: candidate_support_def all_support_routes_def split_beta)

lemma candidate_again:
  assumes "candidate_lemma sha q = Inr l" "q' = q\<lparr>pr_support_routes := all_support_routes (wl_support l)\<rparr>"
  shows "candidate_lemma sha q' = Inr l"
proof -
  have l: "l = \<lparr>wl_version = candidate_version q, wl_support = candidate_support q\<rparr>"
    and v: "valid_warranted_lemma sha l" using candidate_lemma_InrD [OF assms(1)] by blast+
  then have m: "mset (pr_support_routes q') = mset (pr_support_routes q)"
    and r: "pr_support_routes q' = all_support_routes (candidate_support q)"
    using assms(2) by (simp_all add: candidate_support_routes)
  have "distinct (map route_id (pr_support_routes q'))"
    using v l by (simp add: r valid_warranted_lemma_def valid_lemma_support_def)
  then have k: "minimal_routes (pr_support_routes q') = minimal_routes (pr_support_routes q)"
    by (rule minimal_routes_perm [OF m])
  have "referenced_verdict_ids q' = referenced_verdict_ids q"
    using mset_eq_setD [OF m] assms(2) by (simp add: referenced_verdict_ids_def)
  then have "certificate_refs q' = certificate_refs q" using assms(2) by (simp add: certificate_refs_def)
  then have "candidate_support q' = candidate_support q"
    using k assms(2) by (simp add: candidate_support_def)
  moreover have "candidate_version q' = candidate_version q"
    using assms(2) by (simp add: candidate_version_def)
  ultimately show ?thesis using assms(1) by (simp add: candidate_lemma_def split: if_splits)
qed

lemma gates_again:
  assumes "promotion_gates sha q l" "q' = q\<lparr>pr_support_routes := all_support_routes (wl_support l)\<rparr>"
  shows "promotion_gates sha q' l"
proof -
  have c: "candidate_lemma sha q = Inr l" using assms(1) by (simp add: promotion_gates_def)
  have "mset (pr_support_routes q') = mset (pr_support_routes q)"
    using candidate_lemma_InrD [OF c] assms(2) by (simp add: candidate_support_routes)
  then have "set (pr_support_routes q') = set (pr_support_routes q)" by (rule mset_eq_setD)
  moreover have "pr_support_routes q \<noteq> []" using assms(1) by (simp add: promotion_gates_def)
  ultimately have r: "set (pr_support_routes q') = set (pr_support_routes q)" "pr_support_routes q' \<noteq> []"
    by auto
  have "closed_route sha q' = closed_route sha q"
    using assms(2) by (simp add: fun_eq_iff closed_route_def grounded_dependencies_def same_support_class_def)
  with r c candidate_again [OF c assms(2)] assms show ?thesis
    by (simp add: promotion_gates_def list_all_iff)
qed

lemma promote_request_again:
  assumes "promotion_gates sha (promotion_of s ctx p e v ls) l" "wd_id d = pc_warrant_decision_id p"
  shows "promote_request_of (wl_version l) (wl_support l) (promotion_link_of p l d) =
    p\<lparr>pc_support_routes := all_support_routes (wl_support l)\<rparr>"
  using assms candidate_lemma_InrD [of sha "promotion_of s ctx p e v ls" l]
  by (simp add: promotion_gates_def promote_request_of_def promotion_link_of_def candidate_version_def
      candidate_support_def promotion_of_def split_beta)

lemma decide_promote_again:
  assumes "promotable sha s p d ctx e v ls" "promotion_gates sha (promotion_of s ctx p e v ls) l"
    and "finish_promotion s b p l d = Inr [ev]"
  shows "decide_promote sha s b
    (promote_request_of (wl_version l) (wl_support l) (promotion_link_of p l d)) = Inr [ev]"
proof -
  let ?p = "p\<lparr>pc_support_routes := all_support_routes (wl_support l)\<rparr>"
  have c: "candidate_lemma sha (promotion_of s ctx p e v ls) = Inr l"
    using assms(2) by (simp add: promotion_gates_def)
  have "set (all_support_routes (wl_support l)) = set (pc_support_routes p)"
    using candidate_lemma_InrD [OF c] mset_eq_setD [OF candidate_support_routes [of "promotion_of s ctx p e v ls"]]
    by (simp add: promotion_of_def)
  then have "promotable sha s ?p d ctx e v ls"
    using assms(1) by (simp add: promotable_def list_all_iff promotion_sources_ok_def decision_for_promotion_def)
  moreover have "promotion_gates sha (promotion_of s ctx ?p e v ls) l"
    by (rule gates_again [OF assms(2)]) (simp add: promotion_of_def)
  moreover have "finish_promotion s b ?p l d = Inr [ev]"
    using assms(3) by (simp add: finish_promotion_def promotion_link_of_def)
  moreover have "wd_id d = pc_warrant_decision_id p"
    using assms(1) by (auto simp: promotable_def warrant_decision_by_id_def dest: find_by_SomeD)
  ultimately show ?thesis
    using promote_request_again [OF assms(2)] decide_promote_iff by metis
qed

lemma promoted_link_owned:
  assumes "promotable sha s p d ctx e v ls" "distinct (map wd_id (st_warrant_decisions s))"
    and "ls_lemma_version_id supp = wl_id l" "ls_policy_version supp = wd_policy_version d"
  shows "link_owned (st_claims s) (st_warrant_decisions s) (supps @ [supp]) (promotion_link_of p l d)"
proof -
  have "index_by wd_id (st_warrant_decisions s) (wd_id d) = Some d"
    using assms(1) find_by_SomeD [of wd_id "pc_warrant_decision_id p" "st_warrant_decisions s" d]
    by (simp add: index_by_distinct [OF assms(2)] promotable_def warrant_decision_by_id_def)
  moreover have "index_by ls_lemma_version_id (supps @ [supp]) (wl_id l) = Some supp"
    using assms(3) by (simp add: index_by_append) (simp add: index_by_def)
  ultimately show ?thesis
    using assms(1,4) by (simp add: link_owned_def promotion_link_of_def promotable_def)
qed

lemma accept_promote:
  assumes "decide sha s (PromoteClaim b p) = Inr [ev]" "valid_state sha s"
    and "reducible sha s (PromoteClaim b p)"
  shows "\<exists>t. accepted sha s (PromoteClaim b p) ev t"
proof -
  note a = decide_activeD [OF assms(1)]
  obtain d ctx e v ls l where g: "promotable sha s p d ctx e v ls"
    "promotion_gates sha (promotion_of s ctx p e v ls) l" "finish_promotion s b p l d = Inr [ev]"
    using a(3) by (auto simp: is_start_def decide_promote_iff)
  let ?link = "promotion_link_of p l d"
  have f: "valid_promotion_link ?link" "wl_id l \<notin> lv_id ` set (st_lemma_versions s)"
    "pc_promotion_id p \<notin> pl_id ` set (st_promotion_links s)"
    "ev = LemmaPromoted b (wl_version l) (wl_support l) ?link"
    using g(3) unfolding finish_promotion_iff by blast+
  have c: "candidate_lemma sha (promotion_of s ctx p e v ls) = Inr l" using g(2) by (simp add: promotion_gates_def)
  note l = candidate_lemma_InrD [OF c]
  have routes: "set (all_support_routes (wl_support l)) = set (pc_support_routes p)"
    using l mset_eq_setD [OF candidate_support_routes [of "promotion_of s ctx p e v ls"]]
    by (simp add: promotion_of_def)
  have st: "valid_lemmas sha s" "valid_warrants s" using assms(2) by (simp_all add: valid_state_def)
  have "aligned_lemmas sha (st_lemma_versions s @ [wl_version l]) (st_lemma_supports s @ [wl_support l])
      (st_promotion_links s @ [?link])"
  proof (rule aligned_snoc)
    show "aligned_lemmas sha (st_lemma_versions s) (st_lemma_supports s) (st_promotion_links s)"
      using st(1) by (simp add: valid_lemmas_def)
    show "join_lemmas sha (st_lemma_supports s) (st_lemma_versions s) = Inr ls"
      using g(1) by (simp add: promotable_def warranted_lemmas_def)
    show "route_id ` set (all_support_routes (wl_support l)) \<inter> route_id ` set (routes_of (st_lemma_supports s)) = {}"
      using assms(3) routes by simp
    show "support_graph_is_acyclic (ls @ [l])" "ancestry_is_acyclic (predecessor_map (ls @ [l]))"
      using g(2) unfolding promotion_gates_def by (simp_all add: promotion_of_def)
  qed (use f conjunct2 [OF l] in \<open>simp_all add: promotion_link_of_def\<close>)
  moreover have "list_all (route_owned (st_evidence_records s) (st_checker_verdicts s)) (all_support_routes (wl_support l))"
    using assms(3) routes by (simp add: list_all_iff)
  moreover have "link_owned (st_claims s) (st_warrant_decisions s) (st_lemma_supports s @ [wl_support l]) ?link"
  proof (rule promoted_link_owned [OF g(1)])
    show "distinct (map wd_id (st_warrant_decisions s))" using st(2) by (simp add: valid_warrants_def)
    show "ls_lemma_version_id (wl_support l) = wl_id l"
      using conjunct2 [OF l] by (simp add: valid_warranted_lemma_def)
    have "warrant_decision_by_id s (pc_warrant_decision_id p) = Some d" "st_context s = Some ctx"
      using g(1) by (simp_all add: promotable_def)
    moreover have "ls_policy_version (wl_support l) = ctx_warrant_policy_version ctx"
      using l by (simp add: candidate_support_def promotion_of_def split_beta)
    ultimately show "ls_policy_version (wl_support l) = wd_policy_version d"
      using assms(3) by (simp add: decided_under_policy_def)
  qed
  ultimately have "valid_state sha (s\<lparr>st_lemma_versions := st_lemma_versions s @ [wl_version l],
    st_lemma_supports := st_lemma_supports s @ [wl_support l],
    st_promotion_links := st_promotion_links s @ [?link]\<rparr>)"
    using a(1) assms(2) g(1) by (intro keep_lemma [where ls = ls]) (simp_all add: is_start_def promotable_def)
  moreover have "decide sha s (PromoteClaim b (promote_request_of (wl_version l) (wl_support l) ?link)) = Inr [ev]"
    using decide_promote_again [OF g] a(1,2) by (simp add: decide_def require_active_def is_start_def)
  ultimately show ?thesis using a(1) f(4) by (auto simp: accepted_simps)
qed

section \<open>The start of an inquiry\<close>

lemma started_state_valid:
  assumes "valid_base b" "valid_artifact_ref m" "valid_identifier p" "valid_context ctx"
  shows "valid_state sha (initial_state\<lparr>st_status := Active, st_inquiry_id := Some (msg_inquiry_id b),
    st_sequence := 1, st_manifest_artifact := Some m, st_policy_version := Some p, st_context := Some ctx\<rparr>)"
proof -
  let ?s = "initial_state\<lparr>st_status := Active, st_inquiry_id := Some (msg_inquiry_id b),
    st_sequence := 1, st_manifest_artifact := Some m, st_policy_version := Some p, st_context := Some ctx\<rparr>"
  have "valid_lifecycle ?s" "valid_header ?s" "valid_requests ?s" "valid_plans sha ?s"
    "valid_claim_records ?s" "valid_side_records ?s" "valid_warrants ?s" "valid_lemmas sha ?s" "valid_standing ?s"
    using initial_state_valid [of sha] assms
    by (simp_all add: valid_state_def initial_state_def valid_lifecycle_def valid_header_def valid_base_def
        valid_requests_def valid_plans_def valid_claim_records_def valid_side_records_def valid_warrants_def
        valid_lemmas_def valid_standing_def)
  then show ?thesis by (simp add: valid_state_def)
qed

section \<open>Every branch\<close>

lemma accepted_exI: "accepted sha s c ev t \<Longrightarrow> \<exists>t. accepted sha s c ev t"
  by blast

lemmas accept_rules = accept_plan_attempt accept_start_attempt accept_no_attempt accept_outcome
  accept_decode accept_result accept_claim accept_warrant accept_promote
  accepted_exI [OF accept_backlog] accepted_exI [OF accept_plan] accepted_exI [OF accept_request]
  accepted_exI [OF accept_obligation] accepted_exI [OF accept_disposition]
  accepted_exI [OF accept_candidate] accepted_exI [OF accept_residual]
  accepted_exI [OF accept_correction] accepted_exI [OF accept_guard] accepted_exI [OF accept_nogood]
  accepted_exI [OF accept_route_change] accepted_exI [OF accept_nogood_change]
  accepted_exI [OF accept_evidence] accepted_exI [OF accept_verdict]

lemma accept_any:
  assumes "decide sha s c = Inr [ev]" "valid_state sha s" "valid_command sha c" "reducible sha s c" "\<not> is_start c"
  shows "\<exists>t. accepted sha s c ev t"
  by (insert assms) (induct c; ((rule accept_rules; simp) | simp add: is_start_def))

text \<open>A branch emits at most one event, and the event carries the base of its command.\<close>

definition emits :: "message_base \<Rightarrow> event list result \<Rightarrow> bool" where
  "emits b r \<longleftrightarrow> (\<forall>es. r = Inr es \<longrightarrow> es = [] \<or> (\<exists>e. es = [e] \<and> ev_base e = b))"

lemma emits_simps [simp]:
  "emits b (Inl err)" "emits b (Inr [])" "emits b (Inr [e]) \<longleftrightarrow> ev_base e = b"
  by (simp_all add: emits_def)

lemma emits_check [intro]: "(g \<Longrightarrow> emits b k) \<Longrightarrow> emits b (check g err k)"
  by (simp add: emits_def check_def)

lemma emits_once [intro]: "emits b k \<Longrightarrow> emits b (once x r m k)"
  by (simp add: emits_def once_def split: option.split)

lemma emits_require [intro]: "(\<And>r. emits b (k r)) \<Longrightarrow> emits b (require_request s i k)"
  by (simp add: emits_def require_request_def split: option.split)

lemma emits_claim [simp]: "emits b (map_sum id (\<lambda>(x, y). [ClaimAdmitted b c x y]) r)"
  by (cases r) (simp_all add: split_beta)

lemma emits_active: "emits b (decide_active sha s c)" if "cmd_base c = b"
  using that
  by (cases c)
    (auto simp: decide_start_def decide_backlog_effect_def decide_step_plan_def
      decide_request_effect_def decide_plan_attempt_def decide_start_attempt_def decide_no_attempt_def
      decide_attempt_outcome_def decide_decode_outcome_def decide_accept_result_def
      decide_admit_claim_def decide_open_obligation_def decide_obligation_disposition_def
      decide_candidate_def decide_residual_def decide_correction_def decide_guard_standing_def
      decide_nogood_def decide_route_standing_def decide_nogood_standing_def decide_evidence_def
      decide_verdict_def decide_warrant_def decide_promote_def finish_promotion_def Let_def
      split: option.split sum.split prod.split intro!: emits_check emits_once emits_require)

end
