(* ===== verification/Rci_Lifecycle.thy ===== *)
theory Rci_Lifecycle
  imports Rci_Accept "HOL-Library.Sublist"
begin

text \<open>
  The life of an inquiry: every event the reducer accepts keeps the state valid, advances its
  sequence by one and only appends to its history; the runtime loop (decide, then evolve) reaches
  exactly the states that replaying its log rebuilds. The generic part is the locale of an
  event-sourced machine, interpreted on the reducer of the aggregate.
\<close>

section \<open>Event-sourced machines\<close>

locale event_sourced =
  fixes step :: "'s \<Rightarrow> 'e \<Rightarrow> 'x + 's" and valid :: "'s \<Rightarrow> bool" and seqno :: "'s \<Rightarrow> nat"
    and grows :: "'s \<Rightarrow> 's \<Rightarrow> bool"
  assumes step_valid: "step s e = Inr t \<Longrightarrow> valid t"
    and step_seqno: "valid s \<Longrightarrow> step s e = Inr t \<Longrightarrow> seqno t = Suc (seqno s)"
    and step_grows: "valid s \<Longrightarrow> step s e = Inr t \<Longrightarrow> grows s t"
    and grows_refl: "grows s s"
    and grows_trans: "grows s t \<Longrightarrow> grows t u \<Longrightarrow> grows s u"
begin

fun run :: "'e list \<Rightarrow> 's \<Rightarrow> 'x + 's" where
  "run [] s = Inr s"
| "run (e # es) s = (case step s e of Inl err \<Rightarrow> Inl err | Inr t \<Rightarrow> run es t)"

lemma run_append: "run (xs @ ys) s = (case run xs s of Inl err \<Rightarrow> Inl err | Inr t \<Rightarrow> run ys t)"
  by (induction xs arbitrary: s) (auto split: sum.splits)

lemma run_sound:
  "run es s = Inr t \<Longrightarrow> valid s \<Longrightarrow> valid t \<and> seqno t = seqno s + length es \<and> grows s t"
proof (induction es arbitrary: s)
  case Nil
  then show ?case by (simp add: grows_refl)
next
  case (Cons e es)
  then obtain u where u: "step s e = Inr u" "run es u = Inr t" by (auto split: sum.splits)
  with Cons.IH [of u] Cons.prems(2) show ?case
    using step_valid [OF u(1)] step_seqno [OF _ u(1)] step_grows [OF _ u(1)] grows_trans by auto
qed

text \<open>A prefix of a replayable log is replayable, to an earlier state.\<close>

lemma run_prefix:
  assumes "run (xs @ ys) s = Inr t"
  obtains u where "run xs s = Inr u" "run ys u = Inr t"
  using assms by (auto simp: run_append split: sum.splits)

end

section \<open>What an accepted event changes\<close>

lemma matching_Inr_iff [simp]: "matching sha s e c k = Inr t \<longleftrightarrow> decide sha s c = Inr [e] \<and> k = Inr t"
  by (auto simp: matching_def split: sum.splits)

lemma advance_InrD:
  "advance sha s = Inr t \<Longrightarrow> t = s\<lparr>st_sequence := Suc (st_sequence s)\<rparr> \<and> valid_state sha t"
  by (auto simp: advance_def construct_def split: if_splits)

lemma advance_request_InrD:
  "advance_request sha s r = Inr t \<Longrightarrow>
     t = s\<lparr>st_effect_requests := replace_request r (st_effect_requests s), st_sequence := Suc (st_sequence s)\<rparr> \<and>
     valid_state sha t"
  unfolding advance_request_def construct_def by (auto split: if_splits dest!: advance_InrD)

text \<open>Attempts and requests only gain facts.\<close>

definition attempt_grows :: "attempt_state \<Rightarrow> attempt_state \<Rightarrow> bool" where
  "attempt_grows a a' \<longleftrightarrow> att_plan a' = att_plan a \<and>
     (att_started a \<longrightarrow> att_started a' \<and> att_started_event_id a' = att_started_event_id a \<and>
        att_started_at a' = att_started_at a) \<and>
     (att_outcome a \<noteq> None \<longrightarrow> att_outcome a' = att_outcome a)"

definition request_grows :: "effect_request_state \<Rightarrow> effect_request_state \<Rightarrow> bool" where
  "request_grows r r' \<longleftrightarrow> ers_request r' = ers_request r \<and>
     length (ers_attempts r) \<le> length (ers_attempts r') \<and>
     list_all2 attempt_grows (ers_attempts r) (take (length (ers_attempts r)) (ers_attempts r')) \<and>
     prefix (ers_no_attempt_dispositions r) (ers_no_attempt_dispositions r') \<and>
     prefix (ers_decode_outcomes r) (ers_decode_outcomes r') \<and>
     (ers_accepted_decoded_outcome_id r \<noteq> None \<longrightarrow>
        ers_accepted_decoded_outcome_id r' = ers_accepted_decoded_outcome_id r)"

definition requests_grow :: "effect_request_state list \<Rightarrow> effect_request_state list \<Rightarrow> bool" where
  "requests_grow rs rs' \<longleftrightarrow> length rs \<le> length rs' \<and> list_all2 request_grows rs (take (length rs) rs')"

definition identity_fixed :: "inquiry_state \<Rightarrow> inquiry_state \<Rightarrow> bool" where
  "identity_fixed s t \<longleftrightarrow> (st_status s = Active \<longrightarrow> st_status t = Active \<and> st_inquiry_id t = st_inquiry_id s \<and>
     st_manifest_artifact t = st_manifest_artifact s \<and> st_policy_version t = st_policy_version s \<and>
     st_context t = st_context s)"

definition records_grow :: "inquiry_state \<Rightarrow> inquiry_state \<Rightarrow> bool" where
  "records_grow s t \<longleftrightarrow>
     prefix (st_backlog_effects s) (st_backlog_effects t) \<and> prefix (st_step_plans s) (st_step_plans t) \<and>
     prefix (st_claims s) (st_claims t) \<and> prefix (st_conflicts s) (st_conflicts t) \<and>
     prefix (st_obligations s) (st_obligations t) \<and>
     prefix (st_obligation_dispositions s) (st_obligation_dispositions t) \<and>
     prefix (st_candidates s) (st_candidates t) \<and> prefix (st_residuals s) (st_residuals t) \<and>
     prefix (st_corrections s) (st_corrections t) \<and> prefix (st_guard_changes s) (st_guard_changes t) \<and>
     prefix (st_nogoods s) (st_nogoods t) \<and> prefix (st_route_changes s) (st_route_changes t) \<and>
     prefix (st_nogood_changes s) (st_nogood_changes t) \<and>
     prefix (st_evidence_records s) (st_evidence_records t) \<and>
     prefix (st_checker_verdicts s) (st_checker_verdicts t) \<and>
     prefix (st_warrant_decisions s) (st_warrant_decisions t) \<and>
     prefix (st_lemma_versions s) (st_lemma_versions t) \<and>
     prefix (st_lemma_supports s) (st_lemma_supports t) \<and>
     prefix (st_promotion_links s) (st_promotion_links t)"

definition extends :: "inquiry_state \<Rightarrow> inquiry_state \<Rightarrow> bool" where
  "extends s t \<longleftrightarrow> identity_fixed s t \<and> records_grow s t \<and>
     requests_grow (st_effect_requests s) (st_effect_requests t)"

lemma attempt_grows_refl [simp]: "attempt_grows a a"
  by (simp add: attempt_grows_def)

lemma attempt_grows_trans: "attempt_grows a b \<Longrightarrow> attempt_grows b c \<Longrightarrow> attempt_grows a c"
  by (auto simp: attempt_grows_def)

text \<open>Growth of a list by growing its elements and appending is reflexive and transitive.\<close>

lemma grow_list_refl: "(\<And>x. R x x) \<Longrightarrow> list_all2 R xs (take (length xs) (xs @ ys))"
  by (simp add: list.rel_refl)

lemma grow_list_trans:
  assumes "length xs \<le> length ys" "list_all2 R xs (take (length xs) ys)"
    and "length ys \<le> length zs" "list_all2 R ys (take (length ys) zs)"
    and tr: "\<And>x y z. R x y \<Longrightarrow> R y z \<Longrightarrow> R x z"
  shows "list_all2 R xs (take (length xs) zs)"
proof -
  have "list_all2 R (take (length xs) ys) (take (length xs) (take (length ys) zs))"
    using assms(4) by (rule list_all2_takeI)
  then have "list_all2 R (take (length xs) ys) (take (length xs) zs)" using assms(1) by (simp add: min_def)
  with assms(2) show ?thesis using list_all2_trans [of R R R] tr by blast
qed

lemma request_grows_refl [simp]: "request_grows r r"
  using grow_list_refl [of attempt_grows "ers_attempts r" "[]"] by (simp add: request_grows_def)

lemma request_grows_trans: "request_grows a b \<Longrightarrow> request_grows b c \<Longrightarrow> request_grows a c"
  unfolding request_grows_def
  using grow_list_trans [of "ers_attempts a" "ers_attempts b" attempt_grows "ers_attempts c"]
  by (auto intro: attempt_grows_trans prefix_order.trans)

lemma requests_grow_append: "requests_grow rs (rs @ rs')"
  using grow_list_refl [of request_grows rs rs'] by (simp add: requests_grow_def)

lemma requests_grow_trans: "requests_grow a b \<Longrightarrow> requests_grow b c \<Longrightarrow> requests_grow a c"
  unfolding requests_grow_def
  using grow_list_trans [of a b request_grows c] by (auto intro: request_grows_trans)

lemma extends_refl: "extends s s"
  using requests_grow_append [of "st_effect_requests s" "[]"]
  by (simp add: extends_def identity_fixed_def records_grow_def)

lemma extends_trans: "extends s t \<Longrightarrow> extends t u \<Longrightarrow> extends s u"
  unfolding extends_def identity_fixed_def records_grow_def
  by (auto intro: prefix_order.trans requests_grow_trans)

section \<open>The reducer as an event-sourced machine\<close>

lemma replace_grows:
  assumes "\<And>r. r \<in> set rs \<Longrightarrow> ers_id r = ers_id r' \<Longrightarrow> request_grows r r'"
  shows "requests_grow rs (replace_request r' rs)"
proof -
  have "list_all2 request_grows rs (replace_request r' rs)"
    using assms unfolding replace_request_def list_all2_map2 by (simp add: list_all2_same)
  then show ?thesis by (simp add: requests_grow_def replace_request_def)
qed

lemma grown_request_extends:
  assumes "advance_request sha s r' = Inr t" "request_by_id s i = Some r" "valid_state sha s"
    and "request_grows r r'"
  shows "extends s t"
proof -
  have "distinct (map ers_id (st_effect_requests s))"
    using assms(3) by (simp add: valid_state_def valid_requests_def)
  then have "x = r" if "x \<in> set (st_effect_requests s)" "ers_id x = ers_id r'" for x
    using that assms(2,4) find_by_SomeD [of ers_id i "st_effect_requests s" r]
    by (auto simp: request_by_id_def request_grows_def distinct_map inj_on_def)
  then have "requests_grow (st_effect_requests s) (replace_request r' (st_effect_requests s))"
    using assms(4) by (intro replace_grows) blast
  with advance_request_InrD [OF assms(1)] show ?thesis
    by (simp add: extends_def identity_fixed_def records_grow_def)
qed

lemma request_grows_update [simp]:
  "request_grows r (r\<lparr>ers_attempts := ers_attempts r @ xs\<rparr>)"
  "request_grows r (r\<lparr>ers_no_attempt_dispositions := ers_no_attempt_dispositions r @ ns\<rparr>)"
  "request_grows r (r\<lparr>ers_decode_outcomes := ers_decode_outcomes r @ ds\<rparr>)"
  "ers_accepted_decoded_outcome_id r = None \<Longrightarrow> request_grows r (r\<lparr>ers_accepted_decoded_outcome_id := o'\<rparr>)"
  using grow_list_refl [of attempt_grows "ers_attempts r"] by (simp_all add: request_grows_def list.rel_refl)

lemma request_grows_map:
  assumes "\<And>a. a \<in> set (ers_attempts r) \<Longrightarrow> attempt_grows a (f a)"
  shows "request_grows r (r\<lparr>ers_attempts := map f (ers_attempts r)\<rparr>)"
  using assms by (simp add: request_grows_def list_all2_map2 list_all2_same)

lemma attempt_unique:
  assumes "valid_request_state r" "attempt_of r i = Some a" "x \<in> set (ers_attempts r)" "att_id x = i"
  shows "x = a"
  using assms find_by_SomeD [of att_id i "ers_attempts r" a]
  by (auto simp: attempt_of_def valid_request_state_def distinct_map inj_on_def)

lemma known_request_valid:
  "valid_state sha s \<Longrightarrow> request_by_id s i = Some r \<Longrightarrow> valid_request_state r"
  using find_by_SomeD [of ers_id i "st_effect_requests s" r]
  by (auto simp: valid_state_def valid_requests_def list_all_iff request_by_id_def)

lemma containing_request_by_id:
  assumes "valid_state sha s" "containing_request s i = Some r"
  shows "request_by_id s (ers_id r) = Some r"
proof -
  have "r \<in> set (st_effect_requests s)"
    using assms(2) by (auto simp: containing_request_def find_Some_iff)
  moreover have "distinct (map ers_id (st_effect_requests s))"
    using assms(1) by (simp add: valid_state_def valid_requests_def)
  ultimately show ?thesis using find_by_distinct [of ers_id] by (simp add: request_by_id_def)
qed

lemma effect_events_extend:
  assumes "valid_state sha s"
  shows "evolve_requested sha s r = Inr t \<Longrightarrow> extends s t"
    and "evolve_attempt_planned sha s p = Inr t \<Longrightarrow> extends s t"
    and "evolve_attempt_started sha s b i = Inr t \<Longrightarrow> extends s t"
    and "evolve_no_attempt sha s d = Inr t \<Longrightarrow> extends s t"
    and "evolve_attempt_outcome sha s i oc = Inr t \<Longrightarrow> extends s t"
    and "evolve_decode_outcome sha s i dd = Inr t \<Longrightarrow> extends s t"
    and "evolve_result_accepted sha s i j = Inr t \<Longrightarrow> extends s t"
proof -
  show "evolve_requested sha s r = Inr t \<Longrightarrow> extends s t"
    using requests_grow_append
    by (auto simp: evolve_requested_def extends_def identity_fixed_def records_grow_def dest!: advance_InrD)
  show "evolve_attempt_planned sha s p = Inr t \<Longrightarrow> extends s t"
    using assms by (auto simp: evolve_attempt_planned_def split: option.splits intro: grown_request_extends)
  show "evolve_no_attempt sha s d = Inr t \<Longrightarrow> extends s t"
    using assms by (auto simp: evolve_no_attempt_def split: option.splits intro: grown_request_extends)
  show "evolve_decode_outcome sha s i dd = Inr t \<Longrightarrow> extends s t"
    using assms by (auto simp: evolve_decode_outcome_def split: option.splits intro: grown_request_extends)
  show "evolve_result_accepted sha s i j = Inr t \<Longrightarrow> extends s t"
    using assms by (auto simp: evolve_result_accepted_def split: option.splits intro: grown_request_extends)
  show "extends s t" if h: "evolve_attempt_started sha s b i = Inr t"
  proof -
    obtain r a where r: "containing_request s i = Some r" "attempt_of r i = Some a" "\<not> att_started a"
      "advance_request sha s (start_attempt i (msg_event_id b) (msg_occurred_at b) r) = Inr t"
      using h by (auto simp: evolve_attempt_started_def split: option.splits)
    note r' = containing_request_by_id [OF assms r(1)]
    have v: "valid_request_state r" by (rule known_request_valid [OF assms r'])
    have "valid_attempt_state a"
      using v r(2) by (auto simp: valid_request_state_def list_all_iff attempt_of_def dest: find_by_SomeD)
    then have "request_grows r (start_attempt i (msg_event_id b) (msg_occurred_at b) r)"
      unfolding start_attempt_def using r(3) attempt_unique [OF v r(2)]
      by (intro request_grows_map) (auto simp: attempt_grows_def valid_attempt_state_def)
    then show ?thesis by (rule grown_request_extends [OF r(4) r' assms])
  qed
  show "extends s t" if h: "evolve_attempt_outcome sha s i oc = Inr t"
  proof -
    obtain r a where r: "request_by_id s i = Some r" "attempt_of r (outcome_attempt_id oc) = Some a"
      "att_outcome a = None" "advance_request sha s (finish_attempt oc r) = Inr t"
      using h by (auto simp: evolve_attempt_outcome_def split: option.splits)
    have v: "valid_request_state r" by (rule known_request_valid [OF assms r(1)])
    have "request_grows r (finish_attempt oc r)"
      unfolding finish_attempt_def using r(3) attempt_unique [OF v r(2)]
      by (intro request_grows_map) (auto simp: attempt_grows_def)
    then show ?thesis by (rule grown_request_extends [OF r(4) r(1) assms])
  qed
qed

lemma evolve_valid: "evolve sha s e = Inr t \<Longrightarrow> valid_state sha t"
  by (cases e)
    (auto simp: evolve_def is_started_event_def evolve_started_def construct_def evolve_requested_def
      evolve_attempt_planned_def evolve_attempt_started_def evolve_no_attempt_def evolve_attempt_outcome_def
      evolve_decode_outcome_def evolve_result_accepted_def
      split: if_splits option.splits dest: advance_InrD advance_request_InrD)

lemma evolve_sequence:
  "valid_state sha s \<Longrightarrow> evolve sha s e = Inr t \<Longrightarrow> st_sequence t = Suc (st_sequence s)"
  by (cases e)
    (auto simp: evolve_def is_started_event_def evolve_started_def construct_def evolve_requested_def
      evolve_attempt_planned_def evolve_attempt_started_def evolve_no_attempt_def evolve_attempt_outcome_def
      evolve_decode_outcome_def evolve_result_accepted_def valid_state_def valid_lifecycle_def
      split: if_splits option.splits dest!: advance_InrD advance_request_InrD)

lemma advance_extends: "advance sha u = Inr t \<Longrightarrow> extends s u \<Longrightarrow> extends s t"
  by (drule advance_InrD) (simp add: extends_def identity_fixed_def records_grow_def)

lemma evolve_extends:
  assumes "valid_state sha s" "evolve sha s e = Inr t"
  shows "extends s t"
proof (cases "is_started_event e")
  case True
  then show ?thesis
    using assms requests_grow_append [of "[]"]
    by (cases e)
      (auto simp: evolve_def is_started_event_def evolve_started_def construct_def extends_def identity_fixed_def
        records_grow_def valid_state_def valid_lifecycle_def no_records_def split: if_splits)
next
  case False
  then have act: "evolve_active sha s e = Inr t" using assms(2) by (simp add: evolve_def)
  have same: "requests_grow (st_effect_requests s) (st_effect_requests s)"
    using requests_grow_append [of "st_effect_requests s" "[]"] by simp
  note effect = effect_events_extend [OF assms(1)]
  show ?thesis
  proof (cases e)
    case InquiryStarted
    then show ?thesis using False by (simp add: is_started_event_def)
  next
    case EffectRequested
    then show ?thesis using act by (simp add: effect(1))
  next
    case EffectAttemptPlanned
    then show ?thesis using act by (simp add: effect(2))
  next
    case EffectAttemptStarted
    then show ?thesis using act by (simp add: effect(3))
  next
    case EffectNoAttemptDispositionRecorded
    then show ?thesis using act by (simp add: effect(4))
  next
    case EffectAttemptOutcomeRecorded
    then show ?thesis using act by (simp add: effect(5))
  next
    case EffectDecodeOutcomeRecorded
    then show ?thesis using act by (simp add: effect(6))
  next
    case EffectResultAccepted
    then show ?thesis using act by (simp add: effect(7))
  qed (insert act, hypsubst_thin, simp only: evolve_active.simps matching_Inr_iff, elim conjE,
      erule advance_extends, simp add: same extends_def identity_fixed_def records_grow_def)+
qed

interpretation aggregate: event_sourced "evolve sha" "valid_state sha" st_sequence extends for sha
  by unfold_locales (auto intro: evolve_valid evolve_sequence evolve_extends extends_refl extends_trans)

lemma replay_run: "replay sha es s = aggregate.run sha es s"
  by (induction es arbitrary: s) (auto split: sum.splits)

section \<open>Reducible decisions\<close>

lemma replay_sound:
  "replay sha es s = Inr t \<Longrightarrow> valid_state sha s \<Longrightarrow>
     valid_state sha t \<and> st_sequence t = st_sequence s + length es \<and> extends s t"
  unfolding replay_run by (rule aggregate.run_sound)

lemma decide_start_evolves:
  assumes "decide sha s (StartInquiry b m p ctx) = Inr [e]" "valid_command sha (StartInquiry b m p ctx)"
  shows "\<exists>t. evolve sha s e = Inr t"
  using assms started_state_valid [of b m p ctx sha]
  by (auto simp: decide_def is_start_def decide_start_def evolve_def is_started_event_def evolve_started_def
      construct_def split: if_splits)

lemma decided_evolves:
  assumes "decide sha s c = Inr [e]" "valid_state sha s" "valid_command sha c" "reducible sha s c"
  shows "\<exists>t. evolve sha s e = Inr t"
proof (cases "is_start c")
  case True
  then show ?thesis using assms(1,3) decide_start_evolves by (auto simp: is_start_def split: command.splits)
next
  case False
  then show ?thesis using accept_any [OF assms] accepted_evolves [OF _ assms(1)] by blast
qed

lemma decide_emits: "decide sha s c = Inr es \<Longrightarrow> es = [] \<or> (\<exists>e. es = [e] \<and> ev_base e = cmd_base c)"
  using emits_active [OF refl, of c sha s]
  by (simp add: decide_def require_active_def emits_def split: if_splits)

text \<open>A concrete inquiry.\<close>

definition demo_base :: "string \<Rightarrow> message_base" where
  "demo_base i = \<lparr>msg_event_id = i, msg_inquiry_id = ''inq'',
     msg_occurred_at = \<lparr>instant = 0, utc_offset = Some 0\<rparr>\<rparr>"

definition zero_hash :: digest where
  "zero_hash = zero_digest []"

definition demo_context :: inquiry_context where
  "demo_context = \<lparr>ctx_binding_revision = ''b1'', ctx_carrier_schema_ids = [''carrier''],
     ctx_relation_schema_ids = [''relation''], ctx_consequence_profile_id = ''profile'',
     ctx_protected_horizon_id = ''horizon'', ctx_admissible_operation_ids = [''op''],
     ctx_discharge_mechanism_ids = [''checker''], ctx_scope_id = ''s'', ctx_scope_fingerprint = zero_hash,
     ctx_assumption_ids = [''a''], ctx_guard_condition_id = None, ctx_guard_ast = None,
     ctx_finite_universe_hash = None, ctx_closed_world = False, ctx_catalog_manifest_digest = zero_hash,
     ctx_scheduler_policy_version = ''sched'', ctx_warrant_policy_version = ''warrant'',
     ctx_provenance_refs = [''prov'']\<rparr>"

definition demo_start :: command where
  "demo_start = StartInquiry (demo_base ''ev1'') (demo_artifact zero_hash) ''policy'' demo_context"

definition demo_event :: event where
  "demo_event = InquiryStarted (demo_base ''ev1'') (demo_artifact zero_hash) ''policy'' demo_context"

definition demo_state :: inquiry_state where
  "demo_state = initial_state\<lparr>st_status := Active, st_inquiry_id := Some ''inq'', st_sequence := 1,
     st_manifest_artifact := Some (demo_artifact zero_hash), st_policy_version := Some ''policy'',
     st_context := Some demo_context\<rparr>"

lemma zero_hash_digest [simp]: "valid_sha256 zero_hash" "zero_hash \<noteq> []"
  using zero_digest_hex by (simp_all add: zero_hash_def hex_digests_def zero_digest_def)

lemma demo_start_valid: "valid_command zero_digest demo_start"
  by (simp add: valid_defs demo_start_def demo_context_def demo_artifact_def demo_base_def)

lemma demo_start_decided: "decide sha initial_state demo_start = Inr [demo_event]"
  by (simp add: demo_start_def demo_event_def decide_def is_start_def decide_start_def initial_state_def)

lemma demo_state_valid: "valid_state sha demo_state"
  using demo_start_valid started_state_valid [of "demo_base ''ev1''" "demo_artifact zero_hash" "''policy''" demo_context sha]
  by (simp add: demo_start_def demo_state_def) (simp add: demo_base_def)

lemma demo_evolves: "evolve sha initial_state demo_event = Inr demo_state"
  using demo_state_valid [of sha]
  by (simp add: evolve_def is_started_event_def evolve_started_def demo_event_def demo_state_def construct_def
      initial_state_def demo_base_def)

section \<open>Reachable states\<close>

text \<open>The runtime: a command is decided and its events are appended to the log and applied.\<close>

inductive reachable :: "(string \<Rightarrow> digest) \<Rightarrow> inquiry_state \<Rightarrow> event list \<Rightarrow> bool" for sha where
  start: "reachable sha initial_state []"
| step: "reachable sha s log \<Longrightarrow> handle sha s c = Inr (es, t) \<Longrightarrow> reachable sha t (log @ es)"

lemma handle_Inr_iff: "handle sha s c = Inr (es, t) \<longleftrightarrow> decide sha s c = Inr es \<and> replay sha es s = Inr t"
proof (cases "decide sha s c")
  case (Inr es')
  then show ?thesis by (cases "replay sha es' s") (auto simp: handle_def)
qed (simp add: handle_def)

lemma replay_log: "reachable sha s log \<Longrightarrow> replay sha log initial_state = Inr s"
  by (induction rule: reachable.induct) (simp_all add: replay_run aggregate.run_append handle_Inr_iff)

lemma reachable_valid: "reachable sha s log \<Longrightarrow> valid_state sha s"
  using replay_sound [OF replay_log initial_state_valid] by blast

text \<open>C3: replay rebuilds exactly the reached state. Every state the runtime reaches is valid, its
  sequence is the length of its log, and replaying the log from the empty aggregate gives it back;
  so does every prefix of the log, to an earlier valid state that the reached one extends.\<close>

theorem replay_rebuilds_reachable:
  assumes "reachable sha s log"
  shows "replay sha log initial_state = Inr s \<and> valid_state sha s \<and> st_sequence s = length log \<and>
    (\<forall>n \<le> length log. \<exists>u. replay sha (take n log) initial_state = Inr u \<and> valid_state sha u \<and>
       st_sequence u = n \<and> extends u s)"
proof -
  have "\<exists>u. replay sha (take n log) initial_state = Inr u \<and> valid_state sha u \<and>
      st_sequence u = n \<and> extends u s"
    if n: "n \<le> length log" for n
  proof -
    have "aggregate.run sha (take n log @ drop n log) initial_state = Inr s"
      using replay_log [OF assms] by (simp add: replay_run)
    then obtain u where u: "replay sha (take n log) initial_state = Inr u" "replay sha (drop n log) u = Inr s"
      unfolding replay_run by (rule aggregate.run_prefix)
    then show ?thesis
      using replay_sound [OF u(1) initial_state_valid] replay_sound [OF u(2)] n
      by (simp add: initial_state_def)
  qed
  then show ?thesis
    using replay_log [OF assms] replay_sound [OF replay_log [OF assms] initial_state_valid]
    by (simp add: initial_state_def)
qed

lemma demo_reachable: "reachable sha demo_state [demo_event]"
  using reachable.step [OF reachable.start, of sha demo_start "[demo_event]" demo_state]
  by (simp add: handle_Inr_iff demo_start_decided demo_evolves)

theorem replay_rebuilds_reachable_witness:
  "replay zero_digest [demo_event] initial_state = Inr demo_state \<and> st_sequence demo_state = length [demo_event]"
  using replay_rebuilds_reachable [OF demo_reachable] by blast

end
