(* ===== verification/Rci_Run.thy ===== *)
theory Rci_Run
  imports Rci_Lifecycle
begin

text \<open>
  A complete concrete run of the aggregate: an inquiry is started, a claim is admitted, two pieces of
  evidence and their verdicts are recorded, a warrant decision is made and the claim is promoted to
  a lemma. The states are written out, and every step is a decision of the model.
\<close>

lemma reach_step:
  assumes "reachable sha s log" "decide sha s c = Inr [e]" "valid_command sha c" "reducible sha s c"
  obtains t where "evolve sha s e = Inr t" "reachable sha t (log @ [e])"
proof -
  obtain t where t: "evolve sha s e = Inr t"
    using decided_evolves [OF assms(2) reachable_valid [OF assms(1)] assms(3,4)] by blast
  then have "reachable sha t (log @ [e])"
    using assms(1,2) by (intro reachable.step [of sha s log c]) (simp_all add: handle_Inr_iff)
  with t show ?thesis by (rule that)
qed

definition run_evidence :: "string \<Rightarrow> string \<Rightarrow> evidence" where
  "run_evidence i proposition = \<lparr>ev_id = i, ev_kind = IndependentWitness, ev_proposition_id = proposition,
     ev_proposition_kind = Existential, ev_scope_fingerprint = zero_hash,
     ev_artifact = demo_artifact zero_hash, ev_closed_finite_universe = False, ev_finite_universe_hash = None\<rparr>"

definition run_verdict :: "string \<Rightarrow> string \<Rightarrow> string \<Rightarrow> digest \<Rightarrow> verdict_record" where
  "run_verdict i e proposition cert = \<lparr>cv_id = i, cv_evidence_id = e,
     cv_evidence_artifact = demo_artifact zero_hash, cv_proposition_id = proposition,
     cv_proposition_kind = Existential, cv_scope_fingerprint = zero_hash,
     cv_checker_id = ''checker'', cv_checker_version = ''1'', cv_verdict = Valid,
     cv_verdict_artifact = demo_artifact zero_hash, cv_certificate_artifact = Some (demo_artifact cert)\<rparr>"

definition run_route :: support_route where
  "run_route = \<lparr>route_id = ''r'', route_conclusion_id = ''L'',
     route_environment = \<lparr>env_id = ''env-r'', env_scope_fingerprint = zero_hash, env_binding_revision = ''b1'',
       env_assumption_ids = [''a''], env_finite_universe_hash = None,
       env_realizability_check = \<lparr>ref_evidence_id = ''e2'', ref_checker_verdict_id = ''v2''\<rparr>\<rparr>,
     route_required_dependency_ids = [], route_open_dependency_ids = [],
     route_certificate_check = \<lparr>ref_evidence_id = ''e'', ref_checker_verdict_id = ''v''\<rparr>,
     route_warrant_refs = [''d''], route_justification_refs = [], route_provenance_refs = []\<rparr>"

definition run_promote :: promote_request where
  "run_promote = \<lparr>pc_promotion_id = ''pl'', pc_lemma_id = ''L'', pc_relation_id = ''p'',
     pc_proposition_kind = Existential, pc_scope = example_scope,
     pc_applicability = \<lparr>app_condition_id = ''always'', app_required_context_ids = []\<rparr>,
     pc_support_routes = [run_route], pc_warrant_decision_id = ''d'', pc_provenance_refs = [],
     pc_source_claim_ids = [''c1''], pc_predecessor_refs = []\<rparr>"

definition run_warrant :: warrant_request where
  "run_warrant = \<lparr>wr_decision_id = ''d'', wr_evidence_id = ''e'', wr_checker_verdict_id = ''v'',
     wr_proposition_id = ''p'', wr_proposition_kind = Existential, wr_scope = example_scope\<rparr>"

text \<open>The states after each step.\<close>

definition run_claim :: claim where
  "run_claim = example_claim ''c1'' Necessity Positive"

definition run_obligations :: "obligation list" where
  "run_obligations = [\<lparr>obl_id = ''obl_000000000000000000000000'', obl_kind = NecessityCounterexample,
     obl_carrier_id = ''p'', obl_args = [\<lparr>arg_name = ''proposition_id'', arg_value = JStr ''p''\<rparr>],
     obl_scope = example_scope, obl_binding_revision = ''b1'', obl_parent_obligation_ids = [],
     obl_priority_vector = [90], obl_status = Open\<rparr>]"

definition run_claimed :: inquiry_state where
  "run_claimed = demo_state\<lparr>st_claims := [run_claim], st_obligations := run_obligations, st_sequence := 2\<rparr>"

definition run_checked :: inquiry_state where
  "run_checked = run_claimed\<lparr>
     st_evidence_records := [run_evidence ''e'' ''p'', run_evidence ''e2'' ''env-r''],
     st_checker_verdicts := [run_verdict ''v'' ''e'' ''p'' zero_hash,
       run_verdict ''v2'' ''e2'' ''env-r'' (replicate 64 (CHR ''1''))], st_sequence := 6\<rparr>"

definition run_decision :: warrant_decision where
  "run_decision = \<lparr>wd_id = ''d'', wd_evidence_id = ''e'', wd_checker_verdict_id = ''v'', wd_proposition_id = ''p'',
     wd_proposition_kind = Existential, wd_scope_fingerprint = zero_hash, wd_warrant_class = Hard,
     wd_reason = ''exact scoped existential witness'', wd_policy_version = ''warrant''\<rparr>"

definition run_decided :: inquiry_state where
  "run_decided = run_checked\<lparr>st_warrant_decisions := [run_decision], st_sequence := 7\<rparr>"

definition run_lemma :: warranted_lemma where
  "run_lemma = \<lparr>wl_version = \<lparr>lv_id = ''L'', lv_relation_id = ''p'', lv_proposition_kind = Existential,
       lv_scope = example_scope,
       lv_applicability = \<lparr>app_condition_id = ''always'', app_required_context_ids = []\<rparr>,
       lv_source_claim_ids = [''c1''], lv_predecessor_refs = []\<rparr>,
     wl_support = \<lparr>ls_lemma_version_id = ''L'', ls_policy_version = ''warrant'', ls_support_routes = [run_route],
       ls_historical_support_routes = [], ls_warrant_class = Hard,
       ls_certificate_refs = [zero_hash, replicate 64 (CHR ''1'')], ls_provenance_refs = []\<rparr>\<rparr>"

definition run_link :: promotion_link where
  "run_link = promotion_link_of run_promote run_lemma run_decision"

definition run_promoted :: inquiry_state where
  "run_promoted = run_decided\<lparr>st_lemma_versions := [wl_version run_lemma],
     st_lemma_supports := [wl_support run_lemma], st_promotion_links := [run_link], st_sequence := 8\<rparr>"

section \<open>Steps\<close>

lemma reach_record:
  assumes "reachable sha s log" "decide sha s c = Inr [e]" "valid_command sha c" "reducible sha s c"
    and "\<And>t. evolve sha s e = Inr t \<Longrightarrow> t = u"
  shows "reachable sha u (log @ [e])"
proof (rule reach_step [OF assms(1-4)])
  fix t assume t: "evolve sha s e = Inr t" "reachable sha t (log @ [e])"
  then show ?thesis using assms(5) [OF t(1)] by simp
qed

lemmas recorded_simps = evolve_def is_started_event_def

text \<open>Under the constant digest every fingerprint is known without evaluating the canonical text.\<close>

lemma zero_fingerprints [simp]:
  "content_fingerprint zero_digest d j = zero_hash" "scope_fingerprint zero_digest sc = zero_hash"
  "obligation_fingerprint zero_digest q = zero_hash"
  by (simp_all add: content_fingerprint_def scope_fingerprint_def obligation_fingerprint_def zero_hash_def
      zero_digest_def)

lemma run_consequences: "derive_claim_consequences zero_digest demo_state run_claim = Inr ([], run_obligations)"
proof -
  have "mandatory_attack_obligation zero_digest run_claim = Some (hd run_obligations)"
    by (simp add: mandatory_attack_obligation_def Let_def run_claim_def example_claim_def run_obligations_def)
      (simp add: zero_hash_def zero_digest_def example_scope_def numeral_eq_Suc)
  moreover have "is_ok (active_theory zero_digest demo_state)" by code_simp
  then have "claim_attack_discharged zero_digest demo_state run_claim = Inr False"
    by (cases "active_theory zero_digest demo_state")
      (simp_all add: claim_attack_discharged_def run_claim_def example_claim_def demo_state_def initial_state_def)
  ultimately show ?thesis
    by (simp add: derive_claim_consequences_def demo_state_def initial_state_def run_obligations_def)
qed

lemma claimed_reachable: "\<exists>log. reachable zero_digest run_claimed log"
proof
  let ?c = "AdmitClaim (demo_base ''ev2'') run_claim"
    and ?e = "ClaimAdmitted (demo_base ''ev2'') run_claim [] run_obligations"
  have d: "decide zero_digest demo_state ?c = Inr [?e]"
    by (simp add: decide_def is_start_def require_active_def decide_admit_claim_def run_consequences
        claim_by_id_def scope_matches_context_def)
      (simp add: demo_state_def initial_state_def demo_base_def run_claim_def example_claim_def example_scope_def
        demo_context_def)
  show "reachable zero_digest run_claimed ([demo_event] @ [?e])"
  proof (rule reach_record [OF demo_reachable d])
    show "valid_command zero_digest ?c" by code_simp
    show "reducible zero_digest demo_state ?c"
      by (simp add: run_consequences) (simp add: run_obligations_def demo_state_def initial_state_def)
    show "t = run_claimed" if "evolve zero_digest demo_state ?e = Inr t" for t
      using that by (auto simp: recorded_simps run_claimed_def demo_state_def initial_state_def dest!: advance_InrD)
  qed
qed

lemma reach_evidence:
  assumes "reachable sha s log" "decide sha s (RecordEvidence b x) = Inr [EvidenceRecorded b x]"
    and "valid_command sha (RecordEvidence b x)"
  shows "\<exists>log. reachable sha (s\<lparr>st_evidence_records := st_evidence_records s @ [x],
    st_sequence := Suc (st_sequence s)\<rparr>) log"
  by (rule exI, rule reach_record [OF assms]) (auto simp: recorded_simps dest!: advance_InrD)

lemma reach_verdict:
  assumes "reachable sha s log" "decide sha s (RecordCheckerVerdict b x) = Inr [CheckerVerdictRecorded b x]"
    and "valid_command sha (RecordCheckerVerdict b x)"
  shows "\<exists>log. reachable sha (s\<lparr>st_checker_verdicts := st_checker_verdicts s @ [x],
    st_sequence := Suc (st_sequence s)\<rparr>) log"
  by (rule exI, rule reach_record [OF assms]) (auto simp: recorded_simps dest!: advance_InrD)

lemma ones_hash_valid: "valid_sha256 (replicate 64 (CHR ''1''))"
  by (simp add: valid_sha256_def list_all_iff)

lemma checked_reachable: "\<exists>log. reachable zero_digest run_checked log"
proof -
  let ?e1 = "run_evidence ''e'' ''p''" and ?e2 = "run_evidence ''e2'' ''env-r''"
  let ?v1 = "run_verdict ''v'' ''e'' ''p'' zero_hash"
    and ?v2 = "run_verdict ''v2'' ''e2'' ''env-r'' (replicate 64 (CHR ''1''))"
  let ?s1 = "run_claimed\<lparr>st_evidence_records := [?e1], st_sequence := 3\<rparr>"
  let ?s2 = "run_claimed\<lparr>st_evidence_records := [?e1, ?e2], st_sequence := 4\<rparr>"
  let ?s3 = "?s2\<lparr>st_checker_verdicts := [?v1], st_sequence := 5\<rparr>"
  have d: "decide zero_digest run_claimed (RecordEvidence (demo_base ''ev3'') ?e1) = Inr [EvidenceRecorded (demo_base ''ev3'') ?e1]"
    "decide zero_digest ?s1 (RecordEvidence (demo_base ''ev4'') ?e2) = Inr [EvidenceRecorded (demo_base ''ev4'') ?e2]"
    "decide zero_digest ?s2 (RecordCheckerVerdict (demo_base ''ev5'') ?v1) = Inr [CheckerVerdictRecorded (demo_base ''ev5'') ?v1]"
    "decide zero_digest ?s3 (RecordCheckerVerdict (demo_base ''ev6'') ?v2) = Inr [CheckerVerdictRecorded (demo_base ''ev6'') ?v2]"
    by (simp_all add: decide_def is_start_def require_active_def decide_evidence_def decide_verdict_def evidence_by_id_def
        checker_verdict_by_id_def once_def verdict_pins_def find_by_def run_claimed_def demo_state_def initial_state_def
        demo_base_def demo_context_def run_evidence_def run_verdict_def)
  have v: "valid_command zero_digest (RecordEvidence (demo_base ''ev3'') ?e1)"
    "valid_command zero_digest (RecordEvidence (demo_base ''ev4'') ?e2)"
    "valid_command zero_digest (RecordCheckerVerdict (demo_base ''ev5'') ?v1)"
    "valid_command zero_digest (RecordCheckerVerdict (demo_base ''ev6'') ?v2)"
    by (simp_all add: valid_defs run_evidence_def run_verdict_def demo_artifact_def demo_base_def ones_hash_valid)
  have f: "st_evidence_records run_claimed = []" "st_checker_verdicts run_claimed = []" "st_sequence run_claimed = 2"
    by (simp_all add: run_claimed_def demo_state_def initial_state_def)
  obtain l where "reachable zero_digest run_claimed l" using claimed_reachable ..
  then obtain l1 where "reachable zero_digest ?s1 l1" using reach_evidence [OF _ d(1) v(1)] f by auto
  then obtain l2 where "reachable zero_digest ?s2 l2" using reach_evidence [OF _ d(2) v(2)] by auto
  then obtain l3 where "reachable zero_digest ?s3 l3" using reach_verdict [OF _ d(3) v(3)] f by auto
  then show ?thesis using reach_verdict [OF _ d(4) v(4)] by (auto simp: run_checked_def)
qed

lemma decided_reachable: "\<exists>log. reachable zero_digest run_decided log"
proof -
  let ?c = "EvaluateWarrant (demo_base ''ev7'') run_warrant"
    and ?e = "WarrantDecisionRecorded (demo_base ''ev7'') example_scope run_decision"
  obtain l where l: "reachable zero_digest run_checked l" using checked_reachable ..
  have "decide zero_digest run_checked ?c = Inr [?e] \<and> valid_command zero_digest ?c \<and> reducible zero_digest run_checked ?c"
    by code_simp
  then have d: "decide zero_digest run_checked ?c = Inr [?e]" and v: "valid_command zero_digest ?c"
    and r: "reducible zero_digest run_checked ?c" by blast+
  have "reachable zero_digest run_decided (l @ [?e])"
    by (rule reach_record [OF l d v r])
      (auto simp: recorded_simps run_decided_def run_checked_def run_claimed_def demo_state_def initial_state_def
        dest!: advance_InrD)
  then show ?thesis ..
qed

lemma run_promotion_decided:
  "decide_promote zero_digest run_decided (demo_base ''ev8'') run_promote =
     Inr [LemmaPromoted (demo_base ''ev8'') (wl_version run_lemma) (wl_support run_lemma) run_link]"
proof -
  let ?e = "run_evidence ''e'' ''p''" and ?v = "run_verdict ''v'' ''e'' ''p'' zero_hash"
  have "promotable zero_digest run_decided run_promote run_decision demo_context ?e ?v [] \<and>
      promotion_gates zero_digest (promotion_of run_decided demo_context run_promote ?e ?v []) run_lemma \<and>
      finish_promotion run_decided (demo_base ''ev8'') run_promote run_lemma run_decision =
        Inr [LemmaPromoted (demo_base ''ev8'') (wl_version run_lemma) (wl_support run_lemma) run_link]"
    by code_simp
  then show ?thesis unfolding decide_promote_iff by blast
qed

lemma promoted_reachable: "\<exists>log. reachable zero_digest run_promoted log"
proof -
  let ?c = "PromoteClaim (demo_base ''ev8'') run_promote"
    and ?e = "LemmaPromoted (demo_base ''ev8'') (wl_version run_lemma) (wl_support run_lemma) run_link"
  obtain l where l: "reachable zero_digest run_decided l" using decided_reachable ..
  have d: "decide zero_digest run_decided ?c = Inr [?e]"
    by (simp add: decide_def is_start_def require_active_def run_promotion_decided)
      (simp add: run_decided_def run_checked_def run_claimed_def demo_state_def demo_base_def)
  have vr: "valid_command zero_digest ?c \<and> reducible zero_digest run_decided ?c" by code_simp
  have "reachable zero_digest run_promoted (l @ [?e])"
    by (rule reach_record [OF l d vr [THEN conjunct1] vr [THEN conjunct2]])
      (auto simp: recorded_simps run_promoted_def run_decided_def run_checked_def run_claimed_def demo_state_def
        initial_state_def dest!: advance_InrD)
  then show ?thesis ..
qed

end
