(* ===== verification/Rci_Safety.thy ===== *)
theory Rci_Safety
  imports Rci_Run
begin

text \<open>
  What holds of every reachable inquiry: a hard warrant decision rests on recorded, checked evidence,
  a promoted lemma rests on a hard decision about exactly its relation, kind and scope, an accepted
  effect result comes from the captured return of a started attempt, and the standing of an
  obligation follows the lawful transitions.
\<close>

section \<open>Which events touch which records\<close>

lemmas evolve_defs = evolve_def is_started_event_def evolve_started_def construct_def
  evolve_requested_def evolve_attempt_planned_def evolve_attempt_started_def evolve_no_attempt_def
  evolve_attempt_outcome_def evolve_decode_outcome_def evolve_result_accepted_def

lemma evolve_decisions:
  assumes "valid_state sha s" "evolve sha s e = Inr t"
  shows "st_warrant_decisions t = st_warrant_decisions s \<or>
    (\<exists>b sc d. e = WarrantDecisionRecorded b sc d \<and> st_status s = Active \<and>
       decide_warrant sha s b (warrant_request_of sc d) = Inr [e] \<and>
       st_warrant_decisions t = st_warrant_decisions s @ [d])"
  using assms
  by (cases e)
    (auto simp: evolve_defs decide_def is_start_def require_active_def valid_state_def valid_lifecycle_def
      no_records_def initial_state_def split: if_splits option.splits dest!: advance_InrD advance_request_InrD)

lemma evolve_versions:
  assumes "valid_state sha s" "evolve sha s e = Inr t"
  shows "st_lemma_versions t = st_lemma_versions s \<or>
    (\<exists>b v supp link. e = LemmaPromoted b v supp link \<and> st_status s = Active \<and>
       decide_promote sha s b (promote_request_of v supp link) = Inr [e] \<and>
       st_lemma_versions t = st_lemma_versions s @ [v] \<and> st_promotion_links t = st_promotion_links s @ [link])"
  using assms
  by (cases e)
    (auto simp: evolve_defs decide_def is_start_def require_active_def valid_state_def valid_lifecycle_def
      no_records_def initial_state_def split: if_splits option.splits dest!: advance_InrD advance_request_InrD)

lemma evolve_dispositions:
  assumes "valid_state sha s" "evolve sha s e = Inr t"
  shows "st_obligation_dispositions t = st_obligation_dispositions s \<or>
    (\<exists>b d. e = ObligationDispositionRecorded b d \<and>
       decide_obligation_disposition sha s b d = Inr [e] \<and>
       st_obligation_dispositions t = st_obligation_dispositions s @ [d])"
  using assms
  by (cases e)
    (auto simp: evolve_defs decide_def is_start_def require_active_def valid_state_def valid_lifecycle_def
      no_records_def initial_state_def split: if_splits option.splits dest!: advance_InrD advance_request_InrD)

section \<open>Invariants of the runtime\<close>

text \<open>A property that every accepted event keeps holds of every reachable state.\<close>

lemma reachable_invariant [consumes 1, case_names start step]:
  assumes "reachable sha s log" "P initial_state"
    and step: "\<And>s e t. valid_state sha s \<Longrightarrow> P s \<Longrightarrow> evolve sha s e = Inr t \<Longrightarrow> extends s t \<Longrightarrow> P t"
  shows "P s"
proof -
  have run: "P t" if "replay sha es s = Inr t" "valid_state sha s" "P s" for es s t
    using that
  proof (induction es arbitrary: s)
    case (Cons e es)
    then obtain u where u: "evolve sha s e = Inr u" "replay sha es u = Inr t" by (auto split: sum.splits)
    then show ?case
      using Cons step evolve_valid [OF u(1)] evolve_extends [OF _ u(1)] by blast
  qed simp
  have "P s \<and> valid_state sha s" using assms(1)
    by (induction rule: reachable.induct)
      (use assms(2) initial_state_valid run replay_sound handle_Inr_iff in blast)+
  then show ?thesis by blast
qed

section \<open>Warrant\<close>

text \<open>A decision is justified if it was made under the warrant policy of the inquiry and, when it is
  hard, by a recorded pair of evidence and verdict that passes the hard-evidence gate in the scope of
  the inquiry.\<close>

definition decision_justified :: "(string \<Rightarrow> digest) \<Rightarrow> inquiry_state \<Rightarrow> warrant_decision \<Rightarrow> bool" where
  "decision_justified sha s d \<longleftrightarrow> (\<exists>ctx e v sc. st_context s = Some ctx \<and>
     e \<in> set (st_evidence_records s) \<and> ev_id e = wd_evidence_id d \<and>
     v \<in> set (st_checker_verdicts s) \<and> cv_id v = wd_checker_verdict_id d \<and>
     scope_matches_context sha s sc \<and> scope_fingerprint sha sc = wd_scope_fingerprint d \<and>
     wd_policy_version d = ctx_warrant_policy_version ctx \<and>
     (wd_warrant_class d = Hard \<longleftrightarrow> hard_evidence sha e v (wd_proposition_id d) (wd_proposition_kind d) sc
        (set (ctx_discharge_mechanism_ids ctx))))"

text \<open>A lemma version is justified if a promotion link ties it to recorded source claims and to a
  recorded hard decision about exactly its relation, kind and scope.\<close>

definition lemma_justified :: "(string \<Rightarrow> digest) \<Rightarrow> inquiry_state \<Rightarrow> lemma_version \<Rightarrow> bool" where
  "lemma_justified sha s v \<longleftrightarrow> (\<exists>link d. link \<in> set (st_promotion_links s) \<and>
     pl_lemma_version_id link = lv_id v \<and> pl_source_claim_ids link = lv_source_claim_ids v \<and>
     lv_source_claim_ids v \<noteq> [] \<and> set (lv_source_claim_ids v) \<subseteq> claim_id ` set (st_claims s) \<and>
     d \<in> set (st_warrant_decisions s) \<and> wd_id d = pl_warrant_decision_id link \<and> wd_warrant_class d = Hard \<and>
     wd_proposition_id d = lv_relation_id v \<and> wd_proposition_kind d = lv_proposition_kind v \<and>
     wd_scope_fingerprint d = scope_fingerprint sha (lv_scope v))"

lemma extends_context: "extends s t \<Longrightarrow> st_status s = Active \<Longrightarrow> st_context t = st_context s"
  by (simp add: extends_def identity_fixed_def)

lemma extends_sets:
  assumes "extends s t"
  shows "set (st_evidence_records s) \<subseteq> set (st_evidence_records t)"
    "set (st_checker_verdicts s) \<subseteq> set (st_checker_verdicts t)"
    "set (st_warrant_decisions s) \<subseteq> set (st_warrant_decisions t)"
    "set (st_promotion_links s) \<subseteq> set (st_promotion_links t)"
    "set (st_claims s) \<subseteq> set (st_claims t)"
  using assms by (simp_all add: extends_def records_grow_def set_mono_prefix)

lemma justified_keeps:
  assumes "extends s t" "st_status s = Active"
  shows "decision_justified sha s d \<Longrightarrow> decision_justified sha t d"
    and "lemma_justified sha s v \<Longrightarrow> lemma_justified sha t v"
proof -
  have c: "scope_matches_context sha t sc = scope_matches_context sha s sc" for sc
    using extends_context [OF assms] by (simp add: scope_matches_context_def)
  show "decision_justified sha s d \<Longrightarrow> decision_justified sha t d"
    unfolding decision_justified_def c extends_context [OF assms] using extends_sets(1,2) [OF assms(1)] by blast
  show "lemma_justified sha s v \<Longrightarrow> lemma_justified sha t v"
    unfolding lemma_justified_def using extends_sets(3-5) [OF assms(1)] by blast
qed

lemma active_if_records:
  "valid_state sha s \<Longrightarrow> st_warrant_decisions s \<noteq> [] \<or> st_lemma_versions s \<noteq> [] \<or>
     st_obligation_dispositions s \<noteq> [] \<Longrightarrow> st_status s = Active"
  by (cases "st_status s") (auto simp: valid_state_def valid_lifecycle_def no_records_def)

lemma warrant_decided_justified:
  assumes "decide_warrant sha s b (warrant_request_of sc d) = Inr [e]" "e = WarrantDecisionRecorded b' sc' d"
  shows "decision_justified sha s d"
proof -
  obtain x v ctx where h: "scope_matches_context sha s sc" "evidence_by_id s (wd_evidence_id d) = Some x"
    "checker_verdict_by_id s (wd_checker_verdict_id d) = Some v" "st_context s = Some ctx"
    "d = warrant_record sha ctx (warrant_request_of sc d) x v"
    using assms by (auto simp: decide_warrant_iff warrant_request_of_def)
  have f: "x \<in> set (st_evidence_records s)" "ev_id x = wd_evidence_id d"
      "v \<in> set (st_checker_verdicts s)" "cv_id v = wd_checker_verdict_id d"
    using h(2,3) by (auto simp: evidence_by_id_def checker_verdict_by_id_def dest: find_by_SomeD)
  let ?w = "decide_evidence_warrant sha x v (wd_proposition_id d) (wd_proposition_kind d) sc
    (ctx_discharge_mechanism_ids ctx)"
  have "wd_warrant_class (warrant_record sha ctx (warrant_request_of sc d) x v) = fst ?w"
    "wd_policy_version (warrant_record sha ctx (warrant_request_of sc d) x v) = ctx_warrant_policy_version ctx"
    "wd_scope_fingerprint (warrant_record sha ctx (warrant_request_of sc d) x v) = scope_fingerprint sha sc"
    by (simp_all add: warrant_record_def warrant_request_of_def split_beta)
  then have "wd_warrant_class d = fst ?w" "wd_policy_version d = ctx_warrant_policy_version ctx"
    "wd_scope_fingerprint d = scope_fingerprint sha sc"
    unfolding h(5) [symmetric] by simp_all
  with f h(1,4) show ?thesis unfolding decision_justified_def by (metis decide_evidence_hard_iff)
qed

lemma decisions_justified:
  assumes "reachable sha s log"
  shows "\<forall>d \<in> set (st_warrant_decisions s). decision_justified sha s d"
  using assms
proof (induction rule: reachable_invariant)
  case (step s e t)
  have keep: "\<forall>d \<in> set (st_warrant_decisions s). decision_justified sha t d"
  proof (cases "st_warrant_decisions s = []")
    case False
    then have "st_status s = Active" using active_if_records [OF step(1)] by simp
    then show ?thesis using step(4,3) justified_keeps(1) by blast
  qed simp
  from evolve_decisions [OF step(1,2)] show ?case
  proof (elim disjE exE conjE)
    fix b sc d assume h: "e = WarrantDecisionRecorded b sc d" "st_status s = Active"
      "decide_warrant sha s b (warrant_request_of sc d) = Inr [e]"
      "st_warrant_decisions t = st_warrant_decisions s @ [d]"
    have "decision_justified sha t d"
      by (rule justified_keeps(1) [OF step(3) h(2) warrant_decided_justified [OF h(3,1)]])
    then show ?thesis using keep h(4) by simp
  qed (use keep in simp)
qed (simp add: initial_state_def)

lemma promotion_decided_justified:
  assumes "decide_promote sha s b (promote_request_of v supp link) = Inr [e]" "e = LemmaPromoted b' v supp link"
    and "evolve sha s e = Inr t" "extends s t" "st_promotion_links t = st_promotion_links s @ [link]"
  shows "lemma_justified sha t v"
proof -
  let ?p = "promote_request_of v supp link"
  obtain d ctx x w ls l where g: "promotable sha s ?p d ctx x w ls" "finish_promotion s b ?p l d = Inr [e]"
    using assms(1) unfolding decide_promote_iff by blast
  have lk: "link = promotion_link_of ?p l d" "v = wl_version l"
    using conjunct2 [OF conjunct2 [OF conjunct2 [OF g(2) [unfolded finish_promotion_iff]]]]
    unfolding assms(2) event.inject by blast+
  have "pl_lemma_version_id link = lv_id v" "pl_source_claim_ids link = lv_source_claim_ids v"
    using arg_cong [OF lk(1), of pl_lemma_version_id] arg_cong [OF lk(1), of pl_source_claim_ids] lk(2)
    by (simp_all add: promotion_link_of_def promote_request_of_def)
  moreover have "d \<in> set (st_warrant_decisions s)" "wd_id d = pl_warrant_decision_id link"
    using g(1) find_by_SomeD [of wd_id "pl_warrant_decision_id link" "st_warrant_decisions s" d]
    by (simp_all add: promotable_def warrant_decision_by_id_def promote_request_of_def)
  moreover have "lv_source_claim_ids v \<noteq> []" "set (lv_source_claim_ids v) \<subseteq> claim_id ` set (st_claims s)"
    "wd_warrant_class d = Hard" "wd_proposition_id d = lv_relation_id v"
    "wd_proposition_kind d = lv_proposition_kind v" "wd_scope_fingerprint d = scope_fingerprint sha (lv_scope v)"
    using g(1) by (simp_all add: promotable_def decision_for_promotion_def promote_request_of_def)
  moreover have "link \<in> set (st_promotion_links t)" using assms(5) by simp
  ultimately show ?thesis
    using extends_sets(3,5) [OF assms(4)] unfolding lemma_justified_def by blast
qed

lemma versions_justified:
  assumes "reachable sha s log"
  shows "\<forall>v \<in> set (st_lemma_versions s). lemma_justified sha s v"
  using assms
proof (induction rule: reachable_invariant)
  case (step s e t)
  have keep: "\<forall>v \<in> set (st_lemma_versions s). lemma_justified sha t v"
  proof (cases "st_lemma_versions s = []")
    case False
    then have "st_status s = Active" using active_if_records [OF step(1)] by simp
    then show ?thesis using step(4,3) justified_keeps(2) by blast
  qed simp
  from evolve_versions [OF step(1,2)] show ?case
  proof (elim disjE exE conjE)
    fix b v supp link assume h: "e = LemmaPromoted b v supp link"
      "decide_promote sha s b (promote_request_of v supp link) = Inr [e]"
      "st_lemma_versions t = st_lemma_versions s @ [v]" "st_promotion_links t = st_promotion_links s @ [link]"
    have "lemma_justified sha t v"
      by (rule promotion_decided_justified [OF h(2,1) step(2,3) h(4)])
    then show ?thesis using keep h(3) by simp
  qed (use keep in simp)
qed (simp add: initial_state_def)

section \<open>Obligation standing\<close>

text \<open>Every recorded disposition of an inquiry continued the history of its obligation: it names the
  previous disposition of that obligation (or none), it is a lawful change of the previous standing,
  it is never the generic verdict of impossibility, and satisfaction cites evidence.\<close>

definition lawful_disposition :: "obligation list \<Rightarrow> obligation_disposition list \<Rightarrow> obligation_disposition \<Rightarrow> bool" where
  "lawful_disposition obligations before d \<longleftrightarrow>
    (let tail = index_by disp_obligation_id before (disp_obligation_id d) in
     disp_predecessor_id d = map_option disp_id tail \<and> disp_status d \<noteq> Impossible \<and>
     (disp_status d = Satisfied \<longrightarrow> disp_evidence_refs d \<noteq> []) \<and>
     (\<exists>q \<in> set obligations. obl_id q = disp_obligation_id d \<and>
        disp_status d \<in> lawful_statuses (case tail of Some t \<Rightarrow> disp_status t | None \<Rightarrow> obl_status q)))"

definition lawful_history :: "obligation list \<Rightarrow> obligation_disposition list \<Rightarrow> bool" where
  "lawful_history obligations ds \<longleftrightarrow> (\<forall>n < length ds. lawful_disposition obligations (take n ds) (ds ! n))"

lemma lawful_history_snoc:
  "lawful_history qs (ds @ [d]) \<longleftrightarrow> lawful_history qs ds \<and> lawful_disposition qs ds d"
  by (auto simp: lawful_history_def nth_append less_Suc_eq)

lemma lawful_history_mono: "lawful_history qs ds \<Longrightarrow> set qs \<subseteq> set qs' \<Longrightarrow> lawful_history qs' ds"
  unfolding lawful_history_def lawful_disposition_def Let_def by blast

lemma disposition_decided_lawful:
  assumes "decide_obligation_disposition sha s b d = Inr [e]"
  shows "lawful_disposition (st_obligations s) (st_obligation_dispositions s) d"
proof -
  obtain q where q: "find_by obl_id (disp_obligation_id d) (st_obligations s) = Some q"
    using assms by (auto simp: decide_obligation_disposition_def obligation_by_id_def split: option.splits)
  then have "q \<in> set (st_obligations s)" "obl_id q = disp_obligation_id d" by (auto dest: find_by_SomeD)
  with q assms show ?thesis
    by (auto simp: decide_obligation_disposition_def obligation_by_id_def Let_def disposition_tail_def
        lawful_disposition_def)
qed

lemma derived_obligations_open:
  assumes "derive_claim_consequences sha s c = Inr (cs, qs)" "q \<in> set qs"
  shows "obl_status q = Open"
proof -
  obtain attacks where "set attacks \<subseteq> set_option (mandatory_attack_obligation sha c)"
    "q \<in> set (attacks @ map (conflict_obligation sha) cs)"
    using derive_consequences_shape [OF assms(1)] assms(2) by blast
  then show ?thesis
    by (auto simp: mandatory_attack_obligation_def Let_def conflict_obligation_def split: option.splits if_splits)
qed

lemma evolve_obligations:
  assumes "valid_state sha s" "evolve sha s e = Inr t"
  shows "\<exists>new. st_obligations t = st_obligations s @ new \<and> (\<forall>q \<in> set new. obl_status q = Open)"
proof (cases e)
  case (ClaimAdmitted b c cs qs)
  then have h: "decide_admit_claim sha s b c = Inr [e]" "st_obligations t = st_obligations s @ qs"
    using assms(2) by (auto simp: evolve_def is_started_event_def decide_def is_start_def require_active_def
        dest!: advance_InrD)
  then have "derive_claim_consequences sha s c = Inr (cs, qs)"
    using ClaimAdmitted by (auto simp: decide_admit_claim_def map_sum_Inr_iff)
  then show ?thesis using h(2) derived_obligations_open by blast
next
  case (ObligationOpened b q)
  then have "decide_open_obligation sha s b q = Inr [e]" "st_obligations t = st_obligations s @ [q]"
    using assms(2) by (auto simp: evolve_def is_started_event_def decide_def is_start_def require_active_def
        dest!: advance_InrD)
  then show ?thesis by (auto simp: decide_open_obligation_def split: if_splits)
qed (use assms in \<open>auto simp: evolve_defs valid_state_def valid_lifecycle_def no_records_def initial_state_def
      split: if_splits option.splits dest!: advance_InrD advance_request_InrD\<close>)

lemma obligations_open:
  assumes "reachable sha s log"
  shows "\<forall>q \<in> set (st_obligations s). obl_status q = Open"
  using assms
proof (induction rule: reachable_invariant)
  case (step s e t)
  then show ?case using evolve_obligations [OF step(1,2)] by auto
qed (simp add: initial_state_def)

lemma dispositions_lawful:
  assumes "reachable sha s log"
  shows "lawful_history (st_obligations s) (st_obligation_dispositions s)"
  using assms
proof (induction rule: reachable_invariant)
  case (step s e t)
  have "set (st_obligations s) \<subseteq> set (st_obligations t)"
    using step(3) by (simp add: extends_def records_grow_def set_mono_prefix)
  then have keep: "lawful_history (st_obligations s) ds \<Longrightarrow> lawful_history (st_obligations t) ds" for ds
    using lawful_history_mono by blast
  from evolve_dispositions [OF step(1,2)] show ?case
  proof (elim disjE exE conjE)
    fix b d assume h: "decide_obligation_disposition sha s b d = Inr [e]"
      "st_obligation_dispositions t = st_obligation_dispositions s @ [d]"
    have "lawful_history (st_obligations s) (st_obligation_dispositions s @ [d])"
      using step(4) disposition_decided_lawful [OF h(1)] by (simp add: lawful_history_snoc)
    then show ?thesis using keep h(2) by simp
  qed (use keep step(4) in simp)
qed (simp add: initial_state_def lawful_history_def)

section \<open>Properties of every reachable inquiry\<close>

text \<open>C1: no lemma without a warrant. Every lemma version of a reachable inquiry goes back, through its
  promotion link, to the recorded claims it was promoted from and to a recorded warrant decision that is hard and
  about exactly its relation, proposition kind and scope. That decision was made under the warrant policy of the
  inquiry on the recorded pair of evidence and verdict that it cites, and this pair passes the hard-evidence gate
  for the lemma: an authorized checker certified, as valid and for the same artifact, a witness of the existential
  relation or an exhaustive UNSAT over the closed universe of the scope.\<close>

theorem lemmas_rest_on_checked_evidence:
  assumes "reachable sha s log" "v \<in> set (st_lemma_versions s)"
  shows "\<exists>link d ctx e cv sc. link \<in> set (st_promotion_links s) \<and> pl_lemma_version_id link = lv_id v \<and>
    pl_source_claim_ids link = lv_source_claim_ids v \<and>
    set (lv_source_claim_ids v) \<subseteq> claim_id ` set (st_claims s) \<and> lv_source_claim_ids v \<noteq> [] \<and>
    d \<in> set (st_warrant_decisions s) \<and> wd_id d = pl_warrant_decision_id link \<and>
    wd_warrant_class d = Hard \<and> wd_proposition_id d = lv_relation_id v \<and>
    wd_proposition_kind d = lv_proposition_kind v \<and> wd_scope_fingerprint d = scope_fingerprint sha (lv_scope v) \<and>
    st_context s = Some ctx \<and> wd_policy_version d = ctx_warrant_policy_version ctx \<and>
    e \<in> set (st_evidence_records s) \<and> ev_id e = wd_evidence_id d \<and>
    cv \<in> set (st_checker_verdicts s) \<and> cv_id cv = wd_checker_verdict_id d \<and>
    scope_fingerprint sha sc = scope_fingerprint sha (lv_scope v) \<and> scope_matches_context sha s sc \<and>
    checked_pair e cv (lv_relation_id v) (lv_proposition_kind v) (scope_fingerprint sha (lv_scope v))
      (set (ctx_discharge_mechanism_ids ctx)) \<and>
    (ev_kind e = IndependentWitness \<and> lv_proposition_kind v = Existential \<or>
     ev_kind e = ExhaustiveUnsat \<and> ev_closed_finite_universe e \<and> scope_closed_world sc \<and>
     scope_finite_universe_hash sc \<noteq> None \<and> ev_finite_universe_hash e = scope_finite_universe_hash sc)"
proof -
  obtain link d where l: "link \<in> set (st_promotion_links s)" "pl_lemma_version_id link = lv_id v"
    "pl_source_claim_ids link = lv_source_claim_ids v"
    "set (lv_source_claim_ids v) \<subseteq> claim_id ` set (st_claims s)" "lv_source_claim_ids v \<noteq> []"
    "d \<in> set (st_warrant_decisions s)" "wd_id d = pl_warrant_decision_id link" "wd_warrant_class d = Hard"
    "wd_proposition_id d = lv_relation_id v" "wd_proposition_kind d = lv_proposition_kind v"
    "wd_scope_fingerprint d = scope_fingerprint sha (lv_scope v)"
    using versions_justified [OF assms(1)] assms(2) unfolding lemma_justified_def by blast
  have "decision_justified sha s d" using decisions_justified [OF assms(1)] l(6) by blast
  then obtain ctx e cv sc where j: "st_context s = Some ctx" "e \<in> set (st_evidence_records s)" "ev_id e = wd_evidence_id d"
    "cv \<in> set (st_checker_verdicts s)" "cv_id cv = wd_checker_verdict_id d" "scope_matches_context sha s sc"
    "scope_fingerprint sha sc = wd_scope_fingerprint d" "wd_policy_version d = ctx_warrant_policy_version ctx"
    "hard_evidence sha e cv (wd_proposition_id d) (wd_proposition_kind d) sc (set (ctx_discharge_mechanism_ids ctx))"
    unfolding decision_justified_def using l(8) by blast
  note h = j(9) [unfolded hard_evidence_def j(7) l(9-11)]
  show ?thesis
    using l j(1-6,8) j(7) [unfolded l(11)] h by (intro exI conjI) (assumption | elim conjE)+
qed

theorem lemmas_rest_on_checked_evidence_witness:
  "\<exists>d \<in> set (st_warrant_decisions run_promoted). \<exists>e \<in> set (st_evidence_records run_promoted).
     wd_id d = ''d'' \<and> wd_warrant_class d = Hard \<and> wd_proposition_id d = ''p'' \<and> ev_id e = wd_evidence_id d \<and>
     ev_kind e = IndependentWitness"
proof -
  obtain log where r: "reachable zero_digest run_promoted log" using promoted_reachable ..
  have v: "wl_version run_lemma \<in> set (st_lemma_versions run_promoted)" by (simp add: run_promoted_def)
  have "pl_warrant_decision_id link = ''d''" if "link \<in> set (st_promotion_links run_promoted)" for link
    using that by (simp add: run_promoted_def run_link_def promotion_link_of_def run_decision_def run_warrant_def)
  moreover have "ev_kind e = IndependentWitness" if "e \<in> set (st_evidence_records run_promoted)" for e
    using that by (auto simp: run_promoted_def run_decided_def run_checked_def run_claimed_def demo_state_def run_evidence_def)
  moreover have "lv_relation_id (wl_version run_lemma) = ''p''" by (simp add: run_lemma_def)
  ultimately show ?thesis using lemmas_rest_on_checked_evidence [OF r v] by metis
qed

text \<open>C8: obligations follow their status machine. In a reachable inquiry every obligation was opened
  open; each recorded disposition continues the history of its obligation with a lawful change of
  standing; no obligation stands impossible, and one that stands satisfied has a disposition citing
  evidence.\<close>

theorem obligations_follow_machine:
  assumes "reachable sha s log"
  shows "lawful_history (st_obligations s) (st_obligation_dispositions s) \<and>
    (\<forall>q \<in> set (st_obligations s). obl_status q = Open) \<and>
    current_obligation_status s i \<noteq> Some Impossible \<and>
    (current_obligation_status s i = Some Satisfied \<longrightarrow>
       (\<exists>d \<in> set (st_obligation_dispositions s). disp_obligation_id d = i \<and> disp_status d = Satisfied \<and>
          disp_evidence_refs d \<noteq> []))"
proof -
  note h = dispositions_lawful [OF assms] and o = obligations_open [OF assms]
  have law: "disp_status d \<noteq> Impossible \<and> (disp_status d = Satisfied \<longrightarrow> disp_evidence_refs d \<noteq> [])"
    if "d \<in> set (st_obligation_dispositions s)" for d
    using that h unfolding lawful_history_def in_set_conv_nth
    by (auto simp: lawful_disposition_def Let_def)
  have tail: "d \<in> set (st_obligation_dispositions s) \<and> disp_obligation_id d = i"
    if "disposition_tail s i = Some d" for d
    using that unfolding disposition_tail_def index_by_def by (auto dest: find_by_SomeD)
  have q: "obl_status q = Open" if "obligation_by_id s i = Some q" for q
    using that o by (auto simp: obligation_by_id_def dest: find_by_SomeD)
  show ?thesis
    using h o law tail q
    by (auto simp: current_obligation_status_def split: option.splits)
qed

theorem obligations_follow_machine_witness:
  "current_obligation_status run_claimed (obl_id (hd run_obligations)) = Some Open \<and>
   lawful_history (st_obligations run_claimed) (st_obligation_dispositions run_claimed) \<and>
   current_obligation_status run_claimed (obl_id (hd run_obligations)) \<noteq> Some Impossible"
proof -
  obtain log where r: "reachable zero_digest run_claimed log" using claimed_reachable ..
  have "current_obligation_status run_claimed (obl_id (hd run_obligations)) = Some Open" by code_simp
  then show ?thesis using obligations_follow_machine [OF r] by blast
qed

end
