(* ===== verification/Rci_Reduction.thy ===== *)
theory Rci_Reduction
  imports Rci_Run
begin

text \<open>
  When a decided event can be reduced. \<open>decide\<close> is called before the event exists and \<open>evolve\<close>
  constructs the next aggregate, whose validator may still refuse it. The condition
  \<open>reducible\<close> of the four branches that leave something to the validator is shown to be exact: with
  it the event is reduced, without it the reducer refuses.
\<close>

section \<open>What the validator refuses\<close>

lemma map_filter_distinct_inj:
  assumes "distinct (List.map_filter f xs)" "x \<in> set xs" "y \<in> set xs" "f x = Some k" "f y = Some k"
  shows "x = y"
  using assms
proof (induction xs)
  case (Cons z zs)
  have "k \<notin> set (List.map_filter f zs)" if "f z = Some k"
    using Cons.prems(1) that by (simp add: List.map_filter_simps)
  then show ?case
    using Cons by (auto simp: List.map_filter_simps set_map_filter split: option.splits)
qed simp

lemma reused_result_refused:
  assumes "valid_state sha s" "decide sha s (AcceptEffectResult b i j) = Inr [ev]"
    and "request_by_id s i = Some r" "decoded_by r j = Some x"
    and "result_id x \<in> set (global_result_ids (st_effect_requests s))"
  shows "\<not> is_ok (evolve sha s ev)"
proof
  note a = decide_activeD [OF assms(2)]
  have ev: "ev = EffectResultAccepted b i j" "ers_accepted_decoded_outcome_id r = None"
    using a(3) assms(3) by (auto simp: is_start_def decide_accept_result_def split: option.splits if_splits)
  assume "is_ok (evolve sha s ev)"
  then obtain t where t: "evolve sha s ev = Inr t" by (cases "evolve sha s ev") simp_all
  let ?r = "r\<lparr>ers_accepted_decoded_outcome_id := Some j\<rparr>"
  have i: "ers_id r = i" "r \<in> set (st_effect_requests s)"
    using assms(3) by (auto simp: request_by_id_def dest: find_by_SomeD)
  have "advance_request sha s ?r = Inr t"
    using t ev assms(3,4) by (simp add: evolve_def is_started_event_def evolve_result_accepted_def split: if_splits)
  then have t': "t = s\<lparr>st_effect_requests := replace_request ?r (st_effect_requests s), st_sequence := Suc (st_sequence s)\<rparr>"
    by (blast dest: advance_request_InrD)
  obtain y where y: "y \<in> set (st_effect_requests s)" "map_option result_id (accepted_result y) = Some (result_id x)"
    using assms(5) by (auto simp: global_result_ids_def set_map_filter)
  have "y \<noteq> r" using y(2) ev(2) by (auto simp: accepted_result_def)
  moreover have dist: "distinct (map ers_id (st_effect_requests s))"
    using assms(1) by (simp add: valid_state_def valid_requests_def)
  ultimately have "ers_id y \<noteq> i" using find_by_distinct [OF dist y(1)] assms(3) by (auto simp: request_by_id_def)
  then have in_t: "y \<in> set (st_effect_requests t)" "?r \<in> set (st_effect_requests t)"
    using y(1) i by (force simp: t' replace_request_def)+
  have rx: "map_option result_id (accepted_result ?r) = Some (result_id x)"
    using assms(4) by (simp add: accepted_result_def decoded_by_def find_decode_def)
  have dt: "distinct (List.map_filter (\<lambda>r. map_option result_id (accepted_result r)) (st_effect_requests t))"
    using evolve_valid [OF t] by (simp add: valid_state_def valid_requests_def global_result_ids_def)
  have "y = ?r" by (rule map_filter_distinct_inj [OF dt in_t y(2) rx])
  then show False using \<open>ers_id y \<noteq> i\<close> i(1) by simp
qed

lemma mismatched_warrant_refused:
  assumes "valid_state sha s" "decide sha s (EvaluateWarrant b w) = Inr [ev]"
    and "\<not> reducible sha s (EvaluateWarrant b w)"
  shows "\<not> is_ok (evolve sha s ev)"
proof
  note a = decide_activeD [OF assms(2)]
  obtain e v ctx where d: "evidence_by_id s (wr_evidence_id w) = Some e"
    "checker_verdict_by_id s (wr_checker_verdict_id w) = Some v"
    "ev = WarrantDecisionRecorded b (wr_scope w) (warrant_record sha ctx w e v)"
    using a(3) by (auto simp: is_start_def decide_warrant_iff)
  let ?d = "warrant_record sha ctx w e v"
  assume "is_ok (evolve sha s ev)"
  then obtain t where t: "evolve sha s ev = Inr t" by (cases "evolve sha s ev") simp_all
  then have t': "st_warrant_decisions t = st_warrant_decisions s @ [?d]" "st_evidence_records t = st_evidence_records s"
    using d(3) by (auto simp: evolve_def is_started_event_def split: if_splits dest!: advance_InrD)
  have vw: "valid_warrants t" using evolve_valid [OF t] by (simp add: valid_state_def)
  then have "decision_pins (index_by ev_id (st_evidence_records t) (wd_evidence_id ?d))
      (index_by cv_id (st_checker_verdicts t) (wd_checker_verdict_id ?d)) ?d"
    unfolding valid_warrants_def t'(1) by simp
  moreover have "distinct (map ev_id (st_evidence_records t))" using vw by (simp add: valid_warrants_def)
  then have "index_by ev_id (st_evidence_records t) (wd_evidence_id ?d) = Some e"
    using d(1) find_by_SomeD [of ev_id "wr_evidence_id w" "st_evidence_records s" e]
    by (simp add: index_by_distinct t'(2) evidence_by_id_def)
  ultimately have "ev_proposition_id e = wr_proposition_id w \<and> ev_proposition_kind e = wr_proposition_kind w \<and>
      ev_scope_fingerprint e = scope_fingerprint sha (wr_scope w)"
    by (simp add: decision_pins_def split: option.splits)
  then show False using assms(3) d(1) by simp
qed

lemma clashing_obligation_refused:
  assumes "decide sha s (AdmitClaim b c) = Inr [ev]" "evolve sha s ev = Inr t"
  shows "reducible sha s (AdmitClaim b c)"
proof -
  obtain cs qs where d: "derive_claim_consequences sha s c = Inr (cs, qs)" "ev = ClaimAdmitted b c cs qs"
    using decide_activeD(3) [OF assms(1)] by (auto simp: is_start_def decide_admit_claim_def map_sum_Inr_iff)
  have "st_obligations t = st_obligations s @ qs"
    using assms(2) d(2) by (auto simp: evolve_def is_started_event_def split: if_splits dest!: advance_InrD)
  moreover have "distinct (map obl_id (st_obligations t))"
    using evolve_valid [OF assms(2)] by (simp add: valid_state_def valid_claim_records_def)
  ultimately show ?thesis using d(1) by simp
qed

lemma unowned_promotion_refused:
  assumes "decide sha s (PromoteClaim b p) = Inr [ev]" "evolve sha s ev = Inr t"
  shows "reducible sha s (PromoteClaim b p)"
proof -
  obtain d ctx e v ls l where g: "promotable sha s p d ctx e v ls"
    "promotion_gates sha (promotion_of s ctx p e v ls) l" "finish_promotion s b p l d = Inr [ev]"
    using decide_activeD(3) [OF assms(1)] by (auto simp: is_start_def decide_promote_iff)
  let ?link = "promotion_link_of p l d" and ?supp = "wl_support l"
  have ev: "ev = LemmaPromoted b (wl_version l) ?supp ?link" using g(3) unfolding finish_promotion_iff by blast
  have c: "candidate_lemma sha (promotion_of s ctx p e v ls) = Inr l" using g(2) by (simp add: promotion_gates_def)
  note l = candidate_lemma_InrD [OF c]
  have routes: "set (all_support_routes ?supp) = set (pc_support_routes p)"
    using l mset_eq_setD [OF candidate_support_routes [of "promotion_of s ctx p e v ls"]]
    by (simp add: promotion_of_def)
  have t: "st_lemma_supports t = st_lemma_supports s @ [?supp]" "st_promotion_links t = st_promotion_links s @ [?link]"
    "st_evidence_records t = st_evidence_records s" "st_checker_verdicts t = st_checker_verdicts s"
    "st_warrant_decisions t = st_warrant_decisions s"
    using assms(2) ev by (auto simp: evolve_def is_started_event_def split: if_splits dest!: advance_InrD)
  have valid: "valid_lemmas sha t" "valid_warrants t"
    using evolve_valid [OF assms(2)] unfolding valid_state_def by blast+
  have aligned: "aligned_lemmas sha (st_lemma_versions t) (st_lemma_supports t) (st_promotion_links t)" using valid(1) unfolding valid_lemmas_def by blast
  have vt: "valid_lemmas sha t" "distinct (map wd_id (st_warrant_decisions t))"
    "distinct (map ls_lemma_version_id (st_lemma_supports t))"
    using valid aligned unfolding valid_warrants_def aligned_lemmas_def by blast+
  have "distinct (map route_id (routes_of (st_lemma_supports s) @ all_support_routes ?supp))"
    using vt(1) by (simp add: valid_lemmas_def aligned_lemmas_def t routes_of_def)
  then have "set (map route_id (pc_support_routes p)) \<inter> set (map route_id (routes_of (st_lemma_supports s))) = {}"
    using routes by auto
  moreover have "list_all (route_owned (st_evidence_records s) (st_checker_verdicts s)) (all_support_routes ?supp)"
    using vt(1) by (simp add: valid_lemmas_def t routes_of_def)
  then have "list_all (route_owned (st_evidence_records s) (st_checker_verdicts s)) (pc_support_routes p)"
    using routes by (simp add: list_all_iff)
  moreover have "decided_under_policy s (pc_warrant_decision_id p)"
  proof -
    have owned: "link_owned (st_claims t) (st_warrant_decisions s) (st_lemma_supports t) ?link"
      using vt(1) by (simp add: valid_lemmas_def t)
    have wd: "warrant_decision_by_id s (pc_warrant_decision_id p) = Some d" "st_context s = Some ctx"
      using g(1) by (simp_all add: promotable_def)
    then have "wd_id d = pc_warrant_decision_id p"
      by (auto simp: warrant_decision_by_id_def dest: find_by_SomeD)
    then have "index_by wd_id (st_warrant_decisions s) (pl_warrant_decision_id ?link) = Some d"
      using wd(1) vt(2) by (simp add: t index_by_distinct warrant_decision_by_id_def promotion_link_of_def)
    moreover have "ls_lemma_version_id ?supp = wl_id l"
      using conjunct2 [OF l] by (simp add: valid_warranted_lemma_def)
    then have "index_by ls_lemma_version_id (st_lemma_supports t) (pl_lemma_version_id ?link) = Some ?supp"
      using find_by_distinct [OF vt(3), of ?supp] by (simp add: index_by_distinct [OF vt(3) [unfolded t]] t promotion_link_of_def)
    ultimately have "ls_policy_version ?supp = wd_policy_version d" using owned by (auto simp: link_owned_def)
    moreover have "ls_policy_version ?supp = ctx_warrant_policy_version ctx"
      using l by (simp add: candidate_support_def promotion_of_def split_beta)
    ultimately show ?thesis using wd by (simp add: decided_under_policy_def)
  qed
  ultimately show ?thesis by simp
qed

lemma reduced_only_if_reducible:
  assumes "valid_state sha s" "decide sha s c = Inr [ev]" "evolve sha s ev = Inr t"
  shows "reducible sha s c"
proof (cases c)
  case (AcceptEffectResult b i j)
  show ?thesis
  proof (cases "Option.bind (request_by_id s i) (\<lambda>r. decoded_by r j)")
    case (Some x)
    then obtain r where "request_by_id s i = Some r" "decoded_by r j = Some x" by (auto simp: bind_eq_Some_conv)
    then show ?thesis
      using reused_result_refused [OF assms(1) assms(2) [unfolded AcceptEffectResult]] assms(3) AcceptEffectResult
      by (auto simp: is_ok_def)
  qed (simp add: AcceptEffectResult)
next
  case (AdmitClaim b c')
  then show ?thesis using clashing_obligation_refused assms(2,3) by blast
next
  case (EvaluateWarrant b w)
  then show ?thesis using mismatched_warrant_refused [OF assms(1) assms(2) [unfolded EvaluateWarrant]] assms(3)
    by (auto simp: is_ok_def)
next
  case (PromoteClaim b p)
  then show ?thesis using unowned_promotion_refused assms(2,3) by blast
qed simp_all

section \<open>Decided events\<close>

text \<open>C2: which decisions can be reduced. In a valid state, the events a well-formed command is decided into
  are reduced exactly when there are none or the command meets the conditions its branch leaves to the validator:
  a result accepted for the first time, obligations with new identities, a warrant request about exactly its
  evidence, and a promotion with new routes, owned checks and a decision under the warrant policy. The reduced
  state is valid, its sequence grew by the number of events, and it only extends the history of the old
  one.\<close>

theorem decided_events_reduce:
  assumes "valid_state sha s" "valid_command sha c" "decide sha s c = Inr es"
  shows "(is_ok (replay sha es s) \<longleftrightarrow> es = [] \<or> reducible sha s c) \<and>
    (\<forall>t. replay sha es s = Inr t \<longrightarrow>
       valid_state sha t \<and> st_sequence t = st_sequence s + length es \<and> extends s t)"
proof (intro conjI allI impI)
  show "is_ok (replay sha es s) \<longleftrightarrow> es = [] \<or> reducible sha s c"
  proof (cases "es = []")
    case False
    then obtain e where e: "es = [e]" using decide_emits [OF assms(3)] by blast
    note d = assms(3) [unfolded e]
    have "is_ok (replay sha es s) \<longleftrightarrow> (\<exists>t. evolve sha s e = Inr t)"
      by (cases "evolve sha s e") (simp_all add: e is_ok_def)
    then show ?thesis
      using False decided_evolves [OF d assms(1,2)] reduced_only_if_reducible [OF assms(1) d] by blast
  qed (simp add: is_ok_def)
qed (use replay_sound [OF _ assms(1)] in blast)+

theorem decided_events_reduce_witness:
  "(\<exists>t. replay zero_digest [WarrantDecisionRecorded (demo_base ''ev7'') example_scope run_decision] run_checked = Inr t \<and>
      st_sequence t = 7) \<and>
   (let c = EvaluateWarrant (demo_base ''ev7'') (run_warrant\<lparr>wr_proposition_id := ''q''\<rparr>) in
      \<exists>es. decide zero_digest run_checked c = Inr es \<and> \<not> is_ok (replay zero_digest es run_checked))"
proof -
  let ?c = "EvaluateWarrant (demo_base ''ev7'') run_warrant"
  let ?q = "EvaluateWarrant (demo_base ''ev7'') (run_warrant\<lparr>wr_proposition_id := ''q''\<rparr>)"
  let ?e = "WarrantDecisionRecorded (demo_base ''ev7'') example_scope run_decision"
  let ?f = "WarrantDecisionRecorded (demo_base ''ev7'') example_scope (run_decision\<lparr>wd_proposition_id := ''q'',
    wd_warrant_class := NoWarrant, wd_reason := ''evidence proposition does not match exactly''\<rparr>)"
  obtain log where "reachable zero_digest run_checked log" using checked_reachable ..
  then have v: "valid_state zero_digest run_checked" by (rule reachable_valid)
  have c: "valid_command zero_digest ?c \<and> decide zero_digest run_checked ?c = Inr [?e] \<and> reducible zero_digest run_checked ?c"
    by code_simp
  have q: "valid_command zero_digest ?q \<and> decide zero_digest run_checked ?q = Inr [?f] \<and> \<not> reducible zero_digest run_checked ?q"
    by code_simp
  have n: "st_sequence run_checked = 6" by (simp add: run_checked_def)
  have ok: "is_ok (replay zero_digest [?e] run_checked)"
    and len: "\<And>t. replay zero_digest [?e] run_checked = Inr t \<Longrightarrow> st_sequence t = 7"
    using decided_events_reduce [OF v, of ?c "[?e]"] c n by auto
  then have "\<exists>t. replay zero_digest [?e] run_checked = Inr t \<and> st_sequence t = 7"
    by (cases "replay zero_digest [?e] run_checked") (simp_all only: is_ok_def sum.case, blast+)
  moreover have "\<not> is_ok (replay zero_digest [?f] run_checked)"
    using decided_events_reduce [OF v, of ?q "[?f]"] q by auto
  ultimately show ?thesis unfolding Let_def using q by blast
qed

end
