(* ===== verification/Rci_Progress.thy ===== *)
theory Rci_Progress
  imports Rci_Safety Rci_Reduction
begin

text \<open>
  The effect lifecycle makes progress: a request that has not accepted a result can always be taken
  through a new attempt to an accepted result, one command per stage, and every accepted result is
  the decoding of a captured return of a started attempt. The focus of the proofs is one request of
  the inquiry, with the other requests fixed.
\<close>

fun drive :: "(string \<Rightarrow> digest) \<Rightarrow> command list \<Rightarrow> inquiry_state \<Rightarrow> inquiry_state result" where
  "drive sha [] s = Inr s"
| "drive sha (c # cs) s = (case handle sha s c of Inl err \<Rightarrow> Inl err | Inr (es, t) \<Rightarrow> drive sha cs t)"

definition focus ::
  "(string \<Rightarrow> digest) \<Rightarrow> ident \<Rightarrow> ident \<Rightarrow> effect_request_state list \<Rightarrow> inquiry_state \<Rightarrow> effect_request_state \<Rightarrow> bool" where
  "focus sha inq i others s r \<longleftrightarrow> valid_state sha s \<and> st_status s = Active \<and> st_inquiry_id s = Some inq \<and>
     request_by_id s i = Some r \<and> filter (\<lambda>x. ers_id x \<noteq> i) (st_effect_requests s) = others"

lemma focus_requests:
  assumes "focus sha inq i others s r"
  shows "set (st_effect_requests s) = insert r (set others)" "ers_id r = i"
proof -
  have d: "distinct (map ers_id (st_effect_requests s))"
    using assms by (simp add: focus_def valid_state_def valid_requests_def)
  have r: "r \<in> set (st_effect_requests s)" "ers_id r = i"
    using assms find_by_SomeD [of ers_id i "st_effect_requests s" r] by (simp_all add: focus_def request_by_id_def)
  have only: "x = r" if "x \<in> set (st_effect_requests s)" "ers_id x = i" for x
    using find_by_distinct [OF d that(1)] that(2) assms by (simp add: focus_def request_by_id_def)
  have "set others = {x \<in> set (st_effect_requests s). ers_id x \<noteq> i}" using assms by (auto simp: focus_def)
  then show "set (st_effect_requests s) = insert r (set others)" using only r by blast
  show "ers_id r = i" by (rule r(2))
qed

lemma focus_ids:
  assumes "focus sha inq i others s r"
  shows "set (global_attempt_ids (st_effect_requests s)) = att_id ` set (ers_attempts r) \<union> set (global_attempt_ids others)"
    "set (global_return_ids (st_effect_requests s)) = set (return_ids r) \<union> set (global_return_ids others)"
    "set (global_decode_ids (st_effect_requests s)) = dec_id ` set (ers_decode_outcomes r) \<union> set (global_decode_ids others)"
    "set (global_result_ids (st_effect_requests s)) =
       set_option (map_option result_id (accepted_result r)) \<union> set (global_result_ids others)"
  using focus_requests(1) [OF assms]
  by (auto simp: global_attempt_ids_def global_return_ids_def global_decode_ids_def global_result_ids_def
      set_map_filter)

lemma find_replaced:
  "r \<in> set rs \<Longrightarrow> ers_id r = ers_id r' \<Longrightarrow> find_by ers_id (ers_id r') (replace_request r' rs) = Some r'"
  by (induction rs) (auto simp: replace_request_def)

lemma focus_advance:
  assumes "focus sha inq i others s r" "advance_request sha s r' = Inr t" "ers_id r' = i"
  shows "focus sha inq i others t r'"
proof -
  have t: "t = s\<lparr>st_effect_requests := replace_request r' (st_effect_requests s), st_sequence := Suc (st_sequence s)\<rparr>"
    "valid_state sha t" using advance_request_InrD [OF assms(2)] by blast+
  have "filter (\<lambda>x. ers_id x \<noteq> i) (replace_request r' rs) = filter (\<lambda>x. ers_id x \<noteq> i) rs" for rs
    using assms(3) by (induction rs) (simp_all add: replace_request_def)
  moreover have "r \<in> set (st_effect_requests s)" "ers_id r = i" using focus_requests [OF assms(1)] by auto
  then have "find_by ers_id i (replace_request r' (st_effect_requests s)) = Some r'"
    using find_replaced assms(3) by metis
  ultimately show ?thesis
    using assms(1) t by (simp add: focus_def request_by_id_def)
qed

section \<open>The stages\<close>

lemma focus_step:
  assumes "focus sha inq i others s r" "decide_active sha s c = Inr [e]" "\<not> is_start c"
    and "msg_inquiry_id (cmd_base c) = inq" "valid_command sha c" "reducible sha s c"
    and "evolve_active sha s e = advance_request sha s r'" "\<not> is_started_event e" "ers_id r' = i"
  shows "\<exists>es t. handle sha s c = Inr (es, t) \<and> focus sha inq i others t r'"
proof -
  have d: "decide sha s c = Inr [e]"
    using assms(1-4) by (simp add: decide_def require_active_def focus_def)
  moreover have "valid_state sha s" using assms(1) by (simp add: focus_def)
  ultimately obtain t where t: "evolve sha s e = Inr t" using decided_evolves assms(5,6) by blast
  then have "advance_request sha s r' = Inr t" using assms(7,8) by (simp add: evolve_def)
  then have "focus sha inq i others t r'" by (rule focus_advance [OF assms(1) _ assms(9)])
  then show ?thesis using d t by (auto simp: handle_Inr_iff)
qed

lemma fresh_not_found: "i \<notin> key ` set xs \<Longrightarrow> find_by key i (xs @ ys) = find_by key i ys"
  using find_by_None_iff [of key i xs] by (simp add: find_by_append)

lemma find_unique:
  assumes "x \<in> set xs" "P x" "\<And>y. y \<in> set xs \<Longrightarrow> P y \<Longrightarrow> y = x"
  shows "List.find P xs = Some x"
proof (cases "List.find P xs")
  case None
  then show ?thesis using assms(1,2) by (simp add: find_None_iff)
next
  case (Some y)
  then have "y \<in> set xs \<and> P y" by (auto simp: find_Some_iff)
  then show ?thesis using Some assms(3) by simp
qed

lemma update_last:
  assumes "att_id a \<notin> att_id ` set as"
  shows "map (\<lambda>x. if att_id x = att_id a then f x else x) (as @ [a]) = as @ [f a]"
  using assms by (induction as) auto

lemma stage_plan:
  assumes "focus sha inq i others s r" "valid_base b" "msg_inquiry_id b = inq"
    and "ers_accepted_decoded_outcome_id r = None" "valid_attempt_plan p" "ap_request_id p = i"
    and "ap_id p \<notin> att_id ` set (ers_attempts r) \<union> set (global_attempt_ids others)"
  shows "\<exists>es t. handle sha s (PlanEffectAttempt b p) = Inr (es, t) \<and>
    focus sha inq i others t (r\<lparr>ers_attempts := ers_attempts r @ [new_attempt p]\<rparr>)"
proof (rule focus_step [OF assms(1)])
  have r: "request_by_id s i = Some r" using assms(1) by (simp add: focus_def)
  have fresh: "ap_id p \<notin> set (global_attempt_ids (st_effect_requests s))"
    using assms(7) focus_ids(1) [OF assms(1)] by blast
  have "att_id ` set (all_attempts s) = set (global_attempt_ids (st_effect_requests s))"
    by (auto simp: all_attempts_def global_attempt_ids_def)
  then have "find_by att_id (ap_id p) (all_attempts s) = None" using fresh by (simp add: find_by_None_iff)
  then show "decide_active sha s (PlanEffectAttempt b p) = Inr [EffectAttemptPlanned b p]"
    using r assms(4,6) by (simp add: decide_plan_attempt_def)
  show "evolve_active sha s (EffectAttemptPlanned b p) =
      advance_request sha s (r\<lparr>ers_attempts := ers_attempts r @ [new_attempt p]\<rparr>)"
    using r fresh assms(4,6) by (simp add: evolve_attempt_planned_def)
qed (use assms focus_requests(2) [OF assms(1)] in \<open>simp_all add: is_start_def is_started_event_def\<close>)

definition started_attempt :: "effect_attempt_plan \<Rightarrow> message_base \<Rightarrow> attempt_state" where
  "started_attempt p b = \<lparr>att_plan = p, att_started = True, att_started_event_id = Some (msg_event_id b),
     att_started_at = Some (msg_occurred_at b), att_outcome = None\<rparr>"

lemma stage_start:
  assumes "focus sha inq i others s r" "valid_base b" "msg_inquiry_id b = inq"
    and "ers_accepted_decoded_outcome_id r = None" "ers_attempts r = as @ [new_attempt p]"
    and "ap_id p \<notin> att_id ` set as \<union> set (global_attempt_ids others)" "valid_identifier (ap_id p)"
  shows "\<exists>es t. handle sha s (StartEffectAttempt b (ap_id p)) = Inr (es, t) \<and>
    focus sha inq i others t (r\<lparr>ers_attempts := as @ [started_attempt p b]\<rparr>)"
proof (rule focus_step [OF assms(1)])
  have plan: "att_plan (new_attempt p) = p" by (simp add: new_attempt_def)
  let ?has = "\<lambda>x. list_ex (\<lambda>a. att_id a = ap_id p) (ers_attempts x)"
  have "\<not> ?has x" if "x \<in> set others" for x
    using assms(6) that by (force simp: global_attempt_ids_def list_ex_iff image_iff)
  moreover have "?has r" using assms(5) plan by simp
  ultimately have c: "containing_request s (ap_id p) = Some r"
    using focus_requests(1) [OF assms(1)] unfolding containing_request_def by (intro find_unique) auto
  have a: "attempt_of r (ap_id p) = Some (new_attempt p)"
    using assms(5,6) by (simp add: attempt_of_def fresh_not_found plan)
  show "decide_active sha s (StartEffectAttempt b (ap_id p)) = Inr [EffectAttemptStarted b (ap_id p)]"
    using c a assms(4) by (simp add: decide_start_attempt_def new_attempt_def)
  have "start_attempt (ap_id p) (msg_event_id b) (msg_occurred_at b) r = r\<lparr>ers_attempts := as @ [started_attempt p b]\<rparr>"
    using update_last [of "new_attempt p" as] assms(5,6) plan by (simp add: start_attempt_def started_attempt_def)
  then show "evolve_active sha s (EffectAttemptStarted b (ap_id p)) =
      advance_request sha s (r\<lparr>ers_attempts := as @ [started_attempt p b]\<rparr>)"
    using c a assms(4) by (simp add: evolve_attempt_started_def new_attempt_def)
qed (use assms focus_requests(2) [OF assms(1)] in \<open>simp_all add: is_start_def is_started_event_def\<close>)

lemma stage_outcome:
  assumes "focus sha inq i others s r" "valid_base b" "msg_inquiry_id b = inq" "valid_identifier i"
    and "ers_attempts r = as @ [a]" "att_id a \<notin> att_id ` set as" "att_started a" "att_outcome a = None"
    and "valid_outcome oc" "outcome_attempt_id oc = att_id a" "outcome_route_id oc = rs_id (ap_route (att_plan a))"
    and "set_option (returned_id (Some oc)) \<inter> (set (return_ids r) \<union> set (global_return_ids others)) = {}"
  shows "\<exists>es t. handle sha s (RecordAttemptOutcome b i oc) = Inr (es, t) \<and>
    focus sha inq i others t (r\<lparr>ers_attempts := as @ [a\<lparr>att_outcome := Some oc\<rparr>]\<rparr>)"
proof (rule focus_step [OF assms(1)])
  have r: "request_by_id s i = Some r" using assms(1) by (simp add: focus_def)
  have a: "attempt_of r (outcome_attempt_id oc) = Some a"
    using assms(5,6,10) by (simp add: attempt_of_def fresh_not_found)
  have fresh: "case returned_id (Some oc) of None \<Rightarrow> True
      | Some j \<Rightarrow> j \<notin> set (global_return_ids (st_effect_requests s))"
    using assms(12) focus_ids(2) [OF assms(1)] by (auto split: option.split)
  show "decide_active sha s (RecordAttemptOutcome b i oc) = Inr [EffectAttemptOutcomeRecorded b i oc]"
    using r a assms(7,8,11) fresh by (simp add: decide_attempt_outcome_def)
  have "finish_attempt oc r = r\<lparr>ers_attempts := as @ [a\<lparr>att_outcome := Some oc\<rparr>]\<rparr>"
    using update_last [OF assms(6)] assms(5,10) by (simp add: finish_attempt_def)
  then show "evolve_active sha s (EffectAttemptOutcomeRecorded b i oc) =
      advance_request sha s (r\<lparr>ers_attempts := as @ [a\<lparr>att_outcome := Some oc\<rparr>]\<rparr>)"
    using r a assms(7,8,11) by (simp add: evolve_attempt_outcome_def)
qed (use assms focus_requests(2) [OF assms(1)] in \<open>simp_all add: is_start_def is_started_event_def\<close>)

lemma stage_decode:
  assumes "focus sha inq i others s r" "valid_base b" "msg_inquiry_id b = inq" "valid_identifier i"
    and "valid_decode d" "dec_external_return_id d \<in> set (return_ids r)"
    and "dec_id d \<notin> dec_id ` set (ers_decode_outcomes r) \<union> set (global_decode_ids others)"
  shows "\<exists>es t. handle sha s (RecordDecodeOutcome b i d) = Inr (es, t) \<and>
    focus sha inq i others t (r\<lparr>ers_decode_outcomes := ers_decode_outcomes r @ [d]\<rparr>)"
proof (rule focus_step [OF assms(1)])
  have r: "request_by_id s i = Some r" using assms(1) by (simp add: focus_def)
  have fresh: "dec_id d \<notin> set (global_decode_ids (st_effect_requests s))"
    using assms(7) focus_ids(3) [OF assms(1)] by blast
  then have "find_by dec_id (dec_id d) (concat (map ers_decode_outcomes (st_effect_requests s))) = None"
    by (auto simp: find_by_None_iff global_decode_ids_def)
  then show "decide_active sha s (RecordDecodeOutcome b i d) = Inr [EffectDecodeOutcomeRecorded b i d]"
    using r assms(6) by (simp add: decide_decode_outcome_def)
  show "evolve_active sha s (EffectDecodeOutcomeRecorded b i d) =
      advance_request sha s (r\<lparr>ers_decode_outcomes := ers_decode_outcomes r @ [d]\<rparr>)"
    using r fresh assms(6) by (simp add: evolve_decode_outcome_def)
qed (use assms focus_requests(2) [OF assms(1)] in \<open>simp_all add: is_start_def is_started_event_def\<close>)

lemma stage_accept:
  assumes "focus sha inq i others s r" "valid_base b" "msg_inquiry_id b = inq" "valid_identifier i"
    and "ers_accepted_decoded_outcome_id r = None" "valid_identifier j" "decoded_by r j = Some x"
    and "result_id x \<notin> set (global_result_ids others)"
  shows "\<exists>es t. handle sha s (AcceptEffectResult b i j) = Inr (es, t) \<and>
    focus sha inq i others t (r\<lparr>ers_accepted_decoded_outcome_id := Some j\<rparr>)"
proof (rule focus_step [OF assms(1)])
  have r: "request_by_id s i = Some r" using assms(1) by (simp add: focus_def)
  show "decide_active sha s (AcceptEffectResult b i j) = Inr [EffectResultAccepted b i j]"
    using r assms(5,7) by (simp add: decide_accept_result_def)
  show "evolve_active sha s (EffectResultAccepted b i j) =
      advance_request sha s (r\<lparr>ers_accepted_decoded_outcome_id := Some j\<rparr>)"
    using r assms(5,7) by (simp add: evolve_result_accepted_def)
  show "reducible sha s (AcceptEffectResult b i j)"
    using r assms(5,7,8) focus_ids(4) [OF assms(1)] by (simp add: accepted_result_def)
qed (use assms focus_requests(2) [OF assms(1)] in \<open>simp_all add: is_start_def is_started_event_def\<close>)

section \<open>Progress and provenance\<close>

text \<open>What a new attempt needs: identities that the inquiry has not used.\<close>

definition new_attempt_data ::
  "effect_request_state list \<Rightarrow> effect_attempt_plan \<Rightarrow> external_return \<Rightarrow> decode_outcome \<Rightarrow> canonical_result \<Rightarrow> bool" where
  "new_attempt_data rs p ret d x \<longleftrightarrow>
     valid_attempt_plan p \<and> ap_id p \<notin> set (global_attempt_ids rs) \<and>
     valid_external_return ret \<and> er_attempt_id ret = ap_id p \<and> er_route_id ret = rs_id (ap_route p) \<and>
     er_id ret \<notin> set (global_return_ids rs) \<and>
     valid_decode d \<and> dec_content d = Decoded x \<and> dec_external_return_id d = er_id ret \<and>
     dec_id d \<notin> set (global_decode_ids rs) \<and> result_id x \<notin> set (global_result_ids rs)"

definition attempt_commands ::
  "(nat \<Rightarrow> message_base) \<Rightarrow> effect_attempt_plan \<Rightarrow> external_return \<Rightarrow> decode_outcome \<Rightarrow> command list" where
  "attempt_commands b p ret d =
    [PlanEffectAttempt (b 0) p, StartEffectAttempt (b 1) (ap_id p),
     RecordAttemptOutcome (b 2) (ap_request_id p) (ReturnedOutcome (ap_id p) (rs_id (ap_route p)) ret),
     RecordDecodeOutcome (b 3) (ap_request_id p) d, AcceptEffectResult (b 4) (ap_request_id p) (dec_id d)]"

lemma attempt_completes:
  assumes "valid_state sha s" "st_status s = Active" "request_by_id s (ap_request_id p) = Some r"
    and "ers_accepted_decoded_outcome_id r = None" "new_attempt_data (st_effect_requests s) p ret d x"
    and "\<forall>k. valid_base (b k) \<and> st_inquiry_id s = Some (msg_inquiry_id (b k))"
  shows "\<exists>t r'. drive sha (attempt_commands b p ret d) s = Inr t \<and> valid_state sha t \<and>
    request_by_id t (ap_request_id p) = Some r' \<and> accepted_result r' = Some x"
proof -
  let ?i = "ap_request_id p" and ?as = "ers_attempts r"
  define others where "others = filter (\<lambda>x. ers_id x \<noteq> ?i) (st_effect_requests s)"
  obtain inq where inq: "st_inquiry_id s = Some inq" "\<And>k. valid_base (b k)" "\<And>k. msg_inquiry_id (b k) = inq"
    using assms(6) by (cases "st_inquiry_id s") auto
  have f0: "focus sha inq ?i others s r" using assms(1-3) inq(1) by (simp add: focus_def others_def)
  note n = assms(5) [unfolded new_attempt_data_def] and ids = focus_ids [OF f0]
  have v: "valid_identifier (ap_id p)" "valid_identifier ?i" "valid_identifier (dec_id d)"
    using n by (simp_all add: valid_attempt_plan_def valid_decode_def)
  obtain es1 t1 where 1: "handle sha s (PlanEffectAttempt (b 0) p) = Inr (es1, t1)"
    "focus sha inq ?i others t1 (r\<lparr>ers_attempts := ?as @ [new_attempt p]\<rparr>)"
    using stage_plan [OF f0 inq(2) [of 0] inq(3) [of 0] assms(4)] n ids(1) by blast
  obtain es2 t2 where 2: "handle sha t1 (StartEffectAttempt (b 1) (ap_id p)) = Inr (es2, t2)"
    "focus sha inq ?i others t2 (r\<lparr>ers_attempts := ?as @ [started_attempt p (b 1)]\<rparr>)"
    using stage_start [OF 1(2) inq(2) [of 1] inq(3) [of 1], of ?as p] assms(4) n ids(1) v(1) by auto
  let ?oc = "ReturnedOutcome (ap_id p) (rs_id (ap_route p)) ret"
  let ?a = "(started_attempt p (b 1))\<lparr>att_outcome := Some ?oc\<rparr>"
  have rid: "return_ids (r\<lparr>ers_attempts := ?as @ [started_attempt p (b 1)]\<rparr>) = return_ids r"
    "return_ids (r\<lparr>ers_attempts := ?as @ [?a]\<rparr>) = return_ids r @ [er_id ret]"
    by (simp_all add: return_ids_def map_filter_append List.map_filter_simps started_attempt_def)
  obtain es3 t3 where 3: "handle sha t2 (RecordAttemptOutcome (b 2) ?i ?oc) = Inr (es3, t3)"
    "focus sha inq ?i others t3 (r\<lparr>ers_attempts := ?as @ [?a]\<rparr>)"
    using stage_outcome [OF 2(2) inq(2) [of 2] inq(3) [of 2] v(2), of ?as "started_attempt p (b 1)" ?oc] n ids(1,2) v(1) rid(1)
    by (auto simp: started_attempt_def valid_external_return_def)
  obtain es4 t4 where 4: "handle sha t3 (RecordDecodeOutcome (b 3) ?i d) = Inr (es4, t4)"
    "focus sha inq ?i others t4 (r\<lparr>ers_attempts := ?as @ [?a], ers_decode_outcomes := ers_decode_outcomes r @ [d]\<rparr>)"
    using stage_decode [OF 3(2) inq(2) [of 3] inq(3) [of 3] v(2), of d] n ids(3) rid(2) by auto
  let ?r = "r\<lparr>ers_attempts := ?as @ [?a], ers_decode_outcomes := ers_decode_outcomes r @ [d]\<rparr>"
  have dec: "decoded_by ?r (dec_id d) = Some x"
    using n ids(3) by (simp add: decoded_by_def find_decode_def fresh_not_found)
  obtain es5 t5 where 5: "handle sha t4 (AcceptEffectResult (b 4) ?i (dec_id d)) = Inr (es5, t5)"
    "focus sha inq ?i others t5 (?r\<lparr>ers_accepted_decoded_outcome_id := Some (dec_id d)\<rparr>)"
    using stage_accept [OF 4(2) inq(2) [of 4] inq(3) [of 4] v(2) _ v(3) dec] n ids(4) assms(4) by auto
  have "accepted_result (?r\<lparr>ers_accepted_decoded_outcome_id := Some (dec_id d)\<rparr>) = Some x"
    using dec by (simp add: accepted_result_def decoded_by_def find_decode_def)
  moreover have "drive sha (attempt_commands b p ret d) s = Inr t5"
    using 1(1) 2(1) 3(1) 4(1) 5(1) by (simp add: attempt_commands_def)
  ultimately show ?thesis using 5(2) unfolding focus_def by blast
qed

text \<open>A request of the concrete run and the data of a first attempt at it.\<close>

definition run_plan :: step_plan where
  "run_plan = (let key = \<lparr>key_obligation_fingerprint = zero_hash, key_contract_id = ''k'',
       key_contract_version = ''1'', key_binding_revision = ''b1''\<rparr>;
     obligation = Some (obl_id (hd run_obligations)) in
     \<lparr>plan_id = step_plan_id zero_digest zero_hash ''sched'' PlanReady obligation (Some key) DeterministicPriority 3,
      plan_input_fingerprint = zero_hash, plan_policy_version = ''sched'', plan_status_of = PlanReady,
      plan_selected_obligation_id = obligation, plan_selected_attempt_key = Some key,
      plan_reason_of = DeterministicPriority, plan_remaining_budget = 3\<rparr>)"

definition run_effect :: effect_request where
  "run_effect = \<lparr>req_id = ''req'', req_step_plan_id = plan_id run_plan, req_effect_kind = ''ask'',
     req_adapter_id = ''adapter'', req_input_artifact = demo_artifact zero_hash, req_timeout_seconds = 60\<rparr>"

definition run_requested :: inquiry_state where
  "run_requested = run_claimed\<lparr>st_step_plans := [run_plan], st_effect_requests := [new_request run_effect]\<rparr>"

definition run_attempt :: effect_attempt_plan where
  "run_attempt = \<lparr>ap_id = ''att'', ap_request_id = ''req'', ap_route = \<lparr>rs_id = ''route'',
     rs_definition_id = ''def'', rs_definition_version = ''1'', rs_definition_artifact = demo_artifact zero_hash,
     rs_backend_id = ''backend'', rs_adapter_id = ''adapter'', rs_adapter_version = ''1'',
     rs_endpoint_or_channel = None, rs_transport = None,
     rs_execution_environment_artifact = demo_artifact zero_hash, rs_request_or_action_digest = zero_hash,
     rs_transform_evidence = []\<rparr>\<rparr>"

definition run_return :: external_return where
  "run_return = \<lparr>er_id = ''ret'', er_attempt_id = ''att'', er_route_id = ''route'', er_source_id = None,
     er_source_revision = None, er_capture_boundary = ''stdout'', er_capture_encoding = ''utf-8'',
     er_captured_at = \<lparr>instant = 0, utc_offset = Some 0\<rparr>,
     er_raw_payload = \<lparr>cap_kind = PayloadBytes, cap_artifact = Some (demo_artifact zero_hash)\<rparr>\<rparr>"

definition run_result :: canonical_result where
  "run_result = \<lparr>result_id = ''res'', result_semantic_artifact = demo_artifact zero_hash,
     result_content_of = SuccessResult ''p''\<rparr>"

definition run_decode :: decode_outcome where
  "run_decode = \<lparr>dec_id = ''dec'', dec_external_return_id = ''ret'', dec_decoder_id = ''decoder'',
     dec_decoder_version = ''1'', dec_content = Decoded run_result\<rparr>"

lemma run_requested_valid: "valid_state zero_digest run_requested"
proof -
  obtain log where "reachable zero_digest run_claimed log" using claimed_reachable ..
  then have "valid_state zero_digest run_claimed" by (rule reachable_valid)
  moreover have "valid_plans zero_digest run_requested" "valid_requests run_requested" by code_simp+
  moreover have "valid_lifecycle run_requested"
    by (simp add: run_requested_def run_claimed_def demo_state_def)
  ultimately show ?thesis by (simp add: valid_state_def) (simp add: run_requested_def)
qed

lemma run_attempt_ready:
  shows "new_attempt_data (st_effect_requests run_requested) run_attempt run_return run_decode run_result"
    and "st_status run_requested = Active" "valid_base (demo_base ''ev'')"
    and "st_inquiry_id run_requested = Some (msg_inquiry_id (demo_base ''ev''))"
    and "request_by_id run_requested (ap_request_id run_attempt) = Some (new_request run_effect)"
proof -
  show "new_attempt_data (st_effect_requests run_requested) run_attempt run_return run_decode run_result"
    "valid_base (demo_base ''ev'')" by code_simp+
  show "st_status run_requested = Active" "st_inquiry_id run_requested = Some (msg_inquiry_id (demo_base ''ev''))"
    by (simp_all add: run_requested_def run_claimed_def demo_state_def demo_base_def)
  show "request_by_id run_requested (ap_request_id run_attempt) = Some (new_request run_effect)"
    by (simp add: run_requested_def request_by_id_def run_attempt_def new_request_def run_effect_def)
qed

text \<open>C4: an open effect request can always be completed. From a valid active state, a request that
  has not accepted a result is taken by the five commands of a fresh attempt (plan, start, captured
  return, successful decode, acceptance) to a state in which it has accepted exactly that result,
  and the inquiry stays valid.\<close>

theorem effect_request_completes:
  assumes "valid_state sha s" "st_status s = Active" "request_by_id s (ap_request_id p) = Some r"
    and "ers_accepted_decoded_outcome_id r = None" "new_attempt_data (st_effect_requests s) p ret d x"
    and "\<forall>k. valid_base (b k) \<and> st_inquiry_id s = Some (msg_inquiry_id (b k))"
  shows "\<exists>t r'. drive sha (attempt_commands b p ret d) s = Inr t \<and> valid_state sha t \<and>
    request_by_id t (ap_request_id p) = Some r' \<and> accepted_result r' = Some x"
  by (rule attempt_completes [OF assms])

theorem effect_request_completes_witness:
  "\<exists>t r. drive zero_digest (attempt_commands (\<lambda>_. demo_base ''ev'') run_attempt run_return run_decode) run_requested = Inr t \<and>
     request_by_id t ''req'' = Some r \<and> accepted_result r = Some run_result"
  using effect_request_completes [OF run_requested_valid run_attempt_ready(2,5) _ run_attempt_ready(1),
      of "\<lambda>_. demo_base ''ev''"] run_attempt_ready(3,4)
  by (auto simp: new_request_def run_attempt_def)

text \<open>C5: an accepted result was captured. In a valid inquiry, the accepted result of a request is the
  content of one of its successful decodes; that decode is of a return captured by a started attempt
  of the same request along the planned route; the request goes back to a recorded step plan; and no
  other request of the inquiry accepted a result with the same identity.\<close>

theorem accepted_results_are_captured:
  assumes "valid_state sha s" "r \<in> set (st_effect_requests s)" "accepted_result r = Some x"
  shows "(\<exists>d a ret. d \<in> set (ers_decode_outcomes r) \<and> dec_content d = Decoded x \<and>
      Some (dec_id d) = ers_accepted_decoded_outcome_id r \<and> a \<in> set (ers_attempts r) \<and> att_started a \<and>
      att_outcome a = Some (ReturnedOutcome (er_attempt_id ret) (er_route_id ret) ret) \<and>
      er_id ret = dec_external_return_id d) \<and>
    req_step_plan_id (ers_request r) \<in> plan_id ` set (st_step_plans s) \<and>
    (\<forall>r' \<in> set (st_effect_requests s). \<forall>y. accepted_result r' = Some y \<longrightarrow> result_id y = result_id x \<longrightarrow> r' = r)"
proof -
  have v: "valid_requests s" using assms(1) by (simp add: valid_state_def)
  then have vr: "valid_request_state r" using assms(2) by (simp add: valid_requests_def list_all_iff)
  obtain d where d: "find_by dec_id (the (ers_accepted_decoded_outcome_id r)) (ers_decode_outcomes r) = Some d"
    "dec_content d = Decoded x" "ers_accepted_decoded_outcome_id r \<noteq> None"
    using assms(3) by (auto simp: accepted_result_def find_decode_def bind_eq_Some_conv elim: decoded_result.elims
        split: option.splits)
  have d': "d \<in> set (ers_decode_outcomes r)" "Some (dec_id d) = ers_accepted_decoded_outcome_id r"
    using find_by_SomeD [OF d(1)] d(3) by auto
  have "dec_external_return_id d \<in> set (return_ids r)"
    using vr d'(1) by (auto simp: valid_request_state_def list_all_iff)
  then obtain a where a: "a \<in> set (ers_attempts r)" "returned_id (att_outcome a) = Some (dec_external_return_id d)"
    by (auto simp: return_ids_def set_map_filter)
  then obtain i k ret where o: "att_outcome a = Some (ReturnedOutcome i k ret)" "er_id ret = dec_external_return_id d"
    by (auto elim: returned_id.elims)
  have "valid_attempt_state a" using vr a(1) by (auto simp: valid_request_state_def list_all_iff)
  then have "att_started a" "i = er_attempt_id ret" "k = er_route_id ret"
    using o(1) by (auto simp: valid_attempt_state_def)
  then have "\<exists>d a ret. d \<in> set (ers_decode_outcomes r) \<and> dec_content d = Decoded x \<and>
      Some (dec_id d) = ers_accepted_decoded_outcome_id r \<and> a \<in> set (ers_attempts r) \<and> att_started a \<and>
      att_outcome a = Some (ReturnedOutcome (er_attempt_id ret) (er_route_id ret) ret) \<and>
      er_id ret = dec_external_return_id d"
    using d(2) d' a(1) o by blast
  moreover have "req_step_plan_id (ers_request r) \<in> plan_id ` set (st_step_plans s)"
    using v assms(2) by (auto simp: valid_requests_def list_all_iff)
  moreover have "r' = r" if "r' \<in> set (st_effect_requests s)" "accepted_result r' = Some y" "result_id y = result_id x" for r' y
    using that assms(2,3) v
    by (intro map_filter_distinct_inj [of "\<lambda>r. map_option result_id (accepted_result r)" "st_effect_requests s"])
      (simp_all add: valid_requests_def global_result_ids_def)
  ultimately show ?thesis by blast
qed

theorem accepted_results_are_captured_witness:
  "\<exists>(s :: inquiry_state) r a (ret :: external_return).
     r \<in> set (st_effect_requests s) \<and> accepted_result r = Some run_result \<and> a \<in> set (ers_attempts r) \<and> att_started a \<and>
     att_outcome a = Some (ReturnedOutcome (er_attempt_id ret) (er_route_id ret) ret)"
proof -
  have "ers_accepted_decoded_outcome_id (new_request run_effect) = None" by (simp add: new_request_def)
  then obtain t r where t: "valid_state zero_digest t" "request_by_id t (ap_request_id run_attempt) = Some r"
    "accepted_result r = Some run_result"
    using attempt_completes [OF run_requested_valid run_attempt_ready(2,5) _ run_attempt_ready(1),
        of "\<lambda>_. demo_base ''ev''"] run_attempt_ready(3,4) by blast
  have r: "r \<in> set (st_effect_requests t)" using t(2) by (auto simp: request_by_id_def dest: find_by_SomeD)
  obtain a ret where "a \<in> set (ers_attempts r)" "att_started a"
    "att_outcome a = Some (ReturnedOutcome (er_attempt_id ret) (er_route_id ret) ret)"
    using conjunct1 [OF accepted_results_are_captured [OF t(1) r t(3)]] by blast
  then show ?thesis using r t(3) by blast
qed

section \<open>Decided events the reducer refuses\<close>








end
