(* ===== verification/Rci_Quotient.thy ===== *)
theory Rci_Quotient
  imports Rci_Prelude
begin

text \<open>
  The exact fixtures of \<open>compression/fixtures.py\<close>: a finite transition presentation of an unbounded
  history carrier and the check that a quotient of its states is a congruence. Python mappings are
  association lists with unique keys; sets of determinations are sets. A word of the carrier is a
  list over the alphabet, and what the check promises about every word is the refinement theorem.
\<close>

section \<open>Presentations\<close>

record transition_presentation =
  tp_states :: "string list"
  tp_alphabet :: "string list"
  tp_initial_state :: string
  tp_transition :: "((string \<times> string) \<times> string) list"
  tp_quotient :: "(string \<times> string) list"
  tp_configuration :: "(string \<times> string) list"
  tp_consequences :: "(string \<times> string list) list"
  tp_determinations :: "string set list"

datatype fixture_verdict = FixtureValid | FixtureInvalid

record fixture_result =
  fx_verdict :: fixture_verdict
  fx_factorization :: bool
  fx_exact_equivalence :: bool
  fx_continuation_compatible :: bool
  fx_recursive_update :: bool
  fx_determination_descent :: bool
  fx_configuration_equal :: bool
  fx_event_count_equal :: bool
  fx_counterexample :: "(string \<times> string) option"

definition dict_get :: "('k \<times> 'v) list \<Rightarrow> 'k \<Rightarrow> 'v" where
  "dict_get d k = the (map_of d k)"

definition presentation_total :: "transition_presentation \<Rightarrow> bool" where
  "presentation_total p \<longleftrightarrow> tp_states p \<noteq> [] \<and> tp_initial_state p \<in> set (tp_states p) \<and>
     set (map fst (tp_quotient p)) = set (tp_states p) \<and>
     set (map fst (tp_configuration p)) = set (tp_states p) \<and>
     set (map fst (tp_consequences p)) = set (tp_states p) \<and>
     list_all (\<lambda>s. list_all (\<lambda>a. case map_of (tp_transition p) (s, a) of None \<Rightarrow> False
         | Some t \<Rightarrow> t \<in> set (tp_states p)) (tp_alphabet p)) (tp_states p)"

text \<open>\<open>itertools.combinations(states, 2)\<close>.\<close>

fun combinations2 :: "'a list \<Rightarrow> ('a \<times> 'a) list" where
  "combinations2 [] = []"
| "combinations2 (x # xs) = map (Pair x) xs @ combinations2 xs"

definition same_q :: "transition_presentation \<Rightarrow> string \<Rightarrow> string \<Rightarrow> bool" where
  "same_q p l r \<longleftrightarrow> dict_get (tp_quotient p) l = dict_get (tp_quotient p) r"

definition same_consequence :: "transition_presentation \<Rightarrow> string \<Rightarrow> string \<Rightarrow> bool" where
  "same_consequence p l r \<longleftrightarrow> dict_get (tp_consequences p) l = dict_get (tp_consequences p) r"

definition next_class :: "transition_presentation \<Rightarrow> string \<Rightarrow> string \<Rightarrow> string" where
  "next_class p s a = dict_get (tp_quotient p) (dict_get (tp_transition p) (s, a))"

text \<open>The conjunctions the check evaluates over all pairs of states.\<close>

definition all_pairs :: "transition_presentation \<Rightarrow> (string \<Rightarrow> string \<Rightarrow> bool) \<Rightarrow> bool" where
  "all_pairs p R = list_all (\<lambda>(l, r). R l r) (combinations2 (tp_states p))"

definition factorizes :: "transition_presentation \<Rightarrow> bool" where
  "factorizes p = all_pairs p (\<lambda>l r. \<not> same_q p l r \<or> same_consequence p l r)"

definition continuation_compatible :: "transition_presentation \<Rightarrow> bool" where
  "continuation_compatible p = all_pairs p (\<lambda>l r.
     list_all (\<lambda>a. \<not> same_q p l r \<or> next_class p l a = next_class p r a) (tp_alphabet p))"

definition determinations_descend :: "transition_presentation \<Rightarrow> bool" where
  "determinations_descend p = list_all (\<lambda>D. all_pairs p (\<lambda>l r. \<not> same_q p l r \<or> (l \<in> D) = (r \<in> D)))
     (tp_determinations p)"

text \<open>The first pair that refutes the factorization, or else, if a continuation is not compatible, the
  first pair that some symbol separates.\<close>

definition quotient_counterexample :: "transition_presentation \<Rightarrow> (string \<times> string) option" where
  "quotient_counterexample p =
    (let pairs = combinations2 (tp_states p);
         first = List.find (\<lambda>(l, r). same_q p l r \<and> \<not> same_consequence p l r) pairs in
     if first = None \<and> \<not> continuation_compatible p
     then List.find (\<lambda>(l, r). same_q p l r \<and>
            list_ex (\<lambda>a. next_class p l a \<noteq> next_class p r a) (tp_alphabet p)) pairs
     else first)"

definition validate_finite_transition_quotient :: "transition_presentation \<Rightarrow> fixture_result result" where
  "validate_finite_transition_quotient p =
    (if \<not> presentation_total p
     then Inl (ValueError ''finite transition presentation must be total over exact state IDs'')
     else Inr
       \<lparr>fx_verdict = (if factorizes p \<and> continuation_compatible p \<and> determinations_descend p
          then FixtureValid else FixtureInvalid),
        fx_factorization = factorizes p,
        fx_exact_equivalence = all_pairs p (\<lambda>l r. same_q p l r = same_consequence p l r),
        fx_continuation_compatible = continuation_compatible p,
        fx_recursive_update = continuation_compatible p,
        fx_determination_descent = determinations_descend p,
        fx_configuration_equal = list_ex (\<lambda>(l, r).
          dict_get (tp_configuration p) l = dict_get (tp_configuration p) r) (combinations2 (tp_states p)),
        fx_event_count_equal = False, fx_counterexample = quotient_counterexample p\<rparr>)"

section \<open>The reference fixtures\<close>

definition parity_presentation :: "bool \<Rightarrow> bool \<Rightarrow> transition_presentation" where
  "parity_presentation protect_parity singleton =
    \<lparr>tp_states = [''even'', ''odd''], tp_alphabet = [''a''], tp_initial_state = ''even'',
     tp_transition = [((''even'', ''a''), ''odd''), ((''odd'', ''a''), ''even'')],
     tp_quotient = (if singleton then [(''even'', ''unit''), (''odd'', ''unit'')]
       else [(''even'', ''0''), (''odd'', ''1'')]),
     tp_configuration = [(''even'', ''unit''), (''odd'', ''unit'')],
     tp_consequences = [(''even'', if protect_parity then [''parity:0''] else []),
       (''odd'', if protect_parity then [''parity:1''] else [])],
     tp_determinations = (if protect_parity then [{''odd''}] else [])\<rparr>"

definition validate_unary_parity :: "bool \<Rightarrow> bool \<Rightarrow> fixture_result result" where
  "validate_unary_parity protect_parity singleton = map_sum id
     (\<lambda>r. if fx_counterexample r = Some (''even'', ''odd'') then r\<lparr>fx_counterexample := Some ('''', ''a'')\<rparr> else r)
     (validate_finite_transition_quotient (parity_presentation protect_parity singleton))"

definition validate_order_sensitive_count :: "fixture_result result" where
  "validate_order_sensitive_count = map_sum id (\<lambda>r. r\<lparr>fx_event_count_equal := True\<rparr>)
     (validate_finite_transition_quotient
       \<lparr>tp_states = [''ab'', ''ba''], tp_alphabet = [], tp_initial_state = ''ab'', tp_transition = [],
        tp_quotient = [(''ab'', ''count:2''), (''ba'', ''count:2'')],
        tp_configuration = [(''ab'', ''unit''), (''ba'', ''unit'')],
        tp_consequences = [(''ab'', [''future:left'']), (''ba'', [''future:right''])],
        tp_determinations = [{''ab''}]\<rparr>)"

definition validate_present_answer_without_continuation :: "fixture_result result" where
  "validate_present_answer_without_continuation =
    (let states = [''left'', ''right'', ''left-next'', ''right-next''] in
     validate_finite_transition_quotient
       \<lparr>tp_states = states, tp_alphabet = [''continue''], tp_initial_state = ''left'',
        tp_transition = [((''left'', ''continue''), ''left-next''), ((''right'', ''continue''), ''right-next''),
          ((''left-next'', ''continue''), ''left-next''), ((''right-next'', ''continue''), ''right-next'')],
        tp_quotient = [(''left'', ''present:same''), (''right'', ''present:same''),
          (''left-next'', ''future:left''), (''right-next'', ''future:right'')],
        tp_configuration = map (\<lambda>s. (s, ''unit'')) states,
        tp_consequences = map (\<lambda>s. (s, [''present:same''])) states, tp_determinations = []\<rparr>)"

section \<open>Runs and the quotient machine\<close>

text \<open>A symbol moves a state by the transition table; \<open>quotient_step\<close> moves a class by moving one of its
  states.\<close>

definition move :: "transition_presentation \<Rightarrow> string \<Rightarrow> string \<Rightarrow> string" where
  "move p s a = dict_get (tp_transition p) (s, a)"

definition run_word :: "transition_presentation \<Rightarrow> string \<Rightarrow> string list \<Rightarrow> string" where
  "run_word p s w = foldl (move p) s w"

definition class_of :: "transition_presentation \<Rightarrow> string \<Rightarrow> string" where
  "class_of p s = dict_get (tp_quotient p) s"

definition quotient_step :: "transition_presentation \<Rightarrow> string \<Rightarrow> string \<Rightarrow> string" where
  "quotient_step p c a = (case List.find (\<lambda>s. class_of p s = c) (tp_states p) of
     None \<Rightarrow> c | Some s \<Rightarrow> class_of p (move p s a))"

text \<open>A relation on states is respected by the quotient.\<close>

definition congruence :: "transition_presentation \<Rightarrow> bool" where
  "congruence p \<longleftrightarrow> (\<forall>l \<in> set (tp_states p). \<forall>r \<in> set (tp_states p). class_of p l = class_of p r \<longrightarrow>
     same_consequence p l r \<and> (\<forall>a \<in> set (tp_alphabet p). class_of p (move p l a) = class_of p (move p r a)) \<and>
     (\<forall>D \<in> set (tp_determinations p). (l \<in> D) = (r \<in> D)))"

lemma combinations2_Cons_iff:
  "list_all (\<lambda>(x, y). R x y) (combinations2 (z # zs)) \<longleftrightarrow>
     (\<forall>y \<in> set zs. R z y) \<and> list_all (\<lambda>(x, y). R x y) (combinations2 zs)"
  by (auto simp: list_all_iff)

lemma combinations2_iff:
  assumes "symp R" "reflp R"
  shows "list_all (\<lambda>(x, y). R x y) (combinations2 xs) \<longleftrightarrow> (\<forall>x \<in> set xs. \<forall>y \<in> set xs. R x y)"
proof (induction xs)
  case (Cons z zs)
  then show ?case
    unfolding combinations2_Cons_iff using sympD [OF assms(1)] reflpD [OF assms(2)] by simp blast
qed simp

lemma all_pairs_iff:
  assumes "symp R" "reflp R"
  shows "all_pairs p R \<longleftrightarrow> (\<forall>x \<in> set (tp_states p). \<forall>y \<in> set (tp_states p). R x y)"
  unfolding all_pairs_def by (rule combinations2_iff [OF assms])

lemma factorizes_iff:
  "factorizes p \<longleftrightarrow> (\<forall>x \<in> set (tp_states p). \<forall>y \<in> set (tp_states p).
     class_of p x = class_of p y \<longrightarrow> same_consequence p x y)"
proof -
  have "symp (\<lambda>l r. \<not> same_q p l r \<or> same_consequence p l r)" "reflp (\<lambda>l r. \<not> same_q p l r \<or> same_consequence p l r)"
    by (auto intro!: sympI reflpI simp: same_q_def same_consequence_def)
  from all_pairs_iff [OF this] show ?thesis
    unfolding factorizes_def same_q_def class_of_def by blast
qed

lemma compatible_iff:
  "continuation_compatible p \<longleftrightarrow> (\<forall>x \<in> set (tp_states p). \<forall>y \<in> set (tp_states p).
     class_of p x = class_of p y \<longrightarrow> (\<forall>a \<in> set (tp_alphabet p). class_of p (move p x a) = class_of p (move p y a)))"
proof -
  let ?R = "\<lambda>l r. list_all (\<lambda>a. \<not> same_q p l r \<or> next_class p l a = next_class p r a) (tp_alphabet p)"
  have "symp ?R" "reflp ?R"
    by (auto intro!: sympI reflpI simp: same_q_def list_all_iff)
  from all_pairs_iff [OF this] show ?thesis
    unfolding continuation_compatible_def same_q_def class_of_def next_class_def move_def list_all_iff by blast
qed

lemma descend_iff:
  "determinations_descend p \<longleftrightarrow> (\<forall>D \<in> set (tp_determinations p). \<forall>x \<in> set (tp_states p). \<forall>y \<in> set (tp_states p).
     class_of p x = class_of p y \<longrightarrow> (x \<in> D) = (y \<in> D))"
proof -
  let ?R = "\<lambda>D l r. \<not> same_q p l r \<or> (l \<in> D) = (r \<in> D)"
  have R: "symp (?R D)" "reflp (?R D)" for D
    unfolding symp_def reflp_def same_q_def by metis+
  have "all_pairs p (?R D) \<longleftrightarrow> (\<forall>x \<in> set (tp_states p). \<forall>y \<in> set (tp_states p).
      class_of p x = class_of p y \<longrightarrow> (x \<in> D) = (y \<in> D))" for D
    unfolding all_pairs_iff [OF R [of D]] unfolding same_q_def class_of_def by meson
  then show ?thesis unfolding determinations_descend_def list_all_iff by simp
qed

lemma congruence_iff:
  "congruence p \<longleftrightarrow> factorizes p \<and> continuation_compatible p \<and> determinations_descend p"
  unfolding congruence_def factorizes_iff compatible_iff descend_iff by meson

lemma move_in_states:
  "presentation_total p \<Longrightarrow> s \<in> set (tp_states p) \<Longrightarrow> a \<in> set (tp_alphabet p) \<Longrightarrow> move p s a \<in> set (tp_states p)"
  by (auto simp: presentation_total_def list_all_iff move_def dict_get_def split: option.splits)

lemma word_Cons: "run_word p s (a # w) = run_word p (move p s a) w"
  by (simp add: run_word_def)

lemma word_in_states:
  "presentation_total p \<Longrightarrow> s \<in> set (tp_states p) \<Longrightarrow> set w \<subseteq> set (tp_alphabet p) \<Longrightarrow> run_word p s w \<in> set (tp_states p)"
proof (induction w arbitrary: s)
  case (Cons a w)
  then show ?case
    using move_in_states [of p s a] by (simp add: word_Cons)
qed (simp add: run_word_def)

lemma word_append: "run_word p s (v @ w) = run_word p (run_word p s v) w"
  by (simp add: run_word_def)

lemma word_congruent:
  assumes "presentation_total p" "continuation_compatible p" "set w \<subseteq> set (tp_alphabet p)"
    and "x \<in> set (tp_states p)" "y \<in> set (tp_states p)" "class_of p x = class_of p y"
  shows "class_of p (run_word p x w) = class_of p (run_word p y w)"
  using assms(3-6)
proof (induction w arbitrary: x y)
  case (Cons a w)
  have "class_of p (move p x a) = class_of p (move p y a)"
    using Cons.prems assms(2) unfolding compatible_iff by (meson list.set_intros(1) subsetD)
  then show ?case
    using Cons.IH [of "move p x a" "move p y a"] Cons.prems(1-3) move_in_states [OF assms(1)]
    by (simp add: word_Cons)
qed (simp add: run_word_def)

lemma quotient_step_sound:
  assumes "continuation_compatible p" "s \<in> set (tp_states p)" "a \<in> set (tp_alphabet p)"
  shows "quotient_step p (class_of p s) a = class_of p (move p s a)"
proof (cases "List.find (\<lambda>x. class_of p x = class_of p s) (tp_states p)")
  case None
  then show ?thesis using assms(2) by (auto simp: find_None_iff)
next
  case (Some x)
  then have "x \<in> set (tp_states p)" "class_of p x = class_of p s" by (auto simp: find_Some_iff)
  then have "class_of p (move p x a) = class_of p (move p s a)"
    using assms unfolding compatible_iff by blast
  then show ?thesis using Some by (simp add: quotient_step_def)
qed

lemma quotient_simulates:
  assumes "presentation_total p" "continuation_compatible p"
    and "s \<in> set (tp_states p)" "set w \<subseteq> set (tp_alphabet p)"
  shows "class_of p (run_word p s w) = foldl (quotient_step p) (class_of p s) w"
  using assms(3,4)
proof (induction w arbitrary: s)
  case (Cons a w)
  then show ?case
    using quotient_step_sound [OF assms(2) Cons.prems(1), of a] Cons.IH [of "move p s a"]
      move_in_states [OF assms(1) Cons.prems(1), of a]
    by (simp add: word_Cons)
qed (simp add: run_word_def)

section \<open>What the check promises\<close>

text \<open>C37: a valid quotient retains every history. If the check accepts a presentation, the quotient is
  the state of a smaller machine that follows the original on every word of the alphabet, however
  long; and two histories with the same retained class agree, after every common continuation, on
  their class, on the protected consequences and on all determinations.\<close>

theorem valid_quotient_refines_histories:
  assumes "validate_finite_transition_quotient p = Inr r" "fx_verdict r = FixtureValid"
    and "set v \<subseteq> set (tp_alphabet p)" "set v' \<subseteq> set (tp_alphabet p)" "set w \<subseteq> set (tp_alphabet p)"
    and "class_of p (run_word p (tp_initial_state p) v) = class_of p (run_word p (tp_initial_state p) v')"
  defines "l \<equiv> run_word p (tp_initial_state p) (v @ w)" and "l' \<equiv> run_word p (tp_initial_state p) (v' @ w)"
  shows "class_of p (run_word p (tp_initial_state p) w) = foldl (quotient_step p) (class_of p (tp_initial_state p)) w \<and>
    class_of p l = class_of p l' \<and> same_consequence p l l' \<and>
    (\<forall>D \<in> set (tp_determinations p). (l \<in> D) = (l' \<in> D))"
proof -
  have t: "presentation_total p" and c: "factorizes p" "continuation_compatible p" "determinations_descend p"
    using assms(1,2) by (auto simp: validate_finite_transition_quotient_def split: if_splits)
  have i: "tp_initial_state p \<in> set (tp_states p)" using t by (simp add: presentation_total_def)
  have st: "run_word p (tp_initial_state p) v \<in> set (tp_states p)" "run_word p (tp_initial_state p) v' \<in> set (tp_states p)"
    using word_in_states [OF t i] assms(3,4) by simp_all
  have "class_of p l = class_of p l'"
    unfolding l_def l'_def word_append by (rule word_congruent [OF t c(2) assms(5) st assms(6)])
  moreover have "l \<in> set (tp_states p)" "l' \<in> set (tp_states p)"
    unfolding l_def l'_def word_append using word_in_states [OF t _ assms(5)] st by simp_all
  ultimately show ?thesis
    using quotient_simulates [OF t c(2) i assms(5)] c(1,3) unfolding factorizes_iff descend_iff by blast
qed

theorem valid_quotient_refines_histories_witness:
  "class_of (parity_presentation True False) (run_word (parity_presentation True False) ''even'' [''a'', ''a'', ''a'']) =
     foldl (quotient_step (parity_presentation True False)) ''0'' [''a'', ''a'', ''a''] \<and>
   same_consequence (parity_presentation True False)
     (run_word (parity_presentation True False) ''even'' ([] @ [''a'', ''a'', ''a'']))
     (run_word (parity_presentation True False) ''even'' ([''a'', ''a''] @ [''a'', ''a'', ''a'']))"
proof -
  let ?p = "parity_presentation True False"
  obtain r where r: "validate_finite_transition_quotient ?p = Inr r" "fx_verdict r = FixtureValid"
  proof -
    have "map_sum id fx_verdict (validate_finite_transition_quotient ?p) = Inr FixtureValid" by code_simp
    then show ?thesis using that by (auto simp: map_sum_Inr_iff)
  qed
  have p: "tp_initial_state ?p = ''even''" "tp_alphabet ?p = [''a'']" "class_of ?p ''even'' = ''0''"
    by (simp_all add: parity_presentation_def class_of_def dict_get_def)
  have c: "class_of ?p (run_word ?p (tp_initial_state ?p) []) = class_of ?p (run_word ?p (tp_initial_state ?p) [''a'', ''a''])"
    by code_simp
  show ?thesis
    using valid_quotient_refines_histories [OF r, of "[]" "[''a'', ''a'']" "[''a'', ''a'', ''a'']"] c
    unfolding p by simp
qed

text \<open>C38: the verdict is exact and its counterexamples are genuine. On a total presentation the check
  accepts exactly the congruences; a reported pair consists of two states of one class that differ in
  a protected consequence or are separated by a symbol; and a pair is reported exactly when the
  factorization or a continuation fails.\<close>

theorem quotient_verdict_exact:
  assumes "presentation_total p"
  shows "\<exists>r. validate_finite_transition_quotient p = Inr r \<and> (fx_verdict r = FixtureValid \<longleftrightarrow> congruence p) \<and>
    (fx_counterexample r = None \<longleftrightarrow> factorizes p \<and> continuation_compatible p) \<and>
    (\<forall>x y. fx_counterexample r = Some (x, y) \<longrightarrow> x \<in> set (tp_states p) \<and> y \<in> set (tp_states p) \<and>
       class_of p x = class_of p y \<and>
       (\<not> same_consequence p x y \<or> (\<exists>a \<in> set (tp_alphabet p). class_of p (move p x a) \<noteq> class_of p (move p y a))))"
proof -
  let ?pairs = "combinations2 (tp_states p)"
  have sub: "set (combinations2 xs) \<subseteq> set xs \<times> set xs" for xs :: "string list"
    by (induction xs) auto
  have f: "List.find (\<lambda>(l, r). same_q p l r \<and> \<not> same_consequence p l r) ?pairs = None \<longleftrightarrow> factorizes p"
    by (auto simp: find_None_iff factorizes_def all_pairs_def list_all_iff)
  have c: "List.find (\<lambda>(l, r). same_q p l r \<and> list_ex (\<lambda>a. next_class p l a \<noteq> next_class p r a) (tp_alphabet p)) ?pairs
      = None \<longleftrightarrow> continuation_compatible p"
    by (auto simp: find_None_iff continuation_compatible_def all_pairs_def list_all_iff list_ex_iff)
  have "quotient_counterexample p = None \<longleftrightarrow> factorizes p \<and> continuation_compatible p"
    unfolding quotient_counterexample_def Let_def using f c by auto
  moreover have "x \<in> set (tp_states p) \<and> y \<in> set (tp_states p) \<and> class_of p x = class_of p y \<and>
      (\<not> same_consequence p x y \<or> (\<exists>a \<in> set (tp_alphabet p). class_of p (move p x a) \<noteq> class_of p (move p y a)))"
    if "quotient_counterexample p = Some (x, y)" for x y
  proof -
    have "(x, y) \<in> set ?pairs \<and> same_q p x y \<and>
        (\<not> same_consequence p x y \<or> list_ex (\<lambda>a. next_class p x a \<noteq> next_class p y a) (tp_alphabet p))"
      using that unfolding quotient_counterexample_def Let_def
      by (auto simp: find_Some_iff in_set_conv_nth split: if_splits)
    then show ?thesis
      using sub by (fastforce simp: same_q_def class_of_def next_class_def move_def list_ex_iff)
  qed
  ultimately show ?thesis
    using assms by (simp add: validate_finite_transition_quotient_def congruence_iff)
qed

theorem quotient_verdict_exact_witness:
  "\<exists>r. validate_finite_transition_quotient (parity_presentation True True) = Inr r \<and>
     fx_verdict r = FixtureInvalid \<and> fx_counterexample r \<noteq> None"
proof -
  have "presentation_total (parity_presentation True True)" "\<not> factorizes (parity_presentation True True)"
    by code_simp+
  then show ?thesis
    using quotient_verdict_exact [of "parity_presentation True True"] congruence_iff fixture_verdict.exhaust
    by metis
qed

end
