(* ===== verification/Rci_Routes.thy ===== *)
theory Rci_Routes
  imports Rci_Prelude "HOL-Library.While_Combinator" "HOL-Library.Sublist"
begin

text \<open>
  The finite route graph of \<open>bindings/routes.py\<close> and its two enumerations. Each enumeration is the
  \<open>while queue:\<close> loop of the source as a \<open>while_option\<close>, so that returning at all is something to
  prove. The locale \<open>path_search\<close> states what the two loops share: a queue of paths, a test for
  finished paths and an extension by unvisited successors. It is interpreted on both loops, for every
  graph; termination, exactness, uniqueness and breadth-first order are proved in it once.
\<close>

section \<open>Graphs\<close>

record route_edge =
  re_source :: string
  re_target :: string

definition validate_edge :: "route_edge \<Rightarrow> route_edge result" where
  "validate_edge e = (if re_source e = '''' \<or> re_target e = ''''
     then Inl (ValueError ''route edge endpoints are required'') else Inr e)"

record route_graph =
  rg_id :: string
  rg_revision :: string
  rg_nodes :: "string list"
  rg_edges :: "route_edge list"
  rg_start :: string
  rg_goal :: string
  rg_closed_world :: bool

definition edge_keys :: "route_graph \<Rightarrow> (string \<times> string) list" where
  "edge_keys g = map (\<lambda>e. (re_source e, re_target e)) (rg_edges g)"

definition validate_graph :: "route_graph \<Rightarrow> route_graph result" where
  "validate_graph g =
    (if \<not> distinct (rg_nodes g) then Inl (ValueError ''route graph nodes must be unique'')
     else if rg_start g \<notin> set (rg_nodes g) \<or> rg_goal g \<notin> set (rg_nodes g)
     then Inl (ValueError ''route start and goal must be declared nodes'')
     else if list_ex (\<lambda>e. re_source e \<notin> set (rg_nodes g) \<or> re_target e \<notin> set (rg_nodes g)) (rg_edges g)
     then Inl (ValueError ''route edges must connect declared nodes'')
     else if \<not> distinct (edge_keys g) then Inl (ValueError ''route graph edges must be unique'')
     else Inr g)"

definition reference_route_graph :: route_graph where
  "reference_route_graph =
    \<lparr>rg_id = ''two-route-transition-graph'', rg_revision = ''1'',
     rg_nodes = [''bypass'', ''dead_end'', ''gate'', ''start'', ''target''],
     rg_edges = [\<lparr>re_source = ''bypass'', re_target = ''dead_end''\<rparr>,
       \<lparr>re_source = ''bypass'', re_target = ''target''\<rparr>, \<lparr>re_source = ''gate'', re_target = ''target''\<rparr>,
       \<lparr>re_source = ''start'', re_target = ''bypass''\<rparr>, \<lparr>re_source = ''start'', re_target = ''gate''\<rparr>],
     rg_start = ''start'', rg_goal = ''target'', rg_closed_world = True\<rparr>"

section \<open>The enumerations\<close>

text \<open>\<open>adjacency[node]\<close> after the edges were added and every successor list sorted.\<close>

definition adjacency :: "route_graph \<Rightarrow> string \<Rightarrow> string list" where
  "adjacency g n = sort (map re_target (filter (\<lambda>e. re_source e = n) (rg_edges g)))"

definition unvisited :: "route_graph \<Rightarrow> string list \<Rightarrow> string list" where
  "unvisited g path = filter (\<lambda>s. s \<notin> set path) (adjacency g (last path))"

fun routes_step :: "route_graph \<Rightarrow> string list list \<times> string list list \<Rightarrow> string list list \<times> string list list" where
  "routes_step g ([], routes) = ([], routes)"
| "routes_step g (path # queue, routes) =
    (if last path = rg_goal g then (queue, routes @ [path])
     else (queue @ map (\<lambda>s. path @ [s]) (unvisited g path), routes))"

definition enumerate_simple_routes :: "route_graph \<Rightarrow> string list list option" where
  "enumerate_simple_routes g =
     map_option snd (while_option (\<lambda>(queue, routes). queue \<noteq> []) (routes_step g) ([[rg_start g]], []))"

fun maximal_step :: "route_graph \<Rightarrow> string list list \<times> string list list \<Rightarrow> string list list \<times> string list list" where
  "maximal_step g ([], maximal) = ([], maximal)"
| "maximal_step g (path # queue, maximal) =
    (let successors = unvisited g path in
     if successors = [] then (queue, maximal @ [path])
     else (queue @ map (\<lambda>s. path @ [s]) successors, maximal))"

definition enumerate_maximal_executions :: "route_graph \<Rightarrow> string list list option" where
  "enumerate_maximal_executions g =
     map_option snd (while_option (\<lambda>(queue, maximal). queue \<noteq> []) (maximal_step g) ([[rg_start g]], []))"

record route_demonstration =
  rd_graph :: route_graph
  rd_proposed_prerequisite :: string
  rd_routes :: "string list list"
  rd_maximal_executions :: "string list list"
  rd_bypass_route :: "string list option"
  rd_may_reach :: bool
  rd_must_reach :: bool
  rd_must_pass_prerequisite :: bool
  rd_control_promoted :: bool

definition expected_findings_hold :: "route_demonstration \<Rightarrow> bool" where
  "expected_findings_hold d \<longleftrightarrow> rd_may_reach d \<and> \<not> rd_must_reach d \<and> \<not> rd_must_pass_prerequisite d \<and>
     \<not> rd_control_promoted d \<and>
     (case rd_bypass_route d of None \<Rightarrow> False | Some r \<Rightarrow> rd_proposed_prerequisite d \<notin> set r)"

definition demonstrate :: "route_graph \<Rightarrow> string \<Rightarrow> string list list \<Rightarrow> string list list \<Rightarrow> route_demonstration" where
  "demonstrate graph prerequisite routes maximal_executions =
    \<lparr>rd_graph = graph, rd_proposed_prerequisite = prerequisite, rd_routes = routes,
     rd_maximal_executions = maximal_executions,
     rd_bypass_route = List.find (\<lambda>route. prerequisite \<notin> set route) routes,
     rd_may_reach = (routes \<noteq> []),
     rd_must_reach = (maximal_executions \<noteq> [] \<and> list_all (\<lambda>x. last x = rg_goal graph) maximal_executions),
     rd_must_pass_prerequisite = (routes \<noteq> [] \<and> list_all (\<lambda>r. prerequisite \<in> set r) routes),
     rd_control_promoted = False\<rparr>"

definition route_demonstration :: "route_demonstration option" where
  "route_demonstration = (case enumerate_simple_routes reference_route_graph of None \<Rightarrow> None
     | Some routes \<Rightarrow> (case enumerate_maximal_executions reference_route_graph of None \<Rightarrow> None
       | Some executions \<Rightarrow> Some (demonstrate reference_route_graph ''gate'' routes executions)))"

section \<open>What the two searches share\<close>

text \<open>The paths a search reaches from \<open>p\<close> by extending unfinished paths.\<close>

inductive grows :: "('a list \<Rightarrow> bool) \<Rightarrow> ('a list \<Rightarrow> 'a list) \<Rightarrow> 'a list \<Rightarrow> 'a list \<Rightarrow> bool" for fin succs where
  grows_refl: "grows fin succs p p"
| grows_step: "\<not> fin p \<Longrightarrow> s \<in> set (succs p) \<Longrightarrow> grows fin succs (p @ [s]) r \<Longrightarrow> grows fin succs p r"

lemma grows_unfold:
  "grows fin succs p r \<longleftrightarrow> r = p \<or> (\<not> fin p \<and> (\<exists>s \<in> set (succs p). grows fin succs (p @ [s]) r))"
  by (subst grows.simps) auto

lemma grows_prefix: "grows fin succs p r \<Longrightarrow> prefix p r"
  by (induction rule: grows.induct) (auto simp: append_prefixD)

lemma grows_append_iff:
  "grows fin succs p (p @ e) \<longleftrightarrow> (\<forall>i < length e. \<not> fin (p @ take i e) \<and> e ! i \<in> set (succs (p @ take i e)))"
proof (induction e arbitrary: p)
  case Nil
  show ?case by (simp add: grows_refl)
next
  case (Cons s e)
  have "t = s" if "grows fin succs (p @ [t]) (p @ s # e)" for t
    using grows_prefix [OF that] by simp
  then have "grows fin succs p (p @ s # e) \<longleftrightarrow> \<not> fin p \<and> s \<in> set (succs p) \<and> grows fin succs (p @ [s]) ((p @ [s]) @ e)"
    by (subst grows_unfold) auto
  also have "\<dots> \<longleftrightarrow> (\<forall>i < length (s # e). \<not> fin (p @ take i (s # e)) \<and> (s # e) ! i \<in> set (succs (p @ take i (s # e))))"
    unfolding Cons.IH by (simp add: All_less_Suc2)
  finally show ?case .
qed

definition prefix_free :: "'a list list \<Rightarrow> bool" where
  "prefix_free q \<longleftrightarrow> distinct q \<and> (\<forall>p \<in> set q. \<forall>r \<in> set q. prefix p r \<longrightarrow> p = r)"

text \<open>Breadth-first order: finished and queued paths are sorted by length and the queue spans at most
  two lengths.\<close>

definition levelled :: "'a list list \<times> 'a list list \<Rightarrow> bool" where
  "levelled s \<longleftrightarrow> (case s of (q, acc) \<Rightarrow> sorted (map length (acc @ q)) \<and>
     (\<forall>p \<in> set q. length p \<le> Suc (length (hd q))))"

locale path_search =
  fixes fin :: "'a list \<Rightarrow> bool" and succs :: "'a list \<Rightarrow> 'a list"
    and step :: "'a list list \<times> 'a list list \<Rightarrow> 'a list list \<times> 'a list list"
    and targets :: "'a set"
  assumes finite_targets: "finite targets"
    and succs_targets: "set (succs p) \<subseteq> targets"
    and succs_fresh: "set (succs p) \<inter> set p = {}"
    and step_Cons: "step (p # q, acc) =
      (if fin p then (q, acc @ [p]) else (q @ map (\<lambda>s. p @ [s]) (succs p), acc))"
begin

definition slack :: "'a list \<Rightarrow> nat" where
  "slack p = card (targets - set p)"

definition results :: "'a list list \<times> 'a list list \<Rightarrow> 'a list set" where
  "results s = (case s of (q, acc) \<Rightarrow> set acc \<union> {r. \<exists>p \<in> set q. grows fin succs p r \<and> fin r})"

lemma slack_decreases: "s \<in> set (succs p) \<Longrightarrow> slack (p @ [s]) < slack p"
  unfolding slack_def using finite_targets succs_targets [of p] succs_fresh [of p]
  by (intro psubset_card_mono) auto

lemma step_decreases:
  "(mset (map slack (fst (step (p # q, acc)))), mset (map slack (p # q))) \<in> mult less_than"
proof -
  have "(mset (map slack q) + mset (map slack (map (\<lambda>s. p @ [s]) (succs p))),
      mset (map slack q) + {#slack p#}) \<in> mult less_than"
    by (rule one_step_implies_mult) (auto simp: slack_decreases)
  moreover have "(mset (map slack q) + {#}, mset (map slack q) + {#slack p#}) \<in> mult less_than"
    by (rule one_step_implies_mult) auto
  ultimately show ?thesis by (simp add: step_Cons multiset.map_comp o_def)
qed

lemma terminates: "\<exists>acc'. while_option (\<lambda>(q, acc). q \<noteq> []) step (q, acc) = Some ([], acc')"
proof -
  let ?m = "\<lambda>s. mset (map slack (fst s))"
  have "(step s, s) \<in> inv_image (mult less_than) ?m" if h: "case s of (q, acc) \<Rightarrow> q \<noteq> []" for s
  proof -
    obtain p q acc where "s = (p # q, acc)" using h by (cases s) (auto simp: neq_Nil_conv)
    then show ?thesis using step_decreases [of p q acc] by simp
  qed
  moreover have "wf (inv_image (mult less_than) ?m)" by (simp add: wf_mult)
  ultimately obtain t where t: "while_option (\<lambda>(q, acc). q \<noteq> []) step (q, acc) = Some t"
    using wf_rel_while_option_Some [where P = "\<lambda>_. True" and b = "\<lambda>(q, acc). q \<noteq> []" and c = step
      and s = "(q, acc)"] by blast
  moreover have "\<not> (case t of (q, acc) \<Rightarrow> q \<noteq> [])" by (rule while_option_stop [OF t])
  ultimately show ?thesis by (cases t) auto
qed

lemma step_results: "q \<noteq> [] \<Longrightarrow> results (step (q, acc)) = results (q, acc)"
proof (induction q)
  case (Cons p q)
  have "results (p # q, acc) = {r. grows fin succs p r \<and> fin r} \<union> results (q, acc)"
    by (auto simp: results_def)
  moreover have "{r. grows fin succs p r \<and> fin r} =
      (if fin p then {p} else {r. \<exists>s \<in> set (succs p). grows fin succs (p @ [s]) r \<and> fin r})"
    using grows_unfold [of fin succs p] by (auto intro: grows_refl)
  ultimately show ?case by (auto simp: results_def step_Cons)
qed simp

lemma step_levelled:
  assumes "q \<noteq> []" "levelled (q, acc)"
  shows "levelled (step (q, acc))"
proof -
  obtain p q' where q: "q = p # q'" using assms(1) by (cases q) auto
  then have l: "sorted (map length (acc @ p # q'))" "\<forall>r \<in> set q'. length r \<le> Suc (length p)"
    using assms(2) by (auto simp: levelled_def)
  show ?thesis
  proof (cases "fin p")
    case True
    have "length r \<le> Suc (length (hd q'))" if "r \<in> set q'" for r
      using l that by (cases q') (auto simp: sorted_append intro: le_trans)
    then show ?thesis using l True q by (simp add: step_Cons levelled_def)
  next
    case False
    let ?q = "q' @ map (\<lambda>s. p @ [s]) (succs p)"
    have lo: "length p \<le> length r" "length r \<le> Suc (length p)" if "r \<in> set ?q" for r
      using l that by (auto simp: sorted_append)
    have "length r \<le> Suc (length (hd ?q))" if "r \<in> set ?q" for r
      using lo(2) [OF that] lo(1) [of "hd ?q"] hd_in_set [of ?q] that by fastforce
    moreover have "sorted (map length (acc @ ?q))"
      using l by (auto simp: sorted_append comp_def sorted_wrt_map sorted_wrt_true intro: le_SucI)
    ultimately show ?thesis using False q by (simp add: step_Cons levelled_def)
  qed
qed

definition fresh :: "'a list list \<times> 'a list list \<Rightarrow> bool" where
  "fresh s \<longleftrightarrow> (case s of (q, acc) \<Rightarrow> prefix_free q \<and> distinct acc \<and> (\<forall>p \<in> set q. \<forall>a \<in> set acc. \<not> prefix p a))"

lemma step_fresh:
  assumes "\<And>p. distinct (succs p)" "q \<noteq> []" "fresh (q, acc)"
  shows "fresh (step (q, acc))"
proof -
  obtain p q' where q: "q = p # q'" using assms(2) by (cases q) auto
  then have f: "distinct (p # q')" "distinct acc" "\<forall>r \<in> set q'. \<not> prefix p r \<and> \<not> prefix r p"
    "\<forall>r \<in> set q'. \<forall>r' \<in> set q'. prefix r r' \<longrightarrow> r = r'" "\<forall>r \<in> set (p # q'). \<forall>a \<in> set acc. \<not> prefix r a"
    using assms(3) by (auto simp: fresh_def prefix_free_def)
  show ?thesis
  proof (cases "fin p")
    case True
    then show ?thesis using f q by (auto simp: step_Cons fresh_def prefix_free_def)
  next
    case False
    have "distinct (map (\<lambda>s. p @ [s]) (succs p))" using assms(1) by (simp add: distinct_map inj_on_def)
    moreover have "\<not> prefix (p @ [s]) r" "\<not> prefix r (p @ [s])" if "r \<in> set q'" for r s
      using f(3) that append_prefixD [of p "[s]" r] by auto
    moreover have "\<not> prefix (p @ [s]) a" if "a \<in> set acc" for a s
      using f(5) that append_prefixD [of p "[s]" a] by auto
    ultimately show ?thesis
      using f q False by (auto simp: step_Cons fresh_def prefix_free_def)
  qed
qed

lemma search_invariant:
  assumes "while_option (\<lambda>(q, acc). q \<noteq> []) step (q, acc) = Some ([], acc')"
  shows "set acc' = results (q, acc)" and "levelled (q, acc) \<Longrightarrow> sorted (map length acc')"
    and "(\<And>p. distinct (succs p)) \<Longrightarrow> fresh (q, acc) \<Longrightarrow> distinct acc'"
proof -
  have "results (step s) = results (q, acc)" if "results s = results (q, acc)" "case s of (q, acc) \<Rightarrow> q \<noteq> []" for s
    using that step_results [of "fst s" "snd s"] by (simp add: split_beta)
  from while_option_rule [where P = "\<lambda>s. results s = results (q, acc)", OF this assms refl]
  have "results ([], acc') = results (q, acc)" .
  then show "set acc' = results (q, acc)" by (simp add: results_def)
  show "sorted (map length acc')" if "levelled (q, acc)"
  proof -
    have "levelled ([], acc')" by (rule while_option_rule [where P = levelled, OF _ assms that]) (auto simp: step_levelled)
    then show ?thesis by (simp add: levelled_def)
  qed
  show "distinct acc'" if d: "\<And>p. distinct (succs p)" and "fresh (q, acc)"
  proof -
    have "fresh ([], acc')" by (rule while_option_rule [where P = fresh, OF _ assms that(2)]) (auto simp: step_fresh [OF d])
    then show ?thesis by (simp add: fresh_def)
  qed
qed

lemma search_from:
  "\<exists>acc'. while_option (\<lambda>(q, acc). q \<noteq> []) step ([p], []) = Some ([], acc') \<and>
     set acc' = {r. grows fin succs p r \<and> fin r} \<and> sorted (map length acc') \<and>
     ((\<forall>p. distinct (succs p)) \<longrightarrow> distinct acc')"
proof -
  obtain acc' where w: "while_option (\<lambda>(q, acc). q \<noteq> []) step ([p], []) = Some ([], acc')"
    using terminates [of "[p]" "[]"] by blast
  have "set acc' = {r. grows fin succs p r \<and> fin r}"
    using search_invariant(1) [OF w] by (simp add: results_def)
  moreover have "sorted (map length acc')" using search_invariant(2) [OF w] by (simp add: levelled_def)
  moreover have "distinct acc'" if "\<forall>p. distinct (succs p)"
    using search_invariant(3) [OF w] that by (simp add: fresh_def prefix_free_def)
  ultimately show ?thesis using w by blast
qed

end

lemma set_adjacency: "set (adjacency g n) = {t. (n, t) \<in> set (edge_keys g)}"
  by (auto simp: adjacency_def edge_keys_def)

lemma set_unvisited: "set (unvisited g p) = {t. (last p, t) \<in> set (edge_keys g) \<and> t \<notin> set p}"
  by (auto simp: unvisited_def set_adjacency)

lemma distinct_unvisited:
  assumes "distinct (edge_keys g)"
  shows "distinct (unvisited g p)"
proof -
  have "distinct (map re_target (filter (\<lambda>e. re_source e = n) es))"
    if "distinct (map (\<lambda>e. (re_source e, re_target e)) es)" for n es
    using that by (induction es) (auto simp: image_iff)
  from this [of "rg_edges g"] show ?thesis
    using assms unfolding unvisited_def adjacency_def edge_keys_def by (intro distinct_filter) simp
qed

interpretation routes: path_search "\<lambda>p. last p = rg_goal g" "unvisited g" "routes_step g" "snd ` set (edge_keys g)" for g
  by unfold_locales (force simp: set_unvisited)+

interpretation maximal: path_search "\<lambda>p. unvisited g p = []" "unvisited g" "maximal_step g" "snd ` set (edge_keys g)" for g
  by unfold_locales (force simp: set_unvisited Let_def)+

section \<open>Paths\<close>

text \<open>A simple path of the graph from its start node.\<close>

definition simple_path :: "route_graph \<Rightarrow> string list \<Rightarrow> bool" where
  "simple_path g r \<longleftrightarrow> r \<noteq> [] \<and> hd r = rg_start g \<and> distinct r \<and>
     (\<forall>i. Suc i < length r \<longrightarrow> (r ! i, r ! Suc i) \<in> set (edge_keys g))"

lemma take_tl_path: "r = x # e \<Longrightarrow> [x] @ take i e = take (Suc i) r"
  by simp

text \<open>The searches walk along a simple path as long as no proper prefix of it is finished.\<close>

lemma grows_iff_path:
  "grows fin (unvisited g) [rg_start g] r \<longleftrightarrow>
     simple_path g r \<and> (\<forall>i. 0 < i \<and> i < length r \<longrightarrow> \<not> fin (take i r))"
proof (cases "\<exists>e. r = rg_start g # e")
  case False
  then have "\<not> grows fin (unvisited g) [rg_start g] r" by (auto dest!: grows_prefix simp: prefix_def)
  moreover have "\<not> simple_path g r" using False by (cases r) (auto simp: simple_path_def)
  ultimately show ?thesis by blast
next
  case True
  then obtain e where r: "r = rg_start g # e" by blast
  have d: "distinct r \<longleftrightarrow> (\<forall>i < length e. e ! i \<notin> set (take (Suc i) r))"
  proof -
    have "distinct (xs @ e) \<longleftrightarrow> distinct xs \<and> (\<forall>i < length e. e ! i \<notin> set (xs @ take i e))" for xs :: "string list"
    proof (induction e arbitrary: xs)
      case (Cons a e)
      show ?case using Cons.IH [of "xs @ [a]"] by (auto simp: All_less_Suc2)
    qed simp
    from this [of "[rg_start g]"] show ?thesis unfolding r by simp
  qed
  have "last (take (Suc i) r) = r ! i" if "i < length e" for i
    using that by (subst take_Suc_conv_app_nth) (auto simp: r)
  then have "grows fin (unvisited g) [rg_start g] ([rg_start g] @ e) \<longleftrightarrow>
      (\<forall>i < length e. \<not> fin (take (Suc i) r) \<and> (r ! i, r ! Suc i) \<in> set (edge_keys g) \<and> e ! i \<notin> set (take (Suc i) r))"
    unfolding grows_append_iff take_tl_path [OF r] by (auto simp: set_unvisited r)
  also have "\<dots> \<longleftrightarrow> simple_path g r \<and> (\<forall>i < length e. \<not> fin (take (Suc i) r))"
    unfolding simple_path_def d by (auto simp: r)
  also have "(\<forall>i < length e. \<not> fin (take (Suc i) r)) \<longleftrightarrow> (\<forall>i. 0 < i \<and> i < length r \<longrightarrow> \<not> fin (take i r))"
    by (auto simp: r gr0_conv_Suc)
  finally show ?thesis by (simp add: r)
qed

definition simple_route :: "route_graph \<Rightarrow> string list \<Rightarrow> bool" where
  "simple_route g r \<longleftrightarrow> simple_path g r \<and> last r = rg_goal g"

text \<open>A maximal acyclic execution: every successor of its last node was visited.\<close>

definition maximal_execution :: "route_graph \<Rightarrow> string list \<Rightarrow> bool" where
  "maximal_execution g r \<longleftrightarrow> simple_path g r \<and> (\<forall>t. (last r, t) \<in> set (edge_keys g) \<longrightarrow> t \<in> set r)"

lemma take_distinct_last:
  assumes "distinct r" "0 < i" "i < length r"
  shows "last (take i r) \<noteq> last r"
proof -
  have "last (take i r) = r ! (i - 1)" "last r = r ! (length r - 1)"
    using assms last_conv_nth [of "take i r"] last_conv_nth [of r] by (cases "r = []"; simp add: min_def)+
  then show ?thesis using assms by (simp add: nth_eq_iff_index_eq)
qed

lemma routes_grow_iff:
  "grows (\<lambda>p. last p = rg_goal g) (unvisited g) [rg_start g] r \<and> last r = rg_goal g \<longleftrightarrow> simple_route g r"
  unfolding grows_iff_path simple_route_def using take_distinct_last [of r] by (auto simp: simple_path_def)

lemma maximal_grow_iff:
  "grows (\<lambda>p. unvisited g p = []) (unvisited g) [rg_start g] r \<and> unvisited g r = [] \<longleftrightarrow> maximal_execution g r"
proof -
  have "unvisited g (take i r) \<noteq> []" if "simple_path g r" "0 < i" "i < length r" for i
  proof -
    define j where "j = i - 1"
    have i: "i = Suc j" using that(2) by (simp add: j_def)
    have "take i r = take j r @ [r ! j]" using that(3) i by (simp add: take_Suc_conv_app_nth)
    then have "last (take i r) = r ! j" by simp
    moreover have "r ! i \<notin> set (take i r)"
      using that(1,3) by (auto simp: simple_path_def in_set_conv_nth nth_eq_iff_index_eq)
    ultimately have "r ! i \<in> set (unvisited g (take i r))"
      using that(1,3) i by (simp add: set_unvisited simple_path_def)
    then show ?thesis by auto
  qed
  moreover have "unvisited g r = [] \<longleftrightarrow> (\<forall>t. (last r, t) \<in> set (edge_keys g) \<longrightarrow> t \<in> set r)"
    using set_unvisited [of g r] by (auto simp flip: set_empty)
  ultimately show ?thesis unfolding grows_iff_path maximal_execution_def by blast
qed

lemma routes_enumerated:
  assumes "distinct (edge_keys g)"
  shows "\<exists>rs. enumerate_simple_routes g = Some rs \<and> set rs = {r. simple_route g r} \<and> distinct rs \<and> sorted (map length rs)"
  using routes.search_from [of g "[rg_start g]"] distinct_unvisited [OF assms]
  unfolding routes_grow_iff enumerate_simple_routes_def by auto

lemma executions_enumerated:
  assumes "distinct (edge_keys g)"
  shows "\<exists>xs. enumerate_maximal_executions g = Some xs \<and> set xs = {r. maximal_execution g r} \<and> distinct xs \<and>
    sorted (map length xs)"
  using maximal.search_from [of g "[rg_start g]"] distinct_unvisited [OF assms]
  unfolding maximal_grow_iff enumerate_maximal_executions_def by auto

section \<open>What the enumerations return\<close>

text \<open>C39: the route enumeration returns on every graph the validator accepts, also on cyclic ones, with
  exactly the simple routes from start to goal, each once, shortest first.\<close>

theorem simple_routes_exact:
  assumes "validate_graph g = Inr g"
  shows "\<exists>rs. enumerate_simple_routes g = Some rs \<and> set rs = {r. simple_route g r} \<and> distinct rs \<and>
    sorted (map length rs)"
  using assms by (intro routes_enumerated) (auto simp: validate_graph_def split: if_splits)

theorem simple_routes_exact_witness:
  "validate_graph reference_route_graph = Inr reference_route_graph \<and>
   set (the (enumerate_simple_routes reference_route_graph)) = {r. simple_route reference_route_graph r} \<and>
   enumerate_simple_routes reference_route_graph =
     Some [[''start'', ''bypass'', ''target''], [''start'', ''gate'', ''target'']]"
proof -
  have v: "validate_graph reference_route_graph = Inr reference_route_graph" by code_simp
  moreover have "enumerate_simple_routes reference_route_graph =
     Some [[''start'', ''bypass'', ''target''], [''start'', ''gate'', ''target'']]" by code_simp
  ultimately show ?thesis using simple_routes_exact [OF v] by auto
qed

text \<open>the enumeration of executions returns on every accepted graph with exactly the maximal acyclic
  executions from the start node, failed branches included, each once, shortest first, and none longer
  than the number of nodes.\<close>

theorem maximal_executions_exact:
  assumes "validate_graph g = Inr g"
  shows "\<exists>xs. enumerate_maximal_executions g = Some xs \<and> set xs = {r. maximal_execution g r} \<and> distinct xs \<and>
    sorted (map length xs) \<and> (\<forall>x \<in> set xs. length x \<le> length (rg_nodes g))"
proof -
  have v: "distinct (edge_keys g)" "rg_start g \<in> set (rg_nodes g)"
      "snd ` set (edge_keys g) \<subseteq> set (rg_nodes g)"
    using assms by (auto simp: validate_graph_def edge_keys_def list_ex_iff split: if_splits)
  have "length x \<le> length (rg_nodes g)" if "maximal_execution g x" for x
  proof -
    have "x ! i \<in> set (rg_nodes g)" if "i < length x" for i
      using that \<open>maximal_execution g x\<close> v
      by (cases i) (force simp: maximal_execution_def simple_path_def hd_conv_nth)+
    then have "set x \<subseteq> set (rg_nodes g)" by (auto simp: in_set_conv_nth)
    then have "card (set x) \<le> card (set (rg_nodes g))" by (intro card_mono) auto
    then show ?thesis
      using that card_length [of "rg_nodes g"] distinct_card [of x]
      by (auto simp: maximal_execution_def simple_path_def)
  qed
  then show ?thesis using executions_enumerated [OF v(1)] by auto
qed

theorem maximal_executions_exact_witness:
  "\<exists>xs. enumerate_maximal_executions reference_route_graph = Some xs \<and>
     set xs = {r. maximal_execution reference_route_graph r} \<and> (\<forall>x \<in> set xs. length x \<le> 5)"
proof -
  have "validate_graph reference_route_graph = Inr reference_route_graph" by code_simp
  moreover have "length (rg_nodes reference_route_graph) = 5" by (simp add: reference_route_graph_def)
  ultimately show ?thesis using maximal_executions_exact by metis
qed

text \<open>The reference demonstration returns and its findings are the ones the binding promises: the goal
  may be reached, it need not be, and the gate is not a prerequisite, by the bypass route.\<close>

theorem route_demonstration_findings:
  "\<exists>d. route_demonstration = Some d \<and> expected_findings_hold d \<and>
     (\<exists>r. rd_bypass_route d = Some r \<and> simple_route (rd_graph d) r) \<and>
     (\<exists>x. maximal_execution (rd_graph d) x \<and> last x \<noteq> rg_goal (rd_graph d))"
proof -
  let ?g = reference_route_graph
  let ?rs = "[[''start'', ''bypass'', ''target''], [''start'', ''gate'', ''target'']]"
  let ?xs = "[[''start'', ''bypass'', ''dead_end''], [''start'', ''bypass'', ''target''], [''start'', ''gate'', ''target'']]"
  have e: "enumerate_simple_routes ?g = Some ?rs" "enumerate_maximal_executions ?g = Some ?xs"
    by code_simp+
  have v: "distinct (edge_keys ?g)" by code_simp
  have "set ?rs = {r. simple_route ?g r}"
    using routes_enumerated [OF v] e(1) by auto
  moreover have "set ?xs = {r. maximal_execution ?g r}"
    using executions_enumerated [OF v] e(2) by auto
  ultimately have "simple_route ?g [''start'', ''bypass'', ''target'']"
      "maximal_execution ?g [''start'', ''bypass'', ''dead_end'']"
    by auto
  moreover have "rg_goal ?g = ''target''" by (simp add: reference_route_graph_def)
  ultimately show ?thesis
    using e by (auto simp: route_demonstration_def demonstrate_def expected_findings_hold_def
      intro!: exI [of _ "[''start'', ''bypass'', ''dead_end'']"])
qed

end
