(* ===== verification/Rci_Circuit.thy ===== *)
theory Rci_Circuit
  imports Rci_Formal
begin

text \<open>
  The eight-state reference circuit of \<open>bindings/circuit.py\<close>: its states, its universe and the three
  attacks of the demonstration, with the default budget of \<open>implication_attack\<close>.
\<close>

record circuit_state =
  main_power :: bool
  backup_power :: bool
  switch_closed :: bool
  lamp_on :: bool

definition circuit_states :: "circuit_state list" where
  "circuit_states = concat (map (\<lambda>b. concat (map (\<lambda>m. map (\<lambda>s.
     \<lparr>main_power = m, backup_power = b, switch_closed = s, lamp_on = (s \<and> (m \<or> b))\<rparr>)
     [False, True]) [False, True])) [False, True])"

definition circuit_universe :: finite_universe where
  "circuit_universe = \<lparr>univ_id = ''reference-circuit'', univ_revision = ''1'',
     univ_domains = [\<lparr>dom_symbol = ''backup_power'', dom_values = [SBool False, SBool True]\<rparr>,
       \<lparr>dom_symbol = ''main_power'', dom_values = [SBool False, SBool True]\<rparr>,
       \<lparr>dom_symbol = ''switch_closed'', dom_values = [SBool False, SBool True]\<rparr>],
     univ_closed_world = True\<rparr>"

record circuit_demonstration =
  cd_states :: "circuit_state list"
  cd_main_power_necessity_attack :: exhaustive_result
  cd_available_power_sufficiency_attack :: exhaustive_result
  cd_switch_closed_necessity_attack :: exhaustive_result

definition circuit_findings_hold :: "circuit_demonstration \<Rightarrow> bool" where
  "circuit_findings_hold d \<longleftrightarrow> length (cd_states d) = 8 \<and>
     ex_verdict (cd_main_power_necessity_attack d) = Sat \<and>
     ex_verdict (cd_available_power_sufficiency_attack d) = Sat \<and>
     ex_verdict (cd_switch_closed_necessity_attack d) = Unsat \<and>
     hard_unsat_eligible (cd_switch_closed_necessity_attack d)"

definition available_power_formula :: formula where
  "available_power_formula = Or [Symbol ''main_power'', Symbol ''backup_power'']"

definition lamp_on_formula :: formula where
  "lamp_on_formula = And [Symbol ''switch_closed'', available_power_formula]"

definition circuit_demonstration :: "(string \<Rightarrow> digest) \<Rightarrow> circuit_demonstration result" where
  "circuit_demonstration sha =
    (let attack = (\<lambda>profile condition. implication_attack sha profile condition lamp_on_formula circuit_universe 4096) in
     case attack NecessityAttack (Symbol ''main_power'') of Inl e \<Rightarrow> Inl e
     | Inr n \<Rightarrow> (case attack SufficiencyAttack available_power_formula of Inl e \<Rightarrow> Inl e
       | Inr s \<Rightarrow> (case attack NecessityAttack (Symbol ''switch_closed'') of Inl e \<Rightarrow> Inl e
         | Inr k \<Rightarrow> Inr \<lparr>cd_states = circuit_states, cd_main_power_necessity_attack = n,
             cd_available_power_sufficiency_attack = s, cd_switch_closed_necessity_attack = k\<rparr>)))"

text \<open>The states of the circuit as assignments of its universe.\<close>

definition state_assignment :: "circuit_state \<Rightarrow> assignment" where
  "state_assignment s = [\<lparr>av_symbol = ''backup_power'', av_value = SBool (backup_power s)\<rparr>,
     \<lparr>av_symbol = ''main_power'', av_value = SBool (main_power s)\<rparr>,
     \<lparr>av_symbol = ''switch_closed'', av_value = SBool (switch_closed s)\<rparr>]"

lemma circuit_attack_verdict:
  "map_sum id ex_verdict (implication_attack sha NecessityAttack (Symbol ''main_power'') lamp_on_formula circuit_universe 4096) = Inr Sat"
  "map_sum id ex_verdict (implication_attack sha SufficiencyAttack available_power_formula lamp_on_formula circuit_universe 4096) = Inr Sat"
  "map_sum id ex_verdict (implication_attack sha NecessityAttack (Symbol ''switch_closed'') lamp_on_formula circuit_universe 4096) = Inr Unsat"
  by code_simp+

lemma attack_closed_world:
  "implication_attack sha profile c q u k = Inr r \<Longrightarrow> ex_closed_world r = univ_closed_world u"
  by (auto simp: implication_attack_def exhaustive_check_def mk_result_def Let_def
    split: if_splits sum.splits option.splits prod.splits)

text \<open>the reference demonstration never fails and its findings hold under every digest function: main
  power is not necessary and available power not sufficient for the lamp, while the closed switch is
  necessary, by a closed-world refutation that is eligible for a hard warrant. Its eight states are
  the assignments the attacks range over, and the lamp of a state is the formula attacked.\<close>

theorem circuit_demonstration_findings:
  "\<exists>d. circuit_demonstration sha = Inr d \<and> circuit_findings_hold d \<and>
     map state_assignment (cd_states d) = enumerate_assignments circuit_universe \<and>
     list_all (\<lambda>s. lamp_on s = holds lamp_on_formula (as_environment (state_assignment s))) (cd_states d)"
proof -
  obtain n s k where r:
      "implication_attack sha NecessityAttack (Symbol ''main_power'') lamp_on_formula circuit_universe 4096 = Inr n"
      "implication_attack sha SufficiencyAttack available_power_formula lamp_on_formula circuit_universe 4096 = Inr s"
      "implication_attack sha NecessityAttack (Symbol ''switch_closed'') lamp_on_formula circuit_universe 4096 = Inr k"
    and v: "ex_verdict n = Sat" "ex_verdict s = Sat" "ex_verdict k = Unsat"
    using circuit_attack_verdict [of sha] by (auto simp: map_sum_Inr_iff)
  moreover have "hard_unsat_eligible k"
    using attack_closed_world [OF r(3)] v by (simp add: hard_unsat_eligible_def circuit_universe_def)
  moreover have "length circuit_states = 8" by (simp add: circuit_states_def)
  moreover have "map state_assignment circuit_states = enumerate_assignments circuit_universe" by code_simp
  moreover have "list_all (\<lambda>s. lamp_on s = holds lamp_on_formula (as_environment (state_assignment s))) circuit_states"
    by (simp add: circuit_states_def lamp_on_formula_def available_power_formula_def state_assignment_def
      as_environment_def index_by_def)
  ultimately show ?thesis by (simp add: circuit_demonstration_def circuit_findings_hold_def)
qed

end
