(* ===== verification/Rci_Questions.thy ===== *)
theory Rci_Questions
  imports Rci_Claims
begin

text \<open>
  Question contracts: \<open>questions/models.py\<close> (contracts, profiles, catalogs, rendering and the typed
  answer binder) and the sealed catalogs of \<open>questions/catalog.py\<close>. A template is read by
  \<open>template_parts\<close>, which accepts what \<open>string.Formatter\<close> parses into direct named fields without
  format specification or conversion; everything else is a \<open>ValueError\<close> of the source.
\<close>

section \<open>Contracts\<close>

datatype contract_maturity = DraftContract | ExperimentalContract | StableContract | DeprecatedContract

fun maturity_value :: "contract_maturity \<Rightarrow> string" where
  "maturity_value DraftContract = ''draft''"
| "maturity_value ExperimentalContract = ''experimental''"
| "maturity_value StableContract = ''stable''"
| "maturity_value DeprecatedContract = ''deprecated''"

datatype answer_shape = OpaqueL0Inert

record question_contract =
  qc_id :: string
  qc_version :: string
  qc_family :: string
  qc_input_roles :: "string list"
  qc_output_claim_role :: claim_role
  qc_precondition_policy_id :: string
  qc_render_template :: string
  qc_answer_shape :: answer_shape
  qc_answer_schema_id :: string
  qc_bind_policy_id :: string
  qc_reifier_id :: "string option"
  qc_verifier_id :: "string option"
  qc_update_rule_id :: string
  qc_next_obligation_rule_ids :: "string list"
  qc_maturity :: contract_maturity
  qc_recurrent_probe :: bool
  qc_comparison_semantics_id :: "string option"
  qc_canonical_probe_rendering :: "string option"
  qc_applicability_guard_id :: "string option"
  qc_history_policy_id :: "string option"

definition valid_contract :: "question_contract \<Rightarrow> bool" where
  "valid_contract c \<longleftrightarrow> qc_id c \<noteq> [] \<and> qc_version c \<noteq> [] \<and> qc_family c \<noteq> [] \<and> qc_answer_schema_id c \<noteq> [] \<and>
     distinct (qc_input_roles c) \<and>
     (qc_recurrent_probe c \<longrightarrow> qc_comparison_semantics_id c \<noteq> None \<and> qc_applicability_guard_id c \<noteq> None \<and>
        qc_history_policy_id c \<noteq> None)"

definition contract_key :: "question_contract \<Rightarrow> string" where
  "contract_key c = qc_id c @ ''@'' @ qc_version c"

definition contract_json :: "question_contract \<Rightarrow> json" where
  "contract_json c = JObj
    [(''id'', JStr (qc_id c)), (''version'', JStr (qc_version c)), (''family'', JStr (qc_family c)),
     (''input_roles'', str_list (qc_input_roles c)),
     (''output_claim_role'', JStr (claim_role_value (qc_output_claim_role c))),
     (''precondition_policy_id'', JStr (qc_precondition_policy_id c)),
     (''render_template'', JStr (qc_render_template c)), (''answer_shape'', JStr ''opaque_l0_inert''),
     (''answer_schema_id'', JStr (qc_answer_schema_id c)), (''bind_policy_id'', JStr (qc_bind_policy_id c)),
     (''reifier_id'', opt_str (qc_reifier_id c)), (''verifier_id'', opt_str (qc_verifier_id c)),
     (''update_rule_id'', JStr (qc_update_rule_id c)),
     (''next_obligation_rule_ids'', str_list (qc_next_obligation_rule_ids c)),
     (''maturity'', JStr (maturity_value (qc_maturity c))), (''recurrent_probe'', JBool (qc_recurrent_probe c)),
     (''comparison_semantics_id'', opt_str (qc_comparison_semantics_id c)),
     (''canonical_probe_rendering'', opt_str (qc_canonical_probe_rendering c)),
     (''applicability_guard_id'', opt_str (qc_applicability_guard_id c)),
     (''history_policy_id'', opt_str (qc_history_policy_id c))]"

record question_profile =
  qp_id :: string
  qp_version :: string
  qp_contract_keys :: "string list"

definition valid_profile :: "question_profile \<Rightarrow> bool" where
  "valid_profile p \<longleftrightarrow> distinct (qp_contract_keys p)"

record question_catalog =
  cat_id :: string
  cat_version :: string
  cat_contracts :: "question_contract list"
  cat_profiles :: "question_profile list"

definition valid_catalog :: "question_catalog \<Rightarrow> bool" where
  "valid_catalog c \<longleftrightarrow> list_all valid_contract (cat_contracts c) \<and> list_all valid_profile (cat_profiles c) \<and>
     distinct (map contract_key (cat_contracts c)) \<and>
     list_all (\<lambda>p. set (qp_contract_keys p) \<subseteq> set (map contract_key (cat_contracts c)) \<and>
       set (map contract_key (filter (\<lambda>q. qc_maturity q = DeprecatedContract) (cat_contracts c))) \<inter>
         set (qp_contract_keys p) = {}) (cat_profiles c) \<and>
     distinct (map (\<lambda>p. (qp_id p, qp_version p)) (cat_profiles c))"

definition catalog_digest :: "(string \<Rightarrow> digest) \<Rightarrow> question_catalog \<Rightarrow> digest" where
  "catalog_digest sha c = content_fingerprint sha ''rci.question-catalog.v1'' (JObj
    [(''id'', JStr (cat_id c)), (''version'', JStr (cat_version c)),
     (''contracts'', JList (map contract_json (cat_contracts c))),
     (''profiles'', JList (map (\<lambda>p. JObj [(''id'', JStr (qp_id p)), (''version'', JStr (qp_version p)),
        (''contract_keys'', str_list (qp_contract_keys p))]) (cat_profiles c)))])"

text \<open>\<open>by_key\<close> is a dict comprehension, so a later contract of a key would win; a missing key raises.\<close>

definition schedulable_contracts :: "question_catalog \<Rightarrow> string \<Rightarrow> string \<Rightarrow> question_contract list result" where
  "schedulable_contracts c profile_id version =
    (case List.find (\<lambda>p. qp_id p = profile_id \<and> qp_version p = version) (cat_profiles c) of
       None \<Rightarrow> Inl (KeyError (''unknown question profile '' @ profile_id @ ''@'' @ version))
     | Some p \<Rightarrow> collect_results (map (\<lambda>k. case index_by contract_key (cat_contracts c) k of
         None \<Rightarrow> Inl (KeyError k) | Some q \<Rightarrow> Inr q) (qp_contract_keys p)))"

section \<open>Templates\<close>

text \<open>The rest of a replacement field after its opening brace: its name and what follows it. An empty
  format specification is the only one accepted.\<close>

fun take_field :: "string \<Rightarrow> string \<Rightarrow> (string \<times> string) option" where
  "take_field acc [] = None"
| "take_field acc (c # cs) =
    (if c = CHR ''}'' then (if acc = [] then None else Some (rev acc, cs))
     else if c = CHR '':'' then (case cs of [] \<Rightarrow> None
       | d # ds \<Rightarrow> if d = CHR ''}'' \<and> acc \<noteq> [] then Some (rev acc, ds) else None)
     else if c \<in> set ''{[.!'' then None
     else take_field (c # acc) cs)"

lemma take_field_shorter: "take_field acc cs = Some (n, rest) \<Longrightarrow> length rest < length cs"
  by (induction acc cs rule: take_field.induct) (auto split: if_splits list.splits)

datatype template_part = Literal char | Field string

function template_parts :: "string \<Rightarrow> template_part list option" where
  "template_parts [] = Some []"
| "template_parts (c # cs) =
    (if c = CHR ''{'' then
       (case cs of
          [] \<Rightarrow> None
        | d # ds \<Rightarrow> if d = c then map_option ((#) (Literal c)) (template_parts ds)
            else (case take_field [] cs of None \<Rightarrow> None
              | Some (n, rest) \<Rightarrow> map_option ((#) (Field n)) (template_parts rest)))
     else if c = CHR ''}'' then
       (case cs of [] \<Rightarrow> None
        | d # ds \<Rightarrow> if d = c then map_option ((#) (Literal c)) (template_parts ds) else None)
     else map_option ((#) (Literal c)) (template_parts cs))"
  by pat_completeness auto
termination
  by (relation "measure length") (auto simp del: take_field.simps dest: take_field_shorter)

fun part_fields :: "template_part list \<Rightarrow> string list" where
  "part_fields [] = []"
| "part_fields (Literal c # ps) = part_fields ps"
| "part_fields (Field n # ps) = n # part_fields ps"

definition render_fields :: "string \<Rightarrow> string list result" where
  "render_fields template = (case template_parts template of
     None \<Rightarrow> Inl (ValueError ''templates may reference only direct named fields'')
   | Some ps \<Rightarrow> Inr (part_fields ps))"

text \<open>A name of digits is a positional field to \<open>format_map\<close>, which rejects it.\<close>

definition positional :: "string \<Rightarrow> bool" where
  "positional n \<longleftrightarrow> list_all (\<lambda>c. c \<in> set ''0123456789'') n"

definition render_question :: "question_contract \<Rightarrow> (string \<times> string) list \<Rightarrow> string result" where
  "render_question c bindings = (case template_parts (qc_render_template c) of
     None \<Rightarrow> Inl (ValueError ''templates may reference only direct named fields'')
   | Some ps \<Rightarrow>
     if set (part_fields ps) \<noteq> set (map fst bindings) then Inl (ValueError ''render bindings mismatch'')
     else if list_ex positional (part_fields ps) then Inl (ValueError ''Format string contains positional fields'')
     else Inr (concat (map (\<lambda>p. case p of Literal ch \<Rightarrow> [ch] | Field n \<Rightarrow> the (map_of bindings n)) ps)))"

definition bind_answer ::
  "(string \<Rightarrow> digest) \<Rightarrow> question_contract \<Rightarrow> inert_payload \<Rightarrow> bound_argument list \<Rightarrow> scope \<Rightarrow> provenance \<Rightarrow>
     claim result" where
  "bind_answer sha c answer bound_args sc prov =
    (if qc_answer_shape c \<noteq> OpaqueL0Inert then Inl (ValueError ''unregistered answer shape'')
     else if qc_answer_schema_id c \<noteq> ''rci.inert-payload.v1'' then Inl (ValueError ''unregistered answer schema'')
     else if qc_bind_policy_id c \<noteq> ''bind-l0-v1'' then Inl (ValueError ''unregistered bind policy'')
     else bind_l0_answer sha (contract_key c) (qc_output_claim_role c) answer bound_args sc prov None)"

section \<open>The sealed catalogs\<close>

definition catalog_contract ::
  "string \<Rightarrow> string \<Rightarrow> claim_role \<Rightarrow> string \<Rightarrow> contract_maturity \<Rightarrow> string list \<Rightarrow> question_contract" where
  "catalog_contract contract_id family role template maturity next_rules =
    \<lparr>qc_id = contract_id, qc_version = ''1.0.0'', qc_family = family, qc_input_roles = [''carrier''],
     qc_output_claim_role = role, qc_precondition_policy_id = ''carrier-present-v1'',
     qc_render_template = template, qc_answer_shape = OpaqueL0Inert,
     qc_answer_schema_id = ''rci.inert-payload.v1'', qc_bind_policy_id = ''bind-l0-v1'',
     qc_reifier_id = None, qc_verifier_id = None, qc_update_rule_id = ''append-provisional-claim-v1'',
     qc_next_obligation_rule_ids = next_rules, qc_maturity = maturity, qc_recurrent_probe = False,
     qc_comparison_semantics_id = None, qc_canonical_probe_rendering = None,
     qc_applicability_guard_id = None, qc_history_policy_id = None\<rparr>"

definition core_contracts :: "question_contract list" where
  "core_contracts =
    [catalog_contract ''obligation-characterization'' ''present-obligation'' Characterization
       ''What exact relation must be established for {carrier}?'' StableContract [],
     catalog_contract ''same-class-variation'' ''stretch-positive'' Variation
       ''What variation of {carrier} preserves the protected consequence?'' StableContract [],
     catalog_contract ''minimal-boundary-crossing'' ''squeeze-positive-to-negative'' Boundary
       ''What smallest change to {carrier} crosses the protected boundary?'' StableContract [],
     catalog_contract ''factor-proposal'' ''factor'' Factor
       ''Which factor best explains the consequential variation in {carrier}?'' StableContract [],
     catalog_contract ''necessity-counterexample'' ''necessity'' Necessity
       ''Can the consequence hold without {carrier}?'' StableContract
       [''retain-counterexample-or-record-unknown-v1''],
     catalog_contract ''sufficiency-counterexample'' ''sufficiency'' Sufficiency
       ''Can {carrier} hold while the consequence fails?'' StableContract
       [''retain-counterexample-or-record-unknown-v1''],
     catalog_contract ''conflict-localization'' ''contradiction-repair'' Localization
       ''Where is the smallest explicit conflict involving {carrier}?'' StableContract [],
     catalog_contract ''residual-characterization'' ''residual'' ResidualRole
       ''What consequential uncertainty remains for {carrier}?'' StableContract []]"

definition draft_families :: "(string \<times> string \<times> claim_role) list" where
  "draft_families =
    [(''binding'', ''binding'', Characterization), (''consequence'', ''consequence'', Characterization),
     (''distinction'', ''distinction'', Boundary), (''equivalence'', ''equivalence'', Generalization),
     (''second-distinction'', ''second-distinction-tetrad'', Boundary), (''arrangement'', ''arrangement'', Pattern),
     (''succession'', ''succession'', Pattern), (''stretch-negative'', ''stretch-negative'', Variation),
     (''squeeze-negative-positive'', ''squeeze-negative-to-positive'', Boundary),
     (''extreme-reversal'', ''extreme-reversal'', Variation),
     (''problem-reconstruction'', ''problem-non-problem'', Characterization),
     (''abstraction'', ''abstraction'', Generalization),
     (''description-control'', ''description-control'', Prerequisite),
     (''actualization'', ''actualization'', Actualization), (''prerequisite'', ''prerequisite'', Prerequisite),
     (''discharge-selection'', ''discharge-selection'', Characterization), (''warrant'', ''warrant'', Characterization),
     (''success-localization'', ''success-localization'', Localization),
     (''failure-localization'', ''failure-localization'', Localization),
     (''generalization'', ''generalization'', Generalization),
     (''conditional-learning'', ''conditional-learning'', Generalization), (''reopening'', ''reopening'', ResidualRole),
     (''compression'', ''compression'', ResidualRole),
     (''intermediate-lawfulness'', ''intermediate-lawfulness'', Invariant),
     (''question-selection'', ''question-selection'', Characterization), (''progress'', ''progress'', Characterization),
     (''stopping'', ''stopping'', Characterization), (''recurrent-perception'', ''recurrent-perceptual'', Pattern)]"

definition draft_contracts :: "question_contract list" where
  "draft_contracts = map (\<lambda>(contract_id, family, role). catalog_contract (''draft-'' @ contract_id) family role
     (''What does the '' @ family @ '' relation reveal about {carrier}?'') DraftContract []) draft_families"

definition core_v1 :: question_profile where
  "core_v1 = \<lparr>qp_id = ''core-v1'', qp_version = ''1.0.0'', qp_contract_keys = map contract_key core_contracts\<rparr>"

definition catalog_v0_3 :: question_catalog where
  "catalog_v0_3 = \<lparr>cat_id = ''rci-question-catalog'', cat_version = ''0.3.0'',
     cat_contracts = core_contracts @ draft_contracts, cat_profiles = [core_v1]\<rparr>"

definition learned_recurrent_probe :: question_contract where
  "learned_recurrent_probe =
    (catalog_contract ''learned-recurrent-probe'' ''learned-recurrent-perceptual'' Pattern
       ''What protected distinction does the admitted probe reveal for {carrier}?'' StableContract
       [''retain-provisional-pattern-or-record-unknown-v1''])
    \<lparr>qc_precondition_policy_id := ''admitted-learned-probe-v1'', qc_recurrent_probe := True,
     qc_comparison_semantics_id := Some ''candidate-bound-exact-v1'',
     qc_canonical_probe_rendering := Some ''learned-recurrent-probe-v1'',
     qc_applicability_guard_id := Some ''always'', qc_history_policy_id := Some ''fresh-before-history-v1''\<rparr>"

definition g2b_cognitive_v1 :: question_profile where
  "g2b_cognitive_v1 = \<lparr>qp_id = ''g2b-cognitive-v1'', qp_version = ''1.0.0'',
     qp_contract_keys = [contract_key learned_recurrent_probe]\<rparr>"

definition catalog_v0_4 :: question_catalog where
  "catalog_v0_4 = \<lparr>cat_id = ''rci-question-catalog'', cat_version = ''0.4.0'',
     cat_contracts = cat_contracts catalog_v0_3 @ [learned_recurrent_probe],
     cat_profiles = cat_profiles catalog_v0_3 @ [g2b_cognitive_v1]\<rparr>"

definition get_contract :: "string \<Rightarrow> string \<Rightarrow> question_contract result" where
  "get_contract contract_id version =
    (case List.find (\<lambda>c. qc_id c = contract_id \<and> qc_version c = version) (cat_contracts catalog_v0_4) of
       None \<Rightarrow> Inl (KeyError (''unknown question contract '' @ contract_id @ ''@'' @ version))
     | Some c \<Rightarrow> Inr c)"

section \<open>Properties of the catalog\<close>

lemma catalog_v0_4_valid: "valid_catalog catalog_v0_4"
  by code_simp

lemma catalog_contracts_roles: "\<forall>c \<in> set (cat_contracts catalog_v0_4). qc_input_roles c = [''carrier'']"
  by code_simp

text \<open>A valid catalog schedules every profile it has: the keys are known and the contracts are the ones the
  profile names, none deprecated.\<close>

lemma schedulable_total:
  assumes "valid_catalog c" "p \<in> set (cat_profiles c)"
  shows "\<exists>qs. schedulable_contracts c (qp_id p) (qp_version p) = Inr qs \<and> map contract_key qs = qp_contract_keys p \<and>
    (\<forall>q \<in> set qs. q \<in> set (cat_contracts c) \<and> qc_maturity q \<noteq> DeprecatedContract)"
proof -
  have v: "set (qp_contract_keys p) \<subseteq> contract_key ` set (cat_contracts c)"
      "\<forall>q \<in> set (cat_contracts c). qc_maturity q = DeprecatedContract \<longrightarrow> contract_key q \<notin> set (qp_contract_keys p)"
      "distinct (map (\<lambda>p. (qp_id p, qp_version p)) (cat_profiles c))"
    using assms unfolding valid_catalog_def list_all_iff by (simp, fastforce, simp)
  define pick where "pick k = the (index_by contract_key (cat_contracts c) k)" for k
  have pick: "index_by contract_key (cat_contracts c) k = Some (pick k) \<and> contract_key (pick k) = k \<and>
      pick k \<in> set (cat_contracts c)" if "k \<in> set (qp_contract_keys p)" for k
  proof -
    have "index_by contract_key (cat_contracts c) k \<noteq> None"
      using that v(1) by (auto simp: index_by_None_iff simp del: not_None_eq)
    then obtain q where "index_by contract_key (cat_contracts c) k = Some q" by blast
    then show ?thesis using index_by_SomeD by (fastforce simp: pick_def)
  qed
  have f: "List.find (\<lambda>x. qp_id x = qp_id p \<and> qp_version x = qp_version p) (cat_profiles c) = Some p"
    using find_by_distinct [OF v(3) assms(2)] by (simp add: find_by_def)
  have "map (\<lambda>k. case index_by contract_key (cat_contracts c) k of None \<Rightarrow> Inl (KeyError k) | Some q \<Rightarrow> Inr q)
      (qp_contract_keys p) = map Inr (map pick (qp_contract_keys p))"
    using pick by simp
  then have "schedulable_contracts c (qp_id p) (qp_version p) = Inr (map pick (qp_contract_keys p))"
    unfolding schedulable_contracts_def f by (simp add: collect_results_Inr_iff)
  moreover have "map contract_key (map pick (qp_contract_keys p)) = qp_contract_keys p"
    using pick by (simp add: map_idI)
  ultimately show ?thesis using pick v(2) by fastforce
qed

text \<open>A template that mentions each field once renders to its literals with the bindings in place.\<close>

lemma render_catalog_contract:
  assumes "c \<in> set (cat_contracts catalog_v0_4)"
  shows "is_ok (render_question c [(''carrier'', v)])"
proof -
  have "list_all (\<lambda>c. case template_parts (qc_render_template c) of None \<Rightarrow> False
     | Some ps \<Rightarrow> part_fields ps = [''carrier'']) (cat_contracts catalog_v0_4)" by code_simp
  then show ?thesis
    using assms by (fastforce simp: list_all_iff render_question_def positional_def split: option.splits)
qed

end
