(* ===== verification/Rci_Project.thy ===== *)
theory Rci_Project
  imports Rci_Questions
begin

text \<open>
  The records of recursive project inquiry: \<open>project/models.py\<close>, each class as a record with its
  validator (field constraints and model validator together). The schema versions and the literal
  status fields are constants of the source and appear only where a fingerprint reads them.
\<close>

section \<open>Shared checks\<close>

definition valid_git_sha :: "string \<Rightarrow> bool" where
  "valid_git_sha s \<longleftrightarrow> length s = 40 \<and> list_all (\<lambda>c. c \<in> set ''0123456789abcdef'') s"

definition canonical_values :: "bool \<Rightarrow> string list \<Rightarrow> bool" where
  "canonical_values nonempty values \<longleftrightarrow> (nonempty \<longrightarrow> values \<noteq> []) \<and> canonical values"

abbreviation identifiers :: "string list \<Rightarrow> bool" where
  "identifiers xs \<equiv> list_all valid_identifier xs"

text \<open>The parts of a path between slashes. A normalized relative path has no part that
  \<open>PurePosixPath\<close> would drop or that leaves the root.\<close>

fun path_parts :: "string \<Rightarrow> string list" where
  "path_parts [] = [[]]"
| "path_parts (c # cs) = (if c = CHR ''/'' then [] # path_parts cs
     else (case path_parts cs of [] \<Rightarrow> [[c]] | p # ps \<Rightarrow> (c # p) # ps))"

definition repository_relative_path :: "string \<Rightarrow> bool" where
  "repository_relative_path v \<longleftrightarrow> CHR 0x5C \<notin> set v \<and> list_all (\<lambda>p. p \<notin> {[], ''.'', ''..''}) (path_parts v)"

section \<open>Enumerations\<close>

datatype limitation_kind =
    TheoryLimitation | QuestionLimitation | ProbeLimitation | RepresentationLimitation | MethodLimitation
  | EvidenceLimitation | ImplementationLimitation | AuthorityLimitation

fun limitation_kind_value :: "limitation_kind \<Rightarrow> string" where
  "limitation_kind_value TheoryLimitation = ''theory''"
| "limitation_kind_value QuestionLimitation = ''question''"
| "limitation_kind_value ProbeLimitation = ''probe''"
| "limitation_kind_value RepresentationLimitation = ''representation''"
| "limitation_kind_value MethodLimitation = ''method''"
| "limitation_kind_value EvidenceLimitation = ''evidence''"
| "limitation_kind_value ImplementationLimitation = ''implementation''"
| "limitation_kind_value AuthorityLimitation = ''authority''"

datatype successor_kind =
    TheorySuccessor | QuestionRepertoireSuccessor | ProbeRepertoireSuccessor | RepresentationSuccessorKind
  | MethodRepertoireSuccessor | ImplementationSuccessor | GoalDecompositionSuccessor

fun successor_kind_value :: "successor_kind \<Rightarrow> string" where
  "successor_kind_value TheorySuccessor = ''theory''"
| "successor_kind_value QuestionRepertoireSuccessor = ''question_repertoire''"
| "successor_kind_value ProbeRepertoireSuccessor = ''probe_repertoire''"
| "successor_kind_value RepresentationSuccessorKind = ''representation''"
| "successor_kind_value MethodRepertoireSuccessor = ''method_repertoire''"
| "successor_kind_value ImplementationSuccessor = ''implementation''"
| "successor_kind_value GoalDecompositionSuccessor = ''goal_decomposition''"

datatype project_gain_kind =
    RepairedFailure | NewSeparator | ExecutableRelation | ComplexityReduction | DevelopmentRecovery
  | ScopeExtension | NewMethod | IndependentCheckability

fun gain_kind_value :: "project_gain_kind \<Rightarrow> string" where
  "gain_kind_value RepairedFailure = ''repaired_failure''"
| "gain_kind_value NewSeparator = ''new_separator''"
| "gain_kind_value ExecutableRelation = ''executable_relation''"
| "gain_kind_value ComplexityReduction = ''complexity_reduction''"
| "gain_kind_value DevelopmentRecovery = ''development_recovery''"
| "gain_kind_value ScopeExtension = ''scope_extension''"
| "gain_kind_value NewMethod = ''new_method''"
| "gain_kind_value IndependentCheckability = ''independent_checkability''"

datatype admission_outcome = Admit | RejectAdmission | InconclusiveAdmission

fun admission_outcome_value :: "admission_outcome \<Rightarrow> string" where
  "admission_outcome_value Admit = ''admit''"
| "admission_outcome_value RejectAdmission = ''reject''"
| "admission_outcome_value InconclusiveAdmission = ''inconclusive''"

datatype development_evidence_kind =
    Reproduction | TestEvidence | StaticCheck | PropertyCheck | Benchmark | SolverEvidence
  | ReferenceImplementation | BuildEvidence | CiEvidence | ResearchEvidence

datatype evidence_outcome = PassOutcome | FailOutcome | IndeterminateOutcome | UnsupportedOutcome

datatype review_outcome = ValidReview | InvalidReview | IndeterminateReview

datatype project_disposition = ReplaceDisposition | KeepDisposition | FrontierDisposition | RejectDisposition

datatype project_promotion_outcome = ProposedPromotion | MergedPromotion | RejectedPromotion | RevertRequired

text \<open>The phases of a cycle in the order of the enumeration.\<close>

datatype cycle_phase =
    Anchored | LimitationRecorded | BasisTested | FrontierConstructed | GoalSealed | CandidateDeveloped
  | LocallyVerified | IndependentlyReviewed | PrVerified | Merged | PostmergeVerified | Retained

definition cycle_phases :: "cycle_phase list" where
  "cycle_phases = [Anchored, LimitationRecorded, BasisTested, FrontierConstructed, GoalSealed, CandidateDeveloped,
     LocallyVerified, IndependentlyReviewed, PrVerified, Merged, PostmergeVerified, Retained]"

fun index_of :: "'a \<Rightarrow> 'a list \<Rightarrow> nat" where
  "index_of x [] = 0"
| "index_of x (y # ys) = (if x = y then 0 else Suc (index_of x ys))"

definition phase_index :: "cycle_phase \<Rightarrow> nat" where
  "phase_index p = index_of p cycle_phases"

datatype stop_reason =
    NoConsequentialResidue | NoDiscriminator | RepeatedBlocker | AuthorityExpansionRequired
  | StopEvidenceInvalid | StopEvidenceIndeterminate | StopUnknown

section \<open>Anchors, limitations and questions\<close>

record project_anchor =
  pa_id :: ident
  pa_repository :: string
  pa_protected_branch :: ident
  pa_commit_sha :: string
  pa_tree_digest :: digest
  pa_authority_digest :: digest
  pa_gate_digest :: digest
  pa_clean :: bool

definition valid_anchor :: "project_anchor \<Rightarrow> bool" where
  "valid_anchor a \<longleftrightarrow> valid_identifier (pa_id a) \<and> valid_text (pa_repository a) \<and>
     valid_identifier (pa_protected_branch a) \<and> valid_git_sha (pa_commit_sha a) \<and> valid_sha256 (pa_tree_digest a) \<and>
     valid_sha256 (pa_authority_digest a) \<and> valid_sha256 (pa_gate_digest a) \<and> pa_clean a"

record capability_limitation =
  cl_id :: ident
  cl_anchor_id :: ident
  cl_kind :: limitation_kind
  cl_current_capability :: string
  cl_missing_capability :: string
  cl_consequential_boundary :: string
  cl_protected_consequence_ids :: "ident list"
  cl_observed_evidence :: "artifact_ref list"
  cl_existing_question_contract_keys :: "ident list"
  cl_blocked_dependency_ids :: "ident list"

definition valid_limitation :: "capability_limitation \<Rightarrow> bool" where
  "valid_limitation l \<longleftrightarrow> valid_identifier (cl_id l) \<and> valid_identifier (cl_anchor_id l) \<and>
     valid_text (cl_current_capability l) \<and> valid_text (cl_missing_capability l) \<and>
     valid_text (cl_consequential_boundary l) \<and> identifiers (cl_protected_consequence_ids l) \<and>
     list_all valid_artifact_ref (cl_observed_evidence l) \<and> identifiers (cl_existing_question_contract_keys l) \<and>
     identifiers (cl_blocked_dependency_ids l) \<and>
     canonical_values True (cl_protected_consequence_ids l) \<and>
     canonical_values False (cl_existing_question_contract_keys l) \<and>
     canonical_values False (cl_blocked_dependency_ids l) \<and> cl_observed_evidence l \<noteq> []"

record consequential_return =
  ret_class_id :: ident
  ret_downstream_state_id :: ident
  ret_downstream_obligation_kind :: limitation_kind

record question_contract_candidate =
  qcc_id :: ident
  qcc_limitation_id :: ident
  qcc_contract :: question_contract
  qcc_typed_referent_ids :: "ident list"
  qcc_precondition_ids :: "ident list"
  qcc_possible_returns :: "consequential_return list"
  qcc_comparison_policy_id :: ident
  qcc_downstream_consumer_ids :: "ident list"
  qcc_falsifying_attack_ids :: "ident list"

definition valid_question_candidate :: "question_contract_candidate \<Rightarrow> bool" where
  "valid_question_candidate c \<longleftrightarrow> valid_identifier (qcc_id c) \<and> valid_identifier (qcc_limitation_id c) \<and>
     valid_contract (qcc_contract c) \<and> identifiers (qcc_typed_referent_ids c) \<and> identifiers (qcc_precondition_ids c) \<and>
     list_all (\<lambda>r. valid_identifier (ret_class_id r) \<and> valid_identifier (ret_downstream_state_id r))
       (qcc_possible_returns c) \<and>
     valid_identifier (qcc_comparison_policy_id c) \<and> identifiers (qcc_downstream_consumer_ids c) \<and>
     identifiers (qcc_falsifying_attack_ids c) \<and>
     canonical_values True (qcc_typed_referent_ids c) \<and> canonical_values False (qcc_precondition_ids c) \<and>
     canonical_values True (qcc_downstream_consumer_ids c) \<and> canonical_values True (qcc_falsifying_attack_ids c) \<and>
     2 \<le> card (set (map ret_downstream_state_id (qcc_possible_returns c))) \<and>
     qc_maturity (qcc_contract c) \<noteq> StableContract"

record question_repertoire_decision =
  qrd_id :: ident
  qrd_candidate_id :: ident
  qrd_outcome :: admission_outcome
  qrd_controller_policy_version :: ident
  qrd_evidence_ids :: "ident list"
  qrd_admitted_profile_id :: "ident option"

definition valid_question_decision :: "question_repertoire_decision \<Rightarrow> bool" where
  "valid_question_decision d \<longleftrightarrow> valid_identifier (qrd_id d) \<and> valid_identifier (qrd_candidate_id d) \<and>
     valid_identifier (qrd_controller_policy_version d) \<and> identifiers (qrd_evidence_ids d) \<and>
     qrd_admitted_profile_id d \<in> {None, Some ''recursive-project-v1''} \<and>
     canonical_values True (qrd_evidence_ids d) \<and> (qrd_outcome d = Admit) = (qrd_admitted_profile_id d \<noteq> None)"

section \<open>Methods\<close>

record method_binding_candidate =
  mbc_id :: ident
  mbc_limitation_id :: ident
  mbc_relation_id :: ident
  mbc_native_field :: string
  mbc_method_id :: ident
  mbc_primary_source_urls :: "string list"
  mbc_source_artifacts :: "artifact_ref list"
  mbc_assumption_ids :: "ident list"
  mbc_applicability_check_ids :: "ident list"
  mbc_license_id :: ident
  mbc_adapter_required :: bool

definition valid_method_candidate :: "method_binding_candidate \<Rightarrow> bool" where
  "valid_method_candidate c \<longleftrightarrow> valid_identifier (mbc_id c) \<and> valid_identifier (mbc_limitation_id c) \<and>
     valid_identifier (mbc_relation_id c) \<and> valid_text (mbc_native_field c) \<and> valid_identifier (mbc_method_id c) \<and>
     list_all valid_text (mbc_primary_source_urls c) \<and> list_all valid_artifact_ref (mbc_source_artifacts c) \<and>
     identifiers (mbc_assumption_ids c) \<and> identifiers (mbc_applicability_check_ids c) \<and>
     valid_identifier (mbc_license_id c) \<and> mbc_primary_source_urls c \<noteq> [] \<and> mbc_source_artifacts c \<noteq> [] \<and>
     canonical_values True (mbc_assumption_ids c) \<and> canonical_values True (mbc_applicability_check_ids c)"

record method_admission_decision =
  mad_id :: ident
  mad_candidate_id :: ident
  mad_outcome :: admission_outcome
  mad_method_policy_version :: ident
  mad_evidence_ids :: "ident list"
  mad_implementation_goal_id :: "ident option"

definition valid_method_decision :: "method_admission_decision \<Rightarrow> bool" where
  "valid_method_decision d \<longleftrightarrow> valid_identifier (mad_id d) \<and> valid_identifier (mad_candidate_id d) \<and>
     valid_identifier (mad_method_policy_version d) \<and> identifiers (mad_evidence_ids d) \<and>
     pred_option valid_identifier (mad_implementation_goal_id d) \<and> canonical_values True (mad_evidence_ids d)"

section \<open>Successor candidates, frontiers and goals\<close>

record project_cost =
  pcost_axis :: ident
  pcost_value :: "int option"

record successor_candidate =
  sc_id :: ident
  sc_anchor_id :: ident
  sc_limitation_id :: ident
  sc_kind :: successor_kind
  sc_current_state :: string
  sc_desired_state :: string
  sc_preserved_capability_ids :: "ident list"
  sc_explicitly_disposed_capability_ids :: "ident list"
  sc_gain_kinds :: "project_gain_kind list"
  sc_discriminator_id :: "ident option"
  sc_evidence_mechanism_ids :: "ident list"
  sc_estimated_costs :: "project_cost list"
  sc_reversible :: bool

definition valid_successor_candidate :: "successor_candidate \<Rightarrow> bool" where
  "valid_successor_candidate c \<longleftrightarrow> valid_identifier (sc_id c) \<and> valid_identifier (sc_anchor_id c) \<and>
     valid_identifier (sc_limitation_id c) \<and> valid_text (sc_current_state c) \<and> valid_text (sc_desired_state c) \<and>
     identifiers (sc_preserved_capability_ids c) \<and> identifiers (sc_explicitly_disposed_capability_ids c) \<and>
     pred_option valid_identifier (sc_discriminator_id c) \<and> identifiers (sc_evidence_mechanism_ids c) \<and>
     list_all (\<lambda>k. valid_identifier (pcost_axis k) \<and> pred_option (\<lambda>v. 0 \<le> v) (pcost_value k)) (sc_estimated_costs c) \<and>
     canonical_values True (sc_preserved_capability_ids c) \<and>
     canonical_values False (sc_explicitly_disposed_capability_ids c) \<and>
     canonical_values True (map gain_kind_value (sc_gain_kinds c)) \<and>
     canonical_values True (sc_evidence_mechanism_ids c) \<and>
     canonical_values True (map pcost_axis (sc_estimated_costs c)) \<and>
     set (sc_preserved_capability_ids c) \<inter> set (sc_explicitly_disposed_capability_ids c) = {}"

datatype frontier_status = FrontierReady | FrontierUnknown

record capability_frontier =
  fr_id :: ident
  fr_anchor_id :: ident
  fr_limitation_id :: ident
  fr_candidate_ids :: "ident list"
  fr_nondominated_candidate_ids :: "ident list"
  fr_incomparable_pairs :: "(ident \<times> ident) list"
  fr_selected_discriminator_candidate_id :: "ident option"
  fr_status :: frontier_status

definition valid_frontier :: "capability_frontier \<Rightarrow> bool" where
  "valid_frontier f \<longleftrightarrow> valid_identifier (fr_id f) \<and> valid_identifier (fr_anchor_id f) \<and>
     valid_identifier (fr_limitation_id f) \<and> identifiers (fr_candidate_ids f) \<and>
     identifiers (fr_nondominated_candidate_ids f) \<and>
     list_all (\<lambda>(l, r). valid_identifier l \<and> valid_identifier r) (fr_incomparable_pairs f) \<and>
     pred_option valid_identifier (fr_selected_discriminator_candidate_id f) \<and>
     canonical_values True (fr_candidate_ids f) \<and> canonical_values True (fr_nondominated_candidate_ids f) \<and>
     set (fr_nondominated_candidate_ids f) \<subseteq> set (fr_candidate_ids f) \<and>
     (fr_status f = FrontierReady \<longrightarrow> fr_selected_discriminator_candidate_id f \<noteq> None) \<and>
     (fr_status f = FrontierUnknown \<longrightarrow> fr_selected_discriminator_candidate_id f = None)"

record implementation_goal =
  goal_id :: ident
  goal_cycle_id :: ident
  goal_anchor_id :: ident
  goal_frontier_id :: ident
  goal_candidate_id :: ident
  goal_current :: string
  goal_desired :: string
  goal_separator :: string
  goal_expected_incumbent_return :: string
  goal_expected_candidate_return :: string
  goal_preserve_capability_ids :: "ident list"
  goal_acceptance_commands :: "string list"
  goal_allowed_mutation_roots :: "string list"
  goal_forbidden_authority_roots :: "string list"
  goal_assumption_ids :: "ident list"
  goal_incumbent_gate_digest :: digest
  goal_proposed_gate_digest :: digest
  goal_rollback_condition :: string
  goal_reopening_condition :: string

definition enters_root :: "string \<Rightarrow> string \<Rightarrow> bool" where
  "enters_root allowed forbidden \<longleftrightarrow> allowed = forbidden \<or> take (Suc (length forbidden)) allowed = forbidden @ ''/''"

definition valid_goal :: "implementation_goal \<Rightarrow> bool" where
  "valid_goal g \<longleftrightarrow> valid_identifier (goal_id g) \<and> valid_identifier (goal_cycle_id g) \<and>
     valid_identifier (goal_anchor_id g) \<and> valid_identifier (goal_frontier_id g) \<and> valid_identifier (goal_candidate_id g) \<and>
     list_all valid_text [goal_current g, goal_desired g, goal_separator g, goal_expected_incumbent_return g,
       goal_expected_candidate_return g, goal_rollback_condition g, goal_reopening_condition g] \<and>
     identifiers (goal_preserve_capability_ids g) \<and> list_all valid_text (goal_acceptance_commands g) \<and>
     list_all valid_text (goal_allowed_mutation_roots g) \<and> list_all valid_text (goal_forbidden_authority_roots g) \<and>
     identifiers (goal_assumption_ids g) \<and> valid_sha256 (goal_incumbent_gate_digest g) \<and>
     valid_sha256 (goal_proposed_gate_digest g) \<and>
     list_all (canonical_values True) [goal_preserve_capability_ids g, goal_acceptance_commands g,
       goal_allowed_mutation_roots g, goal_forbidden_authority_roots g, goal_assumption_ids g] \<and>
     list_all repository_relative_path (goal_allowed_mutation_roots g @ goal_forbidden_authority_roots g) \<and>
     list_all (\<lambda>a. \<not> list_ex (enters_root a) (goal_forbidden_authority_roots g)) (goal_allowed_mutation_roots g)"

record goal_candidate =
  gc_id :: ident
  gc_question_candidate_id :: ident
  gc_question_candidate_fingerprint :: digest
  gc_question_decision_id :: ident
  gc_question_decision_fingerprint :: digest
  gc_compiled_question_id :: ident
  gc_compiled_question_fingerprint :: digest
  gc_source_obligation_id :: ident
  gc_source_obligation_fingerprint :: digest
  gc_effect_request_id :: ident
  gc_accepted_decode_id :: ident
  gc_accepted_decode_fingerprint :: digest
  gc_source_claim_id :: ident
  gc_source_claim_fingerprint :: digest
  gc_downstream_obligation_id :: ident
  gc_downstream_obligation_fingerprint :: digest
  gc_anchor_id :: ident
  gc_anchor_fingerprint :: digest
  gc_limitation_id :: ident
  gc_limitation_fingerprint :: digest
  gc_frontier_id :: ident
  gc_frontier_fingerprint :: digest
  gc_selected_candidate_id :: ident
  gc_selected_candidate_fingerprint :: digest
  gc_binding_revision :: ident
  gc_scope_fingerprint :: digest
  gc_protected_horizon_id :: ident
  gc_goal :: implementation_goal
  gc_goal_fingerprint :: digest

definition valid_goal_candidate :: "goal_candidate \<Rightarrow> bool" where
  "valid_goal_candidate c \<longleftrightarrow>
     identifiers [gc_id c, gc_question_candidate_id c, gc_question_decision_id c, gc_compiled_question_id c,
       gc_source_obligation_id c, gc_effect_request_id c, gc_accepted_decode_id c, gc_source_claim_id c,
       gc_downstream_obligation_id c, gc_anchor_id c, gc_limitation_id c, gc_frontier_id c, gc_selected_candidate_id c,
       gc_binding_revision c, gc_protected_horizon_id c] \<and>
     list_all valid_sha256 [gc_question_candidate_fingerprint c, gc_question_decision_fingerprint c,
       gc_compiled_question_fingerprint c, gc_source_obligation_fingerprint c, gc_accepted_decode_fingerprint c,
       gc_source_claim_fingerprint c, gc_downstream_obligation_fingerprint c, gc_anchor_fingerprint c,
       gc_limitation_fingerprint c, gc_frontier_fingerprint c, gc_selected_candidate_fingerprint c,
       gc_scope_fingerprint c, gc_goal_fingerprint c] \<and>
     valid_goal (gc_goal c) \<and> goal_anchor_id (gc_goal c) = gc_anchor_id c \<and>
     goal_frontier_id (gc_goal c) = gc_frontier_id c \<and> goal_candidate_id (gc_goal c) = gc_selected_candidate_id c"

record goal_admission =
  gad_id :: ident
  gad_candidate_id :: ident
  gad_candidate_fingerprint :: digest
  gad_outcome :: admission_outcome
  gad_evidence_record_ids :: "ident list"
  gad_admitted_goal_id :: "ident option"

definition valid_goal_admission :: "goal_admission \<Rightarrow> bool" where
  "valid_goal_admission d \<longleftrightarrow> valid_identifier (gad_id d) \<and> valid_identifier (gad_candidate_id d) \<and>
     valid_sha256 (gad_candidate_fingerprint d) \<and> identifiers (gad_evidence_record_ids d) \<and>
     pred_option valid_identifier (gad_admitted_goal_id d) \<and>
     canonical_values True (gad_evidence_record_ids d) \<and> (gad_outcome d = Admit) = (gad_admitted_goal_id d \<noteq> None)"

section \<open>Development, review and promotion\<close>

record candidate_environment =
  env_id :: ident
  env_goal_id :: ident
  env_developer_id :: ident
  env_base_commit_sha :: string
  env_candidate_branch :: ident
  env_worktree_path :: string
  env_initial_tree_digest :: digest
  env_toolchain_artifact :: artifact_ref
  env_toolchain_digest :: digest

definition valid_candidate_environment :: "candidate_environment \<Rightarrow> bool" where
  "valid_candidate_environment e \<longleftrightarrow> identifiers [env_id e, env_goal_id e, env_developer_id e, env_candidate_branch e] \<and>
     valid_git_sha (env_base_commit_sha e) \<and> valid_text (env_worktree_path e) \<and>
     valid_sha256 (env_initial_tree_digest e) \<and> valid_artifact_ref (env_toolchain_artifact e) \<and>
     valid_sha256 (env_toolchain_digest e)"

record development_evidence =
  de_id :: ident
  de_goal_id :: ident
  de_candidate_environment_id :: ident
  de_kind :: development_evidence_kind
  de_command_or_method :: string
  de_outcome :: evidence_outcome
  de_observed_return :: artifact_ref
  de_base_commit_sha :: string
  de_candidate_commit_sha :: string
  de_gate_digest :: digest

definition valid_development_evidence :: "development_evidence \<Rightarrow> bool" where
  "valid_development_evidence e \<longleftrightarrow> identifiers [de_id e, de_goal_id e, de_candidate_environment_id e] \<and>
     valid_text (de_command_or_method e) \<and> valid_artifact_ref (de_observed_return e) \<and>
     valid_git_sha (de_base_commit_sha e) \<and> valid_git_sha (de_candidate_commit_sha e) \<and> valid_sha256 (de_gate_digest e)"

record independent_review =
  rv_id :: ident
  rv_goal_id :: ident
  rv_candidate_environment_id :: ident
  rv_reviewer_id :: ident
  rv_reviewer_context_digest :: digest
  rv_reviewed_commit_sha :: string
  rv_evidence_ids :: "ident list"
  rv_outcome :: review_outcome
  rv_findings_artifact :: artifact_ref

definition valid_review :: "independent_review \<Rightarrow> bool" where
  "valid_review r \<longleftrightarrow> identifiers [rv_id r, rv_goal_id r, rv_candidate_environment_id r, rv_reviewer_id r] \<and>
     valid_sha256 (rv_reviewer_context_digest r) \<and> valid_git_sha (rv_reviewed_commit_sha r) \<and>
     identifiers (rv_evidence_ids r) \<and> valid_artifact_ref (rv_findings_artifact r) \<and>
     canonical_values True (rv_evidence_ids r)"

record successor_decision =
  psd_id :: ident
  psd_goal_id :: ident
  psd_candidate_id :: ident
  psd_candidate_environment_id :: ident
  psd_review_id :: ident
  psd_evidence_ids :: "ident list"
  psd_disposition :: project_disposition
  psd_preserved_capability_ids :: "ident list"
  psd_explicitly_disposed_capability_ids :: "ident list"
  psd_gain_kinds :: "project_gain_kind list"
  psd_reason :: string

definition valid_successor_decision :: "successor_decision \<Rightarrow> bool" where
  "valid_successor_decision d \<longleftrightarrow>
     identifiers [psd_id d, psd_goal_id d, psd_candidate_id d, psd_candidate_environment_id d, psd_review_id d] \<and>
     identifiers (psd_evidence_ids d) \<and> identifiers (psd_preserved_capability_ids d) \<and>
     identifiers (psd_explicitly_disposed_capability_ids d) \<and> valid_text (psd_reason d) \<and>
     canonical_values True (psd_evidence_ids d) \<and> canonical_values True (psd_preserved_capability_ids d) \<and>
     canonical_values False (psd_explicitly_disposed_capability_ids d) \<and>
     canonical_values False (map gain_kind_value (psd_gain_kinds d)) \<and>
     (psd_disposition d = ReplaceDisposition \<longrightarrow> psd_gain_kinds d \<noteq> [])"

datatype check_result = CheckSuccess | CheckFailure | CheckCancelled | CheckSkipped

record check_conclusion =
  cc_context :: string
  cc_conclusion :: check_result

record project_promotion =
  prom_id :: ident
  prom_successor_decision_id :: ident
  prom_candidate_commit_sha :: string
  prom_pull_request_url :: string
  prom_required_checks :: "check_conclusion list"
  prom_outcome :: project_promotion_outcome
  prom_merged_commit_sha :: "string option"

definition valid_project_promotion :: "project_promotion \<Rightarrow> bool" where
  "valid_project_promotion p \<longleftrightarrow> identifiers [prom_id p, prom_successor_decision_id p] \<and>
     valid_git_sha (prom_candidate_commit_sha p) \<and> valid_text (prom_pull_request_url p) \<and>
     list_all (\<lambda>c. valid_text (cc_context c)) (prom_required_checks p) \<and>
     pred_option valid_git_sha (prom_merged_commit_sha p) \<and>
     canonical_values True (map cc_context (prom_required_checks p)) \<and>
     (if prom_outcome p = MergedPromotion
      then prom_merged_commit_sha p \<noteq> None \<and> list_all (\<lambda>c. cc_conclusion c = CheckSuccess) (prom_required_checks p)
      else prom_merged_commit_sha p = None)"

record cycle_checkpoint =
  cp_id :: ident
  cp_cycle_id :: ident
  cp_phase :: cycle_phase
  cp_predecessor_id :: "ident option"
  cp_record_ids :: "ident list"
  cp_report_artifact :: artifact_ref

definition valid_checkpoint :: "cycle_checkpoint \<Rightarrow> bool" where
  "valid_checkpoint c \<longleftrightarrow> identifiers [cp_id c, cp_cycle_id c] \<and> pred_option valid_identifier (cp_predecessor_id c) \<and>
     identifiers (cp_record_ids c) \<and> valid_artifact_ref (cp_report_artifact c) \<and>
     canonical_values True (cp_record_ids c) \<and> cp_predecessor_id c \<noteq> Some (cp_id c)"

record stop_disposition =
  stop_id :: ident
  stop_cycle_id :: ident
  stop_reason_of :: stop_reason
  stop_consequential_residual_ids :: "ident list"
  stop_blocked_dependency_ids :: "ident list"
  stop_evidence_artifact :: artifact_ref

definition valid_stop :: "stop_disposition \<Rightarrow> bool" where
  "valid_stop d \<longleftrightarrow> identifiers [stop_id d, stop_cycle_id d] \<and> identifiers (stop_consequential_residual_ids d) \<and>
     identifiers (stop_blocked_dependency_ids d) \<and> valid_artifact_ref (stop_evidence_artifact d) \<and>
     canonical_values False (stop_consequential_residual_ids d) \<and>
     canonical_values False (stop_blocked_dependency_ids d) \<and>
     (stop_reason_of d = NoConsequentialResidue \<longrightarrow> stop_consequential_residual_ids d = [])"

end
