(* ===== verification/Rci_Frontier.thy ===== *)
theory Rci_Frontier
  imports Rci_Project
begin

text \<open>
  The deterministic selection of successor frontiers (\<open>project/selection.py\<close>). The locale
  \<open>dominance\<close> is the contract of a strict partial order; it is interpreted on
  \<open>candidate_dominates\<close>, and gives that every candidate is covered by a nondominated one.
\<close>

section \<open>Selection\<close>

definition cost_axes :: "successor_candidate \<Rightarrow> ident set" where
  "cost_axes c = set (map pcost_axis (sc_estimated_costs c))"

text \<open>The value of an axis in the dict comprehension over the cost items.\<close>

definition cost_at :: "successor_candidate \<Rightarrow> ident \<Rightarrow> int option" where
  "cost_at c a = (case index_by pcost_axis (sc_estimated_costs c) a of None \<Rightarrow> None | Some k \<Rightarrow> pcost_value k)"

definition costs_known :: "successor_candidate \<Rightarrow> bool" where
  "costs_known c \<longleftrightarrow> (\<forall>a \<in> cost_axes c. cost_at c a \<noteq> None)"

definition candidate_dominates :: "successor_candidate \<Rightarrow> successor_candidate \<Rightarrow> bool" where
  "candidate_dominates left right \<longleftrightarrow>
     (sc_anchor_id left, sc_limitation_id left) = (sc_anchor_id right, sc_limitation_id right) \<and>
     cost_axes left = cost_axes right \<and> costs_known left \<and> costs_known right \<and>
     set (sc_preserved_capability_ids right) \<subseteq> set (sc_preserved_capability_ids left) \<and>
     set (sc_gain_kinds right) \<subseteq> set (sc_gain_kinds left) \<and>
     (\<forall>a \<in> cost_axes left. the (cost_at left a) \<le> the (cost_at right a)) \<and>
     (set (sc_preserved_capability_ids right) \<subset> set (sc_preserved_capability_ids left) \<or>
      set (sc_gain_kinds right) \<subset> set (sc_gain_kinds left) \<or>
      (\<exists>a \<in> cost_axes left. the (cost_at left a) < the (cost_at right a)))"

definition nondominated_of :: "successor_candidate list \<Rightarrow> successor_candidate list" where
  "nondominated_of ordered = filter (\<lambda>x. \<not> (\<exists>y \<in> set ordered. sc_id y \<noteq> sc_id x \<and> candidate_dominates y x)) ordered"

fun incomparable_pairs :: "successor_candidate list \<Rightarrow> (ident \<times> ident) list" where
  "incomparable_pairs [] = []"
| "incomparable_pairs (left # rest) =
     map (\<lambda>r. (sc_id left, sc_id r))
       (filter (\<lambda>r. \<not> candidate_dominates left r \<and> \<not> candidate_dominates r left) rest) @ incomparable_pairs rest"

definition selectable_of :: "successor_candidate list \<Rightarrow> successor_candidate list" where
  "selectable_of nondominated = filter (\<lambda>c. sc_reversible c \<and> sc_discriminator_id c \<noteq> None) nondominated"

definition costs_comparable :: "successor_candidate list \<Rightarrow> bool" where
  "costs_comparable selectable \<longleftrightarrow> selectable \<noteq> [] \<and> list_all costs_known selectable \<and>
     card (set (map cost_axes selectable)) = 1"

definition cost_minima :: "successor_candidate list \<Rightarrow> successor_candidate list" where
  "cost_minima selectable = (if costs_comparable selectable
     then filter (\<lambda>c. \<forall>d \<in> set selectable. \<forall>a \<in> cost_axes c. the (cost_at c a) \<le> the (cost_at d a)) selectable
     else [])"

text \<open>\<open>min(xs, key=...)\<close>: the first element with the least key.\<close>

definition min_by_id :: "successor_candidate list \<Rightarrow> successor_candidate option" where
  "min_by_id cs = (case sort_key sc_id cs of [] \<Rightarrow> None | c # _ \<Rightarrow> Some c)"

definition frontier_of :: "ident \<Rightarrow> successor_candidate list \<Rightarrow> capability_frontier" where
  "frontier_of frontier_id ordered =
    (let nondominated = nondominated_of ordered;
         selected = min_by_id (cost_minima (selectable_of nondominated)) in
     \<lparr>fr_id = frontier_id, fr_anchor_id = sc_anchor_id (hd ordered), fr_limitation_id = sc_limitation_id (hd ordered),
      fr_candidate_ids = map sc_id ordered, fr_nondominated_candidate_ids = map sc_id nondominated,
      fr_incomparable_pairs = incomparable_pairs nondominated,
      fr_selected_discriminator_candidate_id = map_option sc_id selected,
      fr_status = (if selected \<noteq> None then FrontierReady else FrontierUnknown)\<rparr>)"

definition derive_capability_frontier :: "ident \<Rightarrow> successor_candidate list \<Rightarrow> capability_frontier result" where
  "derive_capability_frontier frontier_id candidates =
    (let ordered = sort_key sc_id candidates in
     if ordered = [] then Inl (ValueError ''a capability frontier requires candidates'')
     else if \<exists>c \<in> set ordered. (sc_anchor_id c, sc_limitation_id c) \<noteq>
         (sc_anchor_id (hd ordered), sc_limitation_id (hd ordered))
     then Inl (ValueError ''frontier candidates must share an exact anchor and limitation'')
     else if \<not> distinct (map sc_id ordered) then Inl (ValueError ''frontier candidate identities must be unique'')
     else construct valid_frontier ''CapabilityFrontier'' (frontier_of frontier_id ordered))"

section \<open>Dominance\<close>

locale dominance =
  fixes dominates :: "'a \<Rightarrow> 'a \<Rightarrow> bool"
  assumes irrefl: "\<not> dominates x x"
    and trans: "dominates x y \<Longrightarrow> dominates y z \<Longrightarrow> dominates x z"
begin

lemma covered:
  assumes "finite A" "x \<in> A"
  shows "\<exists>m \<in> A. (m = x \<or> dominates m x) \<and> (\<forall>y \<in> A. \<not> dominates y m)"
  using assms(2)
proof (induction "card {y \<in> A. dominates y x}" arbitrary: x rule: less_induct)
  case less
  show ?case
  proof (cases "\<exists>y \<in> A. dominates y x")
    case True
    then obtain y where y: "y \<in> A" "dominates y x" by blast
    have "{z \<in> A. dominates z y} \<subset> {z \<in> A. dominates z x}"
      using y irrefl trans by blast
    then have "card {z \<in> A. dominates z y} < card {z \<in> A. dominates z x}"
      using assms(1) by (intro psubset_card_mono) auto
    then obtain m where "m \<in> A" "m = y \<or> dominates m y" "\<forall>z \<in> A. \<not> dominates z m"
      using less.hyps y(1) by blast
    then show ?thesis using y(2) trans by blast
  qed (use less.prems in blast)
qed

lemma asym: "dominates x y \<Longrightarrow> \<not> dominates y x"
  using irrefl trans by blast

end

lemma dominates_irrefl: "\<not> candidate_dominates c c"
  by (simp add: candidate_dominates_def)

lemma dominates_trans:
  assumes "candidate_dominates x y" "candidate_dominates y z"
  shows "candidate_dominates x z"
proof -
  have le: "the (cost_at x a) \<le> the (cost_at y a)" "the (cost_at y a) \<le> the (cost_at z a)" if "a \<in> cost_axes x" for a
    using assms that by (auto simp: candidate_dominates_def)
  have sub: "set (sc_preserved_capability_ids z) \<subseteq> set (sc_preserved_capability_ids y)"
      "set (sc_preserved_capability_ids y) \<subseteq> set (sc_preserved_capability_ids x)"
      "set (sc_gain_kinds z) \<subseteq> set (sc_gain_kinds y)" "set (sc_gain_kinds y) \<subseteq> set (sc_gain_kinds x)"
      "cost_axes x = cost_axes y" "cost_axes y = cost_axes z"
    using assms by (auto simp: candidate_dominates_def)
  have "set (sc_preserved_capability_ids y) \<subset> set (sc_preserved_capability_ids x) \<or>
      set (sc_gain_kinds y) \<subset> set (sc_gain_kinds x) \<or> (\<exists>a \<in> cost_axes x. the (cost_at x a) < the (cost_at y a))"
    using assms(1) unfolding candidate_dominates_def by blast
  then have "set (sc_preserved_capability_ids z) \<subset> set (sc_preserved_capability_ids x) \<or>
      set (sc_gain_kinds z) \<subset> set (sc_gain_kinds x) \<or> (\<exists>a \<in> cost_axes x. the (cost_at x a) < the (cost_at z a))"
    using sub le by (meson less_le_trans subset_psubset_trans psubset_subset_trans)
  moreover have "\<forall>a \<in> cost_axes x. the (cost_at x a) \<le> the (cost_at z a)"
    using le by (meson order_trans)
  ultimately show ?thesis
    using assms sub unfolding candidate_dominates_def by auto
qed

interpretation successors: dominance candidate_dominates
  by unfold_locales (simp add: dominates_irrefl, rule dominates_trans)

lemma nondominated_iff:
  assumes "distinct (map sc_id cs)"
  shows "c \<in> set (nondominated_of cs) \<longleftrightarrow> c \<in> set cs \<and> (\<forall>d \<in> set cs. \<not> candidate_dominates d c)"
proof -
  have "sc_id d \<noteq> sc_id c" if "c \<in> set cs" "d \<in> set cs" "candidate_dominates d c" for d
  proof
    assume "sc_id d = sc_id c"
    then have "d = c" using assms that(1,2) by (meson distinct_map inj_onD)
    then show False using that(3) dominates_irrefl by simp
  qed
  then show ?thesis unfolding nondominated_of_def by auto
qed

lemma sorted_map_filter: "sorted (map f xs) \<Longrightarrow> sorted (map f (filter P xs))"
  by (induction xs) auto

lemma incomparable_pairs_identifiers:
  "\<forall>c \<in> set cs. valid_identifier (sc_id c) \<Longrightarrow>
     list_all (\<lambda>(l, r). valid_identifier l \<and> valid_identifier r) (incomparable_pairs cs)"
  by (induction cs) (auto simp: list_all_iff)

lemma min_by_id_Some:
  assumes "min_by_id cs = Some c"
  shows "c \<in> set cs" "d \<in> set cs \<Longrightarrow> sc_id c \<le> sc_id d"
proof -
  obtain rest where s: "sort_key sc_id cs = c # rest"
    using assms by (auto simp: min_by_id_def split: list.splits)
  have "set (sort_key sc_id cs) = set cs" by simp
  then show "c \<in> set cs" unfolding s by auto
  have "sorted (map sc_id (c # rest))" using sorted_sort_key [of sc_id cs] unfolding s .
  moreover assume "d \<in> set cs"
  then have "d \<in> set (c # rest)" unfolding s [symmetric] by simp
  ultimately show "sc_id c \<le> sc_id d" by auto
qed

text \<open>What the frontier promises, in terms of dominance and cost alone. A discriminator may be chosen among the
  undominated reversible candidates that have one. A candidate is cheapest if it is such a choice and every
  choice has known costs on the same axes that are nowhere lower.\<close>

definition discriminator_choice :: "successor_candidate list \<Rightarrow> successor_candidate \<Rightarrow> bool" where
  "discriminator_choice cs c \<longleftrightarrow> c \<in> set cs \<and> (\<forall>d \<in> set cs. \<not> candidate_dominates d c) \<and>
     sc_reversible c \<and> sc_discriminator_id c \<noteq> None"

definition cheapest_choice :: "successor_candidate list \<Rightarrow> successor_candidate \<Rightarrow> bool" where
  "cheapest_choice cs c \<longleftrightarrow> discriminator_choice cs c \<and>
     (\<forall>d. discriminator_choice cs d \<longrightarrow> cost_axes d = cost_axes c \<and>
        (\<forall>a \<in> cost_axes c. \<exists>x y. cost_at c a = Some x \<and> cost_at d a = Some y \<and> x \<le> y))"

text \<open>The selection is the cheapest choice with the least identity, and there is one whenever there is a
  cheapest choice; the recorded incomparable pairs are all pairs of undominated candidates.\<close>

definition frontier_correct :: "successor_candidate list \<Rightarrow> capability_frontier \<Rightarrow> bool" where
  "frontier_correct cs f \<longleftrightarrow> set (fr_candidate_ids f) = sc_id ` set cs \<and>
     (\<forall>c \<in> set cs. sc_id c \<in> set (fr_nondominated_candidate_ids f) \<longleftrightarrow> (\<forall>d \<in> set cs. \<not> candidate_dominates d c)) \<and>
     (\<forall>c \<in> set cs. \<exists>d \<in> set cs. sc_id d \<in> set (fr_nondominated_candidate_ids f) \<and> (d = c \<or> candidate_dominates d c)) \<and>
     set (fr_incomparable_pairs f) =
       {(i, j). i \<in> set (fr_nondominated_candidate_ids f) \<and> j \<in> set (fr_nondominated_candidate_ids f) \<and> i < j} \<and>
     (fr_status f = FrontierReady \<longleftrightarrow> (\<exists>c. cheapest_choice cs c)) \<and>
     (\<forall>i. fr_selected_discriminator_candidate_id f = Some i \<longleftrightarrow>
        (\<exists>c. cheapest_choice cs c \<and> sc_id c = i \<and> (\<forall>d. cheapest_choice cs d \<longrightarrow> i \<le> sc_id d)))"

lemma cost_minima_iff:
  assumes "\<And>c. c \<in> set sel \<longleftrightarrow> discriminator_choice cs c"
  shows "c \<in> set (cost_minima sel) \<longleftrightarrow> cheapest_choice cs c"
proof
  assume c: "c \<in> set (cost_minima sel)"
  then have m: "costs_comparable sel" "c \<in> set sel"
      "\<forall>d \<in> set sel. \<forall>a \<in> cost_axes c. the (cost_at c a) \<le> the (cost_at d a)"
    by (auto simp: cost_minima_def split: if_splits)
  obtain x where x: "cost_axes ` set sel = {x}" using m(1) by (auto simp: costs_comparable_def card_1_singleton_iff)
  have axes: "cost_axes d = cost_axes c" if "d \<in> set sel" for d
    using x m(2) that by blast
  have known: "costs_known d" if "d \<in> set sel" for d
    using m(1) that by (simp add: costs_comparable_def list_all_iff)
  have "\<exists>x y. cost_at c a = Some x \<and> cost_at d a = Some y \<and> x \<le> y" if d: "d \<in> set sel" "a \<in> cost_axes c" for d a
  proof -
    obtain x y where "cost_at c a = Some x" "cost_at d a = Some y"
      using known [OF m(2)] known [OF d(1)] axes [OF d(1)] d(2) unfolding costs_known_def by (metis not_None_eq)
    then show ?thesis using m(3) d by force
  qed
  then show "cheapest_choice cs c" unfolding cheapest_choice_def using assms m(2) axes by blast
next
  assume c: "cheapest_choice cs c"
  then have sel: "c \<in> set sel" "\<And>d. d \<in> set sel \<Longrightarrow> cost_axes d = cost_axes c"
      "\<And>d a. d \<in> set sel \<Longrightarrow> a \<in> cost_axes c \<Longrightarrow> \<exists>x y. cost_at c a = Some x \<and> cost_at d a = Some y \<and> x \<le> y"
    unfolding cheapest_choice_def using assms by blast+
  have "list_all costs_known sel" unfolding list_all_iff costs_known_def using sel(2,3) by force
  moreover have "cost_axes ` set sel = {cost_axes c}" using sel(1,2) by blast
  ultimately have "costs_comparable sel" using sel(1) by (auto simp: costs_comparable_def)
  moreover have "the (cost_at c a) \<le> the (cost_at d a)" if "d \<in> set sel" "a \<in> cost_axes c" for d a
    using sel(3) [OF that] by auto
  ultimately show "c \<in> set (cost_minima sel)" using sel(1) by (simp add: cost_minima_def)
qed

lemma incomparable_pairs_all:
  assumes "sorted (map sc_id ns)" "distinct (map sc_id ns)" "\<forall>x \<in> set ns. \<forall>y \<in> set ns. \<not> candidate_dominates x y"
  shows "set (incomparable_pairs ns) = {(i, j). i \<in> sc_id ` set ns \<and> j \<in> sc_id ` set ns \<and> i < j}"
  using assms
proof (induction ns)
  case (Cons x ns)
  have lt: "sc_id x < sc_id y" if "y \<in> set ns" for y
    using Cons.prems(1,2) that by (simp add: order.strict_iff_order) blast
  have "filter (\<lambda>r. \<not> candidate_dominates x r \<and> \<not> candidate_dominates r x) ns = ns"
    using Cons.prems(3) by (intro filter_True) simp
  then have "set (incomparable_pairs (x # ns)) = (\<lambda>r. (sc_id x, sc_id r)) ` set ns \<union>
      {(i, j). i \<in> sc_id ` set ns \<and> j \<in> sc_id ` set ns \<and> i < j}"
    using Cons.IH Cons.prems by simp
  also have "\<dots> = {(i, j). i \<in> sc_id ` set (x # ns) \<and> j \<in> sc_id ` set (x # ns) \<and> i < j}"
  proof (intro set_eqI iffI)
    fix p assume "p \<in> {(i, j). i \<in> sc_id ` set (x # ns) \<and> j \<in> sc_id ` set (x # ns) \<and> i < j}"
    then obtain i j where p: "p = (i, j)" "i < j" "i = sc_id x \<or> i \<in> sc_id ` set ns" "j = sc_id x \<or> j \<in> sc_id ` set ns" by auto
    have "j \<noteq> sc_id x" using p(2,3) lt by (metis image_iff less_asym less_irrefl)
    then show "p \<in> (\<lambda>r. (sc_id x, sc_id r)) ` set ns \<union> {(i, j). i \<in> sc_id ` set ns \<and> j \<in> sc_id ` set ns \<and> i < j}"
      using p by auto
  qed (use lt in auto)
  finally show ?case .
qed simp

lemma min_by_id_None: "min_by_id cs = None \<longleftrightarrow> cs = []"
proof
  assume "min_by_id cs = None"
  then have "sort_key sc_id cs = []" by (simp add: min_by_id_def split: list.splits)
  then have "set cs = {}" by (metis set_sort list.set(1))
  then show "cs = []" by simp
qed (simp add: min_by_id_def)

lemma frontier_of_correct:
  assumes "distinct (map sc_id cs)" "sorted (map sc_id cs)"
  shows "frontier_correct cs (frontier_of i cs)"
proof -
  let ?n = "nondominated_of cs"
  let ?m = "cost_minima (selectable_of ?n)"
  have sub: "set ?n \<subseteq> set cs" by (auto simp: nondominated_of_def)
  have inj: "c = d" if "c \<in> set cs" "d \<in> set cs" "sc_id c = sc_id d" for c d
    using assms that by (meson distinct_map inj_onD)
  note nd = nondominated_iff [OF assms(1)]
  have mem: "sc_id c \<in> set (map sc_id ?n) \<longleftrightarrow> c \<in> set ?n" if "c \<in> set cs" for c
    using inj sub that by (auto simp: image_iff)
  have cov: "\<exists>d \<in> set cs. sc_id d \<in> set (map sc_id ?n) \<and> (d = c \<or> candidate_dominates d c)" if "c \<in> set cs" for c
    using successors.covered [OF _ that] mem nd by (metis List.finite_set)
  have ch: "c \<in> set (selectable_of ?n) \<longleftrightarrow> discriminator_choice cs c" for c
    using nd by (auto simp: selectable_of_def discriminator_choice_def)
  note low = cost_minima_iff [OF ch]
  have pairs: "set (incomparable_pairs ?n) = {(i, j). i \<in> sc_id ` set ?n \<and> j \<in> sc_id ` set ?n \<and> i < j}"
  proof (rule incomparable_pairs_all)
    show "sorted (map sc_id ?n)" unfolding nondominated_of_def using assms(2) by (rule sorted_map_filter)
    show "distinct (map sc_id ?n)" unfolding nondominated_of_def using assms(1) by (rule distinct_map_filter)
    show "\<forall>x \<in> set ?n. \<forall>y \<in> set ?n. \<not> candidate_dominates x y" using nd sub by blast
  qed
  have some: "min_by_id ?m \<noteq> None \<longleftrightarrow> (\<exists>c. cheapest_choice cs c)"
    unfolding min_by_id_None using low by (metis list.set_intros(1) neq_Nil_conv empty_iff list.set(1))
  have sel: "map_option sc_id (min_by_id ?m) = Some j \<longleftrightarrow>
      (\<exists>c. cheapest_choice cs c \<and> sc_id c = j \<and> (\<forall>d. cheapest_choice cs d \<longrightarrow> j \<le> sc_id d))" for j
  proof
    assume "map_option sc_id (min_by_id ?m) = Some j"
    then obtain c where c: "min_by_id ?m = Some c" "sc_id c = j" by auto
    then show "\<exists>c. cheapest_choice cs c \<and> sc_id c = j \<and> (\<forall>d. cheapest_choice cs d \<longrightarrow> j \<le> sc_id d)"
      using min_by_id_Some [OF c(1)] low by blast
  next
    assume "\<exists>c. cheapest_choice cs c \<and> sc_id c = j \<and> (\<forall>d. cheapest_choice cs d \<longrightarrow> j \<le> sc_id d)"
    then obtain c where c: "cheapest_choice cs c" "sc_id c = j" "\<forall>d. cheapest_choice cs d \<longrightarrow> j \<le> sc_id d" by blast
    then obtain x where x: "min_by_id ?m = Some x" using some by auto
    then have "sc_id x \<le> j" "j \<le> sc_id x"
      using min_by_id_Some [OF x] low c by blast+
    then show "map_option sc_id (min_by_id ?m) = Some j" using x by simp
  qed
  show ?thesis
    unfolding frontier_correct_def frontier_of_def Let_def
    using cov mem nd pairs sel some by simp
qed

lemma frontier_of_valid:
  assumes "cs \<noteq> []" "sorted (map sc_id cs)" "distinct (map sc_id cs)" "\<forall>c \<in> set cs. valid_successor_candidate c"
    and "valid_identifier i"
  shows "valid_frontier (frontier_of i cs)"
proof -
  let ?n = "nondominated_of cs"
  have ids: "valid_identifier (sc_id c)" "valid_identifier (sc_anchor_id c)" "valid_identifier (sc_limitation_id c)"
    if "c \<in> set cs" for c
    using assms(4) that by (auto simp: valid_successor_candidate_def)
  have sub: "set ?n \<subseteq> set cs" by (auto simp: nondominated_of_def)
  have hd: "hd cs \<in> set cs" using assms(1) by simp
  have "?n \<noteq> []"
    using successors.covered [OF _ hd] nondominated_iff [OF assms(3)] by (metis List.finite_set empty_iff empty_set)
  moreover have "canonical (map sc_id ?n)"
    using assms(2,3) by (auto simp: canonical_iff nondominated_of_def sorted_map_filter distinct_map_filter)
  moreover have "list_all (\<lambda>(l, r). valid_identifier l \<and> valid_identifier r) (incomparable_pairs ?n)"
    using ids sub by (intro incomparable_pairs_identifiers) auto
  moreover have "pred_option valid_identifier (map_option sc_id (min_by_id (cost_minima (selectable_of ?n))))"
  proof (cases "min_by_id (cost_minima (selectable_of ?n))")
    case (Some c)
    then have "c \<in> set cs"
      using min_by_id_Some(1) [OF Some] sub by (auto simp: selectable_of_def cost_minima_def split: if_splits)
    then show ?thesis using Some ids by simp
  qed simp
  ultimately show ?thesis
    using assms ids hd sub
    by (auto simp: valid_frontier_def frontier_of_def Let_def canonical_values_def canonical_iff list_all_iff)
qed

lemma sort_key_unique:
  assumes "mset xs = mset ys" "distinct (map f xs)"
  shows "sort_key f xs = sort_key f ys"
proof (rule properties_for_sort_key)
  show "mset (sort_key f ys) = mset xs" using assms(1) by simp
  show "sorted (map f (sort_key f ys))" by simp
  show "filter (\<lambda>x. f k = f x) (sort_key f ys) = filter (\<lambda>x. f k = f x) xs" if "k \<in> set (sort_key f ys)" for k
  proof -
    have k: "k \<in> set xs" using that assms(1) by (metis set_mset_mset set_sort)
    have inj: "x = k" if "x \<in> set xs" "f k = f x" for x
      using assms(2) that k by (metis distinct_map inj_onD)
    have one: "filter (\<lambda>x. f k = f x) zs = [k]" if "mset zs = mset xs" for zs
    proof -
      have "mset (filter (\<lambda>x. f k = f x) zs) = filter_mset (\<lambda>x. x = k) (mset xs)"
        using that inj by (auto intro!: filter_mset_cong simp flip: set_mset_mset)
      also have "\<dots> = {#k#}"
        using k distinct_count_atmost_1 [of xs] assms(2) by (simp add: filter_eq_replicate_mset distinct_map)
      finally show ?thesis by (simp only: mset_single_iff)
    qed
    show ?thesis using one [of "sort_key f ys"] one [of xs] assms(1) by simp
  qed
qed

section \<open>The frontier\<close>

text \<open>C19: a frontier can be derived for every collection of valid candidates of one limitation with
  distinct identities; it is a valid record of that anchor and limitation, its nondominated members are exactly the
  candidates no other dominates, each candidate is a member or dominated by one, and all pairs of members are recorded
  as incomparable. A discriminator is selected exactly when some undominated reversible candidate with a
  discriminator has known costs that are the least among all such candidates on every axis; the
  selection is then the one of these with the least identity. The order in which the candidates are given does not matter.\<close>

theorem frontier_derivation_correct:
  assumes "cs \<noteq> []" "distinct (map sc_id cs)" "\<forall>c \<in> set cs. valid_successor_candidate c" "valid_identifier i"
    and "\<forall>c \<in> set cs. sc_anchor_id c = anchor \<and> sc_limitation_id c = limitation" "mset cs' = mset cs"
  shows "\<exists>f. derive_capability_frontier i cs = Inr f \<and> derive_capability_frontier i cs' = Inr f \<and>
    valid_frontier f \<and> fr_id f = i \<and> fr_anchor_id f = anchor \<and> fr_limitation_id f = limitation \<and> frontier_correct cs f"
proof -
  let ?o = "sort_key sc_id cs"
  have o: "?o \<noteq> []" "sorted (map sc_id ?o)" "distinct (map sc_id ?o)" "set ?o = set cs"
    using assms(1,2) by (auto simp: distinct_map simp flip: set_empty)
  have h: "sc_anchor_id (hd ?o) = anchor" "sc_limitation_id (hd ?o) = limitation"
    using assms(5) o(1,4) by (metis hd_in_set)+
  have "derive_capability_frontier i cs = Inr (frontier_of i ?o)"
    unfolding derive_capability_frontier_def Let_def using o h assms(5) frontier_of_valid [OF o(1-3)] assms(3,4)
    by (auto simp: construct_Inr_iff)
  moreover have "derive_capability_frontier i cs' = derive_capability_frontier i cs"
    unfolding derive_capability_frontier_def using sort_key_unique [OF assms(6) [symmetric] assms(2)] by simp
  moreover have "frontier_correct cs (frontier_of i ?o)"
    using frontier_of_correct [OF o(3,2), of i]
    unfolding frontier_correct_def cheapest_choice_def discriminator_choice_def o(4) .
  moreover have "valid_frontier (frontier_of i ?o)" using frontier_of_valid [OF o(1-3)] assms(3,4) o(4) by simp
  moreover have "fr_id (frontier_of i ?o) = i" "fr_anchor_id (frontier_of i ?o) = anchor"
      "fr_limitation_id (frontier_of i ?o) = limitation"
    using h by (simp_all add: frontier_of_def Let_def)
  ultimately show ?thesis by metis
qed

definition demo_successor :: "ident \<Rightarrow> project_gain_kind list \<Rightarrow> int option \<Rightarrow> successor_candidate" where
  "demo_successor i gains cost =
    \<lparr>sc_id = i, sc_anchor_id = ''anchor'', sc_limitation_id = ''limitation'', sc_kind = ImplementationSuccessor,
     sc_current_state = ''current'', sc_desired_state = ''desired'', sc_preserved_capability_ids = [''replay''],
     sc_explicitly_disposed_capability_ids = [], sc_gain_kinds = gains, sc_discriminator_id = Some ''goal-synthesis-acceptance'',
     sc_evidence_mechanism_ids = [''pytest''], sc_estimated_costs = [\<lparr>pcost_axis = ''effort'', pcost_value = cost\<rparr>],
     sc_reversible = True\<rparr>"

theorem frontier_derivation_correct_witness:
  "\<exists>f. derive_capability_frontier ''frontier'' [demo_successor ''b'' [NewMethod] (Some 3), demo_successor ''a'' [NewMethod] (Some 5)] = Inr f \<and>
     frontier_correct [demo_successor ''b'' [NewMethod] (Some 3), demo_successor ''a'' [NewMethod] (Some 5)] f \<and>
     fr_selected_discriminator_candidate_id f = Some ''b''"
proof -
  let ?cs = "[demo_successor ''b'' [NewMethod] (Some 3), demo_successor ''a'' [NewMethod] (Some 5)]"
  have "list_all valid_successor_candidate ?cs \<and> valid_identifier ''frontier'' \<and>
      map_sum id fr_selected_discriminator_candidate_id (derive_capability_frontier ''frontier'' ?cs) = Inr (Some ''b'')"
    by code_simp
  then show ?thesis
    using frontier_derivation_correct [of ?cs "''frontier''" "''anchor''" "''limitation''" ?cs]
    by (auto simp: demo_successor_def map_sum_Inr_iff)
qed

end
