(* ===== verification/Rci_Goals.thy ===== *)
theory Rci_Goals
  imports Rci_State Rci_Frontier
begin

text \<open>
  The project collections of the aggregate (\<open>core/state.py\<close>) and the two pure compilers that read them:
  generated questions (\<open>questions/generated.py\<close>) and implementation goals
  (\<open>project/goal_synthesis.py\<close>). A \<open>project_state\<close> is the aggregate of \<open>Rci_State\<close> with the project
  collections beside it. The JSON text that pydantic gives a claim is the parameter \<open>dump\<close>: the
  compiler only compares its digest with the one the decoder recorded.
\<close>

section \<open>The aggregate with its project collections\<close>

record project_state =
  ps_core :: inquiry_state
  ps_anchors :: "project_anchor list"
  ps_limitations :: "capability_limitation list"
  ps_question_candidates :: "question_contract_candidate list"
  ps_question_decisions :: "question_repertoire_decision list"
  ps_method_candidates :: "method_binding_candidate list"
  ps_method_decisions :: "method_admission_decision list"
  ps_successor_candidates :: "successor_candidate list"
  ps_frontiers :: "capability_frontier list"
  ps_goal_candidates :: "goal_candidate list"
  ps_goal_admissions :: "goal_admission list"
  ps_goals :: "implementation_goal list"
  ps_environments :: "candidate_environment list"
  ps_evidence :: "development_evidence list"
  ps_reviews :: "independent_review list"
  ps_successor_decisions :: "successor_decision list"
  ps_promotions :: "project_promotion list"
  ps_checkpoints :: "cycle_checkpoint list"
  ps_stops :: "stop_disposition list"

definition without_project :: "inquiry_state \<Rightarrow> project_state" where
  "without_project s = \<lparr>ps_core = s, ps_anchors = [], ps_limitations = [], ps_question_candidates = [],
     ps_question_decisions = [], ps_method_candidates = [], ps_method_decisions = [], ps_successor_candidates = [],
     ps_frontiers = [], ps_goal_candidates = [], ps_goal_admissions = [], ps_goals = [], ps_environments = [],
     ps_evidence = [], ps_reviews = [], ps_successor_decisions = [], ps_promotions = [], ps_checkpoints = [],
     ps_stops = []\<rparr>"

abbreviation ps_context :: "project_state \<Rightarrow> inquiry_context option" where
  "ps_context s \<equiv> st_context (ps_core s)"

section \<open>Generated questions (questions/generated.py)\<close>

record compiled_referent =
  cref_record_type :: ident
  cref_record_id :: ident

record compiled_question =
  cq_id :: ident
  cq_candidate_id :: ident
  cq_candidate_fingerprint :: digest
  cq_decision_id :: ident
  cq_decision_fingerprint :: digest
  cq_limitation_id :: ident
  cq_anchor_id :: ident
  cq_anchor_commit_sha :: string
  cq_binding_revision :: ident
  cq_scope_fingerprint :: digest
  cq_protected_horizon_id :: ident
  cq_comparison_policy_id :: ident
  cq_contract :: question_contract
  cq_referents :: "compiled_referent list"
  cq_possible_returns :: "consequential_return list"
  cq_downstream_consumer_ids :: "ident list"

definition valid_compiled_question :: "compiled_question \<Rightarrow> bool" where
  "valid_compiled_question q \<longleftrightarrow>
     identifiers [cq_id q, cq_candidate_id q, cq_decision_id q, cq_limitation_id q, cq_anchor_id q,
       cq_binding_revision q, cq_protected_horizon_id q, cq_comparison_policy_id q] \<and>
     list_all valid_sha256 [cq_candidate_fingerprint q, cq_decision_fingerprint q, cq_scope_fingerprint q] \<and>
     valid_git_sha (cq_anchor_commit_sha q) \<and> valid_contract (cq_contract q) \<and>
     list_all (\<lambda>r. valid_identifier (cref_record_type r) \<and> valid_identifier (cref_record_id r)) (cq_referents q) \<and>
     list_all (\<lambda>r. valid_identifier (ret_class_id r) \<and> valid_identifier (ret_downstream_state_id r))
       (cq_possible_returns q) \<and>
     identifiers (cq_downstream_consumer_ids q) \<and>
     sort_key (\<lambda>r. (cref_record_type r, cref_record_id r)) (cq_referents q) = cq_referents q \<and>
     sort_key ret_class_id (cq_possible_returns q) = cq_possible_returns q"

text \<open>The record types an identity belongs to, over the collections the index reads (goal candidates and
  goal admissions are not among them).\<close>

definition referent_collections :: "project_state \<Rightarrow> (string \<times> ident list) list" where
  "referent_collections s =
    [(''project_anchor'', map pa_id (ps_anchors s)), (''capability_limitation'', map cl_id (ps_limitations s)),
     (''question_contract_candidate'', map qcc_id (ps_question_candidates s)),
     (''question_repertoire_decision'', map qrd_id (ps_question_decisions s)),
     (''method_binding_candidate'', map mbc_id (ps_method_candidates s)),
     (''method_admission_decision'', map mad_id (ps_method_decisions s)),
     (''capability_successor_candidate'', map sc_id (ps_successor_candidates s)),
     (''capability_frontier'', map fr_id (ps_frontiers s)), (''implementation_goal'', map goal_id (ps_goals s)),
     (''candidate_environment'', map env_id (ps_environments s)), (''development_evidence'', map de_id (ps_evidence s)),
     (''independent_review'', map rv_id (ps_reviews s)),
     (''project_successor_decision'', map psd_id (ps_successor_decisions s)),
     (''promotion_decision'', map prom_id (ps_promotions s)),
     (''recursive_cycle_checkpoint'', map cp_id (ps_checkpoints s)),
     (''recursive_stop_disposition'', map stop_id (ps_stops s))]"

definition project_referent_index :: "project_state \<Rightarrow> ident \<Rightarrow> string list" where
  "project_referent_index s i = sort (concat (map (\<lambda>(t, ids). map (\<lambda>_. t) (filter (\<lambda>j. j = i) ids))
     (referent_collections s)))"

definition compile_referents :: "project_state \<Rightarrow> question_contract_candidate \<Rightarrow> compiled_referent list result" where
  "compile_referents s c =
    (if qcc_limitation_id c \<notin> set (qcc_typed_referent_ids c)
     then Inl (ValueError ''generated question must explicitly reference its exact limitation'')
     else map_sum id (sort_key (\<lambda>r. (cref_record_type r, cref_record_id r)))
       (collect_results (map (\<lambda>i. case project_referent_index s i of
          [t] \<Rightarrow> Inr \<lparr>cref_record_type = t, cref_record_id = i\<rparr>
        | _ \<Rightarrow> Inl (ValueError ''generated question referents must resolve to one exact owned project record''))
        (qcc_typed_referent_ids c))))"

definition validate_safe_contract :: "question_contract_candidate \<Rightarrow> unit result" where
  "validate_safe_contract c =
    (let k = qcc_contract c in
     if qc_family k \<noteq> ''recursive-project''
     then Inl (ValueError ''generated question is outside the recursive-project family'')
     else if qc_maturity k \<notin> {DraftContract, ExperimentalContract}
     then Inl (ValueError ''generated question must remain draft or experimental'')
     else if qc_input_roles k \<noteq> [''limitation'']
     then Inl (ValueError ''generated question compiler v1 accepts only the exact limitation input role'')
     else if contract_key k \<in> set (map contract_key (cat_contracts catalog_v0_4))
     then Inl (ValueError ''generated question cannot shadow a sealed catalog contract'')
     else if qc_precondition_policy_id k \<noteq> ''owned-project-limitation-v1'' \<or> qc_answer_shape k \<noteq> OpaqueL0Inert \<or>
       qc_answer_schema_id k \<noteq> ''rci.inert-payload.v1'' \<or> qc_bind_policy_id k \<noteq> ''bind-l0-v1'' \<or>
       qc_update_rule_id k \<noteq> ''append-provisional-claim-v1'' \<or> qc_reifier_id k \<noteq> None \<or> qc_verifier_id k \<noteq> None \<or>
       qc_recurrent_probe k \<or> qc_next_obligation_rule_ids k \<noteq> []
     then Inl (ValueError ''generated question requests an unimplemented or authority-bearing contract seam'')
     else if \<not> is_ok (render_question k (map (\<lambda>r. (r, r)) (qc_input_roles k)))
     then Inl (ValueError ''generated question template and typed input roles do not match'')
     else if qcc_precondition_ids c \<noteq> [''owned-limitation'']
     then Inl (ValueError ''generated question has an unknown precondition policy input'')
     else if qcc_comparison_policy_id c \<noteq> ''consequence-distinction-v1''
     then Inl (ValueError ''generated question comparison policy is stale'')
     else if \<not> set (qcc_downstream_consumer_ids c) \<subseteq> {''frontier-builder''}
     then Inl (ValueError ''generated question names an unimplemented downstream consumer'')
     else if \<not> distinct (map ret_class_id (qcc_possible_returns c))
     then Inl (ValueError ''generated return-class identities must be unique'')
     else Inr ())"

definition is_active_decision :: "question_repertoire_decision \<Rightarrow> bool" where
  "is_active_decision d \<longleftrightarrow> qrd_outcome d = Admit \<and> qrd_admitted_profile_id d = Some ''recursive-project-v1'' \<and>
     qrd_controller_policy_version d = ''recursive-question-policy-v1''"

definition active_decision :: "project_state \<Rightarrow> ident \<Rightarrow> question_repertoire_decision result" where
  "active_decision s i = (case filter (\<lambda>d. qrd_candidate_id d = i) (ps_question_decisions s) of
     [d] \<Rightarrow> if is_active_decision d then Inr d
       else Inl (ValueError ''generated question requires one exact active admission decision'')
   | _ \<Rightarrow> Inl (ValueError ''generated question requires one exact active admission decision''))"

definition return_json :: "consequential_return \<Rightarrow> json" where
  "return_json r = JObj [(''return_class_id'', JStr (ret_class_id r)),
     (''downstream_state_id'', JStr (ret_downstream_state_id r)),
     (''downstream_obligation_kind'', JStr (limitation_kind_value (ret_downstream_obligation_kind r)))]"

definition question_candidate_json :: "question_contract_candidate \<Rightarrow> json" where
  "question_candidate_json c = JObj
    [(''schema_version'', JInt 1), (''id'', JStr (qcc_id c)), (''limitation_id'', JStr (qcc_limitation_id c)),
     (''contract'', contract_json (qcc_contract c)), (''typed_referent_ids'', str_list (qcc_typed_referent_ids c)),
     (''precondition_ids'', str_list (qcc_precondition_ids c)),
     (''possible_returns'', JList (map return_json (qcc_possible_returns c))),
     (''comparison_policy_id'', JStr (qcc_comparison_policy_id c)),
     (''downstream_consumer_ids'', str_list (qcc_downstream_consumer_ids c)),
     (''falsifying_attack_ids'', str_list (qcc_falsifying_attack_ids c)), (''status'', JStr ''inert_candidate'')]"

definition question_decision_json :: "question_repertoire_decision \<Rightarrow> json" where
  "question_decision_json d = JObj
    [(''schema_version'', JInt 1), (''id'', JStr (qrd_id d)), (''candidate_id'', JStr (qrd_candidate_id d)),
     (''outcome'', JStr (admission_outcome_value (qrd_outcome d))),
     (''controller_policy_version'', JStr (qrd_controller_policy_version d)),
     (''evidence_ids'', str_list (qrd_evidence_ids d)), (''admitted_profile_id'', opt_str (qrd_admitted_profile_id d))]"

definition compiled_question_json :: "compiled_question \<Rightarrow> json" where
  "compiled_question_json q = JObj
    [(''schema_version'', JInt 1), (''id'', JStr (cq_id q)),
     (''compiler_version'', JStr ''generated-question-compiler-v1''), (''profile_id'', JStr ''recursive-project-v1''),
     (''candidate_id'', JStr (cq_candidate_id q)), (''candidate_fingerprint'', JStr (cq_candidate_fingerprint q)),
     (''decision_id'', JStr (cq_decision_id q)), (''decision_fingerprint'', JStr (cq_decision_fingerprint q)),
     (''limitation_id'', JStr (cq_limitation_id q)), (''anchor_id'', JStr (cq_anchor_id q)),
     (''anchor_commit_sha'', JStr (cq_anchor_commit_sha q)), (''binding_revision'', JStr (cq_binding_revision q)),
     (''scope_fingerprint'', JStr (cq_scope_fingerprint q)),
     (''protected_horizon_id'', JStr (cq_protected_horizon_id q)),
     (''comparison_policy_id'', JStr (cq_comparison_policy_id q)),
     (''controller_policy_version'', JStr ''recursive-question-policy-v1''), (''contract'', contract_json (cq_contract q)),
     (''referents'', JList (map (\<lambda>r. JObj [(''record_type'', JStr (cref_record_type r)),
        (''record_id'', JStr (cref_record_id r))]) (cq_referents q))),
     (''possible_returns'', JList (map return_json (cq_possible_returns q))),
     (''downstream_consumer_ids'', str_list (cq_downstream_consumer_ids q))]"

definition compiled_of ::
  "(string \<Rightarrow> digest) \<Rightarrow> inquiry_context \<Rightarrow> question_contract_candidate \<Rightarrow> question_repertoire_decision \<Rightarrow>
     capability_limitation \<Rightarrow> project_anchor \<Rightarrow> compiled_referent list \<Rightarrow> compiled_question" where
  "compiled_of sha ctx c d l a referents =
    (let cf = content_fingerprint sha ''rci.question-candidate.v1'' (question_candidate_json c);
         df = content_fingerprint sha ''rci.question-decision.v1'' (question_decision_json d);
         fp = content_fingerprint sha ''rci.generated-question.v1'' (JObj
           [(''candidate_fingerprint'', JStr cf), (''decision_fingerprint'', JStr df),
            (''anchor_commit_sha'', JStr (pa_commit_sha a)), (''binding_revision'', JStr (ctx_binding_revision ctx)),
            (''scope_fingerprint'', JStr (ctx_scope_fingerprint ctx)),
            (''protected_horizon_id'', JStr (ctx_protected_horizon_id ctx)),
            (''comparison_policy_id'', JStr (qcc_comparison_policy_id c)),
            (''compiler_version'', JStr ''generated-question-compiler-v1'')]) in
     \<lparr>cq_id = ''compiled-question-'' @ take 24 fp, cq_candidate_id = qcc_id c, cq_candidate_fingerprint = cf,
      cq_decision_id = qrd_id d, cq_decision_fingerprint = df, cq_limitation_id = cl_id l, cq_anchor_id = pa_id a,
      cq_anchor_commit_sha = pa_commit_sha a, cq_binding_revision = ctx_binding_revision ctx,
      cq_scope_fingerprint = ctx_scope_fingerprint ctx, cq_protected_horizon_id = ctx_protected_horizon_id ctx,
      cq_comparison_policy_id = qcc_comparison_policy_id c, cq_contract = qcc_contract c, cq_referents = referents,
      cq_possible_returns = sort_key ret_class_id (qcc_possible_returns c),
      cq_downstream_consumer_ids = qcc_downstream_consumer_ids c\<rparr>)"

definition compile_admitted_question ::
  "(string \<Rightarrow> digest) \<Rightarrow> project_state \<Rightarrow> ident \<Rightarrow> compiled_question result" where
  "compile_admitted_question sha s candidate_id = (case ps_context s of
     None \<Rightarrow> Inl (ValueError ''generated question requires a started inquiry'')
   | Some ctx \<Rightarrow> (case find_by qcc_id candidate_id (ps_question_candidates s) of
     None \<Rightarrow> Inl (ValueError ''generated question candidate is not owned'')
   | Some c \<Rightarrow> (case active_decision s (qcc_id c) of Inl e \<Rightarrow> Inl e
   | Inr d \<Rightarrow> (case find_by cl_id (qcc_limitation_id c) (ps_limitations s) of
     None \<Rightarrow> Inl (ValueError ''generated question limitation is not owned'')
   | Some l \<Rightarrow> (case find_by pa_id (cl_anchor_id l) (ps_anchors s) of
     None \<Rightarrow> Inl (ValueError ''generated question requires its clean anchor'')
   | Some a \<Rightarrow>
     if \<not> pa_clean a then Inl (ValueError ''generated question requires its clean anchor'')
     else (case validate_safe_contract c of Inl e \<Rightarrow> Inl e
     | Inr _ \<Rightarrow> (case compile_referents s c of Inl e \<Rightarrow> Inl e
     | Inr referents \<Rightarrow> construct valid_compiled_question ''CompiledQuestionContract''
         (compiled_of sha ctx c d l a referents))))))))"

text \<open>The registry keeps what compiles and drops every contract key that two candidates claim. Only the
  compiler's own error is caught.\<close>

fun compile_all :: "(string \<Rightarrow> digest) \<Rightarrow> project_state \<Rightarrow> ident list \<Rightarrow> compiled_question list result" where
  "compile_all sha s [] = Inr []"
| "compile_all sha s (i # is) = (case compile_admitted_question sha s i of
     Inr q \<Rightarrow> map_sum id ((#) q) (compile_all sha s is)
   | Inl (ValueError _) \<Rightarrow> compile_all sha s is
   | Inl e \<Rightarrow> Inl e)"

definition generated_question_registry :: "(string \<Rightarrow> digest) \<Rightarrow> project_state \<Rightarrow> compiled_question list result" where
  "generated_question_registry sha s =
    map_sum id (\<lambda>qs. filter (\<lambda>q. length (filter (\<lambda>r. contract_key (cq_contract r) = contract_key (cq_contract q)) qs) = 1) qs)
      (compile_all sha s (sorted_list_of_set (set (map qrd_candidate_id
        (filter is_active_decision (ps_question_decisions s))))))"

section \<open>Implementation goals (project/goal_synthesis.py)\<close>

definition predecessor_gate_commands :: "string list" where
  "predecessor_gate_commands =
    [''uv lock --check'', ''uv sync --dev'', ''uv run python -c '' @ [CHR 0x22] @ ''import rci'' @ [CHR 0x22],
     ''uv run pytest -q -m '' @ [CHR 0x22] @ ''not optional'' @ [CHR 0x22], ''uv sync --all-extras --dev'',
     ''uv run ruff format --check .'', ''uv run ruff check .'', ''uv run mypy src/rci tests'', ''uv run pytest -q'',
     ''uv run pytest -q tests/acceptance'', ''uv run pytest -q tests/acceptance/test_g2a_retrieval_recovery.py'',
     ''uv run pytest -q tests/acceptance/test_g2b_consolidation_plasticity.py'',
     ''uv run pytest -q tests/acceptance/test_g3a_history_state.py'',
     ''uv run pytest -q tests/acceptance/test_recursive_project_inquiry.py'',
     ''uv run pytest -q tests/acceptance/test_regenerative_questions.py'', ''uv run rci --help'', ''uv build'']"

definition proposed_gate_commands :: "string list" where
  "proposed_gate_commands =
     predecessor_gate_commands @ [''uv run pytest -q tests/acceptance/test_goal_synthesis.py'']"

definition allowed_mutation_roots :: "string list" where
  "allowed_mutation_roots = [''src/rci/cli'', ''src/rci/core'', ''src/rci/project'', ''src/rci/sdk.py'', ''tests'']"

definition forbidden_authority_roots :: "string list" where
  "forbidden_authority_roots = [''.git'', ''.github'', ''.rci/config.toml'', ''AGENTS.md'', ''PLAN.md'',
     ''RCI_Project_Spec.tex'', ''docs/adr'', ''docs/goals'', ''docs/requirements-matrix.md'']"

definition goal_assumptions :: "string list" where
  "goal_assumptions = [''existing-effect-protocol-sufficient'', ''generated-return-is-provisional'',
     ''manual-goal-bypass-remains-external'', ''registry-confined-goal-shape-sufficient'']"

datatype goal_synthesis = CompiledGoal goal_candidate | SynthesisUnknown ident

definition text_argument :: "obligation \<Rightarrow> string \<Rightarrow> string option" where
  "text_argument q name = (case filter (\<lambda>a. arg_name a = name) (obl_args q) of
     [a] \<Rightarrow> (case arg_value a of JStr v \<Rightarrow> Some v | _ \<Rightarrow> None) | _ \<Rightarrow> None)"

definition gate_digest :: "(string \<Rightarrow> digest) \<Rightarrow> string list \<Rightarrow> digest" where
  "gate_digest sha commands = content_fingerprint sha ''rci.project-gate.v1'' (str_list commands)"

definition goal_admission_evidence_ids :: "goal_candidate \<Rightarrow> ident list" where
  "goal_admission_evidence_ids c = sorted_list_of_set
    {gc_question_candidate_id c, gc_question_decision_id c, gc_source_obligation_id c, gc_accepted_decode_id c,
     gc_source_claim_id c, gc_downstream_obligation_id c, gc_anchor_id c, gc_limitation_id c, gc_frontier_id c,
     gc_selected_candidate_id c}"

definition anchor_json :: "project_anchor \<Rightarrow> json" where
  "anchor_json a = JObj
    [(''schema_version'', JInt 1), (''id'', JStr (pa_id a)), (''repository'', JStr (pa_repository a)),
     (''protected_branch'', JStr (pa_protected_branch a)), (''commit_sha'', JStr (pa_commit_sha a)),
     (''tree_digest'', JStr (pa_tree_digest a)), (''authority_digest'', JStr (pa_authority_digest a)),
     (''gate_digest'', JStr (pa_gate_digest a)), (''clean'', JBool (pa_clean a))]"

definition limitation_json :: "capability_limitation \<Rightarrow> json" where
  "limitation_json l = JObj
    [(''schema_version'', JInt 1), (''id'', JStr (cl_id l)), (''anchor_id'', JStr (cl_anchor_id l)),
     (''kind'', JStr (limitation_kind_value (cl_kind l))), (''current_capability'', JStr (cl_current_capability l)),
     (''missing_capability'', JStr (cl_missing_capability l)),
     (''consequential_boundary'', JStr (cl_consequential_boundary l)),
     (''protected_consequence_ids'', str_list (cl_protected_consequence_ids l)),
     (''observed_evidence'', JList (map artifact_json (cl_observed_evidence l))),
     (''existing_question_contract_keys'', str_list (cl_existing_question_contract_keys l)),
     (''blocked_dependency_ids'', str_list (cl_blocked_dependency_ids l))]"

fun opt_int :: "int option \<Rightarrow> json" where
  "opt_int None = JNull"
| "opt_int (Some i) = JInt i"

definition successor_json :: "successor_candidate \<Rightarrow> json" where
  "successor_json c = JObj
    [(''schema_version'', JInt 1), (''id'', JStr (sc_id c)), (''anchor_id'', JStr (sc_anchor_id c)),
     (''limitation_id'', JStr (sc_limitation_id c)), (''kind'', JStr (successor_kind_value (sc_kind c))),
     (''current_state'', JStr (sc_current_state c)), (''desired_state'', JStr (sc_desired_state c)),
     (''preserved_capability_ids'', str_list (sc_preserved_capability_ids c)),
     (''explicitly_disposed_capability_ids'', str_list (sc_explicitly_disposed_capability_ids c)),
     (''gain_kinds'', str_list (map gain_kind_value (sc_gain_kinds c))),
     (''discriminator_id'', opt_str (sc_discriminator_id c)),
     (''evidence_mechanism_ids'', str_list (sc_evidence_mechanism_ids c)),
     (''estimated_costs'', JList (map (\<lambda>k. JObj [(''axis'', JStr (pcost_axis k)), (''value'', opt_int (pcost_value k))])
        (sc_estimated_costs c))), (''reversible'', JBool (sc_reversible c))]"

definition frontier_json :: "capability_frontier \<Rightarrow> json" where
  "frontier_json f = JObj
    [(''schema_version'', JInt 1), (''id'', JStr (fr_id f)), (''anchor_id'', JStr (fr_anchor_id f)),
     (''limitation_id'', JStr (fr_limitation_id f)), (''candidate_ids'', str_list (fr_candidate_ids f)),
     (''nondominated_candidate_ids'', str_list (fr_nondominated_candidate_ids f)),
     (''incomparable_pairs'', JList (map (\<lambda>(l, r). str_list [l, r]) (fr_incomparable_pairs f))),
     (''selected_discriminator_candidate_id'', opt_str (fr_selected_discriminator_candidate_id f)),
     (''selection_policy_version'', JStr ''project-frontier-v1''),
     (''status'', JStr (if fr_status f = FrontierReady then ''ready'' else ''unknown''))]"

definition goal_json :: "implementation_goal \<Rightarrow> json" where
  "goal_json g = JObj
    [(''schema_version'', JInt 1), (''id'', JStr (goal_id g)), (''cycle_id'', JStr (goal_cycle_id g)),
     (''anchor_id'', JStr (goal_anchor_id g)), (''frontier_id'', JStr (goal_frontier_id g)),
     (''candidate_id'', JStr (goal_candidate_id g)), (''current'', JStr (goal_current g)),
     (''desired'', JStr (goal_desired g)), (''separator'', JStr (goal_separator g)),
     (''expected_incumbent_return'', JStr (goal_expected_incumbent_return g)),
     (''expected_candidate_return'', JStr (goal_expected_candidate_return g)),
     (''preserve_capability_ids'', str_list (goal_preserve_capability_ids g)),
     (''acceptance_commands'', str_list (goal_acceptance_commands g)),
     (''allowed_mutation_roots'', str_list (goal_allowed_mutation_roots g)),
     (''forbidden_authority_roots'', str_list (goal_forbidden_authority_roots g)),
     (''assumption_ids'', str_list (goal_assumption_ids g)),
     (''incumbent_gate_digest'', JStr (goal_incumbent_gate_digest g)),
     (''proposed_gate_digest'', JStr (goal_proposed_gate_digest g)),
     (''rollback_condition'', JStr (goal_rollback_condition g)),
     (''reopening_condition'', JStr (goal_reopening_condition g))]"

fun claim_status_value :: "claim_status \<Rightarrow> string" where
  "claim_status_value Provisional = ''provisional''"
| "claim_status_value Suspended = ''suspended''"
| "claim_status_value Superseded = ''superseded''"

fun claim_assessment_value :: "claim_assessment \<Rightarrow> string" where
  "claim_assessment_value Unassessed = ''unassessed''"
| "claim_assessment_value Supported = ''supported''"
| "claim_assessment_value Contested = ''contested''"
| "claim_assessment_value Refuted = ''refuted''"
| "claim_assessment_value AssessmentUnknown = ''unknown''"

fun representation_level_value :: "representation_level \<Rightarrow> string" where
  "representation_level_value L0Opaque = ''l0_opaque''"
| "representation_level_value L1Structured = ''l1_structured''"
| "representation_level_value L2Formal = ''l2_formal''"
| "representation_level_value L3PromotedView = ''l3_promoted_view''"

fun polarity_value :: "polarity \<Rightarrow> string" where
  "polarity_value Positive = ''positive''"
| "polarity_value Negative = ''negative''"
| "polarity_value Unspecified = ''unspecified''"

definition claim_json :: "claim \<Rightarrow> json" where
  "claim_json c = JObj
    [(''id'', JStr (claim_id c)), (''role'', JStr (claim_role_value (claim_role_of c))),
     (''bound_args'', JList (map arg_json (claim_bound_args c))), (''payload'', payload_json (claim_payload c)),
     (''scope'', scope_json (claim_scope c)), (''provenance'', provenance_json (claim_provenance c)),
     (''status'', JStr (claim_status_value (claim_status_of c))),
     (''assessment'', JStr (claim_assessment_value (claim_assessment_of c))),
     (''representation_level'', JStr (representation_level_value (claim_representation_level c))),
     (''parent_ids'', str_list (claim_parent_ids c)), (''proposition_id'', opt_str (claim_proposition_id c)),
     (''polarity'', JStr (polarity_value (claim_polarity c)))]"

text \<open>A decode outcome that carries a success result; the compiler fingerprints no other.\<close>

definition success_decode_json :: "decode_outcome \<Rightarrow> canonical_result \<Rightarrow> ident \<Rightarrow> json" where
  "success_decode_json d r operation = JObj
    [(''id'', JStr (dec_id d)), (''external_return_id'', JStr (dec_external_return_id d)),
     (''decoder_id'', JStr (dec_decoder_id d)), (''decoder_version'', JStr (dec_decoder_version d)),
     (''kind'', JStr ''decoded''),
     (''result'', JObj [(''id'', JStr (result_id r)), (''semantic_artifact'', artifact_json (result_semantic_artifact r)),
        (''kind'', JStr ''success''), (''operation_id'', JStr operation)])]"

definition goal_candidate_json :: "goal_candidate \<Rightarrow> json" where
  "goal_candidate_json c = JObj
    [(''schema_version'', JInt 1), (''id'', JStr (gc_id c)),
     (''compiler_version'', JStr ''implementation-goal-compiler-v1''), (''status'', JStr ''inert_candidate''),
     (''question_candidate_id'', JStr (gc_question_candidate_id c)),
     (''question_candidate_fingerprint'', JStr (gc_question_candidate_fingerprint c)),
     (''question_decision_id'', JStr (gc_question_decision_id c)),
     (''question_decision_fingerprint'', JStr (gc_question_decision_fingerprint c)),
     (''compiled_question_id'', JStr (gc_compiled_question_id c)),
     (''compiled_question_fingerprint'', JStr (gc_compiled_question_fingerprint c)),
     (''source_obligation_id'', JStr (gc_source_obligation_id c)),
     (''source_obligation_fingerprint'', JStr (gc_source_obligation_fingerprint c)),
     (''effect_request_id'', JStr (gc_effect_request_id c)), (''accepted_decode_id'', JStr (gc_accepted_decode_id c)),
     (''accepted_decode_fingerprint'', JStr (gc_accepted_decode_fingerprint c)),
     (''source_claim_id'', JStr (gc_source_claim_id c)), (''source_claim_fingerprint'', JStr (gc_source_claim_fingerprint c)),
     (''downstream_obligation_id'', JStr (gc_downstream_obligation_id c)),
     (''downstream_obligation_fingerprint'', JStr (gc_downstream_obligation_fingerprint c)),
     (''matched_return_class_id'', JStr ''goal-derivation-required''), (''anchor_id'', JStr (gc_anchor_id c)),
     (''anchor_fingerprint'', JStr (gc_anchor_fingerprint c)), (''limitation_id'', JStr (gc_limitation_id c)),
     (''limitation_fingerprint'', JStr (gc_limitation_fingerprint c)), (''frontier_id'', JStr (gc_frontier_id c)),
     (''frontier_fingerprint'', JStr (gc_frontier_fingerprint c)),
     (''selected_candidate_id'', JStr (gc_selected_candidate_id c)),
     (''selected_candidate_fingerprint'', JStr (gc_selected_candidate_fingerprint c)),
     (''binding_revision'', JStr (gc_binding_revision c)), (''scope_fingerprint'', JStr (gc_scope_fingerprint c)),
     (''protected_horizon_id'', JStr (gc_protected_horizon_id c)),
     (''acceptance_registry_version'', JStr ''project-gate-registry-v1''),
     (''mutation_registry_version'', JStr ''project-mutation-registry-v1''), (''goal'', goal_json (gc_goal c)),
     (''goal_fingerprint'', JStr (gc_goal_fingerprint c))]"

definition goal_candidate_fingerprint :: "(string \<Rightarrow> digest) \<Rightarrow> goal_candidate \<Rightarrow> digest" where
  "goal_candidate_fingerprint sha c =
     content_fingerprint sha ''rci.implementation-goal-candidate.v1'' (goal_candidate_json c)"

text \<open>The source chain a goal is compiled from.\<close>

record goal_sources =
  gs_context :: inquiry_context
  gs_source :: obligation
  gs_downstream :: obligation
  gs_compiled :: compiled_question
  gs_request :: effect_request_state
  gs_decode :: decode_outcome
  gs_result :: canonical_result
  gs_operation :: ident
  gs_claim :: claim
  gs_anchor :: project_anchor
  gs_limitation :: capability_limitation
  gs_frontier :: capability_frontier
  gs_selected :: successor_candidate

definition goal_material :: "goal_sources \<Rightarrow> (string \<times> json) list" where
  "goal_material g =
    [(''compiled_question_id'', JStr (cq_id (gs_compiled g))), (''accepted_decode_id'', JStr (dec_id (gs_decode g))),
     (''source_claim_id'', JStr (claim_id (gs_claim g))),
     (''downstream_obligation_id'', JStr (obl_id (gs_downstream g))), (''anchor_id'', JStr (pa_id (gs_anchor g))),
     (''limitation_id'', JStr (cl_id (gs_limitation g))), (''frontier_id'', JStr (fr_id (gs_frontier g))),
     (''selected_candidate_id'', JStr (sc_id (gs_selected g))),
     (''compiler_version'', JStr ''implementation-goal-compiler-v1''),
     (''acceptance_registry_version'', JStr ''project-gate-registry-v1''),
     (''mutation_registry_version'', JStr ''project-mutation-registry-v1'')]"

definition goal_of :: "(string \<Rightarrow> digest) \<Rightarrow> goal_sources \<Rightarrow> implementation_goal" where
  "goal_of sha g =
    (let fp = content_fingerprint sha ''rci.implementation-goal-material.v1'' (JObj (goal_material g)) in
     \<lparr>goal_id = ''goal:'' @ fp, goal_cycle_id = ''cycle:'' @ fp, goal_anchor_id = pa_id (gs_anchor g),
      goal_frontier_id = fr_id (gs_frontier g), goal_candidate_id = sc_id (gs_selected g),
      goal_current = sc_current_state (gs_selected g), goal_desired = sc_desired_state (gs_selected g),
      goal_separator = cl_consequential_boundary (gs_limitation g),
      goal_expected_incumbent_return = ''No replayable implementation-Goal candidate is derivable.'',
      goal_expected_candidate_return =
        ''One exact admitted return compiles to an inert, controller-admissible Goal candidate.'',
      goal_preserve_capability_ids = sc_preserved_capability_ids (gs_selected g),
      goal_acceptance_commands = sort proposed_gate_commands,
      goal_allowed_mutation_roots = sort allowed_mutation_roots,
      goal_forbidden_authority_roots = sort forbidden_authority_roots,
      goal_assumption_ids = sort goal_assumptions,
      goal_incumbent_gate_digest = gate_digest sha predecessor_gate_commands,
      goal_proposed_gate_digest = gate_digest sha proposed_gate_commands,
      goal_rollback_condition = ''Any protected predecessor command fails or authority expands.'',
      goal_reopening_condition =
        ''A lawful return requires a Goal shape, check, or mutation root outside the registries.''\<rparr>)"

definition candidate_of ::
  "(string \<Rightarrow> digest) \<Rightarrow> question_contract_candidate \<Rightarrow> question_repertoire_decision \<Rightarrow> goal_sources \<Rightarrow>
     implementation_goal \<Rightarrow> goal_candidate" where
  "candidate_of sha qc qd g goal =
    (let gf = content_fingerprint sha ''rci.implementation-goal.v1'' (goal_json goal);
         cf = content_fingerprint sha ''rci.implementation-goal-candidate.v1'' (JObj (goal_material g @
           [(''goal_fingerprint'', JStr gf), (''binding_revision'', JStr (ctx_binding_revision (gs_context g))),
            (''scope_fingerprint'', JStr (ctx_scope_fingerprint (gs_context g))),
            (''protected_horizon_id'', JStr (ctx_protected_horizon_id (gs_context g)))])) in
     \<lparr>gc_id = ''goal-candidate:'' @ cf, gc_question_candidate_id = qcc_id qc,
      gc_question_candidate_fingerprint = content_fingerprint sha ''rci.question-candidate.v1'' (question_candidate_json qc),
      gc_question_decision_id = qrd_id qd,
      gc_question_decision_fingerprint = content_fingerprint sha ''rci.question-decision.v1'' (question_decision_json qd),
      gc_compiled_question_id = cq_id (gs_compiled g),
      gc_compiled_question_fingerprint =
        content_fingerprint sha ''rci.compiled-question.v1'' (compiled_question_json (gs_compiled g)),
      gc_source_obligation_id = obl_id (gs_source g),
      gc_source_obligation_fingerprint = obligation_fingerprint sha (gs_source g),
      gc_effect_request_id = ers_id (gs_request g), gc_accepted_decode_id = dec_id (gs_decode g),
      gc_accepted_decode_fingerprint = content_fingerprint sha ''rci.decode-outcome.v1''
        (success_decode_json (gs_decode g) (gs_result g) (gs_operation g)),
      gc_source_claim_id = claim_id (gs_claim g),
      gc_source_claim_fingerprint = content_fingerprint sha ''rci.claim.v1'' (claim_json (gs_claim g)),
      gc_downstream_obligation_id = obl_id (gs_downstream g),
      gc_downstream_obligation_fingerprint = obligation_fingerprint sha (gs_downstream g),
      gc_anchor_id = pa_id (gs_anchor g),
      gc_anchor_fingerprint = content_fingerprint sha ''rci.project-anchor.v1'' (anchor_json (gs_anchor g)),
      gc_limitation_id = cl_id (gs_limitation g),
      gc_limitation_fingerprint =
        content_fingerprint sha ''rci.capability-limitation.v1'' (limitation_json (gs_limitation g)),
      gc_frontier_id = fr_id (gs_frontier g),
      gc_frontier_fingerprint = content_fingerprint sha ''rci.capability-frontier.v1'' (frontier_json (gs_frontier g)),
      gc_selected_candidate_id = sc_id (gs_selected g),
      gc_selected_candidate_fingerprint =
        content_fingerprint sha ''rci.capability-successor.v1'' (successor_json (gs_selected g)),
      gc_binding_revision = ctx_binding_revision (gs_context g),
      gc_scope_fingerprint = ctx_scope_fingerprint (gs_context g),
      gc_protected_horizon_id = ctx_protected_horizon_id (gs_context g),
      gc_goal = goal, gc_goal_fingerprint = gf\<rparr>)"

section \<open>The goal compiler\<close>

text \<open>The compiler's early returns: \<open>Inl\<close> is the reason of the unknown result.\<close>

definition need :: "bool \<Rightarrow> ident \<Rightarrow> ident + 'a \<Rightarrow> ident + 'a" where
  "need b reason k = (if b then k else Inl reason)"

lemma need_Inr_iff: "need b reason k = Inr x \<longleftrightarrow> b \<and> k = Inr x"
  by (simp add: need_def)

definition question_context_matches :: "(string \<Rightarrow> digest) \<Rightarrow> obligation \<Rightarrow> obligation \<Rightarrow> compiled_question \<Rightarrow> bool" where
  "question_context_matches sha source downstream q \<longleftrightarrow>
     text_argument source ''__rci_generated_question_decision_id'' = Some (cq_decision_id q) \<and>
     text_argument source ''__rci_generated_question_compilation_id'' = Some (cq_id q) \<and>
     obl_carrier_id source = cq_limitation_id q \<and> obl_binding_revision source = cq_binding_revision q \<and>
     scope_fingerprint sha (obl_scope source) = cq_scope_fingerprint q \<and>
     obl_binding_revision downstream = cq_binding_revision q \<and>
     scope_fingerprint sha (obl_scope downstream) = cq_scope_fingerprint q"

definition accepted_requests :: "inquiry_state \<Rightarrow> obligation \<Rightarrow> effect_request_state list" where
  "accepted_requests s source = filter (\<lambda>r. (case index_by plan_id (st_step_plans s) (req_step_plan_id (ers_request r)) of
     None \<Rightarrow> False | Some p \<Rightarrow> plan_selected_obligation_id p = Some (obl_id source)) \<and>
     ers_accepted_decoded_outcome_id r \<noteq> None) (st_effect_requests s)"

definition success_decode :: "effect_request_state \<Rightarrow> (decode_outcome \<times> canonical_result \<times> ident) option" where
  "success_decode r = (case ers_accepted_decoded_outcome_id r of None \<Rightarrow> None
     | Some i \<Rightarrow> (case find_decode r i of None \<Rightarrow> None
       | Some d \<Rightarrow> (case dec_content d of
           Decoded c \<Rightarrow> (case result_content_of c of SuccessResult op \<Rightarrow> Some (d, c, op) | _ \<Rightarrow> None)
         | _ \<Rightarrow> None)))"

definition claim_matches_decode ::
  "(string \<Rightarrow> digest) \<Rightarrow> (claim \<Rightarrow> string) \<Rightarrow> claim \<Rightarrow> decode_outcome \<Rightarrow> canonical_result \<Rightarrow> bool" where
  "claim_matches_decode sha dump c d r \<longleftrightarrow> claim_status_of c = Provisional \<and> claim_representation_level c = L0Opaque \<and>
     prov_source_id (claim_provenance c) = dec_external_return_id d \<and>
     sha (dump c) = art_digest (result_semantic_artifact r)"

definition frontier_inputs ::
  "(string \<Rightarrow> digest) \<Rightarrow> project_state \<Rightarrow> compiled_question \<Rightarrow> capability_frontier \<Rightarrow>
     (project_anchor \<times> capability_limitation \<times> successor_candidate) option" where
  "frontier_inputs sha s q f = (case find_by cl_id (cq_limitation_id q) (ps_limitations s) of None \<Rightarrow> None
     | Some l \<Rightarrow> (case find_by pa_id (cl_anchor_id l) (ps_anchors s) of None \<Rightarrow> None
       | Some a \<Rightarrow> (case fr_selected_discriminator_candidate_id f of None \<Rightarrow> None
         | Some i \<Rightarrow> (case find_by sc_id i (ps_successor_candidates s) of None \<Rightarrow> None
           | Some c \<Rightarrow> if fr_status f = FrontierReady \<and> fr_anchor_id f = pa_id a \<and> fr_limitation_id f = cl_id l \<and>
               sc_anchor_id c = pa_id a \<and> sc_limitation_id c = cl_id l \<and>
               sc_discriminator_id c = Some ''goal-synthesis-acceptance'' \<and>
               pa_gate_digest a = gate_digest sha predecessor_gate_commands
             then Some (a, l, c) else None))))"

definition goal_sources_of ::
  "(string \<Rightarrow> digest) \<Rightarrow> (claim \<Rightarrow> string) \<Rightarrow> project_state \<Rightarrow> ident \<Rightarrow> ident \<Rightarrow> ident \<Rightarrow> ident + goal_sources" where
  "goal_sources_of sha dump s source_id downstream_id frontier_id = (case ps_context s of
     None \<Rightarrow> Inl ''inquiry-not-started''
   | Some ctx \<Rightarrow> (case (obligation_by_id (ps_core s) source_id, obligation_by_id (ps_core s) downstream_id,
       find_by fr_id frontier_id (ps_frontiers s)) of
     (Some source, Some downstream, Some f) \<Rightarrow>
       need (obl_parent_obligation_ids downstream = [obl_id source]) ''downstream-parent-mismatch''
       (need (text_argument downstream ''generated_return_class_id'' = Some ''goal-derivation-required'')
         ''return-class-not-goal-derivation''
       (case text_argument source ''__rci_generated_question_candidate_id'' of
          None \<Rightarrow> Inl ''question-source-mismatch''
        | Some qid \<Rightarrow> need (text_argument downstream ''source_question_candidate_id'' = Some qid) ''question-source-mismatch''
          (case compile_admitted_question sha s qid of
             Inl _ \<Rightarrow> Inl ''question-compilation-not-active''
           | Inr q \<Rightarrow> need (question_context_matches sha source downstream q) ''question-context-mismatch''
             (need (length (filter (\<lambda>r. ret_class_id r = ''goal-derivation-required'' \<and>
                 ret_downstream_state_id r = obl_carrier_id downstream) (cq_possible_returns q)) = 1)
               ''return-mapping-ambiguous''
             (case accepted_requests (ps_core s) source of
                [r] \<Rightarrow> (case success_decode r of None \<Rightarrow> Inl ''accepted-return-not-success''
                  | Some (d, res, op) \<Rightarrow>
                    (case filter (\<lambda>c. text_argument downstream ''source_claim_id'' = Some (claim_id c)) (st_claims (ps_core s)) of
                       [c] \<Rightarrow> need (claim_matches_decode sha dump c d res) ''source-claim-decode-mismatch''
                         (case frontier_inputs sha s q f of None \<Rightarrow> Inl ''frontier-profile-not-applicable''
                          | Some (a, l, sel) \<Rightarrow> Inr \<lparr>gs_context = ctx, gs_source = source, gs_downstream = downstream,
                              gs_compiled = q, gs_request = r, gs_decode = d, gs_result = res, gs_operation = op,
                              gs_claim = c, gs_anchor = a, gs_limitation = l, gs_frontier = f, gs_selected = sel\<rparr>)
                     | _ \<Rightarrow> Inl ''source-claim-not-unique''))
              | _ \<Rightarrow> Inl ''accepted-return-not-unique'')))))
   | _ \<Rightarrow> Inl ''source-record-not-owned''))"

definition compile_implementation_goal_candidate ::
  "(string \<Rightarrow> digest) \<Rightarrow> (claim \<Rightarrow> string) \<Rightarrow> project_state \<Rightarrow> ident \<Rightarrow> ident \<Rightarrow> ident \<Rightarrow> goal_synthesis result" where
  "compile_implementation_goal_candidate sha dump s source_id downstream_id frontier_id =
    (case goal_sources_of sha dump s source_id downstream_id frontier_id of
       Inl reason \<Rightarrow> Inr (SynthesisUnknown reason)
     | Inr g \<Rightarrow> (case construct valid_goal ''ImplementationGoalContract'' (goal_of sha g) of
         Inl e \<Rightarrow> Inl e
       | Inr goal \<Rightarrow> (case (find_by qcc_id (cq_candidate_id (gs_compiled g)) (ps_question_candidates s),
             find_by qrd_id (cq_decision_id (gs_compiled g)) (ps_question_decisions s)) of
           (Some qc, Some qd) \<Rightarrow> map_sum id CompiledGoal
             (construct valid_goal_candidate ''ImplementationGoalCandidate'' (candidate_of sha qc qd g goal))
         | _ \<Rightarrow> Inl (RuntimeError ''StopIteration''))))"

section \<open>What a compiled goal may touch\<close>

text \<open>A path lies under a root if it is the root or a descendant.\<close>

definition under :: "string \<Rightarrow> string \<Rightarrow> bool" where
  "under root path \<longleftrightarrow> path = root \<or> (\<exists>rest. path = root @ ''/'' @ rest)"

lemma compiled_goalD:
  assumes "compile_implementation_goal_candidate sha dump s i j k = Inr (CompiledGoal c)"
  obtains g where "goal_sources_of sha dump s i j k = Inr g" "gc_goal c = goal_of sha g" "valid_goal (gc_goal c)"
    "valid_goal_candidate c" "gc_source_obligation_id c = obl_id (gs_source g)"
    "gc_downstream_obligation_id c = obl_id (gs_downstream g)" "gc_frontier_id c = fr_id (gs_frontier g)"
proof -
  obtain g where g: "goal_sources_of sha dump s i j k = Inr g"
    using assms by (auto simp: compile_implementation_goal_candidate_def split: sum.splits)
  obtain goal where goal: "construct valid_goal ''ImplementationGoalContract'' (goal_of sha g) = Inr goal"
    using assms g by (auto simp: compile_implementation_goal_candidate_def split: sum.splits)
  obtain qc qd where "construct valid_goal_candidate ''ImplementationGoalCandidate'' (candidate_of sha qc qd g goal) = Inr c"
    using assms g goal
    by (auto simp: compile_implementation_goal_candidate_def map_sum_Inr_iff split: option.splits)
  then have "c = candidate_of sha qc qd g goal" "valid_goal_candidate c" by (simp_all add: construct_Inr_iff)
  with g goal that show ?thesis by (auto simp: construct_Inr_iff candidate_of_def Let_def)
qed

lemma under_trans: "under a b \<Longrightarrow> under b c \<Longrightarrow> under a c"
  by (auto simp: under_def)

lemma registry_roots_disjoint:
  assumes "a \<in> set allowed_mutation_roots" "f \<in> set forbidden_authority_roots" "under a path"
  shows "\<not> under f path" "\<not> under a f"
  using assms by (auto simp: allowed_mutation_roots_def forbidden_authority_roots_def under_def)

lemma goal_sources_ids:
  assumes "goal_sources_of sha dump s i j k = Inr g"
  shows "obl_id (gs_source g) = i" "obl_id (gs_downstream g) = j" "fr_id (gs_frontier g) = k"
proof -
  obtain source downstream f where "obligation_by_id (ps_core s) i = Some source"
      "obligation_by_id (ps_core s) j = Some downstream" "find_by fr_id k (ps_frontiers s) = Some f"
      "gs_source g = source \<and> gs_downstream g = downstream \<and> gs_frontier g = f"
    using assms
    by (auto simp: goal_sources_of_def need_Inr_iff split: option.splits sum.splits list.splits prod.splits)
  then show "obl_id (gs_source g) = i" "obl_id (gs_downstream g) = j" "fr_id (gs_frontier g) = k"
    by (auto simp: obligation_by_id_def dest: find_by_SomeD)
qed

end
