(* ===== verification/Rci_Project_Core.thy ===== *)
theory Rci_Project_Core
  imports Rci_Evolve Rci_Goals
begin

text \<open>
  The project branches of \<open>decide\<close> and \<open>evolve\<close> (\<open>core/transitions.py\<close>) and the project clauses of the
  aggregate's validator (\<open>core/state.py\<close>). Each of the eighteen project commands carries one record and
  its event carries the same record, so both are a message base with a \<open>project_record\<close>. Commands and
  events of the other milestones act on the aggregate inside a project state; the validator of the whole
  state runs after them as well.
\<close>

section \<open>Vocabulary\<close>

datatype project_record =
    AnchorRecord project_anchor
  | LimitationRecord capability_limitation
  | QuestionCandidateRecord question_contract_candidate
  | QuestionDecisionRecord question_repertoire_decision
  | MethodCandidateRecord method_binding_candidate
  | MethodDecisionRecord method_admission_decision
  | SuccessorCandidateRecord successor_candidate
  | FrontierRecord capability_frontier
  | GoalCandidateRecord goal_candidate
  | GoalAdmissionRecord goal_admission
  | GoalRecord implementation_goal
  | EnvironmentRecord candidate_environment
  | EvidenceRecord development_evidence
  | ReviewRecord independent_review
  | SuccessorDecisionRecord successor_decision
  | PromotionRecord project_promotion
  | CheckpointRecord cycle_checkpoint
  | StopRecord stop_disposition

datatype project_command = CoreCommand command | ProjectCommand message_base project_record

datatype project_event = CoreEvent event | ProjectEvent message_base project_record

text \<open>A repeated identity is answered by nothing if the content is the same and refused otherwise; a new
  identity is admitted if the branch's guards hold.\<close>

definition fresh_identity :: "'r option \<Rightarrow> 'r \<Rightarrow> string \<Rightarrow> bool result \<Rightarrow> bool result" where
  "fresh_identity existing r message k = (case existing of None \<Rightarrow> k
     | Some x \<Rightarrow> if x = r then Inr False else Inl (IdentityConflictError message))"

abbreviation guarded :: "bool \<Rightarrow> string \<Rightarrow> bool result \<Rightarrow> bool result" where
  "guarded b message k \<equiv> check b (InvalidCommandError message) k"

text \<open>\<open>tuple(by_id[i] for i in ids)\<close> over a dict comprehension: \<open>None\<close> is the \<open>KeyError\<close>.\<close>

definition lookup_all :: "('a \<Rightarrow> ident) \<Rightarrow> 'a list \<Rightarrow> ident list \<Rightarrow> 'a list option" where
  "lookup_all key xs ids = those (map (index_by key xs) ids)"

section \<open>The project branches of decide\<close>

definition decide_anchor :: "project_state \<Rightarrow> project_anchor \<Rightarrow> bool result" where
  "decide_anchor s a = fresh_identity (find_by pa_id (pa_id a) (ps_anchors s)) a ''project-anchor identity was reused'' (Inr True)"

definition decide_limitation :: "project_state \<Rightarrow> capability_limitation \<Rightarrow> bool result" where
  "decide_limitation s l = fresh_identity (find_by cl_id (cl_id l) (ps_limitations s)) l
     ''capability-limitation identity was reused''
     (guarded (cl_anchor_id l \<in> set (map pa_id (ps_anchors s)))
       ''capability limitation requires an owned clean anchor'' (Inr True))"

definition decide_question_candidate :: "project_state \<Rightarrow> question_contract_candidate \<Rightarrow> bool result" where
  "decide_question_candidate s c = fresh_identity (find_by qcc_id (qcc_id c) (ps_question_candidates s)) c
     ''question-candidate identity was reused''
     (guarded (qcc_limitation_id c \<in> set (map cl_id (ps_limitations s)))
       ''question candidate requires an owned limitation'' (Inr True))"

definition addresses_limitation :: "project_state \<Rightarrow> ident \<Rightarrow> ident \<Rightarrow> bool" where
  "addresses_limitation s limitation_id i = (case index_by goal_id (ps_goals s) i of None \<Rightarrow> False
     | Some g \<Rightarrow> (case index_by sc_id (ps_successor_candidates s) (goal_candidate_id g) of None \<Rightarrow> False
       | Some c \<Rightarrow> sc_limitation_id c = limitation_id))"

definition reviewed_exactly :: "project_state \<Rightarrow> ident list \<Rightarrow> bool" where
  "reviewed_exactly s ids = list_ex (\<lambda>r. rv_outcome r = ValidReview \<and> rv_evidence_ids r = ids) (ps_reviews s)"

definition require_project_admission_evidence ::
  "project_state \<Rightarrow> ident list \<Rightarrow> ident \<Rightarrow> bool \<Rightarrow> bool result \<Rightarrow> bool result" where
  "require_project_admission_evidence s ids limitation_id require_valid_review k =
    (case lookup_all de_id (ps_evidence s) ids of
       None \<Rightarrow> Inl (InvalidCommandError ''repertoire decision requires owned development evidence'')
     | Some evidence \<Rightarrow>
       guarded (list_all (\<lambda>e. addresses_limitation s limitation_id (de_goal_id e)) evidence)
         ''repertoire evidence must address the exact limitation''
       (guarded (require_valid_review \<longrightarrow> list_all (\<lambda>e. de_outcome e = PassOutcome) evidence)
         ''repertoire admission requires passing evidence''
       (guarded (require_valid_review \<longrightarrow> reviewed_exactly s ids)
         ''repertoire admission requires exact independent review'' k)))"

definition decide_question_repertoire :: "project_state \<Rightarrow> question_repertoire_decision \<Rightarrow> bool result" where
  "decide_question_repertoire s d = fresh_identity (find_by qrd_id (qrd_id d) (ps_question_decisions s)) d
     ''question-decision identity was reused''
     (case find_by qcc_id (qrd_candidate_id d) (ps_question_candidates s) of
        None \<Rightarrow> Inl (InvalidCommandError ''question decision requires its inert candidate'')
      | Some c \<Rightarrow>
        guarded (qrd_outcome d = Admit \<longrightarrow> qc_family (qcc_contract c) = ''recursive-project'')
          ''generated admission is confined to recursive-project''
        (require_project_admission_evidence s (qrd_evidence_ids d) (qcc_limitation_id c) (qrd_outcome d = Admit)
          (Inr True)))"

definition decide_method_candidate :: "project_state \<Rightarrow> method_binding_candidate \<Rightarrow> bool result" where
  "decide_method_candidate s c = fresh_identity (find_by mbc_id (mbc_id c) (ps_method_candidates s)) c
     ''method-candidate identity was reused''
     (guarded (mbc_limitation_id c \<in> set (map cl_id (ps_limitations s)))
       ''method binding requires an owned limitation'' (Inr True))"

definition decide_method_admission :: "project_state \<Rightarrow> method_admission_decision \<Rightarrow> bool result" where
  "decide_method_admission s d = fresh_identity (find_by mad_id (mad_id d) (ps_method_decisions s)) d
     ''method-decision identity was reused''
     (case find_by mbc_id (mad_candidate_id d) (ps_method_candidates s) of
        None \<Rightarrow> Inl (InvalidCommandError ''method decision requires its inert candidate'')
      | Some c \<Rightarrow> require_project_admission_evidence s (mad_evidence_ids d) (mbc_limitation_id c) (mad_outcome d = Admit)
          (if mad_outcome d = Admit \<and> mbc_adapter_required c then
             (case Option.bind (mad_implementation_goal_id d) (\<lambda>i. find_by goal_id i (ps_goals s)) of
                None \<Rightarrow> Inl (InvalidCommandError ''a missing method adapter must open a sealed goal'')
              | Some g \<Rightarrow> guarded (case find_by sc_id (goal_candidate_id g) (ps_successor_candidates s) of None \<Rightarrow> False
                  | Some gc \<Rightarrow> sc_limitation_id gc = mbc_limitation_id c)
                  ''method adapter goal must address the exact limitation'' (Inr True))
           else Inr True))"

definition decide_successor_candidate :: "project_state \<Rightarrow> successor_candidate \<Rightarrow> bool result" where
  "decide_successor_candidate s c = fresh_identity (find_by sc_id (sc_id c) (ps_successor_candidates s)) c
     ''project-successor candidate identity was reused''
     (guarded (sc_anchor_id c \<in> set (map pa_id (ps_anchors s)) \<and> sc_limitation_id c \<in> set (map cl_id (ps_limitations s)))
       ''project successor requires owned anchor and limitation'' (Inr True))"

definition decide_frontier :: "project_state \<Rightarrow> capability_frontier \<Rightarrow> bool result" where
  "decide_frontier s f = fresh_identity (find_by fr_id (fr_id f) (ps_frontiers s)) f ''capability-frontier identity was reused''
     (case lookup_all sc_id (ps_successor_candidates s) (fr_candidate_ids f) of
        None \<Rightarrow> Inl (InvalidCommandError ''frontier references invalid successor candidates'')
      | Some cs \<Rightarrow> (case derive_capability_frontier (fr_id f) cs of
          Inl _ \<Rightarrow> Inl (InvalidCommandError ''frontier references invalid successor candidates'')
        | Inr expected \<Rightarrow> guarded (expected = f) ''capability frontier must equal pure deterministic selection'' (Inr True)))"

definition compiles_to ::
  "(string \<Rightarrow> digest) \<Rightarrow> (claim \<Rightarrow> string) \<Rightarrow> project_state \<Rightarrow> goal_candidate \<Rightarrow> bool result" where
  "compiles_to sha dump s c = map_sum id (\<lambda>r. r = CompiledGoal c)
     (compile_implementation_goal_candidate sha dump s (gc_source_obligation_id c) (gc_downstream_obligation_id c)
       (gc_frontier_id c))"

definition decide_goal_candidate ::
  "(string \<Rightarrow> digest) \<Rightarrow> (claim \<Rightarrow> string) \<Rightarrow> project_state \<Rightarrow> goal_candidate \<Rightarrow> bool result" where
  "decide_goal_candidate sha dump s c = fresh_identity (find_by gc_id (gc_id c) (ps_goal_candidates s)) c
     ''implementation-Goal candidate identity was reused''
     (case compiles_to sha dump s c of Inl e \<Rightarrow> Inl e
      | Inr ok \<Rightarrow> guarded ok ''implementation-Goal candidate must equal pure deterministic compilation'' (Inr True))"

definition admission_exact :: "(string \<Rightarrow> digest) \<Rightarrow> goal_candidate \<Rightarrow> goal_admission \<Rightarrow> bool" where
  "admission_exact sha c d \<longleftrightarrow> gad_candidate_fingerprint d = goal_candidate_fingerprint sha c \<and>
     gad_evidence_record_ids d = goal_admission_evidence_ids c \<and>
     (gad_outcome d = Admit \<longrightarrow> gad_admitted_goal_id d = Some (goal_id (gc_goal c)))"

definition decide_goal_admission :: "(string \<Rightarrow> digest) \<Rightarrow> project_state \<Rightarrow> goal_admission \<Rightarrow> bool result" where
  "decide_goal_admission sha s d = fresh_identity (find_by gad_candidate_id (gad_candidate_id d) (ps_goal_admissions s)) d
     ''a Goal candidate permits one total admission decision''
     (guarded (case find_by gc_id (gad_candidate_id d) (ps_goal_candidates s) of None \<Rightarrow> False
        | Some c \<Rightarrow> admission_exact sha c d)
       ''Goal admission must reference the exact derived candidate'' (Inr True))"

definition generated_goal_ok :: "project_state \<Rightarrow> implementation_goal \<Rightarrow> bool" where
  "generated_goal_ok s g = (case filter (\<lambda>c. goal_id (gc_goal c) = goal_id g) (ps_goal_candidates s) of
     [] \<Rightarrow> True
   | [c] \<Rightarrow> gc_goal c = g \<and> list_ex (\<lambda>d. gad_candidate_id d = gc_id c \<and> gad_outcome d = Admit \<and>
       gad_admitted_goal_id d = Some (goal_id g)) (ps_goal_admissions s)
   | _ \<Rightarrow> False)"

definition decide_seal_goal :: "project_state \<Rightarrow> implementation_goal \<Rightarrow> bool result" where
  "decide_seal_goal s g = fresh_identity (find_by goal_id (goal_id g) (ps_goals s)) g ''sealed implementation goal is immutable''
     (guarded (case find_by fr_id (goal_frontier_id g) (ps_frontiers s) of None \<Rightarrow> False
        | Some f \<Rightarrow> fr_status f = FrontierReady \<and> fr_selected_discriminator_candidate_id f = Some (goal_candidate_id g))
       ''goal must seal the frontier-selected discriminator candidate''
     (guarded (generated_goal_ok s g) ''generated Goal requires its exact admission decision'' (Inr True)))"

definition decide_environment :: "project_state \<Rightarrow> candidate_environment \<Rightarrow> bool result" where
  "decide_environment s e = fresh_identity (find_by env_id (env_id e) (ps_environments s)) e
     ''candidate-environment identity was reused''
     (guarded (case find_by goal_id (env_goal_id e) (ps_goals s) of None \<Rightarrow> False
        | Some g \<Rightarrow> (case find_by pa_id (goal_anchor_id g) (ps_anchors s) of None \<Rightarrow> False
          | Some a \<Rightarrow> env_base_commit_sha e = pa_commit_sha a))
       ''candidate environment must start from its sealed anchor'' (Inr True))"

definition decide_development_evidence :: "project_state \<Rightarrow> development_evidence \<Rightarrow> bool result" where
  "decide_development_evidence s e = fresh_identity (find_by de_id (de_id e) (ps_evidence s)) e
     ''development-evidence identity was reused''
     (case (find_by goal_id (de_goal_id e) (ps_goals s), find_by env_id (de_candidate_environment_id e) (ps_environments s)) of
        (Some g, Some v) \<Rightarrow>
          guarded (env_goal_id v = goal_id g) ''development evidence requires its sealed candidate environment''
          (guarded (de_base_commit_sha e = env_base_commit_sha v \<and>
              de_gate_digest e \<in> {goal_incumbent_gate_digest g, goal_proposed_gate_digest g})
            ''development evidence must preserve base and sealed gate pins'' (Inr True))
      | _ \<Rightarrow> Inl (InvalidCommandError ''development evidence requires its sealed candidate environment''))"

definition decide_review :: "project_state \<Rightarrow> independent_review \<Rightarrow> bool result" where
  "decide_review s r = fresh_identity (find_by rv_id (rv_id r) (ps_reviews s)) r ''independent-review identity was reused''
     (case lookup_all de_id (ps_evidence s) (rv_evidence_ids r) of
        None \<Rightarrow> Inl (InvalidCommandError ''review references unknown development evidence'')
      | Some evidence \<Rightarrow>
        guarded (case find_by env_id (rv_candidate_environment_id r) (ps_environments s) of None \<Rightarrow> False
          | Some v \<Rightarrow> env_goal_id v = rv_goal_id r \<and> rv_reviewer_id r \<noteq> env_developer_id v \<and>
              list_all (\<lambda>e. de_goal_id e = rv_goal_id r \<and> de_candidate_environment_id e = rv_candidate_environment_id r \<and>
                de_candidate_commit_sha e = rv_reviewed_commit_sha r) evidence)
          ''review must be fresh, independent, and exact-head bound''
        (guarded (rv_outcome r = ValidReview \<longrightarrow> list_all (\<lambda>e. de_outcome e = PassOutcome) evidence)
          ''a valid review cannot bless failing or unknown evidence'' (Inr True)))"

definition decide_successor :: "project_state \<Rightarrow> successor_decision \<Rightarrow> bool result" where
  "decide_successor s d = fresh_identity (find_by psd_id (psd_id d) (ps_successor_decisions s)) d
     ''project-successor decision identity was reused''
     (case lookup_all de_id (ps_evidence s) (psd_evidence_ids d) of
        None \<Rightarrow> Inl (InvalidCommandError ''successor decision references unknown evidence'')
      | Some evidence \<Rightarrow>
        (case (find_by goal_id (psd_goal_id d) (ps_goals s), find_by sc_id (psd_candidate_id d) (ps_successor_candidates s),
               find_by rv_id (psd_review_id d) (ps_reviews s),
               find_by env_id (psd_candidate_environment_id d) (ps_environments s)) of
           (Some g, Some c, Some r, Some v) \<Rightarrow>
             guarded (goal_candidate_id g = sc_id c \<and> env_goal_id v = goal_id g \<and> rv_goal_id r = goal_id g \<and>
                 rv_candidate_environment_id r = env_id v)
               ''successor proof chain does not name one sealed candidate''
             (guarded (psd_evidence_ids d = rv_evidence_ids r) ''successor decision must use exactly the reviewed evidence''
             (guarded (psd_disposition d = ReplaceDisposition \<longrightarrow>
                 rv_outcome r = ValidReview \<and> list_all (\<lambda>e. de_outcome e = PassOutcome) evidence)
               ''replacement requires valid independent review and evidence''
             (guarded (psd_disposition d = ReplaceDisposition \<longrightarrow>
                 set (sc_preserved_capability_ids c) \<subseteq> set (psd_preserved_capability_ids d) \<and>
                 sc_gain_kinds c = psd_gain_kinds d)
               ''replacement must preserve and gain exactly as proposed'' (Inr True))))
         | _ \<Rightarrow> Inl (InvalidCommandError ''successor decision requires its complete owned proof chain'')))"

definition decide_project_promotion :: "project_state \<Rightarrow> project_promotion \<Rightarrow> bool result" where
  "decide_project_promotion s p = fresh_identity (find_by prom_id (prom_id p) (ps_promotions s)) p
     ''promotion-decision identity was reused''
     (case find_by psd_id (prom_successor_decision_id p) (ps_successor_decisions s) of
        None \<Rightarrow> Inl (InvalidCommandError ''promotion requires an owned independently reviewed successor'')
      | Some d \<Rightarrow> (case find_by rv_id (psd_review_id d) (ps_reviews s) of
          None \<Rightarrow> Inl (InvalidCommandError ''promotion requires an owned independently reviewed successor'')
        | Some r \<Rightarrow> guarded (prom_outcome p = MergedPromotion \<longrightarrow> psd_disposition d = ReplaceDisposition \<and>
              rv_outcome r = ValidReview \<and> prom_candidate_commit_sha p = rv_reviewed_commit_sha r)
            ''merged promotion must match the validated successor head'' (Inr True)))"

text \<open>The identities a checkpoint may name: all project collections but the goal candidates and the goal
  admissions.\<close>

definition owned_project_ids :: "project_state \<Rightarrow> ident set" where
  "owned_project_ids s = (\<Union>(t, ids) \<in> set (referent_collections s). set ids)"

definition decide_checkpoint :: "project_state \<Rightarrow> cycle_checkpoint \<Rightarrow> bool result" where
  "decide_checkpoint s c = fresh_identity (find_by cp_id (cp_id c) (ps_checkpoints s)) c ''cycle-checkpoint identity was reused''
     (let prior = filter (\<lambda>x. cp_cycle_id x = cp_cycle_id c) (ps_checkpoints s) in
      guarded (prior \<noteq> [] \<longrightarrow> cp_predecessor_id c = Some (cp_id (last prior)))
        ''cycle checkpoint must succeed the exact current tail''
      (guarded (prior = [] \<longrightarrow> cp_predecessor_id c = None) ''first cycle checkpoint cannot name a predecessor''
      (guarded (prior \<noteq> [] \<longrightarrow> phase_index (cp_phase (last prior)) < phase_index (cp_phase c))
        ''cycle checkpoints must advance monotonically''
      (guarded (set (cp_record_ids c) \<subseteq> owned_project_ids s)
        ''cycle checkpoint may reference only owned project records'' (Inr True)))))"

definition decide_stop :: "project_state \<Rightarrow> stop_disposition \<Rightarrow> bool result" where
  "decide_stop s d = fresh_identity (find_by stop_id (stop_id d) (ps_stops s)) d ''recursive-stop identity was reused''
     (guarded (stop_cycle_id d \<in> set (map cp_cycle_id (ps_checkpoints s)))
       ''recursive stop requires an owned cycle checkpoint''
     (guarded (set (stop_consequential_residual_ids d) \<subseteq> set (map cl_id (ps_limitations s)))
       ''recursive stop residuals must name owned limitations'' (Inr True)))"

fun decide_record :: "(string \<Rightarrow> digest) \<Rightarrow> (claim \<Rightarrow> string) \<Rightarrow> project_state \<Rightarrow> project_record \<Rightarrow> bool result" where
  "decide_record sha dump s (AnchorRecord x) = decide_anchor s x"
| "decide_record sha dump s (LimitationRecord x) = decide_limitation s x"
| "decide_record sha dump s (QuestionCandidateRecord x) = decide_question_candidate s x"
| "decide_record sha dump s (QuestionDecisionRecord x) = decide_question_repertoire s x"
| "decide_record sha dump s (MethodCandidateRecord x) = decide_method_candidate s x"
| "decide_record sha dump s (MethodDecisionRecord x) = decide_method_admission s x"
| "decide_record sha dump s (SuccessorCandidateRecord x) = decide_successor_candidate s x"
| "decide_record sha dump s (FrontierRecord x) = decide_frontier s x"
| "decide_record sha dump s (GoalCandidateRecord x) = decide_goal_candidate sha dump s x"
| "decide_record sha dump s (GoalAdmissionRecord x) = decide_goal_admission sha s x"
| "decide_record sha dump s (GoalRecord x) = decide_seal_goal s x"
| "decide_record sha dump s (EnvironmentRecord x) = decide_environment s x"
| "decide_record sha dump s (EvidenceRecord x) = decide_development_evidence s x"
| "decide_record sha dump s (ReviewRecord x) = decide_review s x"
| "decide_record sha dump s (SuccessorDecisionRecord x) = decide_successor s x"
| "decide_record sha dump s (PromotionRecord x) = decide_project_promotion s x"
| "decide_record sha dump s (CheckpointRecord x) = decide_checkpoint s x"
| "decide_record sha dump s (StopRecord x) = decide_stop s x"

fun decide_project ::
  "(string \<Rightarrow> digest) \<Rightarrow> (claim \<Rightarrow> string) \<Rightarrow> project_state \<Rightarrow> project_command \<Rightarrow> project_event list result" where
  "decide_project sha dump s (CoreCommand c) = map_sum id (map CoreEvent) (decide sha (ps_core s) c)"
| "decide_project sha dump s (ProjectCommand b r) = require_active (ps_core s) (msg_inquiry_id b)
     (map_sum id (\<lambda>new. if new then [ProjectEvent b r] else []) (decide_record sha dump s r))"

section \<open>The project clauses of the validator\<close>

definition valid_project_elements :: "project_state \<Rightarrow> bool" where
  "valid_project_elements s \<longleftrightarrow> list_all valid_anchor (ps_anchors s) \<and> list_all valid_limitation (ps_limitations s) \<and>
     list_all valid_question_candidate (ps_question_candidates s) \<and> list_all valid_question_decision (ps_question_decisions s) \<and>
     list_all valid_method_candidate (ps_method_candidates s) \<and> list_all valid_method_decision (ps_method_decisions s) \<and>
     list_all valid_successor_candidate (ps_successor_candidates s) \<and> list_all valid_frontier (ps_frontiers s) \<and>
     list_all valid_goal_candidate (ps_goal_candidates s) \<and> list_all valid_goal_admission (ps_goal_admissions s) \<and>
     list_all valid_goal (ps_goals s) \<and> list_all valid_candidate_environment (ps_environments s) \<and>
     list_all valid_development_evidence (ps_evidence s) \<and> list_all valid_review (ps_reviews s) \<and>
     list_all valid_successor_decision (ps_successor_decisions s) \<and> list_all valid_project_promotion (ps_promotions s) \<and>
     list_all valid_checkpoint (ps_checkpoints s) \<and> list_all valid_stop (ps_stops s)"

definition distinct_project_ids :: "project_state \<Rightarrow> bool" where
  "distinct_project_ids s \<longleftrightarrow> distinct (map pa_id (ps_anchors s)) \<and> distinct (map cl_id (ps_limitations s)) \<and>
     distinct (map qcc_id (ps_question_candidates s)) \<and> distinct (map qrd_id (ps_question_decisions s)) \<and>
     distinct (map mbc_id (ps_method_candidates s)) \<and> distinct (map mad_id (ps_method_decisions s)) \<and>
     distinct (map sc_id (ps_successor_candidates s)) \<and> distinct (map fr_id (ps_frontiers s)) \<and>
     distinct (map gc_id (ps_goal_candidates s)) \<and> distinct (map gad_id (ps_goal_admissions s)) \<and>
     distinct (map goal_id (ps_goals s)) \<and> distinct (map env_id (ps_environments s)) \<and>
     distinct (map de_id (ps_evidence s)) \<and> distinct (map rv_id (ps_reviews s)) \<and>
     distinct (map psd_id (ps_successor_decisions s)) \<and> distinct (map prom_id (ps_promotions s)) \<and>
     distinct (map cp_id (ps_checkpoints s)) \<and> distinct (map stop_id (ps_stops s))"

text \<open>Evidence of a repertoire decision that is in the state; the ownership clause is checked before.\<close>

definition decision_evidence :: "project_state \<Rightarrow> ident list \<Rightarrow> development_evidence list" where
  "decision_evidence s ids = List.map_filter (index_by de_id (ps_evidence s)) ids"

definition valid_question_records :: "project_state \<Rightarrow> bool" where
  "valid_question_records s \<longleftrightarrow>
     list_all (\<lambda>l. cl_anchor_id l \<in> set (map pa_id (ps_anchors s))) (ps_limitations s) \<and>
     list_all (\<lambda>c. qcc_limitation_id c \<in> set (map cl_id (ps_limitations s))) (ps_question_candidates s) \<and>
     list_all (\<lambda>d. qrd_candidate_id d \<in> set (map qcc_id (ps_question_candidates s)) \<and>
       set (qrd_evidence_ids d) \<subseteq> set (map de_id (ps_evidence s))) (ps_question_decisions s) \<and>
     list_all (\<lambda>d. case index_by qcc_id (ps_question_candidates s) (qrd_candidate_id d) of None \<Rightarrow> qrd_outcome d \<noteq> Admit
       | Some c \<Rightarrow>
         list_all (\<lambda>e. addresses_limitation s (qcc_limitation_id c) (de_goal_id e)) (decision_evidence s (qrd_evidence_ids d)) \<and>
         (qrd_outcome d = Admit \<longrightarrow> qc_family (qcc_contract c) = ''recursive-project'' \<and>
           list_all (\<lambda>e. de_outcome e = PassOutcome) (decision_evidence s (qrd_evidence_ids d)) \<and>
           reviewed_exactly s (qrd_evidence_ids d))) (ps_question_decisions s)"

definition valid_method_records :: "project_state \<Rightarrow> bool" where
  "valid_method_records s \<longleftrightarrow>
     list_all (\<lambda>c. mbc_limitation_id c \<in> set (map cl_id (ps_limitations s))) (ps_method_candidates s) \<and>
     list_all (\<lambda>d. mad_candidate_id d \<in> set (map mbc_id (ps_method_candidates s)) \<and>
       set (mad_evidence_ids d) \<subseteq> set (map de_id (ps_evidence s)) \<and>
       pred_option (\<lambda>i. i \<in> set (map goal_id (ps_goals s))) (mad_implementation_goal_id d)) (ps_method_decisions s) \<and>
     list_all (\<lambda>d. case index_by mbc_id (ps_method_candidates s) (mad_candidate_id d) of None \<Rightarrow> mad_outcome d \<noteq> Admit
       | Some c \<Rightarrow>
         list_all (\<lambda>e. addresses_limitation s (mbc_limitation_id c) (de_goal_id e)) (decision_evidence s (mad_evidence_ids d)) \<and>
         (mad_outcome d = Admit \<longrightarrow>
           list_all (\<lambda>e. de_outcome e = PassOutcome) (decision_evidence s (mad_evidence_ids d)) \<and>
           reviewed_exactly s (mad_evidence_ids d) \<and>
           (mbc_adapter_required c \<longrightarrow> (case mad_implementation_goal_id d of None \<Rightarrow> False
             | Some i \<Rightarrow> addresses_limitation s (mbc_limitation_id c) i)))) (ps_method_decisions s)"

definition valid_frontier_records :: "project_state \<Rightarrow> bool" where
  "valid_frontier_records s \<longleftrightarrow>
     list_all (\<lambda>c. sc_anchor_id c \<in> set (map pa_id (ps_anchors s)) \<and> sc_limitation_id c \<in> set (map cl_id (ps_limitations s)))
       (ps_successor_candidates s) \<and>
     list_all (\<lambda>f. fr_anchor_id f \<in> set (map pa_id (ps_anchors s)) \<and> fr_limitation_id f \<in> set (map cl_id (ps_limitations s)) \<and>
       list_all (\<lambda>i. case index_by sc_id (ps_successor_candidates s) i of None \<Rightarrow> False
         | Some c \<Rightarrow> sc_anchor_id c = fr_anchor_id f \<and> sc_limitation_id c = fr_limitation_id f) (fr_candidate_ids f))
       (ps_frontiers s)"

text \<open>A compilation that raises makes the validator raise, which is a failure as well.\<close>

definition valid_goal_records :: "(string \<Rightarrow> digest) \<Rightarrow> (claim \<Rightarrow> string) \<Rightarrow> project_state \<Rightarrow> bool" where
  "valid_goal_records sha dump s \<longleftrightarrow>
     list_all (\<lambda>c. compiles_to sha dump s c = Inr True) (ps_goal_candidates s) \<and>
     distinct (map gad_candidate_id (ps_goal_admissions s)) \<and>
     list_all (\<lambda>d. case index_by gc_id (ps_goal_candidates s) (gad_candidate_id d) of None \<Rightarrow> False
       | Some c \<Rightarrow> admission_exact sha c d) (ps_goal_admissions s) \<and>
     list_all (\<lambda>g. goal_anchor_id g \<in> set (map pa_id (ps_anchors s)) \<and>
       goal_candidate_id g \<in> set (map sc_id (ps_successor_candidates s)) \<and>
       (case index_by fr_id (ps_frontiers s) (goal_frontier_id g) of None \<Rightarrow> False
        | Some f \<Rightarrow> fr_anchor_id f = goal_anchor_id g \<and>
            fr_selected_discriminator_candidate_id f = Some (goal_candidate_id g))) (ps_goals s) \<and>
     list_all (generated_goal_ok s) (ps_goals s)"

definition review_owned :: "project_state \<Rightarrow> independent_review \<Rightarrow> bool" where
  "review_owned s r \<longleftrightarrow> rv_goal_id r \<in> set (map goal_id (ps_goals s)) \<and>
     set (rv_evidence_ids r) \<subseteq> set (map de_id (ps_evidence s)) \<and>
     (case index_by env_id (ps_environments s) (rv_candidate_environment_id r) of None \<Rightarrow> False
      | Some v \<Rightarrow> env_goal_id v = rv_goal_id r \<and> env_developer_id v \<noteq> rv_reviewer_id r) \<and>
     list_all (\<lambda>e. de_goal_id e = rv_goal_id r \<and> de_candidate_environment_id e = rv_candidate_environment_id r \<and>
       de_candidate_commit_sha e = rv_reviewed_commit_sha r \<and>
       (rv_outcome r = ValidReview \<longrightarrow> de_outcome e = PassOutcome)) (decision_evidence s (rv_evidence_ids r))"

definition valid_development_records :: "project_state \<Rightarrow> bool" where
  "valid_development_records s \<longleftrightarrow>
     list_all (\<lambda>v. case index_by goal_id (ps_goals s) (env_goal_id v) of None \<Rightarrow> False
       | Some g \<Rightarrow> map_option pa_commit_sha (index_by pa_id (ps_anchors s) (goal_anchor_id g)) = Some (env_base_commit_sha v))
       (ps_environments s) \<and>
     list_all (\<lambda>e. de_goal_id e \<in> set (map goal_id (ps_goals s)) \<and>
       (case index_by env_id (ps_environments s) (de_candidate_environment_id e) of None \<Rightarrow> False
        | Some v \<Rightarrow> env_goal_id v = de_goal_id e \<and> env_base_commit_sha v = de_base_commit_sha e)) (ps_evidence s) \<and>
     list_all (review_owned s) (ps_reviews s)"

definition valid_outcome_records :: "project_state \<Rightarrow> bool" where
  "valid_outcome_records s \<longleftrightarrow>
     list_all (\<lambda>d. psd_goal_id d \<in> set (map goal_id (ps_goals s)) \<and>
       psd_candidate_id d \<in> set (map sc_id (ps_successor_candidates s)) \<and>
       psd_candidate_environment_id d \<in> set (map env_id (ps_environments s)) \<and>
       set (psd_evidence_ids d) \<subseteq> set (map de_id (ps_evidence s)) \<and>
       (case index_by rv_id (ps_reviews s) (psd_review_id d) of None \<Rightarrow> False
        | Some r \<Rightarrow> rv_goal_id r = psd_goal_id d \<and> rv_candidate_environment_id r = psd_candidate_environment_id d \<and>
            rv_evidence_ids r = psd_evidence_ids d)) (ps_successor_decisions s) \<and>
     list_all (\<lambda>p. prom_successor_decision_id p \<in> set (map psd_id (ps_successor_decisions s))) (ps_promotions s)"

definition all_project_ids :: "project_state \<Rightarrow> ident set" where
  "all_project_ids s = owned_project_ids s \<union> set (map gc_id (ps_goal_candidates s)) \<union> set (map gad_id (ps_goal_admissions s))"

text \<open>The loop over the checkpoints with the dict of cycle tails.\<close>

fun linear_cycles :: "(ident \<rightharpoonup> cycle_checkpoint) \<Rightarrow> cycle_checkpoint list \<Rightarrow> bool" where
  "linear_cycles tails [] = True"
| "linear_cycles tails (c # cs) =
    ((case tails (cp_cycle_id c) of None \<Rightarrow> cp_predecessor_id c = None
      | Some p \<Rightarrow> cp_predecessor_id c = Some (cp_id p) \<and> phase_index (cp_phase p) < phase_index (cp_phase c)) \<and>
     linear_cycles (tails(cp_cycle_id c \<mapsto> c)) cs)"

definition valid_cycle_records :: "project_state \<Rightarrow> bool" where
  "valid_cycle_records s \<longleftrightarrow>
     list_all (\<lambda>c. cp_id c \<notin> set (cp_record_ids c) \<and> set (cp_record_ids c) \<subseteq> all_project_ids s) (ps_checkpoints s) \<and>
     linear_cycles Map.empty (ps_checkpoints s) \<and>
     list_all (\<lambda>d. stop_cycle_id d \<in> set (map cp_cycle_id (ps_checkpoints s)) \<and>
       set (stop_consequential_residual_ids d) \<subseteq> set (map cl_id (ps_limitations s))) (ps_stops s)"

text \<open>The collections that must be empty before the inquiry starts; goal candidates and goal admissions are not
  among them.\<close>

definition no_project_records :: "project_state \<Rightarrow> bool" where
  "no_project_records s \<longleftrightarrow> s\<lparr>ps_goal_candidates := [], ps_goal_admissions := []\<rparr> = without_project (ps_core s)"

definition valid_project :: "(string \<Rightarrow> digest) \<Rightarrow> (claim \<Rightarrow> string) \<Rightarrow> project_state \<Rightarrow> bool" where
  "valid_project sha dump s \<longleftrightarrow> valid_state sha (ps_core s) \<and> valid_project_elements s \<and>
     (st_status (ps_core s) = NotStarted \<longrightarrow> no_project_records s) \<and> distinct_project_ids s \<and>
     valid_question_records s \<and> valid_method_records s \<and> valid_frontier_records s \<and> valid_goal_records sha dump s \<and>
     valid_development_records s \<and> valid_outcome_records s \<and> valid_cycle_records s"

section \<open>The project branches of evolve\<close>

fun append_record :: "project_record \<Rightarrow> project_state \<Rightarrow> project_state" where
  "append_record (AnchorRecord x) s = s\<lparr>ps_anchors := ps_anchors s @ [x]\<rparr>"
| "append_record (LimitationRecord x) s = s\<lparr>ps_limitations := ps_limitations s @ [x]\<rparr>"
| "append_record (QuestionCandidateRecord x) s = s\<lparr>ps_question_candidates := ps_question_candidates s @ [x]\<rparr>"
| "append_record (QuestionDecisionRecord x) s = s\<lparr>ps_question_decisions := ps_question_decisions s @ [x]\<rparr>"
| "append_record (MethodCandidateRecord x) s = s\<lparr>ps_method_candidates := ps_method_candidates s @ [x]\<rparr>"
| "append_record (MethodDecisionRecord x) s = s\<lparr>ps_method_decisions := ps_method_decisions s @ [x]\<rparr>"
| "append_record (SuccessorCandidateRecord x) s = s\<lparr>ps_successor_candidates := ps_successor_candidates s @ [x]\<rparr>"
| "append_record (FrontierRecord x) s = s\<lparr>ps_frontiers := ps_frontiers s @ [x]\<rparr>"
| "append_record (GoalCandidateRecord x) s = s\<lparr>ps_goal_candidates := ps_goal_candidates s @ [x]\<rparr>"
| "append_record (GoalAdmissionRecord x) s = s\<lparr>ps_goal_admissions := ps_goal_admissions s @ [x]\<rparr>"
| "append_record (GoalRecord x) s = s\<lparr>ps_goals := ps_goals s @ [x]\<rparr>"
| "append_record (EnvironmentRecord x) s = s\<lparr>ps_environments := ps_environments s @ [x]\<rparr>"
| "append_record (EvidenceRecord x) s = s\<lparr>ps_evidence := ps_evidence s @ [x]\<rparr>"
| "append_record (ReviewRecord x) s = s\<lparr>ps_reviews := ps_reviews s @ [x]\<rparr>"
| "append_record (SuccessorDecisionRecord x) s = s\<lparr>ps_successor_decisions := ps_successor_decisions s @ [x]\<rparr>"
| "append_record (PromotionRecord x) s = s\<lparr>ps_promotions := ps_promotions s @ [x]\<rparr>"
| "append_record (CheckpointRecord x) s = s\<lparr>ps_checkpoints := ps_checkpoints s @ [x]\<rparr>"
| "append_record (StopRecord x) s = s\<lparr>ps_stops := ps_stops s @ [x]\<rparr>"

definition next_sequence :: "project_state \<Rightarrow> project_state" where
  "next_sequence s = s\<lparr>ps_core := (ps_core s)\<lparr>st_sequence := Suc (st_sequence (ps_core s))\<rparr>\<rparr>"

definition evolve_record ::
  "(string \<Rightarrow> digest) \<Rightarrow> (claim \<Rightarrow> string) \<Rightarrow> project_state \<Rightarrow> message_base \<Rightarrow> project_record \<Rightarrow> project_state result" where
  "evolve_record sha dump s b r =
    (case decide_project sha dump s (ProjectCommand b r) of
       Inl err \<Rightarrow> Inl (if is_domain_error err then InvalidTransitionError (error_text err) else err)
     | Inr es \<Rightarrow> check (es = [ProjectEvent b r])
         (InvalidTransitionError ''domain event does not match the lawful command consequence'')
         (construct (valid_project sha dump) ''InquiryState'' (append_record r (next_sequence s))))"

fun evolve_project ::
  "(string \<Rightarrow> digest) \<Rightarrow> (claim \<Rightarrow> string) \<Rightarrow> project_state \<Rightarrow> project_event \<Rightarrow> project_state result" where
  "evolve_project sha dump s (CoreEvent e) = (case evolve sha (ps_core s) e of Inl err \<Rightarrow> Inl err
     | Inr c \<Rightarrow> construct (valid_project sha dump) ''InquiryState''
         (if is_started_event e then without_project c else s\<lparr>ps_core := c\<rparr>))"
| "evolve_project sha dump s (ProjectEvent b r) =
     check (st_status (ps_core s) = Active \<and> st_inquiry_id (ps_core s) = Some (msg_inquiry_id b))
       (InvalidTransitionError ''event inquiry id does not match an active aggregate'')
       (evolve_record sha dump s b r)"

end
