(* ===== verification/Rci_Project_Ledger.thy ===== *)
theory Rci_Project_Ledger
  imports Rci_Project_Core Rci_Lifecycle
begin

text \<open>
  The project records of reachable aggregates and their justification. The locale \<open>justified_ledger\<close> is the
  contract of an append-only ledger: a step keeps the records it has and each justification, and every
  record it adds is justified. It is interpreted on the project records, whose justification is read off
  the guards of \<open>decide\<close>. Its consequence, together with the unique identities the validator
  demands, is that a merged promotion rests on an unbroken chain back to the anchor.
\<close>

section \<open>Ledgers\<close>

locale justified_ledger =
  fixes records :: "'s \<Rightarrow> 'r set" and justified :: "'s \<Rightarrow> 'r \<Rightarrow> bool" and step :: "'s \<Rightarrow> 's \<Rightarrow> bool"
  assumes keeps: "step s t \<Longrightarrow> r \<in> records s \<Longrightarrow> justified s r \<Longrightarrow> justified t r"
    and admits: "step s t \<Longrightarrow> r \<in> records t \<Longrightarrow> r \<in> records s \<or> justified t r"
begin

lemma lawful_step: "step s t \<Longrightarrow> \<forall>r \<in> records s. justified s r \<Longrightarrow> \<forall>r \<in> records t. justified t r"
  using keeps admits by blast

lemma lawful_reachable:
  assumes "step\<^sup>*\<^sup>* s t" "\<forall>r \<in> records s. justified s r"
  shows "\<forall>r \<in> records t. justified t r"
  using assms by (induction rule: rtranclp_induct) (auto dest: lawful_step)

end

section \<open>Project records and their justification\<close>

definition project_records :: "project_state \<Rightarrow> project_record set" where
  "project_records s = AnchorRecord ` set (ps_anchors s) \<union> LimitationRecord ` set (ps_limitations s) \<union>
     QuestionCandidateRecord ` set (ps_question_candidates s) \<union> QuestionDecisionRecord ` set (ps_question_decisions s) \<union>
     MethodCandidateRecord ` set (ps_method_candidates s) \<union> MethodDecisionRecord ` set (ps_method_decisions s) \<union>
     SuccessorCandidateRecord ` set (ps_successor_candidates s) \<union> FrontierRecord ` set (ps_frontiers s) \<union>
     GoalCandidateRecord ` set (ps_goal_candidates s) \<union> GoalAdmissionRecord ` set (ps_goal_admissions s) \<union>
     GoalRecord ` set (ps_goals s) \<union> EnvironmentRecord ` set (ps_environments s) \<union> EvidenceRecord ` set (ps_evidence s) \<union>
     ReviewRecord ` set (ps_reviews s) \<union> SuccessorDecisionRecord ` set (ps_successor_decisions s) \<union>
     PromotionRecord ` set (ps_promotions s) \<union> CheckpointRecord ` set (ps_checkpoints s) \<union> StopRecord ` set (ps_stops s)"

text \<open>Passing evidence that one valid review covers exactly.\<close>

definition admission_evidence :: "project_state \<Rightarrow> ident list \<Rightarrow> bool" where
  "admission_evidence s ids \<longleftrightarrow>
     (\<exists>r \<in> set (ps_reviews s). rv_outcome r = ValidReview \<and> rv_evidence_ids r = ids) \<and>
     (\<forall>i \<in> set ids. \<exists>e \<in> set (ps_evidence s). de_id e = i \<and> de_outcome e = PassOutcome)"

fun justified :: "project_state \<Rightarrow> project_record \<Rightarrow> bool" where
  "justified s (QuestionDecisionRecord d) = (qrd_outcome d = Admit \<longrightarrow>
     (\<exists>c \<in> set (ps_question_candidates s). qcc_id c = qrd_candidate_id d \<and>
        qc_family (qcc_contract c) = ''recursive-project'') \<and> admission_evidence s (qrd_evidence_ids d))"
| "justified s (MethodDecisionRecord d) = (mad_outcome d = Admit \<longrightarrow> admission_evidence s (mad_evidence_ids d))"
| "justified s (FrontierRecord f) = (\<exists>cs. set cs \<subseteq> set (ps_successor_candidates s) \<and> derive_capability_frontier (fr_id f) cs = Inr f)"
| "justified s (GoalRecord g) = (\<exists>f \<in> set (ps_frontiers s). fr_id f = goal_frontier_id g \<and> fr_status f = FrontierReady \<and>
     fr_selected_discriminator_candidate_id f = Some (goal_candidate_id g))"
| "justified s (EnvironmentRecord v) = (\<exists>g \<in> set (ps_goals s). \<exists>a \<in> set (ps_anchors s). goal_id g = env_goal_id v \<and>
     pa_id a = goal_anchor_id g \<and> pa_commit_sha a = env_base_commit_sha v)"
| "justified s (EvidenceRecord e) = (\<exists>g \<in> set (ps_goals s). goal_id g = de_goal_id e \<and>
     de_gate_digest e \<in> {goal_incumbent_gate_digest g, goal_proposed_gate_digest g})"
| "justified s (ReviewRecord r) = ((\<exists>v \<in> set (ps_environments s). env_id v = rv_candidate_environment_id r \<and>
     env_goal_id v = rv_goal_id r \<and> env_developer_id v \<noteq> rv_reviewer_id r) \<and>
     (\<forall>i \<in> set (rv_evidence_ids r). \<exists>e \<in> set (ps_evidence s). de_id e = i \<and> de_goal_id e = rv_goal_id r \<and>
        de_candidate_environment_id e = rv_candidate_environment_id r \<and>
        de_candidate_commit_sha e = rv_reviewed_commit_sha r \<and> (rv_outcome r = ValidReview \<longrightarrow> de_outcome e = PassOutcome)))"
| "justified s (SuccessorDecisionRecord d) = (\<exists>g \<in> set (ps_goals s). \<exists>c \<in> set (ps_successor_candidates s).
     \<exists>r \<in> set (ps_reviews s). goal_id g = psd_goal_id d \<and> sc_id c = psd_candidate_id d \<and> goal_candidate_id g = sc_id c \<and>
       rv_id r = psd_review_id d \<and> rv_goal_id r = goal_id g \<and> rv_candidate_environment_id r = psd_candidate_environment_id d \<and>
       rv_evidence_ids r = psd_evidence_ids d \<and>
       (psd_disposition d = ReplaceDisposition \<longrightarrow> rv_outcome r = ValidReview \<and>
          set (sc_preserved_capability_ids c) \<subseteq> set (psd_preserved_capability_ids d) \<and> sc_gain_kinds c = psd_gain_kinds d))"
| "justified s (PromotionRecord p) = (\<exists>d \<in> set (ps_successor_decisions s). \<exists>r \<in> set (ps_reviews s).
     psd_id d = prom_successor_decision_id p \<and> rv_id r = psd_review_id d \<and>
     (prom_outcome p = MergedPromotion \<longrightarrow> psd_disposition d = ReplaceDisposition \<and> rv_outcome r = ValidReview \<and>
        prom_candidate_commit_sha p = rv_reviewed_commit_sha r))"
| "justified s _ = True"

text \<open>What one state keeps of another: every record a justification may refer to.\<close>

definition owns_more :: "project_state \<Rightarrow> project_state \<Rightarrow> bool" where
  "owns_more s t \<longleftrightarrow> set (ps_anchors s) \<subseteq> set (ps_anchors t) \<and> set (ps_question_candidates s) \<subseteq> set (ps_question_candidates t) \<and>
     set (ps_successor_candidates s) \<subseteq> set (ps_successor_candidates t) \<and> set (ps_frontiers s) \<subseteq> set (ps_frontiers t) \<and>
     set (ps_goals s) \<subseteq> set (ps_goals t) \<and> set (ps_environments s) \<subseteq> set (ps_environments t) \<and>
     set (ps_evidence s) \<subseteq> set (ps_evidence t) \<and> set (ps_reviews s) \<subseteq> set (ps_reviews t) \<and>
     set (ps_successor_decisions s) \<subseteq> set (ps_successor_decisions t)"

lemma owns_moreD:
  assumes "owns_more s t"
  shows "a \<in> set (ps_anchors s) \<Longrightarrow> a \<in> set (ps_anchors t)"
    "q \<in> set (ps_question_candidates s) \<Longrightarrow> q \<in> set (ps_question_candidates t)"
    "c \<in> set (ps_successor_candidates s) \<Longrightarrow> c \<in> set (ps_successor_candidates t)"
    "f \<in> set (ps_frontiers s) \<Longrightarrow> f \<in> set (ps_frontiers t)" "g \<in> set (ps_goals s) \<Longrightarrow> g \<in> set (ps_goals t)"
    "v \<in> set (ps_environments s) \<Longrightarrow> v \<in> set (ps_environments t)" "e \<in> set (ps_evidence s) \<Longrightarrow> e \<in> set (ps_evidence t)"
    "r \<in> set (ps_reviews s) \<Longrightarrow> r \<in> set (ps_reviews t)"
    "d \<in> set (ps_successor_decisions s) \<Longrightarrow> d \<in> set (ps_successor_decisions t)"
  using assms unfolding owns_more_def by auto

lemma admission_evidence_mono:
  assumes "owns_more s t" "admission_evidence s ids"
  shows "admission_evidence t ids"
  using assms(2) owns_moreD(7,8) [OF assms(1)] unfolding admission_evidence_def by meson

lemma justified_mono:
  assumes "owns_more s t" "justified s r"
  shows "justified t r"
proof (cases r)
  case (QuestionDecisionRecord d)
  then show ?thesis
    using assms(2) owns_moreD(2) [OF assms(1)] admission_evidence_mono [OF assms(1)] by (simp, meson)
next
  case (MethodDecisionRecord d)
  then show ?thesis using assms(2) admission_evidence_mono [OF assms(1)] by simp
next
  case (FrontierRecord f)
  then show ?thesis using assms(2) owns_moreD(3) [OF assms(1)] by (simp add: subset_iff, meson)
next
  case (GoalRecord g)
  then show ?thesis using assms(2) owns_moreD(4) [OF assms(1)] by (simp, meson)
next
  case (EnvironmentRecord v)
  then show ?thesis using assms(2) owns_moreD(1,5) [OF assms(1)] by (simp, meson)
next
  case (EvidenceRecord e)
  then show ?thesis using assms(2) owns_moreD(5) [OF assms(1)] by (simp, meson)
next
  case (ReviewRecord e)
  then show ?thesis using assms(2) owns_moreD(6,7) [OF assms(1)] by (simp, meson)
next
  case (SuccessorDecisionRecord e)
  then show ?thesis using assms(2) owns_moreD(3,5,8) [OF assms(1)] by (simp, meson)
next
  case (PromotionRecord e)
  then show ?thesis using assms(2) owns_moreD(8,9) [OF assms(1)] by (simp, meson)
qed simp_all

section \<open>Decisions justify\<close>

lemma fresh_True: "fresh_identity e r m k = Inr True \<longleftrightarrow> e = None \<and> k = Inr True"
  by (auto simp: fresh_identity_def split: option.splits if_splits)

lemma lookup_all_Some: "lookup_all key xs ids = Some ys \<Longrightarrow> map key ys = ids \<and> set ys \<subseteq> set xs"
  unfolding lookup_all_def
proof (induction ids arbitrary: ys)
  case (Cons i ids)
  then obtain y zs where y: "index_by key xs i = Some y" "those (map (index_by key xs) ids) = Some zs" "ys = y # zs"
    by (auto split: option.splits)
  then show ?case using Cons.IH [OF y(2)] index_by_SomeD [OF y(1)] by simp
qed simp

lemma lookup_all_covers:
  assumes "lookup_all key xs ids = Some ys" "i \<in> set ids"
  obtains y where "y \<in> set ys" "y \<in> set xs" "key y = i"
  using lookup_all_Some [OF assms(1)] assms(2) by (metis (no_types, lifting) image_iff list.set_map subsetD)

lemma admission_evidenceI:
  assumes "require_project_admission_evidence s ids l True k = Inr True"
  shows "admission_evidence s ids"
proof -
  obtain es where "lookup_all de_id (ps_evidence s) ids = Some es" "list_all (\<lambda>e. de_outcome e = PassOutcome) es"
      "reviewed_exactly s ids"
    using assms by (auto simp: require_project_admission_evidence_def split: option.splits)
  then show ?thesis
    unfolding admission_evidence_def reviewed_exactly_def list_ex_iff list_all_iff
    by (meson lookup_all_covers)
qed

lemma decided_question_justified:
  assumes "decide_question_repertoire s d = Inr True"
  shows "justified s (QuestionDecisionRecord d)"
proof -
  obtain c where c: "find_by qcc_id (qrd_candidate_id d) (ps_question_candidates s) = Some c"
      "qrd_outcome d = Admit \<longrightarrow> qc_family (qcc_contract c) = ''recursive-project''"
      "require_project_admission_evidence s (qrd_evidence_ids d) (qcc_limitation_id c) (qrd_outcome d = Admit) (Inr True) = Inr True"
    using assms by (auto simp: decide_question_repertoire_def fresh_True split: option.splits)
  then show ?thesis
    using find_by_SomeD [OF c(1)] admission_evidenceI by (auto simp del: admission_evidence_def)
qed

lemma decided_method_justified:
  assumes "decide_method_admission s d = Inr True"
  shows "justified s (MethodDecisionRecord d)"
proof -
  obtain l k where "require_project_admission_evidence s (mad_evidence_ids d) l (mad_outcome d = Admit) k = Inr True"
    using assms unfolding decide_method_admission_def fresh_True by (auto split: option.splits)
  then show ?thesis using admission_evidenceI by auto
qed

lemma decided_frontier_justified:
  assumes "decide_frontier s f = Inr True"
  shows "justified s (FrontierRecord f)"
proof -
  obtain cs where "lookup_all sc_id (ps_successor_candidates s) (fr_candidate_ids f) = Some cs"
      "derive_capability_frontier (fr_id f) cs = Inr f"
    using assms by (auto simp: decide_frontier_def fresh_True split: option.splits sum.splits)
  then show ?thesis unfolding justified.simps using lookup_all_Some by blast
qed

lemma decided_goal_justified: "decide_seal_goal s g = Inr True \<Longrightarrow> justified s (GoalRecord g)"
  by (auto simp: decide_seal_goal_def fresh_True split: option.splits dest!: find_by_SomeD)

lemma decided_environment_justified: "decide_environment s v = Inr True \<Longrightarrow> justified s (EnvironmentRecord v)"
  by (auto simp: decide_environment_def fresh_True split: option.splits dest!: find_by_SomeD)

lemma decided_evidence_justified: "decide_development_evidence s e = Inr True \<Longrightarrow> justified s (EvidenceRecord e)"
  by (auto simp: decide_development_evidence_def fresh_True split: option.splits dest!: find_by_SomeD)

lemma decided_review_justified:
  assumes "decide_review s r = Inr True"
  shows "justified s (ReviewRecord r)"
proof -
  obtain es v where e: "lookup_all de_id (ps_evidence s) (rv_evidence_ids r) = Some es"
      "find_by env_id (rv_candidate_environment_id r) (ps_environments s) = Some v"
      "env_goal_id v = rv_goal_id r" "rv_reviewer_id r \<noteq> env_developer_id v"
      "\<forall>e \<in> set es. de_goal_id e = rv_goal_id r \<and> de_candidate_environment_id e = rv_candidate_environment_id r \<and>
         de_candidate_commit_sha e = rv_reviewed_commit_sha r"
      "rv_outcome r = ValidReview \<longrightarrow> (\<forall>e \<in> set es. de_outcome e = PassOutcome)"
    using assms by (auto simp: decide_review_def fresh_True list_all_iff split: option.splits)
  have "\<exists>e \<in> set (ps_evidence s). de_id e = i \<and> de_goal_id e = rv_goal_id r \<and>
      de_candidate_environment_id e = rv_candidate_environment_id r \<and> de_candidate_commit_sha e = rv_reviewed_commit_sha r \<and>
      (rv_outcome r = ValidReview \<longrightarrow> de_outcome e = PassOutcome)" if "i \<in> set (rv_evidence_ids r)" for i
    using lookup_all_covers [OF e(1) that] e(5,6) by metis
  then show ?thesis using find_by_SomeD [OF e(2)] e(3,4) by auto
qed

lemma decided_successor_justified:
  assumes "decide_successor s d = Inr True"
  shows "justified s (SuccessorDecisionRecord d)"
proof -
  obtain g c r v where l: "find_by goal_id (psd_goal_id d) (ps_goals s) = Some g"
      "find_by sc_id (psd_candidate_id d) (ps_successor_candidates s) = Some c"
      "find_by rv_id (psd_review_id d) (ps_reviews s) = Some r"
      "find_by env_id (psd_candidate_environment_id d) (ps_environments s) = Some v"
    and p: "goal_candidate_id g = sc_id c" "rv_goal_id r = goal_id g" "rv_candidate_environment_id r = env_id v"
      "psd_evidence_ids d = rv_evidence_ids r"
      "psd_disposition d = ReplaceDisposition \<longrightarrow> rv_outcome r = ValidReview \<and>
         set (sc_preserved_capability_ids c) \<subseteq> set (psd_preserved_capability_ids d) \<and> sc_gain_kinds c = psd_gain_kinds d"
    using assms by (auto simp: decide_successor_def fresh_True split: option.splits)
  show ?thesis
    unfolding justified.simps
    using find_by_SomeD [OF l(1)] find_by_SomeD [OF l(2)] find_by_SomeD [OF l(3)] find_by_SomeD [OF l(4)] p by metis
qed

lemma decided_promotion_justified: "decide_project_promotion s p = Inr True \<Longrightarrow> justified s (PromotionRecord p)"
  by (auto simp: decide_project_promotion_def fresh_True split: option.splits dest!: find_by_SomeD)

lemma decided_record_justified: "decide_record sha dump s r = Inr True \<Longrightarrow> justified s r"
  by (cases r) (simp_all only: decide_record.simps justified.simps(10-18) decided_question_justified decided_method_justified
    decided_frontier_justified decided_goal_justified decided_environment_justified decided_evidence_justified
    decided_review_justified decided_successor_justified decided_promotion_justified)

section \<open>Steps\<close>

definition project_step ::
  "(string \<Rightarrow> digest) \<Rightarrow> (claim \<Rightarrow> string) \<Rightarrow> project_state \<Rightarrow> project_state \<Rightarrow> bool" where
  "project_step sha dump s t \<longleftrightarrow> valid_project sha dump s \<and> (\<exists>e. evolve_project sha dump s e = Inr t)"

definition project_reachable :: "(string \<Rightarrow> digest) \<Rightarrow> (claim \<Rightarrow> string) \<Rightarrow> project_state \<Rightarrow> bool" where
  "project_reachable sha dump s \<longleftrightarrow> (project_step sha dump)\<^sup>*\<^sup>* (without_project initial_state) s"

lemma records_append: "project_records (append_record r s) = insert r (project_records s)"
  by (cases r) (auto simp: project_records_def)

lemma owns_append: "owns_more s (append_record r s)"
  by (cases r) (auto simp: owns_more_def)

lemma records_next_sequence [simp]: "project_records (next_sequence s) = project_records s"
  by (simp add: project_records_def next_sequence_def)

lemma owns_more_trans: "owns_more s t \<Longrightarrow> owns_more t u \<Longrightarrow> owns_more s u"
  by (auto simp: owns_more_def)

lemma owns_next_sequence: "owns_more s (next_sequence s)"
  by (simp add: owns_more_def next_sequence_def)

lemma evolve_projectD:
  assumes "evolve_project sha dump s e = Inr t"
  shows "valid_project sha dump t"
    "(\<exists>b r. e = ProjectEvent b r \<and> decide_record sha dump s r = Inr True \<and> t = append_record r (next_sequence s)) \<or>
     (\<exists>x c. e = CoreEvent x \<and> evolve sha (ps_core s) x = Inr c \<and>
        t = (if is_started_event x then without_project c else s\<lparr>ps_core := c\<rparr>))"
proof -
  have "valid_project sha dump t \<and>
    ((\<exists>b r. e = ProjectEvent b r \<and> decide_record sha dump s r = Inr True \<and> t = append_record r (next_sequence s)) \<or>
     (\<exists>x c. e = CoreEvent x \<and> evolve sha (ps_core s) x = Inr c \<and>
        t = (if is_started_event x then without_project c else s\<lparr>ps_core := c\<rparr>)))"
  proof (cases e)
    case (CoreEvent x)
    then show ?thesis using assms by (auto simp: construct_Inr_iff split: sum.splits)
  next
    case (ProjectEvent b r)
    then have "evolve_record sha dump s b r = Inr t" using assms by simp
    then show ?thesis
      using ProjectEvent
      by (auto simp: evolve_record_def require_active_def map_sum_Inr_iff construct_Inr_iff split: sum.splits if_splits)
  qed
  then show "valid_project sha dump t"
    "(\<exists>b r. e = ProjectEvent b r \<and> decide_record sha dump s r = Inr True \<and> t = append_record r (next_sequence s)) \<or>
     (\<exists>x c. e = CoreEvent x \<and> evolve sha (ps_core s) x = Inr c \<and>
        t = (if is_started_event x then without_project c else s\<lparr>ps_core := c\<rparr>))"
    by blast+
qed

lemma without_project_records [simp]: "project_records (without_project c) = {}"
  by (simp add: project_records_def without_project_def)

text \<open>Before the start there are no project records at all: a goal candidate does not compile without a
  context, and an admission needs its candidate.\<close>

lemma not_started_no_records:
  assumes "valid_project sha dump s" "st_status (ps_core s) = NotStarted"
  shows "project_records s = {}"
proof -
  have e: "s\<lparr>ps_goal_candidates := [], ps_goal_admissions := []\<rparr> = without_project (ps_core s)"
    and g: "list_all (\<lambda>c. compiles_to sha dump s c = Inr True) (ps_goal_candidates s)"
      "list_all (\<lambda>d. case index_by gc_id (ps_goal_candidates s) (gad_candidate_id d) of None \<Rightarrow> False
         | Some c \<Rightarrow> admission_exact sha c d) (ps_goal_admissions s)"
    using assms by (simp_all add: valid_project_def no_project_records_def valid_goal_records_def)
  have "ps_context s = None"
    using assms by (simp add: valid_project_def valid_state_def valid_lifecycle_def)
  then have "compiles_to sha dump s c \<noteq> Inr True" for c
    by (simp add: compiles_to_def compile_implementation_goal_candidate_def goal_sources_of_def)
  then have gc: "ps_goal_candidates s = []" using g(1) by (cases "ps_goal_candidates s") auto
  moreover have "ps_goal_admissions s = []"
    using g(2) unfolding gc by (cases "ps_goal_admissions s") (auto simp: index_by_def)
  ultimately have "s\<lparr>ps_goal_candidates := [], ps_goal_admissions := []\<rparr> = s" by (cases s) simp
  then have "s = without_project (ps_core s)" using e by simp
  then show ?thesis by (metis without_project_records)
qed

text \<open>A step either appends one decided record, or keeps the project records.\<close>

lemma project_stepD:
  assumes "project_step sha dump s t"
  shows "(\<exists>r. decide_record sha dump s r = Inr True \<and> t = append_record r (next_sequence s)) \<or>
    project_records s = {} \<and> project_records t = {} \<or> (\<exists>c. t = s\<lparr>ps_core := c\<rparr>)"
proof -
  obtain e where v: "valid_project sha dump s" and e: "evolve_project sha dump s e = Inr t"
    using assms unfolding project_step_def by blast
  have "project_records s = {} \<and> project_records t = {}"
    if x: "evolve sha (ps_core s) x = Inr c" "is_started_event x" "t = without_project c" for x c
  proof -
    have "st_status (ps_core s) = NotStarted"
      using x(1,2) by (auto simp: evolve_def is_started_event_def evolve_started_def split: event.splits)
    then show ?thesis using not_started_no_records [OF v] x(3) by simp
  qed
  then show ?thesis using evolve_projectD(2) [OF e] by (auto split: if_splits)
qed

interpretation project: justified_ledger project_records justified "project_step sha dump" for sha dump
proof
  fix s t r assume st: "project_step sha dump s t"
  consider (append) x where "decide_record sha dump s x = Inr True" "t = append_record x (next_sequence s)"
    | (start) "project_records s = {}" "project_records t = {}" | (core) c where "t = s\<lparr>ps_core := c\<rparr>"
    using project_stepD [OF st] by blast
  note split = this
  show "justified t r" if "r \<in> project_records s" "justified s r"
    using split
  proof cases
    case append
    then show ?thesis
      using justified_mono [OF owns_more_trans [OF owns_next_sequence owns_append] that(2)] by simp
  next
    case core
    then have "owns_more s t" by (simp add: owns_more_def)
    then show ?thesis using justified_mono that(2) by blast
  qed (use that in simp)
  show "r \<in> project_records s \<or> justified t r" if "r \<in> project_records t"
    using split
  proof cases
    case (append x)
    then have "r = x \<or> r \<in> project_records s" using that by (simp add: records_append)
    then show ?thesis
      using justified_mono [OF owns_more_trans [OF owns_next_sequence owns_append] decided_record_justified] append by blast
  qed (use that in \<open>auto simp: project_records_def\<close>)
qed

lemma initial_project_valid: "valid_project sha dump (without_project initial_state)"
  by (simp add: valid_project_def initial_state_valid without_project_def valid_project_elements_def no_project_records_def
    distinct_project_ids_def valid_question_records_def valid_method_records_def valid_frontier_records_def
    valid_goal_records_def valid_development_records_def valid_outcome_records_def valid_cycle_records_def)

lemma project_reachable_valid: "project_reachable sha dump s \<Longrightarrow> valid_project sha dump s"
  unfolding project_reachable_def
  by (induction rule: rtranclp_induct) (auto simp: initial_project_valid project_step_def dest: evolve_projectD(1))

lemma project_reachable_justified:
  assumes "project_reachable sha dump s" "r \<in> project_records s"
  shows "justified s r"
  using project.lawful_reachable [OF assms(1) [unfolded project_reachable_def]] assms(2) by simp

lemma in_project_records:
  "FrontierRecord f \<in> project_records s \<longleftrightarrow> f \<in> set (ps_frontiers s)" "GoalRecord g \<in> project_records s \<longleftrightarrow> g \<in> set (ps_goals s)"
  "EnvironmentRecord v \<in> project_records s \<longleftrightarrow> v \<in> set (ps_environments s)"
  "EvidenceRecord e \<in> project_records s \<longleftrightarrow> e \<in> set (ps_evidence s)" "ReviewRecord r \<in> project_records s \<longleftrightarrow> r \<in> set (ps_reviews s)"
  "SuccessorDecisionRecord d \<in> project_records s \<longleftrightarrow> d \<in> set (ps_successor_decisions s)"
  "PromotionRecord p \<in> project_records s \<longleftrightarrow> p \<in> set (ps_promotions s)"
  "QuestionDecisionRecord q \<in> project_records s \<longleftrightarrow> q \<in> set (ps_question_decisions s)"
  "MethodDecisionRecord m \<in> project_records s \<longleftrightarrow> m \<in> set (ps_method_decisions s)"
  by (auto simp: project_records_def)

lemma unique_by: "distinct (map key xs) \<Longrightarrow> x \<in> set xs \<Longrightarrow> y \<in> set xs \<Longrightarrow> key x = key y \<Longrightarrow> x = y"
  by (meson distinct_map inj_onD)

section \<open>Merged promotions\<close>

text \<open>The chain a merged promotion rests on: the replacing successor decision, the valid review of exactly the
  promoted commit by someone other than the developer, the environment that started at the anchored
  commit, the sealed goal that the frontier selected, and the reviewed evidence.\<close>

definition promotion_chain ::
  "project_state \<Rightarrow> project_promotion \<Rightarrow> successor_decision \<Rightarrow> independent_review \<Rightarrow> candidate_environment \<Rightarrow>
     implementation_goal \<Rightarrow> successor_candidate \<Rightarrow> capability_frontier \<Rightarrow> project_anchor \<Rightarrow> bool" where
  "promotion_chain s p d r v g c f a \<longleftrightarrow>
     d \<in> set (ps_successor_decisions s) \<and> r \<in> set (ps_reviews s) \<and> v \<in> set (ps_environments s) \<and> g \<in> set (ps_goals s) \<and>
     c \<in> set (ps_successor_candidates s) \<and> f \<in> set (ps_frontiers s) \<and> a \<in> set (ps_anchors s) \<and>
     psd_id d = prom_successor_decision_id p \<and> psd_disposition d = ReplaceDisposition \<and>
     set (sc_preserved_capability_ids c) \<subseteq> set (psd_preserved_capability_ids d) \<and> sc_gain_kinds c = psd_gain_kinds d \<and>
     rv_id r = psd_review_id d \<and> rv_outcome r = ValidReview \<and> rv_reviewed_commit_sha r = prom_candidate_commit_sha p \<and>
     env_id v = rv_candidate_environment_id r \<and> rv_reviewer_id r \<noteq> env_developer_id v \<and> env_goal_id v = goal_id g \<and>
     env_base_commit_sha v = pa_commit_sha a \<and> pa_id a = goal_anchor_id g \<and>
     goal_candidate_id g = sc_id c \<and> fr_id f = goal_frontier_id g \<and> fr_status f = FrontierReady \<and>
     fr_selected_discriminator_candidate_id f = Some (sc_id c) \<and>
     (\<forall>i \<in> set (psd_evidence_ids d). \<exists>e \<in> set (ps_evidence s). de_id e = i \<and> de_outcome e = PassOutcome \<and>
        de_goal_id e = goal_id g \<and> de_candidate_environment_id e = env_id v \<and>
        de_candidate_commit_sha e = prom_candidate_commit_sha p \<and>
        de_gate_digest e \<in> {goal_incumbent_gate_digest g, goal_proposed_gate_digest g})"

lemma merged_promotion_chain:
  assumes "project_reachable sha dump s" "p \<in> set (ps_promotions s)" "prom_outcome p = MergedPromotion"
  shows "\<exists>d r v g c f a. promotion_chain s p d r v g c f a"
proof -
  note j = project_reachable_justified [OF assms(1)]
  have u: "distinct_project_ids s" using project_reachable_valid [OF assms(1)] by (simp add: valid_project_def)
  have "justified s (PromotionRecord p)" using assms(2) by (intro j) (simp only: in_project_records)
  then obtain d r where d: "d \<in> set (ps_successor_decisions s)" "psd_id d = prom_successor_decision_id p"
      "psd_disposition d = ReplaceDisposition"
    and r: "r \<in> set (ps_reviews s)" "rv_id r = psd_review_id d" "rv_outcome r = ValidReview"
      "prom_candidate_commit_sha p = rv_reviewed_commit_sha r"
    using assms(3) by auto
  have "justified s (SuccessorDecisionRecord d)" using d(1) by (intro j) (simp only: in_project_records)
  then obtain g c r' where g: "g \<in> set (ps_goals s)" "c \<in> set (ps_successor_candidates s)" "r' \<in> set (ps_reviews s)"
      "goal_candidate_id g = sc_id c" "rv_id r' = psd_review_id d" "rv_goal_id r' = goal_id g"
      "rv_evidence_ids r' = psd_evidence_ids d"
      "set (sc_preserved_capability_ids c) \<subseteq> set (psd_preserved_capability_ids d)" "sc_gain_kinds c = psd_gain_kinds d"
    using d(3) by auto
  have "r' = r" using u r(1,2) g(3,5) by (intro unique_by [of rv_id]) (auto simp: distinct_project_ids_def)
  have "justified s (ReviewRecord r)" using r(1) by (intro j) (simp only: in_project_records)
  then obtain v where v: "v \<in> set (ps_environments s)" "env_id v = rv_candidate_environment_id r"
      "env_goal_id v = goal_id g" "env_developer_id v \<noteq> rv_reviewer_id r"
    and e: "\<forall>i \<in> set (rv_evidence_ids r). \<exists>e \<in> set (ps_evidence s). de_id e = i \<and> de_goal_id e = goal_id g \<and>
        de_candidate_environment_id e = rv_candidate_environment_id r \<and>
        de_candidate_commit_sha e = rv_reviewed_commit_sha r \<and> de_outcome e = PassOutcome"
    using g(6) \<open>r' = r\<close> r(3) by auto
  have "justified s (EnvironmentRecord v)" using v(1) by (intro j) (simp only: in_project_records)
  then obtain h a where a: "h \<in> set (ps_goals s)" "a \<in> set (ps_anchors s)" "goal_id h = env_goal_id v"
      "pa_id a = goal_anchor_id h" "pa_commit_sha a = env_base_commit_sha v"
    by auto
  have same_goal: "x = g" if "x \<in> set (ps_goals s)" "goal_id x = goal_id g" for x
    using u g(1) that by (intro unique_by [of goal_id]) (auto simp: distinct_project_ids_def)
  have "h = g" using same_goal a(1,3) v(3) by simp
  have "justified s (GoalRecord g)" using g(1) by (intro j) (simp only: in_project_records)
  then obtain f where f: "f \<in> set (ps_frontiers s)" "fr_id f = goal_frontier_id g" "fr_status f = FrontierReady"
      "fr_selected_discriminator_candidate_id f = Some (goal_candidate_id g)"
    by auto
  have gate: "de_gate_digest e \<in> {goal_incumbent_gate_digest g, goal_proposed_gate_digest g}"
    if "e \<in> set (ps_evidence s)" "de_goal_id e = goal_id g" for e
  proof -
    have "justified s (EvidenceRecord e)" using that(1) by (intro j) (simp only: in_project_records)
    then show ?thesis using same_goal that(2) by auto
  qed
  have "\<exists>e \<in> set (ps_evidence s). de_id e = i \<and> de_outcome e = PassOutcome \<and> de_goal_id e = goal_id g \<and>
      de_candidate_environment_id e = env_id v \<and> de_candidate_commit_sha e = prom_candidate_commit_sha p \<and>
      de_gate_digest e \<in> {goal_incumbent_gate_digest g, goal_proposed_gate_digest g}" if "i \<in> set (psd_evidence_ids d)" for i
    using e gate that g(7) \<open>r' = r\<close> v(2) r(4) by metis
  then have "promotion_chain s p d r v g c f a"
    unfolding promotion_chain_def using d r g(1,2,4,8,9) v a(2,4,5) f \<open>h = g\<close> by simp
  then show ?thesis by blast
qed

section \<open>Cycles\<close>

lemma phase_index_less: "phase_index p < 12"
  by (cases p) (simp_all add: phase_index_def cycle_phases_def)

definition next_checkpoint :: "cycle_checkpoint \<Rightarrow> cycle_checkpoint \<Rightarrow> bool" where
  "next_checkpoint x y \<longleftrightarrow> cp_predecessor_id y = Some (cp_id x) \<and> phase_index (cp_phase x) < phase_index (cp_phase y)"

lemma linear_cycles_chain:
  "linear_cycles tails cs \<Longrightarrow>
     successively next_checkpoint ((case tails k of None \<Rightarrow> [] | Some p \<Rightarrow> [p]) @ filter (\<lambda>c. cp_cycle_id c = k) cs) \<and>
     (tails k = None \<and> filter (\<lambda>c. cp_cycle_id c = k) cs \<noteq> [] \<longrightarrow>
        cp_predecessor_id (hd (filter (\<lambda>c. cp_cycle_id c = k) cs)) = None)"
proof (induction cs arbitrary: tails)
  case Nil
  then show ?case by (simp split: option.splits)
next
  case (Cons c cs)
  have l: "linear_cycles (tails(cp_cycle_id c \<mapsto> c)) cs"
    and h: "case tails (cp_cycle_id c) of None \<Rightarrow> cp_predecessor_id c = None | Some p \<Rightarrow> next_checkpoint p c"
    using Cons.prems by (auto simp: next_checkpoint_def split: option.splits)
  show ?case
    using Cons.IH [OF l] h by (cases "cp_cycle_id c = k") (auto simp: successively_Cons split: option.splits)
qed

lemma increasing_phases_bounded:
  assumes "successively next_checkpoint cs"
  shows "sorted_wrt (\<lambda>x y. phase_index (cp_phase x) < phase_index (cp_phase y)) cs" "length cs \<le> 12"
proof -
  let ?f = "\<lambda>c. phase_index (cp_phase c)"
  have "successively (\<lambda>x y. ?f x < ?f y) cs"
    using assms by (rule successively_mono) (simp add: next_checkpoint_def)
  then show w: "sorted_wrt (\<lambda>x y. ?f x < ?f y) cs"
    by (simp add: successively_conv_sorted_wrt transp_def)
  have "sorted_wrt (<) (map ?f cs)" using w by (simp add: sorted_wrt_map)
  then have "distinct (map ?f cs)" by (simp only: strict_sorted_iff)
  then have "length cs = card (set (map ?f cs))" using distinct_card by force
  also have "\<dots> \<le> card {..<12 :: nat}" using phase_index_less by (intro card_mono) auto
  finally show "length cs \<le> 12" by simp
qed

end
