(* ===== verification/Rci_Project_Run.thy ===== *)
theory Rci_Project_Run
  imports Rci_Project_Ledger
begin

text \<open>
  A concrete project cycle: one anchor, one limitation, two successor candidates, their frontier, the goal sealed
  for the selected one, an environment, passing evidence, an independent review, the replacing decision, its
  merged promotion and the checkpoints of the cycle; then a generated question that the same evidence
  admits. The run is played record by record from a started inquiry.
\<close>

section \<open>Playing records\<close>

definition project_clauses :: "(string \<Rightarrow> digest) \<Rightarrow> (claim \<Rightarrow> string) \<Rightarrow> project_state \<Rightarrow> bool" where
  "project_clauses sha dump s \<longleftrightarrow> valid_project_elements s \<and> distinct_project_ids s \<and> valid_question_records s \<and>
     valid_method_records s \<and> valid_frontier_records s \<and> valid_goal_records sha dump s \<and>
     valid_development_records s \<and> valid_outcome_records s \<and> valid_cycle_records s"

fun play :: "project_record list \<Rightarrow> project_state \<Rightarrow> project_state" where
  "play [] s = s"
| "play (r # rs) s = play rs (append_record r (next_sequence s))"

fun playable :: "(string \<Rightarrow> digest) \<Rightarrow> (claim \<Rightarrow> string) \<Rightarrow> project_record list \<Rightarrow> project_state \<Rightarrow> bool" where
  "playable sha dump [] s = True"
| "playable sha dump (r # rs) s = (decide_record sha dump s r = Inr True \<and>
     (let t = append_record r (next_sequence s) in project_clauses sha dump t \<and> playable sha dump rs t))"

lemma core_append [simp]: "ps_core (append_record r s) = ps_core s"
  by (cases r) simp_all

lemma play_reachable:
  assumes "project_reachable sha dump s" "st_status (ps_core s) = Active" "playable sha dump rs s"
  shows "project_reachable sha dump (play rs s) \<and> st_status (ps_core (play rs s)) = Active"
  using assms
proof (induction rs arbitrary: s)
  case (Cons r rs)
  let ?t = "append_record r (next_sequence s)"
  have v: "valid_project sha dump s" by (rule project_reachable_valid [OF Cons.prems(1)])
  then have c: "valid_state sha (ps_core s)" by (simp add: valid_project_def)
  obtain i where i: "st_inquiry_id (ps_core s) = Some i"
    using c Cons.prems(2) by (auto simp: valid_state_def valid_lifecycle_def)
  define b where "b = \<lparr>msg_event_id = [], msg_inquiry_id = i, msg_occurred_at = \<lparr>instant = 0, utc_offset = Some 0\<rparr>\<rparr>"
  have core: "ps_core ?t = (ps_core s)\<lparr>st_sequence := Suc (st_sequence (ps_core s))\<rparr>"
    by (simp add: next_sequence_def)
  have t: "valid_project sha dump ?t"
    using Cons.prems(2,3) c unfolding valid_project_def core
    by (simp add: Let_def project_clauses_def valid_state_sequence)
  moreover have "evolve_project sha dump s (ProjectEvent b r) = Inr ?t"
    using Cons.prems(2,3) i t
    by (simp add: evolve_record_def require_active_def construct_Inr_iff b_def del: append_record.simps)
  ultimately have "project_step sha dump s ?t" using v unfolding project_step_def by blast
  then have "project_reachable sha dump ?t"
    using Cons.prems(1) unfolding project_reachable_def by (rule rtranclp.rtrancl_into_rtrancl [rotated])
  then show ?case using Cons.IH [of ?t] Cons.prems(2,3) core by (simp add: Let_def)
qed simp

section \<open>The records of the run\<close>

definition hex :: "nat \<Rightarrow> char \<Rightarrow> string" where
  "hex n c = replicate n c"

definition run_anchor :: project_anchor where
  "run_anchor = \<lparr>pa_id = ''anchor'', pa_repository = ''repo'', pa_protected_branch = ''main'',
     pa_commit_sha = hex 40 CHR ''a'', pa_tree_digest = zero_hash, pa_authority_digest = zero_hash,
     pa_gate_digest = zero_hash, pa_clean = True\<rparr>"

definition run_limitation :: capability_limitation where
  "run_limitation = \<lparr>cl_id = ''limitation'', cl_anchor_id = ''anchor'', cl_kind = ImplementationLimitation,
     cl_current_capability = ''current'', cl_missing_capability = ''missing'', cl_consequential_boundary = ''boundary'',
     cl_protected_consequence_ids = [''replay''], cl_observed_evidence = [demo_artifact zero_hash],
     cl_existing_question_contract_keys = [], cl_blocked_dependency_ids = []\<rparr>"

definition run_frontier :: capability_frontier where
  "run_frontier = \<lparr>fr_id = ''frontier'', fr_anchor_id = ''anchor'', fr_limitation_id = ''limitation'',
     fr_candidate_ids = [''a'', ''b''], fr_nondominated_candidate_ids = [''b''], fr_incomparable_pairs = [],
     fr_selected_discriminator_candidate_id = Some ''b'', fr_status = FrontierReady\<rparr>"

definition run_goal :: implementation_goal where
  "run_goal = \<lparr>goal_id = ''goal'', goal_cycle_id = ''cycle'', goal_anchor_id = ''anchor'', goal_frontier_id = ''frontier'',
     goal_candidate_id = ''b'', goal_current = ''current'', goal_desired = ''desired'', goal_separator = ''boundary'',
     goal_expected_incumbent_return = ''none'', goal_expected_candidate_return = ''one'',
     goal_preserve_capability_ids = [''replay''], goal_acceptance_commands = [''pytest''],
     goal_allowed_mutation_roots = [''src''], goal_forbidden_authority_roots = [''docs/adr''],
     goal_assumption_ids = [''as''], goal_incumbent_gate_digest = zero_hash, goal_proposed_gate_digest = zero_hash,
     goal_rollback_condition = ''fails'', goal_reopening_condition = ''outside''\<rparr>"

definition run_environment :: candidate_environment where
  "run_environment = \<lparr>env_id = ''env'', env_goal_id = ''goal'', env_developer_id = ''dev'',
     env_base_commit_sha = hex 40 CHR ''a'', env_candidate_branch = ''branch'', env_worktree_path = ''worktree'',
     env_initial_tree_digest = zero_hash, env_toolchain_artifact = demo_artifact zero_hash, env_toolchain_digest = zero_hash\<rparr>"

definition run_evidence_record :: development_evidence where
  "run_evidence_record = \<lparr>de_id = ''ev'', de_goal_id = ''goal'', de_candidate_environment_id = ''env'', de_kind = TestEvidence,
     de_command_or_method = ''pytest'', de_outcome = PassOutcome, de_observed_return = demo_artifact zero_hash,
     de_base_commit_sha = hex 40 CHR ''a'', de_candidate_commit_sha = hex 40 CHR ''b'', de_gate_digest = zero_hash\<rparr>"

definition run_review :: independent_review where
  "run_review = \<lparr>rv_id = ''review'', rv_goal_id = ''goal'', rv_candidate_environment_id = ''env'', rv_reviewer_id = ''rev'',
     rv_reviewer_context_digest = zero_hash, rv_reviewed_commit_sha = hex 40 CHR ''b'', rv_evidence_ids = [''ev''],
     rv_outcome = ValidReview, rv_findings_artifact = demo_artifact zero_hash\<rparr>"

definition run_successor :: successor_decision where
  "run_successor = \<lparr>psd_id = ''succ'', psd_goal_id = ''goal'', psd_candidate_id = ''b'', psd_candidate_environment_id = ''env'',
     psd_review_id = ''review'', psd_evidence_ids = [''ev''], psd_disposition = ReplaceDisposition,
     psd_preserved_capability_ids = [''replay''], psd_explicitly_disposed_capability_ids = [],
     psd_gain_kinds = [NewMethod], psd_reason = ''gain''\<rparr>"

definition run_promotion :: project_promotion where
  "run_promotion = \<lparr>prom_id = ''prom'', prom_successor_decision_id = ''succ'', prom_candidate_commit_sha = hex 40 CHR ''b'',
     prom_pull_request_url = ''url'', prom_required_checks = [\<lparr>cc_context = ''ci'', cc_conclusion = CheckSuccess\<rparr>],
     prom_outcome = MergedPromotion, prom_merged_commit_sha = Some (hex 40 CHR ''c'')\<rparr>"

definition run_checkpoint :: "ident \<Rightarrow> cycle_phase \<Rightarrow> ident option \<Rightarrow> cycle_checkpoint" where
  "run_checkpoint i phase predecessor = \<lparr>cp_id = i, cp_cycle_id = ''cycle'', cp_phase = phase,
     cp_predecessor_id = predecessor, cp_record_ids = [''goal''], cp_report_artifact = demo_artifact zero_hash\<rparr>"

definition generated_contract :: question_contract where
  "generated_contract = (catalog_contract ''gen'' ''recursive-project'' Characterization
     ''What separates {limitation}?'' ExperimentalContract [])
     \<lparr>qc_input_roles := [''limitation''], qc_precondition_policy_id := ''owned-project-limitation-v1''\<rparr>"

definition run_question :: question_contract_candidate where
  "run_question = \<lparr>qcc_id = ''question'', qcc_limitation_id = ''limitation'', qcc_contract = generated_contract,
     qcc_typed_referent_ids = [''limitation''], qcc_precondition_ids = [''owned-limitation''],
     qcc_possible_returns =
       [\<lparr>ret_class_id = ''goal-derivation-required'', ret_downstream_state_id = ''derive'', ret_downstream_obligation_kind = ImplementationLimitation\<rparr>,
        \<lparr>ret_class_id = ''no-goal'', ret_downstream_state_id = ''keep'', ret_downstream_obligation_kind = EvidenceLimitation\<rparr>],
     qcc_comparison_policy_id = ''consequence-distinction-v1'', qcc_downstream_consumer_ids = [''frontier-builder''],
     qcc_falsifying_attack_ids = [''attack'']\<rparr>"

definition run_question_decision :: question_repertoire_decision where
  "run_question_decision = \<lparr>qrd_id = ''qdecision'', qrd_candidate_id = ''question'', qrd_outcome = Admit,
     qrd_controller_policy_version = ''recursive-question-policy-v1'', qrd_evidence_ids = [''ev''],
     qrd_admitted_profile_id = Some ''recursive-project-v1''\<rparr>"

definition run_records :: "project_record list" where
  "run_records = [AnchorRecord run_anchor, LimitationRecord run_limitation,
     SuccessorCandidateRecord (demo_successor ''a'' [NewMethod] (Some 5)),
     SuccessorCandidateRecord (demo_successor ''b'' [NewMethod] (Some 3)), FrontierRecord run_frontier,
     GoalRecord run_goal, EnvironmentRecord run_environment, EvidenceRecord run_evidence_record, ReviewRecord run_review,
     SuccessorDecisionRecord run_successor, PromotionRecord run_promotion,
     CheckpointRecord (run_checkpoint ''cp1'' GoalSealed None), CheckpointRecord (run_checkpoint ''cp2'' Merged (Some ''cp1'')),
     QuestionCandidateRecord run_question, QuestionDecisionRecord run_question_decision]"

definition run_start :: project_state where
  "run_start = without_project demo_state"

lemma run_start_reachable: "project_reachable sha dump run_start"
proof -
  have "project_step sha dump (without_project initial_state) run_start"
    unfolding project_step_def
  proof (intro conjI exI [of _ "CoreEvent demo_event"])
    have "is_started_event demo_event" by (simp add: is_started_event_def demo_event_def)
    moreover have "valid_project sha dump run_start"
      by (simp add: valid_project_def demo_state_valid run_start_def without_project_def valid_project_elements_def
        distinct_project_ids_def valid_question_records_def valid_method_records_def valid_frontier_records_def
        valid_goal_records_def valid_development_records_def valid_outcome_records_def valid_cycle_records_def)
        (simp add: demo_state_def)
    moreover have "ps_core (without_project initial_state) = initial_state" by (simp add: without_project_def)
    ultimately show "evolve_project sha dump (without_project initial_state) (CoreEvent demo_event) = Inr run_start"
      using demo_evolves [of sha] by (simp add: construct_Inr_iff run_start_def)
  qed (rule initial_project_valid)
  then show ?thesis unfolding project_reachable_def by (rule r_into_rtranclp)
qed

text \<open>The fields the guards read, so that a step is decided without unfolding the records.\<close>

lemma run_fields [simp]:
  "pa_id run_anchor = ''anchor''" "pa_commit_sha run_anchor = hex 40 CHR ''a''"
  "cl_id run_limitation = ''limitation''" "cl_anchor_id run_limitation = ''anchor''"
  "fr_id run_frontier = ''frontier''" "fr_anchor_id run_frontier = ''anchor''"
  "fr_limitation_id run_frontier = ''limitation''" "fr_candidate_ids run_frontier = [''a'', ''b'']"
  "fr_selected_discriminator_candidate_id run_frontier = Some ''b''" "fr_status run_frontier = FrontierReady"
  "goal_id run_goal = ''goal''" "goal_anchor_id run_goal = ''anchor''" "goal_frontier_id run_goal = ''frontier''"
  "goal_candidate_id run_goal = ''b''" "goal_incumbent_gate_digest run_goal = zero_hash"
  "goal_proposed_gate_digest run_goal = zero_hash" "env_id run_environment = ''env''"
  "env_goal_id run_environment = ''goal''" "env_developer_id run_environment = ''dev''"
  "env_base_commit_sha run_environment = hex 40 CHR ''a''" "de_id run_evidence_record = ''ev''"
  "de_goal_id run_evidence_record = ''goal''" "de_candidate_environment_id run_evidence_record = ''env''"
  "de_outcome run_evidence_record = PassOutcome" "de_base_commit_sha run_evidence_record = hex 40 CHR ''a''"
  "de_candidate_commit_sha run_evidence_record = hex 40 CHR ''b''" "de_gate_digest run_evidence_record = zero_hash"
  "rv_id run_review = ''review''" "rv_goal_id run_review = ''goal''"
  "rv_candidate_environment_id run_review = ''env''" "rv_reviewer_id run_review = ''rev''"
  "rv_reviewed_commit_sha run_review = hex 40 CHR ''b''" "rv_evidence_ids run_review = [''ev'']"
  "rv_outcome run_review = ValidReview" "psd_id run_successor = ''succ''" "psd_goal_id run_successor = ''goal''"
  "psd_candidate_id run_successor = ''b''" "psd_candidate_environment_id run_successor = ''env''"
  "psd_review_id run_successor = ''review''" "psd_evidence_ids run_successor = [''ev'']"
  "psd_disposition run_successor = ReplaceDisposition" "psd_preserved_capability_ids run_successor = [''replay'']"
  "psd_gain_kinds run_successor = [NewMethod]" "prom_id run_promotion = ''prom''"
  "prom_successor_decision_id run_promotion = ''succ''" "prom_candidate_commit_sha run_promotion = hex 40 CHR ''b''"
  "prom_outcome run_promotion = MergedPromotion" "qcc_id run_question = ''question''"
  "qcc_limitation_id run_question = ''limitation''"
  "qrd_id run_question_decision = ''qdecision''" "qrd_candidate_id run_question_decision = ''question''"
  "qrd_outcome run_question_decision = Admit" "qrd_evidence_ids run_question_decision = [''ev'']"
  "sc_id (demo_successor i gains cost) = i" "sc_anchor_id (demo_successor i gains cost) = ''anchor''"
  "sc_limitation_id (demo_successor i gains cost) = ''limitation''"
  "sc_preserved_capability_ids (demo_successor i gains cost) = [''replay'']"
  "sc_gain_kinds (demo_successor i gains cost) = gains" "cp_id (run_checkpoint i phase predecessor) = i"
  "cp_cycle_id (run_checkpoint i phase predecessor) = ''cycle''"
  "cp_phase (run_checkpoint i phase predecessor) = phase"
  "cp_predecessor_id (run_checkpoint i phase predecessor) = predecessor"
  "cp_record_ids (run_checkpoint i phase predecessor) = [''goal'']"
  "qc_family (qcc_contract run_question) = ''recursive-project''"
  by (simp_all add: run_anchor_def run_limitation_def run_frontier_def run_goal_def run_environment_def
    run_evidence_record_def run_review_def run_successor_def run_promotion_def run_question_def run_question_decision_def
    demo_successor_def run_checkpoint_def generated_contract_def catalog_contract_def)

lemma run_records_valid [simp]:
  "valid_anchor run_anchor \<and> valid_limitation run_limitation \<and> valid_goal run_goal \<and>
   valid_candidate_environment run_environment \<and> valid_development_evidence run_evidence_record \<and> valid_review run_review \<and>
   valid_successor_decision run_successor \<and> valid_project_promotion run_promotion \<and>
   valid_checkpoint (run_checkpoint ''cp1'' GoalSealed None) \<and> valid_checkpoint (run_checkpoint ''cp2'' Merged (Some ''cp1'')) \<and>
   valid_question_decision run_question_decision \<and> valid_question_candidate run_question"
  by code_simp

lemma run_frontier_valid [simp]:
  "valid_successor_candidate (demo_successor ''a'' [NewMethod] (Some 5)) \<and>
   valid_successor_candidate (demo_successor ''b'' [NewMethod] (Some 3)) \<and> valid_frontier run_frontier"
  by code_simp

lemma run_frontier_derived [simp]:
  "derive_capability_frontier ''frontier'' [demo_successor ''a'' [NewMethod] (Some 5), demo_successor ''b'' [NewMethod] (Some 3)] =
     Inr run_frontier"
  by code_simp

lemma run_start_fields [simp]:
  "ps_anchors run_start = []" "ps_limitations run_start = []" "ps_question_candidates run_start = []"
  "ps_question_decisions run_start = []" "ps_method_candidates run_start = []" "ps_method_decisions run_start = []"
  "ps_successor_candidates run_start = []" "ps_frontiers run_start = []" "ps_goal_candidates run_start = []"
  "ps_goal_admissions run_start = []" "ps_goals run_start = []" "ps_environments run_start = []" "ps_evidence run_start = []"
  "ps_reviews run_start = []" "ps_successor_decisions run_start = []" "ps_promotions run_start = []"
  "ps_checkpoints run_start = []" "ps_stops run_start = []"
  by (simp_all add: run_start_def without_project_def)

lemmas decide_branches = decide_anchor_def decide_limitation_def decide_question_candidate_def
  decide_question_repertoire_def decide_successor_candidate_def decide_frontier_def decide_seal_goal_def
  decide_environment_def decide_development_evidence_def decide_review_def decide_successor_def
  decide_project_promotion_def decide_checkpoint_def require_project_admission_evidence_def

lemmas clause_defs = project_clauses_def valid_project_elements_def distinct_project_ids_def valid_question_records_def
  valid_method_records_def valid_frontier_records_def valid_goal_records_def valid_development_records_def
  valid_outcome_records_def valid_cycle_records_def addresses_limitation_def reviewed_exactly_def decision_evidence_def
  review_owned_def generated_goal_ok_def all_project_ids_def owned_project_ids_def referent_collections_def

lemma next_sequence_fields [simp]:
  "ps_anchors (next_sequence s) = ps_anchors s" "ps_limitations (next_sequence s) = ps_limitations s"
  "ps_question_candidates (next_sequence s) = ps_question_candidates s"
  "ps_question_decisions (next_sequence s) = ps_question_decisions s"
  "ps_method_candidates (next_sequence s) = ps_method_candidates s" "ps_method_decisions (next_sequence s) = ps_method_decisions s"
  "ps_successor_candidates (next_sequence s) = ps_successor_candidates s" "ps_frontiers (next_sequence s) = ps_frontiers s"
  "ps_goal_candidates (next_sequence s) = ps_goal_candidates s" "ps_goal_admissions (next_sequence s) = ps_goal_admissions s"
  "ps_goals (next_sequence s) = ps_goals s" "ps_environments (next_sequence s) = ps_environments s"
  "ps_evidence (next_sequence s) = ps_evidence s" "ps_reviews (next_sequence s) = ps_reviews s"
  "ps_successor_decisions (next_sequence s) = ps_successor_decisions s" "ps_promotions (next_sequence s) = ps_promotions s"
  "ps_checkpoints (next_sequence s) = ps_checkpoints s" "ps_stops (next_sequence s) = ps_stops s"
  by (simp_all add: next_sequence_def)

lemma playable_Cons:
  assumes "decide_record sha dump s r = Inr True" "project_clauses sha dump (append_record r (next_sequence s))"
    "playable sha dump rs (append_record r (next_sequence s))"
  shows "playable sha dump (r # rs) s"
  using assms by (simp add: Let_def del: append_record.simps decide_record.simps)

lemmas decided = decide_branches Let_def fresh_identity_def find_by_def index_by_def lookup_all_def addresses_limitation_def
  reviewed_exactly_def decision_evidence_def generated_goal_ok_def owned_project_ids_def referent_collections_def
  phase_index_def cycle_phases_def

lemmas clauses = clause_defs find_by_def index_by_def List.map_filter_simps phase_index_def cycle_phases_def

lemma run_playable: "playable zero_digest (\<lambda>_. []) run_records run_start"
  unfolding run_records_def by ((rule playable_Cons, simp add: decided, simp add: clauses)+, simp)

definition run_end :: project_state where
  "run_end = play run_records run_start"

lemma run_end_reachable: "project_reachable zero_digest (\<lambda>_. []) run_end"
  unfolding run_end_def
  using play_reachable [OF run_start_reachable _ run_playable] by (simp add: run_start_def without_project_def demo_state_def)

lemma run_end_fields:
  "ps_promotions run_end = [run_promotion]" "ps_question_decisions run_end = [run_question_decision]"
  "ps_checkpoints run_end = [run_checkpoint ''cp1'' GoalSealed None, run_checkpoint ''cp2'' Merged (Some ''cp1'')]"
  by (simp_all add: run_end_def run_records_def)

end
