(* ===== verification/Rci_Project_Safety.thy ===== *)
theory Rci_Project_Safety
  imports Rci_Project_Run
begin

text \<open>
  What the project branches guarantee of every reachable aggregate: merged promotions, admitted questions and
  cycles of checkpoints. The witnesses use the run of \<open>Rci_Project_Run\<close>.
\<close>

section \<open>What reachable project states guarantee\<close>

text \<open>C6: a merged promotion rests on an unbroken chain. In every reachable aggregate, a promotion recorded as
  merged names a merge commit, has only successful required checks, and goes back to a replacing successor
  decision with nonempty evidence, to a valid review of exactly the promoted commit by a reviewer who is not
  the developer, to an environment that started at the anchored commit, to the goal sealed for the candidate
  the frontier selected, and to passing evidence about that commit under a sealed gate.\<close>

theorem merged_promotion_rests_on_review:
  assumes "project_reachable sha dump s" "p \<in> set (ps_promotions s)" "prom_outcome p = MergedPromotion"
  shows "(\<exists>d r v g c f a. promotion_chain s p d r v g c f a \<and> psd_evidence_ids d \<noteq> []) \<and>
    prom_merged_commit_sha p \<noteq> None \<and> (\<forall>k \<in> set (prom_required_checks p). cc_conclusion k = CheckSuccess)"
proof -
  obtain d r v g c f a where ch: "promotion_chain s p d r v g c f a"
    using merged_promotion_chain [OF assms] by blast
  have el: "valid_project_elements s" using project_reachable_valid [OF assms(1)] by (simp add: valid_project_def)
  then have "valid_successor_decision d"
    using ch by (simp add: promotion_chain_def valid_project_elements_def list_all_iff)
  then have "psd_evidence_ids d \<noteq> []" by (simp add: valid_successor_decision_def canonical_values_def)
  moreover have "valid_project_promotion p"
    using el assms(2) by (simp add: valid_project_elements_def list_all_iff)
  then have "prom_merged_commit_sha p \<noteq> None \<and> (\<forall>k \<in> set (prom_required_checks p). cc_conclusion k = CheckSuccess)"
    using assms(3) by (auto simp: valid_project_promotion_def list_all_iff)
  ultimately show ?thesis using ch by blast
qed

theorem merged_promotion_rests_on_review_witness:
  "run_promotion \<in> set (ps_promotions run_end) \<and>
   (\<exists>d r v g c f a. promotion_chain run_end run_promotion d r v g c f a \<and> psd_evidence_ids d \<noteq> []) \<and>
   prom_merged_commit_sha run_promotion \<noteq> None"
  using merged_promotion_rests_on_review [OF run_end_reachable, of run_promotion] by (simp add: run_end_fields)

definition cycle_of :: "project_state \<Rightarrow> ident \<Rightarrow> cycle_checkpoint list" where
  "cycle_of s k = filter (\<lambda>c. cp_cycle_id c = k) (ps_checkpoints s)"

text \<open>C10: the checkpoints of a cycle form one chain of strictly advancing phases. In every reachable aggregate
  the first checkpoint of a cycle has no predecessor, each later one names the one before it and has a later
  phase, and a cycle has at most twelve checkpoints, the number of phases.\<close>

theorem cycle_checkpoints_bounded:
  assumes "project_reachable sha dump s"
  shows "length (cycle_of s k) \<le> 12 \<and> successively next_checkpoint (cycle_of s k) \<and>
    sorted_wrt (\<lambda>x y. phase_index (cp_phase x) < phase_index (cp_phase y)) (cycle_of s k) \<and>
    (cycle_of s k \<noteq> [] \<longrightarrow> cp_predecessor_id (hd (cycle_of s k)) = None)"
proof -
  have "linear_cycles Map.empty (ps_checkpoints s)"
    using project_reachable_valid [OF assms(1)] by (simp add: valid_project_def valid_cycle_records_def)
  from linear_cycles_chain [OF this, of k] have ch: "successively next_checkpoint (cycle_of s k)"
      "cycle_of s k \<noteq> [] \<longrightarrow> cp_predecessor_id (hd (cycle_of s k)) = None"
    by (simp_all add: cycle_of_def)
  then show ?thesis using increasing_phases_bounded [OF ch(1)] by blast
qed

theorem cycle_checkpoints_bounded_witness:
  "cycle_of run_end ''cycle'' \<noteq> [] \<and> length (cycle_of run_end ''cycle'') \<le> 12 \<and>
   successively next_checkpoint (cycle_of run_end ''cycle'') \<and>
   cp_predecessor_id (hd (cycle_of run_end ''cycle'')) = None"
proof -
  have "cycle_of run_end ''cycle'' \<noteq> []" by (simp add: cycle_of_def run_end_fields)
  then show ?thesis using cycle_checkpoints_bounded [OF run_end_reachable, of "''cycle''"] by simp
qed

text \<open>C9: admission of a generated question is confined and reviewed. In every reachable aggregate an admitted
  question decision belongs to an owned candidate of the recursive-project family, and one valid independent
  review covers exactly its evidence, all of which passed.\<close>

theorem question_admission_is_reviewed:
  assumes "project_reachable sha dump s" "d \<in> set (ps_question_decisions s)" "qrd_outcome d = Admit"
  shows "(\<exists>c \<in> set (ps_question_candidates s). qcc_id c = qrd_candidate_id d \<and> qc_family (qcc_contract c) = ''recursive-project'' \<and>
      qc_maturity (qcc_contract c) \<noteq> StableContract) \<and>
    admission_evidence s (qrd_evidence_ids d)"
proof -
  have "justified s (QuestionDecisionRecord d)"
    using assms(2) by (intro project_reachable_justified [OF assms(1)]) (simp only: in_project_records)
  then obtain c where c: "c \<in> set (ps_question_candidates s)" "qcc_id c = qrd_candidate_id d"
      "qc_family (qcc_contract c) = ''recursive-project''" and e: "admission_evidence s (qrd_evidence_ids d)"
    using assms(3) by auto
  have "valid_question_candidate c"
    using project_reachable_valid [OF assms(1)] c(1) by (simp add: valid_project_def valid_project_elements_def list_all_iff)
  then show ?thesis using c e by (auto simp: valid_question_candidate_def)
qed

theorem question_admission_is_reviewed_witness:
  "run_question_decision \<in> set (ps_question_decisions run_end) \<and> qrd_outcome run_question_decision = Admit \<and>
   admission_evidence run_end (qrd_evidence_ids run_question_decision)"
  using question_admission_is_reviewed [OF run_end_reachable, of run_question_decision] by (simp add: run_end_fields)

section \<open>A sealed goal the validator refuses\<close>

text \<open>C40: sealing a goal that names another anchor is decided but cannot be applied. In a valid active
  aggregate, if a goal with a new identity names the candidate that a ready frontier selected but an anchor
  other than the frontier's, \<open>decide\<close> emits its event, and \<open>evolve\<close> answers that event with the
  validation error of the aggregate.\<close>

theorem foreign_anchor_goal_decided_not_applied:
  assumes "st_status (ps_core s) = Active" "st_inquiry_id (ps_core s) = Some (msg_inquiry_id b)"
    and "find_by goal_id (goal_id g) (ps_goals s) = None" "find_by fr_id (goal_frontier_id g) (ps_frontiers s) = Some f"
    and "valid_project sha dump s" "fr_status f = FrontierReady"
    and "fr_selected_discriminator_candidate_id f = Some (goal_candidate_id g)" "generated_goal_ok s g"
    and "goal_anchor_id g \<noteq> fr_anchor_id f"
  shows "decide_project sha dump s (ProjectCommand b (GoalRecord g)) = Inr [ProjectEvent b (GoalRecord g)] \<and>
    evolve_project sha dump s (ProjectEvent b (GoalRecord g)) = Inl (ValidationError ''InquiryState'')"
proof -
  let ?t = "append_record (GoalRecord g) (next_sequence s)"
  have "distinct (map fr_id (ps_frontiers s))" using assms(5) by (simp add: valid_project_def distinct_project_ids_def)
  then have "index_by fr_id (ps_frontiers s) (goal_frontier_id g) = Some f"
    using assms(4) by (simp add: index_by_distinct)
  then have "\<not> valid_project sha dump ?t"
    using assms(9) by (simp add: valid_project_def valid_goal_records_def)
  moreover have d: "decide_record sha dump s (GoalRecord g) = Inr True"
    using assms by (simp add: decide_seal_goal_def fresh_identity_def)
  ultimately show ?thesis
    using assms(1,2) by (simp add: evolve_record_def require_active_def construct_def del: decide_record.simps append_record.simps)
qed

definition foreign_goal :: implementation_goal where
  "foreign_goal = run_goal\<lparr>goal_id := ''goal2'', goal_anchor_id := ''other''\<rparr>"

theorem foreign_anchor_goal_decided_not_applied_witness:
  "valid_goal foreign_goal \<and>
   decide_project zero_digest (\<lambda>_. []) run_end (ProjectCommand (demo_base ''ev2'') (GoalRecord foreign_goal)) =
     Inr [ProjectEvent (demo_base ''ev2'') (GoalRecord foreign_goal)] \<and>
   evolve_project zero_digest (\<lambda>_. []) run_end (ProjectEvent (demo_base ''ev2'') (GoalRecord foreign_goal)) =
     Inl (ValidationError ''InquiryState'')"
proof -
  have core: "st_status (ps_core run_end) = Active" "st_inquiry_id (ps_core run_end) = Some (msg_inquiry_id (demo_base ''ev2''))"
    by (simp_all add: run_end_def run_records_def next_sequence_def run_start_def without_project_def demo_state_def demo_base_def)
  have fields: "ps_goals run_end = [run_goal]" "ps_frontiers run_end = [run_frontier]" "ps_goal_candidates run_end = []"
    by (simp_all add: run_end_def run_records_def)
  have "generated_goal_ok run_end foreign_goal" by (simp add: generated_goal_ok_def fields)
  moreover have "find_by goal_id (goal_id foreign_goal) (ps_goals run_end) = None"
      "find_by fr_id (goal_frontier_id foreign_goal) (ps_frontiers run_end) = Some run_frontier"
      "fr_selected_discriminator_candidate_id run_frontier = Some (goal_candidate_id foreign_goal)"
      "goal_anchor_id foreign_goal \<noteq> fr_anchor_id run_frontier"
    by (simp_all add: fields find_by_def foreign_goal_def)
  moreover have "valid_goal foreign_goal" by code_simp
  ultimately show ?thesis
    using foreign_anchor_goal_decided_not_applied [OF core, of foreign_goal run_frontier zero_digest "\<lambda>_. []"]
      project_reachable_valid [OF run_end_reachable] run_fields by blast
qed

end
