(* ===== verification/Rci_Goal_Safety.thy ===== *)
theory Rci_Goal_Safety
  imports Rci_Project_Run Rci_Run
begin

text \<open>
  What the goal compiler can hand to a developer. A compiled goal is confined to the mutation registry, away
  from the forbidden authority roots, and runs every protected predecessor command. The concrete
  compilation continues the run of \<open>Rci_Project_Run\<close> with an answered generated question.
\<close>

text \<open>C7: a compiled goal is confined. Whenever the compiler returns a candidate, its goal is valid and
  stems from the frontier and obligations that were asked for; it runs every protected predecessor
  command, its developer may mutate only paths of the registry, and no such path is, contains or lies
  under a forbidden authority root.\<close>

theorem compiled_goal_confined:
  assumes "compile_implementation_goal_candidate sha dump s i j k = Inr (CompiledGoal c)"
    and "a \<in> set (goal_allowed_mutation_roots (gc_goal c))" "f \<in> set (goal_forbidden_authority_roots (gc_goal c))"
    and "under a path"
  shows "valid_goal_candidate c \<and> gc_source_obligation_id c = i \<and> gc_downstream_obligation_id c = j \<and> gc_frontier_id c = k \<and>
    set predecessor_gate_commands \<subseteq> set (goal_acceptance_commands (gc_goal c)) \<and>
    a \<in> set allowed_mutation_roots \<and> \<not> under f path \<and> \<not> under path f"
proof -
  obtain g where g: "goal_sources_of sha dump s i j k = Inr g" "gc_goal c = goal_of sha g" "valid_goal_candidate c"
      "gc_source_obligation_id c = obl_id (gs_source g)" "gc_downstream_obligation_id c = obl_id (gs_downstream g)"
      "gc_frontier_id c = fr_id (gs_frontier g)"
    using compiled_goalD [OF assms(1)] by metis
  then have r: "a \<in> set allowed_mutation_roots" "f \<in> set forbidden_authority_roots"
    using assms(2,3) by (auto simp: goal_of_def Let_def)
  have "\<not> under path f" using registry_roots_disjoint(2) [OF r assms(4)] under_trans [OF assms(4)] by blast
  moreover have "set predecessor_gate_commands \<subseteq> set (goal_acceptance_commands (gc_goal c))"
    unfolding g(2) by (auto simp: goal_of_def Let_def proposed_gate_commands_def)
  ultimately show ?thesis
    using g goal_sources_ids [OF g(1)] r(1) registry_roots_disjoint(1) [OF r assms(4)] by simp
qed

section \<open>A compilation\<close>

definition text_arg :: "string \<Rightarrow> string \<Rightarrow> bound_argument" where
  "text_arg name value = \<lparr>arg_name = name, arg_value = JStr value\<rparr>"

definition goal_question :: compiled_question where
  "goal_question = \<lparr>cq_id = ''compiled-question-'' @ take 24 zero_hash, cq_candidate_id = ''question'',
     cq_candidate_fingerprint = zero_hash, cq_decision_id = ''qdecision'', cq_decision_fingerprint = zero_hash,
     cq_limitation_id = ''limitation'', cq_anchor_id = ''anchor'', cq_anchor_commit_sha = hex 40 CHR ''a'',
     cq_binding_revision = ''b1'', cq_scope_fingerprint = zero_hash, cq_protected_horizon_id = ''horizon'',
     cq_comparison_policy_id = ''consequence-distinction-v1'', cq_contract = generated_contract,
     cq_referents = [\<lparr>cref_record_type = ''capability_limitation'', cref_record_id = ''limitation''\<rparr>],
     cq_possible_returns = qcc_possible_returns run_question, cq_downstream_consumer_ids = [''frontier-builder'']\<rparr>"

definition goal_source :: obligation where
  "goal_source = \<lparr>obl_id = ''source'', obl_kind = obl_kind (hd run_obligations), obl_carrier_id = ''limitation'',
     obl_args = [text_arg ''__rci_generated_question_candidate_id'' ''question'',
       text_arg ''__rci_generated_question_decision_id'' ''qdecision'',
       text_arg ''__rci_generated_question_compilation_id'' (cq_id goal_question)],
     obl_scope = example_scope, obl_binding_revision = ''b1'', obl_parent_obligation_ids = [],
     obl_priority_vector = [90], obl_status = Open\<rparr>"

definition goal_downstream :: obligation where
  "goal_downstream = \<lparr>obl_id = ''downstream'', obl_kind = obl_kind (hd run_obligations), obl_carrier_id = ''derive'',
     obl_args = [text_arg ''generated_return_class_id'' ''goal-derivation-required'',
       text_arg ''source_question_candidate_id'' ''question'', text_arg ''source_claim_id'' ''c1''],
     obl_scope = example_scope, obl_binding_revision = ''b1'', obl_parent_obligation_ids = [''source''],
     obl_priority_vector = [90], obl_status = Open\<rparr>"

definition goal_claim :: claim where
  "goal_claim = (example_claim ''c1'' Necessity Positive)
     \<lparr>claim_provenance := \<lparr>prov_kind = ''k'', prov_source_id = ''ret'', prov_source_revision = None\<rparr>,
      claim_representation_level := L0Opaque\<rparr>"

definition goal_plan :: step_plan where
  "goal_plan = \<lparr>plan_id = ''plan'', plan_input_fingerprint = zero_hash, plan_policy_version = ''sched'',
     plan_status_of = PlanReady, plan_selected_obligation_id = Some ''source'', plan_selected_attempt_key = None,
     plan_reason_of = DeterministicPriority, plan_remaining_budget = 3\<rparr>"

definition goal_result :: canonical_result where
  "goal_result = \<lparr>result_id = ''res'', result_semantic_artifact = demo_artifact zero_hash,
     result_content_of = SuccessResult ''p''\<rparr>"

definition goal_decode :: decode_outcome where
  "goal_decode = \<lparr>dec_id = ''dec'', dec_external_return_id = ''ret'', dec_decoder_id = ''decoder'',
     dec_decoder_version = ''1'', dec_content = Decoded goal_result\<rparr>"

definition goal_request :: effect_request_state where
  "goal_request = \<lparr>ers_request = \<lparr>req_id = ''req'', req_step_plan_id = ''plan'', req_effect_kind = ''ask'',
       req_adapter_id = ''adapter'', req_input_artifact = demo_artifact zero_hash, req_timeout_seconds = 60\<rparr>,
     ers_attempts = [], ers_no_attempt_dispositions = [], ers_decode_outcomes = [goal_decode],
     ers_accepted_decoded_outcome_id = Some ''dec''\<rparr>"

definition goal_state :: project_state where
  "goal_state = run_end\<lparr>ps_core := demo_state\<lparr>st_claims := [goal_claim], st_obligations := [goal_source, goal_downstream],
     st_step_plans := [goal_plan], st_effect_requests := [goal_request]\<rparr>\<rparr>"

definition goal_inputs :: goal_sources where
  "goal_inputs = \<lparr>gs_context = demo_context, gs_source = goal_source, gs_downstream = goal_downstream,
     gs_compiled = goal_question, gs_request = goal_request, gs_decode = goal_decode, gs_result = goal_result,
     gs_operation = ''p'', gs_claim = goal_claim, gs_anchor = run_anchor, gs_limitation = run_limitation,
     gs_frontier = run_frontier, gs_selected = demo_successor ''b'' [NewMethod] (Some 3)\<rparr>"

lemma goal_state_fields [simp]:
  "ps_anchors goal_state = [run_anchor]" "ps_limitations goal_state = [run_limitation]"
  "ps_question_candidates goal_state = [run_question]" "ps_question_decisions goal_state = [run_question_decision]"
  "ps_method_candidates goal_state = []" "ps_method_decisions goal_state = []"
  "ps_successor_candidates goal_state =
     [demo_successor ''a'' [NewMethod] (Some 5), demo_successor ''b'' [NewMethod] (Some 3)]"
  "ps_frontiers goal_state = [run_frontier]" "ps_goals goal_state = [run_goal]"
  "ps_environments goal_state = [run_environment]" "ps_evidence goal_state = [run_evidence_record]"
  "ps_reviews goal_state = [run_review]" "ps_successor_decisions goal_state = [run_successor]"
  "ps_promotions goal_state = [run_promotion]"
  "ps_checkpoints goal_state = [run_checkpoint ''cp1'' GoalSealed None, run_checkpoint ''cp2'' Merged (Some ''cp1'')]"
  "ps_stops goal_state = []" "st_context (ps_core goal_state) = Some demo_context"
  "st_obligations (ps_core goal_state) = [goal_source, goal_downstream]" "st_claims (ps_core goal_state) = [goal_claim]"
  "st_step_plans (ps_core goal_state) = [goal_plan]" "st_effect_requests (ps_core goal_state) = [goal_request]"
  by (simp_all add: goal_state_def run_end_def run_records_def demo_state_def)

lemma run_question_safe: "validate_safe_contract run_question = Inr ()"
  by code_simp

lemma goal_question_valid: "valid_compiled_question goal_question"
  by code_simp

lemma goal_question_compiles: "compile_admitted_question zero_digest goal_state ''question'' = Inr goal_question"
proof -
  have "compile_referents goal_state run_question = Inr (cq_referents goal_question)"
    by (simp add: compile_referents_def project_referent_index_def referent_collections_def goal_question_def
      run_question_def List.map_filter_simps)
  moreover have "active_decision goal_state ''question'' = Inr run_question_decision"
    by (simp add: active_decision_def is_active_decision_def run_question_decision_def)
  moreover have "compiled_of zero_digest demo_context run_question run_question_decision run_limitation run_anchor
      (cq_referents goal_question) = goal_question"
    by (simp add: compiled_of_def Let_def goal_question_def demo_context_def) (simp add: run_question_def)
  ultimately show ?thesis
    using run_question_safe goal_question_valid
    by (simp add: compile_admitted_question_def find_by_def construct_def) (simp add: run_anchor_def)
qed

lemma goal_sources_found:
  "goal_sources_of zero_digest (\<lambda>_. []) goal_state ''source'' ''downstream'' ''frontier'' = Inr goal_inputs"
proof -
  have obligations: "obligation_by_id (ps_core goal_state) ''source'' = Some goal_source"
      "obligation_by_id (ps_core goal_state) ''downstream'' = Some goal_downstream"
    by (simp_all add: obligation_by_id_def find_by_def goal_source_def goal_downstream_def)
  have args: "text_argument goal_source ''__rci_generated_question_candidate_id'' = Some ''question''"
      "text_argument goal_source ''__rci_generated_question_decision_id'' = Some ''qdecision''"
      "text_argument goal_source ''__rci_generated_question_compilation_id'' = Some (cq_id goal_question)"
      "text_argument goal_downstream ''generated_return_class_id'' = Some ''goal-derivation-required''"
      "text_argument goal_downstream ''source_question_candidate_id'' = Some ''question''"
      "text_argument goal_downstream ''source_claim_id'' = Some ''c1''"
    by (simp_all add: text_argument_def goal_source_def goal_downstream_def text_arg_def)
  have parents: "obl_parent_obligation_ids goal_downstream = [obl_id goal_source]" "obl_carrier_id goal_downstream = ''derive''"
    by (simp_all add: goal_source_def goal_downstream_def)
  have matches: "question_context_matches zero_digest goal_source goal_downstream goal_question"
    using args by (simp add: question_context_matches_def) (simp add: goal_source_def goal_downstream_def goal_question_def)
  have returns: "length (filter (\<lambda>r. ret_class_id r = ''goal-derivation-required'' \<and>
      ret_downstream_state_id r = ''derive'') (cq_possible_returns goal_question)) = 1"
    by (simp add: goal_question_def run_question_def)
  have request: "accepted_requests (ps_core goal_state) goal_source = [goal_request]"
      "success_decode goal_request = Some (goal_decode, goal_result, ''p'')"
    by (simp_all add: accepted_requests_def success_decode_def find_decode_def index_by_def find_by_def goal_request_def
      goal_plan_def goal_source_def goal_decode_def goal_result_def)
  have claim: "claim_id goal_claim = ''c1''" "claim_matches_decode zero_digest (\<lambda>_. []) goal_claim goal_decode goal_result"
    by (simp_all add: claim_matches_decode_def goal_claim_def goal_decode_def goal_result_def example_claim_def
      demo_artifact_def zero_digest_def zero_hash_def)
  have "frontier_inputs zero_digest goal_state goal_question run_frontier =
      Some (run_anchor, run_limitation, demo_successor ''b'' [NewMethod] (Some 3))"
    by (simp add: frontier_inputs_def find_by_def gate_digest_def goal_question_def demo_successor_def)
      (simp add: run_anchor_def)
  then show ?thesis
    using goal_question_compiles obligations args parents matches returns request claim
    by (simp add: goal_sources_of_def need_def find_by_def goal_inputs_def)
qed

definition derived_goal :: implementation_goal where
  "derived_goal = \<lparr>goal_id = ''goal:'' @ zero_hash, goal_cycle_id = ''cycle:'' @ zero_hash, goal_anchor_id = ''anchor'',
     goal_frontier_id = ''frontier'', goal_candidate_id = ''b'', goal_current = ''current'', goal_desired = ''desired'',
     goal_separator = ''boundary'',
     goal_expected_incumbent_return = ''No replayable implementation-Goal candidate is derivable.'',
     goal_expected_candidate_return =
       ''One exact admitted return compiles to an inert, controller-admissible Goal candidate.'',
     goal_preserve_capability_ids = [''replay''], goal_acceptance_commands = sort proposed_gate_commands,
     goal_allowed_mutation_roots = sort allowed_mutation_roots,
     goal_forbidden_authority_roots = sort forbidden_authority_roots, goal_assumption_ids = sort goal_assumptions,
     goal_incumbent_gate_digest = zero_hash, goal_proposed_gate_digest = zero_hash,
     goal_rollback_condition = ''Any protected predecessor command fails or authority expands.'',
     goal_reopening_condition =
       ''A lawful return requires a Goal shape, check, or mutation root outside the registries.''\<rparr>"

lemma registries_evaluate:
  "sort allowed_mutation_roots = allowed_mutation_roots \<and> sort forbidden_authority_roots = forbidden_authority_roots \<and>
   sort goal_assumptions = goal_assumptions \<and>
   list_all (canonical_values True) [[''replay''], allowed_mutation_roots, forbidden_authority_roots, goal_assumptions] \<and>
   identifiers goal_assumptions \<and> distinct proposed_gate_commands \<and>
   list_all (list_all valid_text) [allowed_mutation_roots, forbidden_authority_roots, proposed_gate_commands] \<and>
   list_all repository_relative_path (allowed_mutation_roots @ forbidden_authority_roots) \<and>
   list_all (\<lambda>a. \<not> list_ex (enters_root a) forbidden_authority_roots) allowed_mutation_roots"
  by code_simp

lemma derived_texts:
  "list_all valid_text [goal_current derived_goal, goal_desired derived_goal, goal_separator derived_goal,
     goal_expected_incumbent_return derived_goal, goal_expected_candidate_return derived_goal,
     goal_rollback_condition derived_goal, goal_reopening_condition derived_goal]"
  unfolding derived_goal_def implementation_goal.simps by code_simp

lemma derived_goal_identifiers:
  "identifiers [''goal:'' @ zero_hash, ''cycle:'' @ zero_hash, ''anchor'', ''frontier'', ''b'', ''replay'']"
  by code_simp

lemma sorted_commands_canonical:
  "canonical_values True (sort proposed_gate_commands)" "list_all valid_text (sort proposed_gate_commands)"
  using registries_evaluate
  by (simp_all add: canonical_values_def canonical_iff list_all_iff proposed_gate_commands_def flip: set_empty)

lemma derived_goal_valid: "valid_goal derived_goal"
  using derived_texts derived_goal_identifiers registries_evaluate sorted_commands_canonical
  unfolding valid_goal_def derived_goal_def by simp

lemma goal_of_inputs: "goal_of zero_digest goal_inputs = derived_goal"
  by (simp add: goal_of_def Let_def derived_goal_def goal_inputs_def gate_digest_def demo_successor_def)
    (simp add: run_limitation_def)

lemma derived_identifiers:
  "identifiers [''goal-candidate:'' @ zero_hash, ''question'', ''qdecision'', ''compiled-question-'' @ take 24 zero_hash,
     ''source'', ''req'', ''dec'', ''c1'', ''downstream'', ''anchor'', ''limitation'', ''frontier'', ''b'', ''b1'', ''horizon'']"
  by code_simp

lemma derived_candidate_valid:
  "valid_goal_candidate (candidate_of zero_digest run_question run_question_decision goal_inputs derived_goal)"
  using derived_goal_valid derived_identifiers
  by (simp add: valid_goal_candidate_def candidate_of_def Let_def goal_inputs_def demo_context_def goal_claim_def
      example_claim_def goal_question_def goal_source_def goal_downstream_def goal_request_def goal_decode_def del: take_replicate)
    (simp add: derived_goal_def)

lemma goal_compiles:
  "compile_implementation_goal_candidate zero_digest (\<lambda>_. []) goal_state ''source'' ''downstream'' ''frontier'' =
     Inr (CompiledGoal (candidate_of zero_digest run_question run_question_decision goal_inputs derived_goal))"
proof -
  have "cq_candidate_id (gs_compiled goal_inputs) = ''question''" "cq_decision_id (gs_compiled goal_inputs) = ''qdecision''"
    by (simp_all add: goal_inputs_def goal_question_def)
  then show ?thesis
    using goal_sources_found goal_of_inputs derived_goal_valid derived_candidate_valid
    by (simp add: compile_implementation_goal_candidate_def construct_def find_by_def)
qed

theorem compiled_goal_confined_witness:
  "\<not> under ''docs/adr'' ''src/rci/core/state.py'' \<and> \<not> under ''src/rci/core/state.py'' ''docs/adr'' \<and>
   set predecessor_gate_commands \<subseteq> set (goal_acceptance_commands derived_goal)"
proof -
  have "''src/rci/core'' \<in> set (goal_allowed_mutation_roots derived_goal)"
      "''docs/adr'' \<in> set (goal_forbidden_authority_roots derived_goal)"
    by (simp_all add: derived_goal_def allowed_mutation_roots_def forbidden_authority_roots_def)
  moreover have "under ''src/rci/core'' ''src/rci/core/state.py''" by (simp add: under_def)
  moreover have "gc_goal (candidate_of zero_digest run_question run_question_decision goal_inputs derived_goal) = derived_goal"
    by (simp add: candidate_of_def Let_def)
  ultimately show ?thesis
    using compiled_goal_confined [OF goal_compiles, of "''src/rci/core''" "''docs/adr''" "''src/rci/core/state.py''"] by simp
qed

end
