(* ===== verification/Rci_Memory.thy ===== *)
theory Rci_Memory
  imports Rci_Warrant Rci_Project
begin

text \<open>
  The records of measured memory (\<open>memory/models.py\<close>), the exact references to owned records
  (\<open>memory/references.py\<close>) and the assembly of reconstruction sets (\<open>memory/reconstruction.py\<close>). Fields
  with a single lawful value (\<open>schema_version\<close>, \<open>direction\<close>, the exactness flags of a retrieval
  policy) are not stored; they appear as constants where their value is read.
\<close>

section \<open>Owned references\<close>

datatype memory_owner =
    EpisodicOwner | SemanticOwner | ProceduralOwner | RetentionOwner | WarrantOwner | ActionOwner | PredictionOwner

fun owner_value :: "memory_owner \<Rightarrow> string" where
  "owner_value EpisodicOwner = ''M_E''"
| "owner_value SemanticOwner = ''M_S''"
| "owner_value ProceduralOwner = ''M_P''"
| "owner_value RetentionOwner = ''M_L''"
| "owner_value WarrantOwner = ''W''"
| "owner_value ActionOwner = ''A''"
| "owner_value PredictionOwner = ''Pi''"

datatype owned_record_type =
    ProbeEventType | LemmaVersionType | SemanticDeltaType | ProbeIdentityType | RetentionPackageType
  | ReacquisitionScaffoldType | RecoveryProtocolType | EvidenceType | CheckerVerdictType | WarrantDecisionType
  | EffectRequestType | ExternalReturnType | ReconstructionType | PredictionSealType

fun record_type_value :: "owned_record_type \<Rightarrow> string" where
  "record_type_value ProbeEventType = ''probe_event''"
| "record_type_value LemmaVersionType = ''lemma_version''"
| "record_type_value SemanticDeltaType = ''semantic_delta''"
| "record_type_value ProbeIdentityType = ''probe_identity''"
| "record_type_value RetentionPackageType = ''retention_package''"
| "record_type_value ReacquisitionScaffoldType = ''reacquisition_scaffold''"
| "record_type_value RecoveryProtocolType = ''recovery_protocol''"
| "record_type_value EvidenceType = ''evidence''"
| "record_type_value CheckerVerdictType = ''checker_verdict''"
| "record_type_value WarrantDecisionType = ''warrant_decision''"
| "record_type_value EffectRequestType = ''effect_request''"
| "record_type_value ExternalReturnType = ''external_return''"
| "record_type_value ReconstructionType = ''reconstruction''"
| "record_type_value PredictionSealType = ''prediction_seal''"

fun record_owner :: "owned_record_type \<Rightarrow> memory_owner" where
  "record_owner ProbeEventType = EpisodicOwner"
| "record_owner LemmaVersionType = SemanticOwner"
| "record_owner SemanticDeltaType = SemanticOwner"
| "record_owner ProbeIdentityType = ProceduralOwner"
| "record_owner RetentionPackageType = RetentionOwner"
| "record_owner ReacquisitionScaffoldType = RetentionOwner"
| "record_owner RecoveryProtocolType = RetentionOwner"
| "record_owner EvidenceType = WarrantOwner"
| "record_owner CheckerVerdictType = WarrantOwner"
| "record_owner WarrantDecisionType = WarrantOwner"
| "record_owner EffectRequestType = ActionOwner"
| "record_owner ExternalReturnType = ActionOwner"
| "record_owner ReconstructionType = ActionOwner"
| "record_owner PredictionSealType = PredictionOwner"

record owned_ref =
  or_owner :: memory_owner
  or_record_type :: owned_record_type
  or_record_id :: ident
  or_record_schema_version :: int
  or_content_fingerprint :: digest

definition valid_owned_ref :: "owned_ref \<Rightarrow> bool" where
  "valid_owned_ref r \<longleftrightarrow> valid_identifier (or_record_id r) \<and> 0 < or_record_schema_version r \<and>
     valid_sha256 (or_content_fingerprint r) \<and> record_owner (or_record_type r) = or_owner r"

definition ref_key :: "owned_ref \<Rightarrow> string" where
  "ref_key r = owner_value (or_owner r) @ '':'' @ record_type_value (or_record_type r) @ '':'' @ or_record_id r @ '':v'' @
     int_text (or_record_schema_version r)"

definition ref_json :: "owned_ref \<Rightarrow> json" where
  "ref_json r = JObj [(''schema_version'', JInt 1), (''owner'', JStr (owner_value (or_owner r))),
     (''record_type'', JStr (record_type_value (or_record_type r))), (''record_id'', JStr (or_record_id r)),
     (''record_schema_version'', JInt (or_record_schema_version r)),
     (''content_fingerprint'', JStr (or_content_fingerprint r))]"

text \<open>The fingerprint of an owned record; the record is given by its JSON value.\<close>

definition owned_record_content_fingerprint ::
  "(string \<Rightarrow> digest) \<Rightarrow> memory_owner \<Rightarrow> owned_record_type \<Rightarrow> int \<Rightarrow> json \<Rightarrow> digest result" where
  "owned_record_content_fingerprint sha owner record_type version record =
    (if version < 1 then Inl (ValueError ''owned record schema versions must be positive'')
     else Inr (content_fingerprint sha (''rci.owned-memory-record.v1/'' @ owner_value owner @ ''/'' @
       record_type_value record_type @ ''/v'' @ int_text version) record))"

definition make_owned_memory_ref ::
  "(string \<Rightarrow> digest) \<Rightarrow> memory_owner \<Rightarrow> owned_record_type \<Rightarrow> ident \<Rightarrow> int \<Rightarrow> json \<Rightarrow> owned_ref result" where
  "make_owned_memory_ref sha owner record_type record_id version record =
    (case owned_record_content_fingerprint sha owner record_type version record of Inl e \<Rightarrow> Inl e
     | Inr fp \<Rightarrow> construct valid_owned_ref ''OwnedMemoryRef''
         \<lparr>or_owner = owner, or_record_type = record_type, or_record_id = record_id,
          or_record_schema_version = version, or_content_fingerprint = fp\<rparr>)"

text \<open>An owned record as the resolver sees it: the identity it exposes (its \<open>id\<close>, or else its
  \<open>fingerprint\<close>) and its JSON value.\<close>

record owned_record =
  rec_identity :: "ident option"
  rec_json :: json

definition validate_owned_memory_ref :: "(string \<Rightarrow> digest) \<Rightarrow> owned_ref \<Rightarrow> owned_record \<Rightarrow> (bool \<times> string) result" where
  "validate_owned_memory_ref sha reference record =
    (if rec_identity record \<noteq> None \<and> rec_identity record \<noteq> Some (or_record_id reference)
     then Inr (False, ''owned record identity does not match the reference'')
     else (case owned_record_content_fingerprint sha (or_owner reference) (or_record_type reference)
         (or_record_schema_version reference) (rec_json record) of
       Inl e \<Rightarrow> Inl e
     | Inr actual \<Rightarrow> Inr (if actual \<noteq> or_content_fingerprint reference
         then (False, ''owned record content fingerprint does not match the reference'')
         else (True, ''owned record identity, type, schema, owner, and content match exactly''))))"

definition resolve_owned_memory_ref ::
  "(string \<Rightarrow> digest) \<Rightarrow> owned_ref \<Rightarrow> (string \<rightharpoonup> owned_record) \<Rightarrow> (bool \<times> string) result" where
  "resolve_owned_memory_ref sha reference owned_records = (case owned_records (ref_key reference) of
     None \<Rightarrow> Inr (False, ''owned memory reference does not resolve'')
   | Some record \<Rightarrow> validate_owned_memory_ref sha reference record)"

text \<open>Canonical references: unique keys in order.\<close>

abbreviation canonical_refs :: "owned_ref list \<Rightarrow> bool" where
  "canonical_refs rs \<equiv> canonical (map ref_key rs)"

section \<open>Structural retrieval\<close>

datatype rank_component = ReferenceMatch | RecordTypeMatch | OwnerMatch | CueMatch | TagMatch

definition default_rank_components :: "rank_component list" where
  "default_rank_components = [ReferenceMatch, RecordTypeMatch, OwnerMatch, CueMatch, TagMatch]"

record retrieval_policy =
  rp_id :: ident
  rp_version :: ident
  rp_max_results :: int
  rp_rank_components :: "rank_component list"
  rp_accepted_record_types :: "owned_record_type list"

definition valid_retrieval_policy :: "retrieval_policy \<Rightarrow> bool" where
  "valid_retrieval_policy p \<longleftrightarrow> valid_identifier (rp_id p) \<and> valid_identifier (rp_version p) \<and>
     1 \<le> rp_max_results p \<and> rp_max_results p \<le> 1000 \<and> rp_rank_components p \<noteq> [] \<and> distinct (rp_rank_components p) \<and>
     canonical (map record_type_value (rp_accepted_record_types p))"

record retrieval_query =
  rq_id :: ident
  rq_policy_id :: ident
  rq_policy_version :: ident
  rq_scope_fingerprint :: ident
  rq_binding_revision :: ident
  rq_protected_horizon_id :: ident
  rq_source_sequence :: int
  rq_source_index_fingerprint :: digest
  rq_owners :: "memory_owner list"
  rq_record_types :: "owned_record_type list"
  rq_reference_selectors :: "owned_ref list"
  rq_cue_ids :: "ident list"
  rq_tag_ids :: "ident list"
  rq_limit :: int

definition valid_retrieval_query :: "retrieval_query \<Rightarrow> bool" where
  "valid_retrieval_query q \<longleftrightarrow>
     identifiers ([rq_id q, rq_policy_id q, rq_policy_version q, rq_scope_fingerprint q, rq_binding_revision q,
       rq_protected_horizon_id q] @ rq_cue_ids q @ rq_tag_ids q) \<and>
     0 \<le> rq_source_sequence q \<and> valid_sha256 (rq_source_index_fingerprint q) \<and>
     list_all valid_owned_ref (rq_reference_selectors q) \<and> 1 \<le> rq_limit q \<and> rq_limit q \<le> 1000 \<and>
     (rq_owners q \<noteq> [] \<or> rq_record_types q \<noteq> [] \<or> rq_reference_selectors q \<noteq> [] \<or> rq_cue_ids q \<noteq> [] \<or> rq_tag_ids q \<noteq> []) \<and>
     canonical (map owner_value (rq_owners q)) \<and> canonical (rq_cue_ids q) \<and> canonical (rq_tag_ids q) \<and>
     canonical (map record_type_value (rq_record_types q)) \<and> canonical_refs (rq_reference_selectors q)"

record retrieval_rank =
  rank_reference :: nat
  rank_record_type :: nat
  rank_owner :: nat
  rank_cue :: nat
  rank_tag :: nat

fun rank_component_of :: "retrieval_rank \<Rightarrow> rank_component \<Rightarrow> nat" where
  "rank_component_of r ReferenceMatch = rank_reference r"
| "rank_component_of r RecordTypeMatch = rank_record_type r"
| "rank_component_of r OwnerMatch = rank_owner r"
| "rank_component_of r CueMatch = rank_cue r"
| "rank_component_of r TagMatch = rank_tag r"

record retrieval_hit =
  hit_package_id :: ident
  hit_package_content_fingerprint :: digest
  hit_rank :: retrieval_rank
  hit_matched_ref_keys :: "string list"
  hit_matched_cue_ids :: "ident list"
  hit_matched_tag_ids :: "ident list"

definition valid_retrieval_hit :: "retrieval_hit \<Rightarrow> bool" where
  "valid_retrieval_hit h \<longleftrightarrow> valid_identifier (hit_package_id h) \<and> valid_sha256 (hit_package_content_fingerprint h) \<and>
     identifiers (hit_matched_cue_ids h) \<and> identifiers (hit_matched_tag_ids h) \<and>
     canonical (hit_matched_ref_keys h) \<and> canonical (hit_matched_cue_ids h) \<and> canonical (hit_matched_tag_ids h) \<and>
     (\<exists>k \<in> set default_rank_components. rank_component_of (hit_rank h) k \<noteq> 0)"

record retrieval_result =
  rr_id :: ident
  rr_query_id :: ident
  rr_policy_id :: ident
  rr_policy_version :: ident
  rr_source_sequence :: int
  rr_source_index_fingerprint :: digest
  rr_hits :: "retrieval_hit list"
  rr_rejected_stale_package_ids :: "ident list"

definition valid_retrieval_result :: "retrieval_result \<Rightarrow> bool" where
  "valid_retrieval_result r \<longleftrightarrow>
     identifiers ([rr_id r, rr_query_id r, rr_policy_id r, rr_policy_version r] @ rr_rejected_stale_package_ids r) \<and>
     0 \<le> rr_source_sequence r \<and> valid_sha256 (rr_source_index_fingerprint r) \<and> list_all valid_retrieval_hit (rr_hits r) \<and>
     distinct (map hit_package_id (rr_hits r)) \<and> canonical (rr_rejected_stale_package_ids r) \<and>
     set (map hit_package_id (rr_hits r)) \<inter> set (rr_rejected_stale_package_ids r) = {}"

section \<open>Costs\<close>

record cost_axis =
  ax_id :: ident
  ax_unit_id :: ident

record cost_coordinate =
  co_axis :: cost_axis
  co_numerator :: int
  co_denominator :: int

definition valid_axis :: "cost_axis \<Rightarrow> bool" where
  "valid_axis a \<longleftrightarrow> valid_identifier (ax_id a) \<and> valid_identifier (ax_unit_id a)"

definition valid_coordinate :: "cost_coordinate \<Rightarrow> bool" where
  "valid_coordinate c \<longleftrightarrow> valid_axis (co_axis c) \<and> 0 \<le> co_numerator c \<and> 0 < co_denominator c \<and>
     (co_numerator c = 0 \<longrightarrow> co_denominator c = 1) \<and>
     (co_numerator c \<noteq> 0 \<longrightarrow> gcd (co_numerator c) (co_denominator c) = 1)"

type_synonym cost_vector = "cost_coordinate list"

definition valid_vector :: "cost_vector \<Rightarrow> bool" where
  "valid_vector v \<longleftrightarrow> list_all valid_coordinate v \<and> v \<noteq> [] \<and> canonical (map (\<lambda>c. ax_id (co_axis c)) v)"

definition axis_signature :: "cost_vector \<Rightarrow> (ident \<times> ident \<times> int) list" where
  "axis_signature v = map (\<lambda>c. (ax_id (co_axis c), ax_unit_id (co_axis c), 1)) v"

definition axis_json :: "cost_axis \<Rightarrow> json" where
  "axis_json a = JObj [(''schema_version'', JInt 1), (''id'', JStr (ax_id a)), (''unit_id'', JStr (ax_unit_id a)),
     (''direction'', JStr ''lower_is_better'')]"

definition vector_json :: "cost_vector \<Rightarrow> json" where
  "vector_json v = JObj [(''schema_version'', JInt 1), (''coordinates'', JList (map (\<lambda>c. JObj
     [(''schema_version'', JInt 1), (''axis'', axis_json (co_axis c)), (''numerator'', JInt (co_numerator c)),
      (''denominator'', JInt (co_denominator c))]) v))]"

section \<open>Recovery records\<close>

record recovery_pins =
  pin_scope_fingerprint :: ident
  pin_target_competence_id :: ident
  pin_finite_universe_hash :: digest
  pin_binding_revision :: ident
  pin_protected_horizon_id :: ident
  pin_evaluator_id :: ident
  pin_evaluator_version :: ident
  pin_evidence_access_id :: ident
  pin_evidence_access_version :: ident
  pin_budget_id :: ident
  pin_budget_version :: ident
  pin_budget :: cost_vector
  pin_recovery_protocol_id :: ident
  pin_recovery_protocol_version :: ident
  pin_comparison_policy_id :: ident
  pin_comparison_policy_version :: ident

definition valid_pins :: "recovery_pins \<Rightarrow> bool" where
  "valid_pins p \<longleftrightarrow> identifiers [pin_scope_fingerprint p, pin_target_competence_id p, pin_binding_revision p,
       pin_protected_horizon_id p, pin_evaluator_id p, pin_evaluator_version p, pin_evidence_access_id p,
       pin_evidence_access_version p, pin_budget_id p, pin_budget_version p, pin_recovery_protocol_id p,
       pin_recovery_protocol_version p, pin_comparison_policy_id p, pin_comparison_policy_version p] \<and>
     valid_sha256 (pin_finite_universe_hash p) \<and> valid_vector (pin_budget p)"

definition pins_json :: "recovery_pins \<Rightarrow> json" where
  "pins_json p = JObj
    [(''schema_version'', JInt 1), (''scope_fingerprint'', JStr (pin_scope_fingerprint p)),
     (''target_competence_id'', JStr (pin_target_competence_id p)),
     (''finite_universe_hash'', JStr (pin_finite_universe_hash p)),
     (''binding_revision'', JStr (pin_binding_revision p)),
     (''protected_horizon_id'', JStr (pin_protected_horizon_id p)), (''evaluator_id'', JStr (pin_evaluator_id p)),
     (''evaluator_version'', JStr (pin_evaluator_version p)),
     (''evidence_access_id'', JStr (pin_evidence_access_id p)),
     (''evidence_access_version'', JStr (pin_evidence_access_version p)), (''budget_id'', JStr (pin_budget_id p)),
     (''budget_version'', JStr (pin_budget_version p)), (''budget'', vector_json (pin_budget p)),
     (''recovery_protocol_id'', JStr (pin_recovery_protocol_id p)),
     (''recovery_protocol_version'', JStr (pin_recovery_protocol_version p)),
     (''comparison_policy_id'', JStr (pin_comparison_policy_id p)),
     (''comparison_policy_version'', JStr (pin_comparison_policy_version p))]"

text \<open>A protocol declares the pins of its observations under its own identity, and the axes they are
  measured on; \<open>rec_pins\<close> is the property \<open>pins\<close>.\<close>

record recovery_protocol =
  rec_pins :: recovery_pins
  rec_cost_axes :: "cost_axis list"

abbreviation protocol_id :: "recovery_protocol \<Rightarrow> ident" where
  "protocol_id p \<equiv> pin_recovery_protocol_id (rec_pins p)"

definition valid_protocol :: "recovery_protocol \<Rightarrow> bool" where
  "valid_protocol p \<longleftrightarrow> valid_pins (rec_pins p) \<and> list_all valid_axis (rec_cost_axes p) \<and> rec_cost_axes p \<noteq> [] \<and>
     canonical (map ax_id (rec_cost_axes p)) \<and>
     axis_signature (pin_budget (rec_pins p)) = map (\<lambda>a. (ax_id a, ax_unit_id a, 1)) (rec_cost_axes p)"

datatype recovery_branch = BaselineBranch | RetainedBranch

fun branch_value :: "recovery_branch \<Rightarrow> string" where
  "branch_value BaselineBranch = ''baseline''"
| "branch_value RetainedBranch = ''retained''"

record reacquisition_request =
  rqr_id :: ident
  rqr_parent_inquiry_id :: ident
  rqr_child_inquiry_id :: ident
  rqr_branch :: recovery_branch
  rqr_pins :: recovery_pins
  rqr_child_manifest_artifact :: artifact_ref
  rqr_child_inquiry_manifest_artifact :: artifact_ref
  rqr_child_context_digest :: digest
  rqr_child_policy_version :: ident
  rqr_retention_package_id :: "ident option"
  rqr_scaffold_id :: "ident option"

definition valid_reacquisition_request :: "reacquisition_request \<Rightarrow> bool" where
  "valid_reacquisition_request r \<longleftrightarrow>
     identifiers [rqr_id r, rqr_parent_inquiry_id r, rqr_child_inquiry_id r, rqr_child_policy_version r] \<and>
     valid_pins (rqr_pins r) \<and> valid_artifact_ref (rqr_child_manifest_artifact r) \<and>
     valid_artifact_ref (rqr_child_inquiry_manifest_artifact r) \<and> valid_sha256 (rqr_child_context_digest r) \<and>
     pred_option valid_identifier (rqr_retention_package_id r) \<and> pred_option valid_identifier (rqr_scaffold_id r) \<and>
     rqr_parent_inquiry_id r \<noteq> rqr_child_inquiry_id r \<and>
     (rqr_branch r = BaselineBranch \<longrightarrow> rqr_retention_package_id r = None \<and> rqr_scaffold_id r = None) \<and>
     (rqr_branch r = RetainedBranch \<longrightarrow> rqr_retention_package_id r \<noteq> None \<and> rqr_scaffold_id r \<noteq> None)"

record child_manifest =
  cm_parent_inquiry_id :: ident
  cm_request_id :: ident
  cm_child_inquiry_id :: ident
  cm_pins :: recovery_pins
  cm_context_digest :: digest
  cm_policy_version :: ident
  cm_inquiry_manifest_artifact :: artifact_ref

definition valid_child_manifest :: "child_manifest \<Rightarrow> bool" where
  "valid_child_manifest m \<longleftrightarrow>
     identifiers [cm_parent_inquiry_id m, cm_request_id m, cm_child_inquiry_id m, cm_policy_version m] \<and>
     valid_pins (cm_pins m) \<and> valid_sha256 (cm_context_digest m) \<and> valid_artifact_ref (cm_inquiry_manifest_artifact m) \<and>
     cm_parent_inquiry_id m \<noteq> cm_child_inquiry_id m"

record inquiry_link =
  il_id :: ident
  il_request_id :: ident
  il_parent_inquiry_id :: ident
  il_child_inquiry_id :: ident
  il_child_start_event_id :: ident
  il_child_start_event_digest :: digest
  il_child_prefix_sequence :: int
  il_child_prefix_digest :: digest
  il_child_manifest_artifact :: artifact_ref
  il_child_context_digest :: digest

definition valid_inquiry_link :: "inquiry_link \<Rightarrow> bool" where
  "valid_inquiry_link l \<longleftrightarrow>
     identifiers [il_id l, il_request_id l, il_parent_inquiry_id l, il_child_inquiry_id l, il_child_start_event_id l] \<and>
     list_all valid_sha256 [il_child_start_event_digest l, il_child_prefix_digest l, il_child_context_digest l] \<and>
     0 < il_child_prefix_sequence l \<and> valid_artifact_ref (il_child_manifest_artifact l) \<and>
     il_parent_inquiry_id l \<noteq> il_child_inquiry_id l"

record recovery_observation =
  ob_id :: ident
  ob_branch :: recovery_branch
  ob_reacquisition_request_id :: ident
  ob_child_inquiry_id :: ident
  ob_child_prefix_sequence :: int
  ob_child_prefix_digest :: digest
  ob_retention_package_id :: "ident option"
  ob_pins :: recovery_pins
  ob_costs :: cost_vector
  ob_logical_probe_ids :: "ident list"
  ob_effect_request_ids :: "ident list"
  ob_measurement_check :: check_reference
  ob_competence_established :: bool
  ob_competence_check :: "check_reference option"

text \<open>The axes that count cited records exactly.\<close>

definition exact_count :: "recovery_observation \<Rightarrow> ident \<Rightarrow> nat option" where
  "exact_count o' a = (if a = ''effects'' then Some (length (ob_effect_request_ids o'))
     else if a = ''logical_probes'' then Some (length (ob_logical_probe_ids o')) else None)"

definition valid_observation :: "recovery_observation \<Rightarrow> bool" where
  "valid_observation o' \<longleftrightarrow>
     identifiers ([ob_id o', ob_reacquisition_request_id o', ob_child_inquiry_id o'] @ ob_logical_probe_ids o' @
       ob_effect_request_ids o') \<and>
     0 < ob_child_prefix_sequence o' \<and> valid_sha256 (ob_child_prefix_digest o') \<and>
     pred_option valid_identifier (ob_retention_package_id o') \<and> valid_pins (ob_pins o') \<and> valid_vector (ob_costs o') \<and>
     valid_check_reference (ob_measurement_check o') \<and> pred_option valid_check_reference (ob_competence_check o') \<and>
     (ob_branch o' = BaselineBranch \<longrightarrow> ob_retention_package_id o' = None) \<and>
     (ob_branch o' = RetainedBranch \<longrightarrow> ob_retention_package_id o' \<noteq> None) \<and>
     (ob_competence_established o' \<longrightarrow> ob_competence_check o' \<noteq> None) \<and>
     (ob_logical_probe_ids o' \<noteq> [] \<or> ob_effect_request_ids o' \<noteq> []) \<and>
     canonical (ob_logical_probe_ids o') \<and> canonical (ob_effect_request_ids o') \<and>
     axis_signature (ob_costs o') = axis_signature (pin_budget (ob_pins o')) \<and>
     list_all (\<lambda>(x, b). co_numerator x * co_denominator b \<le> co_numerator b * co_denominator x)
       (zip (ob_costs o') (pin_budget (ob_pins o'))) \<and>
     list_all (\<lambda>c. case exact_count o' (ax_id (co_axis c)) of None \<Rightarrow> True
       | Some n \<Rightarrow> co_denominator c = 1 \<and> co_numerator c = int n) (ob_costs o')"

definition check_reference_json :: "check_reference \<Rightarrow> json" where
  "check_reference_json r = JObj [(''evidence_id'', JStr (ref_evidence_id r)),
     (''checker_verdict_id'', JStr (ref_checker_verdict_id r))]"

definition measurement_proposition_id :: "(string \<Rightarrow> digest) \<Rightarrow> recovery_observation \<Rightarrow> digest" where
  "measurement_proposition_id sha o' = content_fingerprint sha ''rci.recovery-observation-measurement.v1'' (JObj
    [(''schema_version'', JInt 1), (''id'', JStr (ob_id o')), (''branch'', JStr (branch_value (ob_branch o'))),
     (''reacquisition_request_id'', JStr (ob_reacquisition_request_id o')),
     (''child_inquiry_id'', JStr (ob_child_inquiry_id o')),
     (''child_prefix_sequence'', JInt (ob_child_prefix_sequence o')),
     (''child_prefix_digest'', JStr (ob_child_prefix_digest o')),
     (''retention_package_id'', opt_str (ob_retention_package_id o')), (''pins'', pins_json (ob_pins o')),
     (''costs'', vector_json (ob_costs o')), (''logical_probe_ids'', str_list (ob_logical_probe_ids o')),
     (''effect_request_ids'', str_list (ob_effect_request_ids o')),
     (''competence_established'', JBool (ob_competence_established o')),
     (''competence_check'', (case ob_competence_check o' of None \<Rightarrow> JNull | Some r \<Rightarrow> check_reference_json r))])"

record frontier_point =
  pt_observation_id :: ident
  pt_costs :: cost_vector

record recovery_frontier =
  rf_branch :: recovery_branch
  rf_pins :: recovery_pins
  rf_source_observation_ids :: "ident list"
  rf_points :: "frontier_point list"

definition valid_recovery_frontier :: "recovery_frontier \<Rightarrow> bool" where
  "valid_recovery_frontier f \<longleftrightarrow> valid_pins (rf_pins f) \<and> identifiers (rf_source_observation_ids f) \<and>
     list_all (\<lambda>p. valid_identifier (pt_observation_id p) \<and> valid_vector (pt_costs p)) (rf_points f) \<and>
     canonical (rf_source_observation_ids f) \<and> distinct (map pt_observation_id (rf_points f)) \<and>
     set (map pt_observation_id (rf_points f)) \<subseteq> set (rf_source_observation_ids f)"

datatype comparison_outcome = StrictAdvantage | NoAdvantage | IncomparableOutcome

record frontier_coverage =
  cov_baseline_observation_id :: ident
  cov_retained_observation_id :: ident
  cov_strict :: bool

record recovery_comparison =
  rc_comparison_id :: ident
  rc_baseline_frontier :: recovery_frontier
  rc_retained_frontier :: recovery_frontier
  rc_outcome :: comparison_outcome
  rc_coverage :: "frontier_coverage list"
  rc_comparison_check :: check_reference

section \<open>Retention packages and their registration\<close>

datatype route_kind = DirectUse | Reconstruction | ConsequenceEvaluation | Reacquisition

text \<open>The four provisional routes share their fields; the field of its own that each kind has is the
  contract, policy, evaluator or protocol it names, and a reacquisition route names a scaffold as
  well.\<close>

record provisional_route =
  pr_kind :: route_kind
  pr_id :: ident
  pr_scope_fingerprint :: ident
  pr_binding_revision :: ident
  pr_protected_horizon_id :: ident
  pr_source_refs :: "owned_ref list"
  pr_provenance_refs :: "ident list"
  pr_named_id :: ident
  pr_reacquisition_scaffold_id :: "ident option"

definition valid_provisional_route :: "provisional_route \<Rightarrow> bool" where
  "valid_provisional_route r \<longleftrightarrow>
     identifiers ([pr_id r, pr_scope_fingerprint r, pr_binding_revision r, pr_protected_horizon_id r, pr_named_id r] @
       pr_provenance_refs r) \<and>
     list_all valid_owned_ref (pr_source_refs r) \<and> pred_option valid_identifier (pr_reacquisition_scaffold_id r) \<and>
     (pr_kind r = Reacquisition) = (pr_reacquisition_scaffold_id r \<noteq> None) \<and>
     pr_source_refs r \<noteq> [] \<and> canonical_refs (pr_source_refs r) \<and> pr_provenance_refs r \<noteq> [] \<and> canonical (pr_provenance_refs r)"

record reacquisition_scaffold =
  rs_scaffold_id :: ident
  rs_scope_fingerprint :: ident
  rs_binding_revision :: ident
  rs_protected_horizon_id :: ident
  rs_cue_refs :: "owned_ref list"
  rs_ordered_probe_ids :: "ident list"
  rs_boundary_refs :: "owned_ref list"
  rs_failure_refs :: "owned_ref list"
  rs_provenance_refs :: "ident list"

definition valid_scaffold :: "reacquisition_scaffold \<Rightarrow> bool" where
  "valid_scaffold s \<longleftrightarrow>
     identifiers ([rs_scaffold_id s, rs_scope_fingerprint s, rs_binding_revision s, rs_protected_horizon_id s] @
       rs_ordered_probe_ids s @ rs_provenance_refs s) \<and>
     list_all valid_owned_ref (rs_cue_refs s @ rs_boundary_refs s @ rs_failure_refs s) \<and>
     (rs_cue_refs s \<noteq> [] \<or> rs_ordered_probe_ids s \<noteq> [] \<or> rs_boundary_refs s \<noteq> [] \<or> rs_failure_refs s \<noteq> []) \<and>
     canonical_refs (rs_cue_refs s) \<and> canonical_refs (rs_boundary_refs s) \<and> canonical_refs (rs_failure_refs s) \<and>
     distinct (rs_ordered_probe_ids s) \<and> rs_provenance_refs s \<noteq> [] \<and> canonical (rs_provenance_refs s)"

record retention_package =
  rk_id :: ident
  rk_scope_fingerprint :: ident
  rk_binding_revision :: ident
  rk_protected_horizon_id :: ident
  rk_owned_refs :: "owned_ref list"
  rk_cue_ids :: "ident list"
  rk_tag_ids :: "ident list"
  rk_direct_use_route_ids :: "ident list"
  rk_reconstruction_route_ids :: "ident list"
  rk_consequence_evaluation_route_ids :: "ident list"
  rk_reacquisition_route_ids :: "ident list"
  rk_scaffold_ids :: "ident list"
  rk_recovery_protocol_ids :: "ident list"
  rk_provenance_refs :: "ident list"

definition route_groups :: "retention_package \<Rightarrow> ident list list" where
  "route_groups p = [rk_direct_use_route_ids p, rk_reconstruction_route_ids p, rk_consequence_evaluation_route_ids p,
     rk_reacquisition_route_ids p]"

definition valid_package :: "retention_package \<Rightarrow> bool" where
  "valid_package p \<longleftrightarrow>
     identifiers ([rk_id p, rk_scope_fingerprint p, rk_binding_revision p, rk_protected_horizon_id p] @ rk_cue_ids p @
       rk_tag_ids p @ concat (route_groups p) @ rk_scaffold_ids p @ rk_recovery_protocol_ids p @ rk_provenance_refs p) \<and>
     list_all valid_owned_ref (rk_owned_refs p) \<and> rk_owned_refs p \<noteq> [] \<and> canonical_refs (rk_owned_refs p) \<and>
     concat (route_groups p) \<noteq> [] \<and>
     list_all canonical (rk_cue_ids p # rk_tag_ids p # route_groups p @
       [rk_scaffold_ids p, rk_recovery_protocol_ids p, rk_provenance_refs p]) \<and>
     distinct (concat (route_groups p)) \<and> rk_provenance_refs p \<noteq> []"

definition package_json :: "retention_package \<Rightarrow> json" where
  "package_json p = JObj
    [(''schema_version'', JInt 1), (''id'', JStr (rk_id p)), (''scope_fingerprint'', JStr (rk_scope_fingerprint p)),
     (''binding_revision'', JStr (rk_binding_revision p)),
     (''protected_horizon_id'', JStr (rk_protected_horizon_id p)),
     (''owned_refs'', JList (map ref_json (rk_owned_refs p))), (''cue_ids'', str_list (rk_cue_ids p)),
     (''tag_ids'', str_list (rk_tag_ids p)), (''direct_use_route_ids'', str_list (rk_direct_use_route_ids p)),
     (''reconstruction_route_ids'', str_list (rk_reconstruction_route_ids p)),
     (''consequence_evaluation_route_ids'', str_list (rk_consequence_evaluation_route_ids p)),
     (''reacquisition_route_ids'', str_list (rk_reacquisition_route_ids p)),
     (''scaffold_ids'', str_list (rk_scaffold_ids p)),
     (''recovery_protocol_ids'', str_list (rk_recovery_protocol_ids p)),
     (''provenance_refs'', str_list (rk_provenance_refs p))]"

definition package_fingerprint :: "(string \<Rightarrow> digest) \<Rightarrow> retention_package \<Rightarrow> digest" where
  "package_fingerprint sha p = content_fingerprint sha ''rci.retention-package.v1'' (package_json p)"

record retention_registration =
  rg_package :: retention_package
  rg_direct_use_routes :: "provisional_route list"
  rg_reconstruction_routes :: "provisional_route list"
  rg_consequence_evaluation_routes :: "provisional_route list"
  rg_reacquisition_routes :: "provisional_route list"
  rg_scaffolds :: "reacquisition_scaffold list"
  rg_recovery_protocols :: "recovery_protocol list"

definition registered_routes :: "retention_registration \<Rightarrow> provisional_route list" where
  "registered_routes g = rg_direct_use_routes g @ rg_reconstruction_routes g @ rg_consequence_evaluation_routes g @
     rg_reacquisition_routes g"

definition registered_pins :: "retention_registration \<Rightarrow> (ident \<times> ident \<times> ident) list" where
  "registered_pins g =
     map (\<lambda>r. (pr_scope_fingerprint r, pr_binding_revision r, pr_protected_horizon_id r)) (registered_routes g) @
     map (\<lambda>s. (rs_scope_fingerprint s, rs_binding_revision s, rs_protected_horizon_id s)) (rg_scaffolds g) @
     map (\<lambda>p. (pin_scope_fingerprint (rec_pins p), pin_binding_revision (rec_pins p), pin_protected_horizon_id (rec_pins p)))
       (rg_recovery_protocols g)"

definition scaffold_owned :: "retention_package \<Rightarrow> reacquisition_scaffold \<Rightarrow> bool" where
  "scaffold_owned p s \<longleftrightarrow>
     set (map ref_key (rs_cue_refs s @ rs_boundary_refs s @ rs_failure_refs s)) \<subseteq> set (map ref_key (rk_owned_refs p)) \<and>
     set (rs_ordered_probe_ids s) \<subseteq> or_record_id ` {r \<in> set (rk_owned_refs p). or_owner r = ProceduralOwner}"

definition valid_registration :: "retention_registration \<Rightarrow> bool" where
  "valid_registration g \<longleftrightarrow> (let p = rg_package g in
     valid_package p \<and> list_all valid_provisional_route (registered_routes g) \<and> list_all valid_scaffold (rg_scaffolds g) \<and>
     list_all valid_protocol (rg_recovery_protocols g) \<and>
     list_all (\<lambda>r. pr_kind r = DirectUse) (rg_direct_use_routes g) \<and>
     list_all (\<lambda>r. pr_kind r = Reconstruction) (rg_reconstruction_routes g) \<and>
     list_all (\<lambda>r. pr_kind r = ConsequenceEvaluation) (rg_consequence_evaluation_routes g) \<and>
     list_all (\<lambda>r. pr_kind r = Reacquisition) (rg_reacquisition_routes g) \<and>
     map pr_id (rg_direct_use_routes g) = rk_direct_use_route_ids p \<and>
     map pr_id (rg_reconstruction_routes g) = rk_reconstruction_route_ids p \<and>
     map pr_id (rg_consequence_evaluation_routes g) = rk_consequence_evaluation_route_ids p \<and>
     map pr_id (rg_reacquisition_routes g) = rk_reacquisition_route_ids p \<and>
     map rs_scaffold_id (rg_scaffolds g) = rk_scaffold_ids p \<and>
     map protocol_id (rg_recovery_protocols g) = rk_recovery_protocol_ids p \<and>
     list_all (\<lambda>x. x = (rk_scope_fingerprint p, rk_binding_revision p, rk_protected_horizon_id p)) (registered_pins g) \<and>
     list_all (\<lambda>r. set (map ref_key (pr_source_refs r)) \<subseteq> set (map ref_key (rk_owned_refs p))) (registered_routes g) \<and>
     list_all (scaffold_owned p) (rg_scaffolds g) \<and>
     list_all (\<lambda>r. pred_option (\<lambda>i. i \<in> set (map rs_scaffold_id (rg_scaffolds g))) (pr_reacquisition_scaffold_id r) \<and>
       pr_named_id r \<in> set (map protocol_id (rg_recovery_protocols g))) (rg_reacquisition_routes g))"

section \<open>Reconstruction sets\<close>

record reconstruction_candidate =
  mc_id :: ident
  mc_rank :: int
  mc_retention_package_ids :: "ident list"
  mc_generated_working_structure :: json
  mc_protected_consequence_class_id :: ident
  mc_historical_fact_ids :: "ident list"
  mc_generated_detail_ids :: "ident list"

text \<open>\<open>freeze_json\<close> fails on values that are not plain JSON; the value itself is kept.\<close>

definition valid_reconstruction_candidate :: "reconstruction_candidate \<Rightarrow> bool" where
  "valid_reconstruction_candidate c \<longleftrightarrow>
     identifiers ([mc_id c, mc_protected_consequence_class_id c] @ mc_retention_package_ids c @ mc_historical_fact_ids c @
       mc_generated_detail_ids c) \<and>
     0 \<le> mc_rank c \<and> wf_json (mc_generated_working_structure c) \<and>
     is_ok (freeze_json (mc_generated_working_structure c)) \<and> mc_retention_package_ids c \<noteq> [] \<and>
     canonical (mc_retention_package_ids c) \<and> canonical (mc_historical_fact_ids c) \<and> canonical (mc_generated_detail_ids c) \<and>
     set (mc_historical_fact_ids c) \<inter> set (mc_generated_detail_ids c) = {}"

record reconstruction_set =
  ms_id :: ident
  ms_cue_ids :: "ident list"
  ms_scope_fingerprint :: ident
  ms_binding_revision :: ident
  ms_protected_horizon_id :: ident
  ms_candidates :: "reconstruction_candidate list"

definition candidate_order :: "reconstruction_candidate \<Rightarrow> int \<times> ident" where
  "candidate_order c = (mc_rank c, mc_id c)"

definition valid_reconstruction_set :: "reconstruction_set \<Rightarrow> bool" where
  "valid_reconstruction_set s \<longleftrightarrow>
     identifiers ([ms_id s, ms_scope_fingerprint s, ms_binding_revision s, ms_protected_horizon_id s] @ ms_cue_ids s) \<and>
     list_all valid_reconstruction_candidate (ms_candidates s) \<and> canonical (ms_cue_ids s) \<and>
     sort (map candidate_order (ms_candidates s)) = map candidate_order (ms_candidates s) \<and>
     distinct (map mc_id (ms_candidates s))"

abbreviation ambiguous :: "reconstruction_set \<Rightarrow> bool" where
  "ambiguous s \<equiv> 1 < length (ms_candidates s)"

text \<open>The dict \<open>by_id\<close> that three routines fill: a repeated record changes nothing, a record that reuses an
  identity for other contents is refused. \<open>by_id.values()\<close> is in order of first insertion.\<close>

fun dedup_by :: "('a \<Rightarrow> ident) \<Rightarrow> string \<Rightarrow> 'a list \<Rightarrow> 'a list \<Rightarrow> 'a list result" where
  "dedup_by key message kept [] = Inr kept"
| "dedup_by key message kept (x # xs) = (case find_by key (key x) kept of
     None \<Rightarrow> dedup_by key message (kept @ [x]) xs
   | Some prior \<Rightarrow> if prior = x then dedup_by key message kept xs else Inl (ValueError message))"

definition build_memory_reconstruction_set ::
  "ident \<Rightarrow> ident list \<Rightarrow> ident \<Rightarrow> ident \<Rightarrow> ident \<Rightarrow> reconstruction_candidate list \<Rightarrow> reconstruction_set result" where
  "build_memory_reconstruction_set set_id cues scope binding horizon candidates =
    (case dedup_by mc_id ''memory reconstruction candidate has conflicting contents'' [] candidates of
       Inl e \<Rightarrow> Inl e
     | Inr kept \<Rightarrow> construct valid_reconstruction_set ''MemoryReconstructionSet''
         \<lparr>ms_id = set_id, ms_cue_ids = cues, ms_scope_fingerprint = scope, ms_binding_revision = binding,
          ms_protected_horizon_id = horizon, ms_candidates = sort_key candidate_order kept\<rparr>)"

section \<open>Deduplication\<close>

text \<open>Either the identities conflict, or the loop keeps exactly the given records, each once.\<close>

definition consistent_by :: "('a \<Rightarrow> ident) \<Rightarrow> 'a set \<Rightarrow> bool" where
  "consistent_by key A \<longleftrightarrow> inj_on key A"

lemma dedup_by_correct:
  assumes "distinct (map key kept)"
  shows "if consistent_by key (set kept \<union> set xs)
     then \<exists>ys. dedup_by key m kept xs = Inr ys \<and> set ys = set kept \<union> set xs \<and> distinct (map key ys)
     else dedup_by key m kept xs = Inl (ValueError m)"
  using assms
proof (induction xs arbitrary: kept)
  case Nil
  then show ?case by (simp add: consistent_by_def distinct_map)
next
  case (Cons x xs)
  show ?case
  proof (cases "find_by key (key x) kept")
    case None
    then have "key x \<notin> key ` set kept" by (simp add: find_by_None_iff)
    then have "distinct (map key (kept @ [x]))" using Cons.prems by simp
    from Cons.IH [OF this] None show ?thesis by (auto split: if_splits)
  next
    case (Some y)
    then have y: "y \<in> set kept" "key y = key x" by (auto dest: find_by_SomeD)
    show ?thesis
    proof (cases "y = x")
      case True
      then have "set kept \<union> set (x # xs) = set kept \<union> set xs" using y by auto
      with Cons.IH [OF Cons.prems] Some True show ?thesis by (simp only: dedup_by.simps option.case simp_thms if_True)
    next
      case False
      then have "\<not> consistent_by key (set kept \<union> set (x # xs))"
        using y by (auto simp: consistent_by_def inj_on_def)
      with Some False show ?thesis by simp
    qed
  qed
qed

lemma dedup_by_Inr:
  "dedup_by key m [] xs = Inr ys \<Longrightarrow> set ys = set xs \<and> distinct (map key ys) \<and> consistent_by key (set xs)"
  using dedup_by_correct [of key "[]" xs m] by (auto split: if_splits)

lemma dedup_by_total: "consistent_by key (set xs) \<Longrightarrow> \<exists>ys. dedup_by key m [] xs = Inr ys"
  using dedup_by_correct [of key "[]" xs m] by auto

text \<open>Sorted by identity, the result depends only on the set of records.\<close>

lemma dedup_sorted_unique:
  assumes "dedup_by key m [] xs = Inr ys" "dedup_by key m [] xs' = Inr ys'" "set xs = set xs'"
  shows "sort_key key ys = sort_key key ys'"
proof -
  have s: "set ys = set ys'" "distinct (map key ys)" "distinct (map key ys')"
    using dedup_by_Inr [OF assms(1)] dedup_by_Inr [OF assms(2)] assms(3) by auto
  then have "mset ys = mset ys'" by (simp add: distinct_map set_eq_iff_mset_eq_distinct)
  moreover have "inj_on key (set ys)" using s(2) by (simp add: distinct_map)
  ultimately show ?thesis by (intro sort_key_inj_key_eq) auto
qed

text \<open>The routines that return the records in the order of their identities.\<close>

lemma sorted_dedup_Inr:
  assumes "map_sum id (sort_key key) (dedup_by key m [] xs) = Inr d"
  shows "set d = set xs \<and> distinct (map key d) \<and> consistent_by key (set xs) \<and> sorted (map key d)"
proof -
  obtain k where k: "dedup_by key m [] xs = Inr k" "d = sort_key key k" using assms unfolding map_sum_Inr_iff by blast
  then show ?thesis using dedup_by_Inr [OF k(1)] by (auto simp: distinct_map)
qed

lemma sorted_dedup_total: "consistent_by key (set xs) \<Longrightarrow> \<exists>d. map_sum id (sort_key key) (dedup_by key m [] xs) = Inr d"
  using dedup_by_total [of key xs m] by auto

lemma sorted_dedup_cong:
  assumes "map_sum id (sort_key key) (dedup_by key m [] xs) = Inr d" "set xs' = set xs"
  shows "map_sum id (sort_key key) (dedup_by key m [] xs') = Inr d"
proof -
  obtain k where k: "dedup_by key m [] xs = Inr k" "d = sort_key key k" using assms(1) unfolding map_sum_Inr_iff by blast
  moreover obtain k' where k': "dedup_by key m [] xs' = Inr k'"
    using dedup_by_total [of key xs' m] dedup_by_Inr [OF k(1)] assms(2) by auto
  ultimately show ?thesis using dedup_sorted_unique [OF k' k(1) assms(2)] by simp
qed

section \<open>Owned references resolve exactly\<close>

text \<open>Two texts that agree are split alike by the first mark, and by the last.\<close>

lemma first_mark: "a @ c # r = b @ c # r' \<Longrightarrow> c \<notin> set a \<Longrightarrow> c \<notin> set b \<Longrightarrow> a = b \<and> r = r'"
proof (induction a arbitrary: b)
  case Nil
  then show ?case by (cases b) auto
next
  case (Cons x a)
  then show ?case by (cases b) auto
qed

lemma last_mark:
  assumes "r @ c # a = r' @ c # b" "c \<notin> set a" "c \<notin> set b"
  shows "r = r' \<and> a = b"
proof -
  have "rev a @ c # rev r = rev b @ c # rev r'" using arg_cong [OF assms(1), of rev] by simp
  from first_mark [OF this] assms(2,3) show ?thesis by simp
qed

lemma owner_value_chars: "CHR '':'' \<notin> set (owner_value x) \<and> CHR ''/'' \<notin> set (owner_value x)"
  by (cases x) simp_all

lemma record_type_value_chars: "CHR '':'' \<notin> set (record_type_value x) \<and> CHR ''/'' \<notin> set (record_type_value x)"
  by (cases x) simp_all

lemma record_type_value_inj: "record_type_value x = record_type_value y \<longleftrightarrow> x = y"
  by (cases x; cases y) simp_all

lemma int_text_chars: "CHR ''v'' \<notin> set (int_text v) \<and> CHR 0x00 \<notin> set (int_text v)"
  using int_text_char [of "CHR ''v''" v] int_text_char [of "CHR 0x00" v] by (auto simp: num_char_def)

lemma ref_key_eq_iff:
  assumes "valid_owned_ref r" "valid_owned_ref r'"
  shows "ref_key r = ref_key r' \<longleftrightarrow> or_owner r = or_owner r' \<and> or_record_type r = or_record_type r' \<and>
    or_record_id r = or_record_id r' \<and> or_record_schema_version r = or_record_schema_version r'"
proof
  assume eq: "ref_key r = ref_key r'"
  have k: "ref_key q = owner_value (or_owner q) @ CHR '':'' # record_type_value (or_record_type q) @ CHR '':'' #
      ((or_record_id q @ '':'') @ CHR ''v'' # int_text (or_record_schema_version q))" for q
    by (simp add: ref_key_def)
  note e1 = conjunct2 [OF first_mark [OF eq [unfolded k]]]
  have e2: "record_type_value (or_record_type r) @ CHR '':'' #
      ((or_record_id r @ '':'') @ CHR ''v'' # int_text (or_record_schema_version r)) =
    record_type_value (or_record_type r') @ CHR '':'' #
      ((or_record_id r' @ '':'') @ CHR ''v'' # int_text (or_record_schema_version r'))"
    by (rule e1) (simp_all only: owner_value_chars not_False_eq_True simp_thms)
  note e3 = first_mark [OF e2, OF conjunct1 [OF record_type_value_chars] conjunct1 [OF record_type_value_chars]]
  then have t: "or_record_type r = or_record_type r'" by (simp add: record_type_value_inj)
  note e4 = last_mark [OF conjunct2 [OF e3], OF conjunct1 [OF int_text_chars] conjunct1 [OF int_text_chars]]
  then have "or_record_id r = or_record_id r'" "or_record_schema_version r = or_record_schema_version r'"
    by (auto dest: int_text_inj)
  moreover have "or_owner r = or_owner r'" using assms t by (auto simp: valid_owned_ref_def)
  ultimately show "or_owner r = or_owner r' \<and> or_record_type r = or_record_type r' \<and>
      or_record_id r = or_record_id r' \<and> or_record_schema_version r = or_record_schema_version r'"
    using t by blast
qed (simp add: ref_key_def)

text \<open>The text the fingerprint of an owned record digests: a name space made of the owner, the type and the
  schema version, and the canonical text of the record.\<close>

definition owned_record_text :: "memory_owner \<Rightarrow> owned_record_type \<Rightarrow> int \<Rightarrow> json \<Rightarrow> string" where
  "owned_record_text owner record_type version record = (''rci.owned-memory-record.v1/'' @ owner_value owner @ ''/'' @
     record_type_value record_type @ ''/v'' @ int_text version) @ CHR 0x00 # canonical_json record"

lemma owned_record_text_eq:
  assumes "wf_json j" "wf_json j'"
    and eq: "owned_record_text o1 t v j = owned_record_text o2 t' v' j'"
  shows "t = t' \<and> v = v' \<and> norm_json j = norm_json j'"
proof -
  let ?N = "''rci.owned-memory-record.v1/''"
  have e1: "owner_value o1 @ CHR ''/'' # record_type_value t @ CHR ''/'' # (CHR ''v'' # int_text v @ CHR 0x00 # canonical_json j) =
      owner_value o2 @ CHR ''/'' # record_type_value t' @ CHR ''/'' # (CHR ''v'' # int_text v' @ CHR 0x00 # canonical_json j')"
    using eq by (simp add: owned_record_text_def)
  note e2 = first_mark [OF e1, OF conjunct2 [OF owner_value_chars] conjunct2 [OF owner_value_chars]]
  note e3 = first_mark [OF conjunct2 [OF e2], OF conjunct2 [OF record_type_value_chars] conjunct2 [OF record_type_value_chars]]
  have e4: "int_text v @ CHR 0x00 # canonical_json j = int_text v' @ CHR 0x00 # canonical_json j'"
    using conjunct2 [OF e3] by simp
  note e5 = first_mark [OF e4, OF conjunct2 [OF int_text_chars] conjunct2 [OF int_text_chars]]
  have "t = t'" using e3 by (simp add: record_type_value_inj)
  moreover have "v = v'" using e5 by (auto dest: int_text_inj)
  moreover have "norm_json j = norm_json j'" using e5 assms(1,2) by (simp add: canonical_json_eq_iff)
  ultimately show ?thesis by blast
qed

lemma owned_record_text_norm: "norm_json j = norm_json j' \<Longrightarrow> owned_record_text o1 t v j = owned_record_text o1 t v j'"
  by (simp add: owned_record_text_def canonical_json_norm)

lemma make_owned_memory_ref_Inr:
  "make_owned_memory_ref sha owner t i v j = Inr r \<longleftrightarrow>
     1 \<le> v \<and> valid_owned_ref r \<and> r = \<lparr>or_owner = owner, or_record_type = t, or_record_id = i,
       or_record_schema_version = v, or_content_fingerprint = sha (owned_record_text owner t v j)\<rparr>"
  by (auto simp: make_owned_memory_ref_def owned_record_content_fingerprint_def content_fingerprint_def
    owned_record_text_def construct_Inr_iff)

text \<open>C31: an owned reference identifies one record. Where the digest does not collide on the texts involved, two
  references have the same key exactly when they name the same type, identity and schema version, the same
  fingerprint exactly when type, schema version and content (up to the order of object keys) agree, and are
  equal exactly when all of these do. A reference resolves against a store exactly when the record under its key
  exposes no other identity and has the content the reference was made for; a missing, renamed or altered record is
  refused with a reason, never with an exception.\<close>

theorem owned_reference_identifies_record:
  assumes "make_owned_memory_ref sha owner t i v j = Inr r" "make_owned_memory_ref sha owner' t' i' v' j' = Inr r'"
    and "wf_json j" "wf_json j'" "pred_option (\<lambda>x. wf_json (rec_json x)) (store (ref_key r))"
    and "inj_on sha ({owned_record_text owner t v j, owned_record_text owner' t' v' j'} \<union>
      (\<lambda>x. owned_record_text owner t v (rec_json x)) ` set_option (store (ref_key r)))"
  shows "(ref_key r = ref_key r' \<longleftrightarrow> t = t' \<and> i = i' \<and> v = v') \<and>
    (or_content_fingerprint r = or_content_fingerprint r' \<longleftrightarrow> t = t' \<and> v = v' \<and> norm_json j = norm_json j') \<and>
    (r = r' \<longleftrightarrow> t = t' \<and> i = i' \<and> v = v' \<and> norm_json j = norm_json j') \<and>
    (\<exists>ok reason. resolve_owned_memory_ref sha r store = Inr (ok, reason) \<and>
      (ok \<longleftrightarrow> (\<exists>record. store (ref_key r) = Some record \<and>
         (rec_identity record = None \<or> rec_identity record = Some i) \<and> norm_json (rec_json record) = norm_json j)))"
proof (intro conjI)
  note m = assms(1,2) [unfolded make_owned_memory_ref_Inr]
  have sel: "or_owner r = owner" "or_record_type r = t" "or_record_id r = i" "or_record_schema_version r = v"
    "or_content_fingerprint r = sha (owned_record_text owner t v j)"
    "or_owner r' = owner'" "or_record_type r' = t'" "or_record_id r' = i'" "or_record_schema_version r' = v'"
    "or_content_fingerprint r' = sha (owned_record_text owner' t' v' j')" using m by simp_all
  have valid: "valid_owned_ref r" "valid_owned_ref r'" using m by blast+
  then have own: "owner = owner'" if "t = t'" using sel that by (auto simp: valid_owned_ref_def)
  show key: "ref_key r = ref_key r' \<longleftrightarrow> t = t' \<and> i = i' \<and> v = v'"
    using ref_key_eq_iff [OF valid] own by (auto simp: sel)
  show fp: "or_content_fingerprint r = or_content_fingerprint r' \<longleftrightarrow> t = t' \<and> v = v' \<and> norm_json j = norm_json j'"
  proof
    assume eq: "or_content_fingerprint r = or_content_fingerprint r'"
    have "owned_record_text owner t v j = owned_record_text owner' t' v' j'"
      by (rule inj_onD [OF assms(6)]) (use eq in \<open>simp_all add: sel\<close>)
    then show "t = t' \<and> v = v' \<and> norm_json j = norm_json j'" by (rule owned_record_text_eq [OF assms(3,4)])
  next
    assume "t = t' \<and> v = v' \<and> norm_json j = norm_json j'"
    then show "or_content_fingerprint r = or_content_fingerprint r'"
      using own owned_record_text_norm [of j j'] by (simp add: sel)
  qed
  have "r = r' \<longleftrightarrow> (ref_key r = ref_key r' \<and> or_content_fingerprint r = or_content_fingerprint r')"
    using ref_key_eq_iff [OF valid] by (cases r; cases r') auto
  then show "r = r' \<longleftrightarrow> t = t' \<and> i = i' \<and> v = v' \<and> norm_json j = norm_json j'" using key fp by blast
  have v: "\<not> v < 1" using m by simp
  show "\<exists>ok reason. resolve_owned_memory_ref sha r store = Inr (ok, reason) \<and>
      (ok \<longleftrightarrow> (\<exists>record. store (ref_key r) = Some record \<and>
         (rec_identity record = None \<or> rec_identity record = Some i) \<and> norm_json (rec_json record) = norm_json j))"
  proof (cases "store (ref_key r)")
    case (Some x)
    have same: "sha (owned_record_text owner t v (rec_json x)) = sha (owned_record_text owner t v j) \<longleftrightarrow>
        norm_json (rec_json x) = norm_json j"
    proof
      assume eq: "sha (owned_record_text owner t v (rec_json x)) = sha (owned_record_text owner t v j)"
      have "owned_record_text owner t v (rec_json x) = owned_record_text owner t v j"
        by (rule inj_onD [OF assms(6) eq]) (simp_all add: Some)
      then show "norm_json (rec_json x) = norm_json j"
        using owned_record_text_eq [of "rec_json x" j owner t v owner t v] assms(3,5) Some by simp
    next
      assume "norm_json (rec_json x) = norm_json j"
      from owned_record_text_norm [OF this]
      show "sha (owned_record_text owner t v (rec_json x)) = sha (owned_record_text owner t v j)" by simp
    qed
    have val: "validate_owned_memory_ref sha r x =
        (if rec_identity x \<noteq> None \<and> rec_identity x \<noteq> Some i
         then Inr (False, ''owned record identity does not match the reference'')
         else Inr (if norm_json (rec_json x) \<noteq> norm_json j
           then (False, ''owned record content fingerprint does not match the reference'')
           else (True, ''owned record identity, type, schema, owner, and content match exactly'')))"
      unfolding validate_owned_memory_ref_def sel owned_record_content_fingerprint_def content_fingerprint_def
        if_not_P [OF v] sum.case owned_record_text_def [symmetric] same ..
    show ?thesis unfolding resolve_owned_memory_ref_def Some option.case val by auto
  qed (auto simp: resolve_owned_memory_ref_def)
qed

text \<open>A digest that tells two sample records apart.\<close>

definition sample_sha :: "string \<Rightarrow> digest" where
  "sample_sha x = replicate 63 CHR ''0'' @ [if last x = CHR ''l'' then CHR ''a'' else CHR ''b'']"

definition sample_ref :: "char \<Rightarrow> owned_ref" where
  "sample_ref c = \<lparr>or_owner = SemanticOwner, or_record_type = LemmaVersionType, or_record_id = ''l1'',
     or_record_schema_version = 1, or_content_fingerprint = replicate 63 CHR ''0'' @ [c]\<rparr>"

lemma sample_ref_made:
  "make_owned_memory_ref sample_sha SemanticOwner LemmaVersionType ''l1'' 1 JNull = Inr (sample_ref CHR ''a'')"
  "make_owned_memory_ref sample_sha SemanticOwner LemmaVersionType ''l1'' 1 (JBool True) = Inr (sample_ref CHR ''b'')"
  by (simp_all add: make_owned_memory_ref_Inr owned_record_text_def sample_sha_def sample_ref_def valid_owned_ref_def
    valid_defs valid_sha256_def list_all_iff)

theorem owned_reference_identifies_record_witness:
  "sample_ref CHR ''a'' \<noteq> sample_ref CHR ''b'' \<and> ref_key (sample_ref CHR ''a'') = ref_key (sample_ref CHR ''b'') \<and>
   (let store = (\<lambda>_. Some \<lparr>rec_identity = Some ''l1'', rec_json = JNull\<rparr>) in
     (\<exists>reason. resolve_owned_memory_ref sample_sha (sample_ref CHR ''a'') store = Inr (True, reason)) \<and>
     (\<exists>reason. resolve_owned_memory_ref sample_sha (sample_ref CHR ''b'') store = Inr (False, reason)))"
proof -
  let ?store = "\<lambda>_. Some \<lparr>rec_identity = Some ''l1'', rec_json = JNull\<rparr>"
  have inj: "inj_on sample_sha {owned_record_text SemanticOwner LemmaVersionType 1 JNull,
      owned_record_text SemanticOwner LemmaVersionType 1 (JBool True)}"
    by (simp add: sample_sha_def owned_record_text_def)
  show ?thesis
    using owned_reference_identifies_record [OF sample_ref_made(1,2), of ?store]
      owned_reference_identifies_record [OF sample_ref_made(2,1), of ?store] inj
    by (auto simp: insert_commute)
qed

end
