(* ===== verification/Rci_Recovery.thy ===== *)
theory Rci_Recovery
  imports Rci_Memory Rci_Frontier
begin

text \<open>
  Exact Pareto arithmetic of recovery costs (\<open>memory/recovery.py\<close>) and the independent checker of
  recovery comparisons (\<open>memory/checks.py\<close>). The arithmetic of both modules is translated separately, since its
  independence is the point of the second one, and the theorems show that they agree; the loops both modules write
  out in the same words are shared. Costs are
  compared by integer cross multiplication; the reference is the order of the rationals.
\<close>

section \<open>Cost relations (memory/recovery.py)\<close>

datatype cost_relation = LeftStrictlyBetter | RightStrictlyBetter | CostEqual | CostIncomparable

definition compare_cost_coordinates :: "cost_coordinate \<Rightarrow> cost_coordinate \<Rightarrow> int result" where
  "compare_cost_coordinates left right =
    (if co_axis left \<noteq> co_axis right then Inl (ValueError ''cost coordinates use different typed axes'')
     else let l = co_numerator left * co_denominator right; r = co_numerator right * co_denominator left in
       Inr (of_bool (l > r) - of_bool (l < r)))"

definition compare_cost_vectors :: "cost_vector \<Rightarrow> cost_vector \<Rightarrow> cost_relation result" where
  "compare_cost_vectors left right =
    (if axis_signature left \<noteq> axis_signature right then Inl (ValueError ''cost vectors use different named axes'')
     else map_sum id (\<lambda>directions.
       let left_no_worse = list_all (\<lambda>d. d \<le> 0) directions; right_no_worse = list_all (\<lambda>d. d \<ge> 0) directions in
       if left_no_worse \<and> right_no_worse then CostEqual else if left_no_worse then LeftStrictlyBetter
       else if right_no_worse then RightStrictlyBetter else CostIncomparable)
       (collect_results (map (\<lambda>(x, y). compare_cost_coordinates x y) (zip left right))))"

fun compare_coordinates_lexicographically :: "(cost_coordinate \<times> cost_coordinate) list \<Rightarrow> int result" where
  "compare_coordinates_lexicographically [] = Inr 0"
| "compare_coordinates_lexicographically ((x, y) # rest) = (case compare_cost_coordinates x y of Inl e \<Rightarrow> Inl e
     | Inr d \<Rightarrow> if d \<noteq> 0 then Inr d else compare_coordinates_lexicographically rest)"

definition compare_vectors_lexicographically :: "cost_vector \<Rightarrow> cost_vector \<Rightarrow> int result" where
  "compare_vectors_lexicographically left right =
    (if axis_signature left \<noteq> axis_signature right then Inl (ValueError ''cannot order vectors with different axes'')
     else compare_coordinates_lexicographically (zip left right))"

definition compare_points :: "frontier_point \<Rightarrow> frontier_point \<Rightarrow> int result" where
  "compare_points left right = (case compare_vectors_lexicographically (pt_costs left) (pt_costs right) of
     Inl e \<Rightarrow> Inl e
   | Inr d \<Rightarrow> Inr (if d \<noteq> 0 then d
       else of_bool (pt_observation_id left > pt_observation_id right) - of_bool (pt_observation_id left < pt_observation_id right)))"

text \<open>\<open>sorted(xs, key=cmp_to_key(f))\<close>: the stable sort by the comparison. The comparisons raise only for
  different axes; every caller has compared the axes before it sorts (\<open>compare_points_total\<close>).\<close>

fun insert_by :: "('a \<Rightarrow> 'a \<Rightarrow> bool) \<Rightarrow> 'a \<Rightarrow> 'a list \<Rightarrow> 'a list" where
  "insert_by le x [] = [x]"
| "insert_by le x (y # ys) = (if le x y then x # y # ys else y # insert_by le x ys)"

definition sort_by :: "('a \<Rightarrow> 'a \<Rightarrow> int result) \<Rightarrow> 'a list \<Rightarrow> 'a list" where
  "sort_by cmp xs = foldr (insert_by (\<lambda>x y. case cmp x y of Inl _ \<Rightarrow> False | Inr d \<Rightarrow> d \<le> 0)) xs []"

section \<open>Frontiers\<close>

definition deduplicate_observations :: "recovery_observation list \<Rightarrow> recovery_observation list result" where
  "deduplicate_observations observations = map_sum id (sort_key ob_id)
     (dedup_by ob_id ''recovery observation identity has conflicting contents'' [] observations)"

definition point_of :: "recovery_observation \<Rightarrow> frontier_point" where
  "point_of o' = \<lparr>pt_observation_id = ob_id o', pt_costs = ob_costs o'\<rparr>"

definition same_costs :: "frontier_point \<Rightarrow> frontier_point \<Rightarrow> bool" where
  "same_costs prior point \<longleftrightarrow> compare_cost_vectors (pt_costs point) (pt_costs prior) = Inr CostEqual"

definition cheaper :: "frontier_point \<Rightarrow> frontier_point \<Rightarrow> bool" where
  "cheaper left right \<longleftrightarrow> compare_cost_vectors (pt_costs left) (pt_costs right) = Inr LeftStrictlyBetter"

definition unique_points :: "frontier_point list \<Rightarrow> frontier_point list" where
  "unique_points ps = fst (keep_uncovered same_costs [] (sort_key pt_observation_id ps))"

definition undominated_points :: "frontier_point list \<Rightarrow> frontier_point list" where
  "undominated_points ps = filter (\<lambda>p. \<not> list_ex (\<lambda>q. pt_observation_id q \<noteq> pt_observation_id p \<and> cheaper q p) ps) ps"

definition derive_recovery_frontier ::
  "recovery_branch \<Rightarrow> recovery_pins \<Rightarrow> recovery_observation list \<Rightarrow> recovery_frontier result" where
  "derive_recovery_frontier branch pins observations = (case deduplicate_observations observations of Inl e \<Rightarrow> Inl e
   | Inr deduplicated \<Rightarrow> (case collect_results (map (\<lambda>o'.
       if ob_branch o' \<noteq> branch then Inl (ValueError ''frontier observations have different branches'')
       else if ob_pins o' \<noteq> pins then Inl (ValueError ''frontier observations have different recovery pins'')
       else if axis_signature (ob_costs o') \<noteq> axis_signature (pin_budget pins)
       then Inl (ValueError ''frontier observation axes differ from budget axes'') else Inr ()) deduplicated) of
       Inl e \<Rightarrow> Inl e
     | Inr _ \<Rightarrow> construct valid_recovery_frontier ''RecoveryFrontier''
         \<lparr>rf_branch = branch, rf_pins = pins, rf_source_observation_ids = map ob_id deduplicated,
          rf_points = sort_by compare_points (undominated_points (unique_points
            (map point_of (filter ob_competence_established deduplicated))))\<rparr>))"

text \<open>\<open>for index, left in enumerate(xs): for right in xs[index + 1:]\<close>.\<close>

fun ordered_pairs :: "'a list \<Rightarrow> ('a \<times> 'a) list" where
  "ordered_pairs [] = []"
| "ordered_pairs (x # xs) = map (Pair x) xs @ ordered_pairs xs"

fun first_comparable :: "(cost_vector \<Rightarrow> cost_vector \<Rightarrow> 'r result) \<Rightarrow> 'r \<Rightarrow> (frontier_point \<times> frontier_point) list \<Rightarrow> bool result" where
  "first_comparable relation incomparable [] = Inr False"
| "first_comparable relation incomparable ((x, y) # rest) = (case relation (pt_costs x) (pt_costs y) of Inl e \<Rightarrow> Inl e
     | Inr r \<Rightarrow> if r \<noteq> incomparable then Inr True else first_comparable relation incomparable rest)"

definition check_recovery_frontier :: "recovery_frontier \<Rightarrow> (bool \<times> string) result" where
  "check_recovery_frontier f =
    (if list_ex (\<lambda>p. axis_signature (pt_costs p) \<noteq> axis_signature (pin_budget (rf_pins f))) (rf_points f)
     then Inr (False, ''frontier point axes differ from pinned budget axes'')
     else if sort_by compare_points (rf_points f) \<noteq> rf_points f
     then Inr (False, ''frontier points are not in canonical exact order'')
     else map_sum id (\<lambda>comparable. if comparable then (False, ''frontier contains equal or dominated points'')
       else (True, ''frontier points are exact, canonical, and pairwise nondominated''))
       (first_comparable compare_cost_vectors CostIncomparable (ordered_pairs (rf_points f))))"

text \<open>The scan for a covering retained point: the point and whether it is strict, and whether an
  incomparable point came before it.\<close>

fun cover_point :: "cost_vector \<Rightarrow> frontier_point list \<Rightarrow> ((frontier_point \<times> bool) option \<times> bool) result" where
  "cover_point costs [] = Inr (None, False)"
| "cover_point costs (r # rs) = (case compare_cost_vectors (pt_costs r) costs of Inl e \<Rightarrow> Inl e
     | Inr relation \<Rightarrow> if relation \<in> {LeftStrictlyBetter, CostEqual} then Inr (Some (r, relation = LeftStrictlyBetter), False)
         else map_sum id (\<lambda>(found, incomparable). (found, relation = CostIncomparable \<or> incomparable)) (cover_point costs rs))"

definition covering :: "frontier_point list \<Rightarrow> ((frontier_point \<times> bool) option \<times> bool) list \<Rightarrow> frontier_coverage list" where
  "covering baseline scans = List.map_filter (\<lambda>(b, found, _). map_option (\<lambda>(r, strict).
     \<lparr>cov_baseline_observation_id = pt_observation_id b, cov_retained_observation_id = pt_observation_id r,
      cov_strict = strict\<rparr>) found) (zip baseline scans)"

definition conclude ::
  "frontier_point list \<Rightarrow> frontier_coverage list \<Rightarrow> bool \<Rightarrow> comparison_outcome \<times> frontier_coverage list" where
  "conclude baseline coverage incomparable =
    (if baseline \<noteq> [] \<and> length coverage = length baseline \<and> list_ex cov_strict coverage then (StrictAdvantage, coverage)
     else if incomparable then (IncomparableOutcome, []) else (NoAdvantage, []))"

definition evaluate_frontiers ::
  "recovery_frontier \<Rightarrow> recovery_frontier \<Rightarrow> (comparison_outcome \<times> frontier_coverage list) result" where
  "evaluate_frontiers baseline retained =
    (if rf_branch baseline \<noteq> BaselineBranch then Inl (ValueError ''baseline frontier has the wrong branch'')
     else if rf_branch retained \<noteq> RetainedBranch then Inl (ValueError ''retained frontier has the wrong branch'')
     else if rf_pins baseline \<noteq> rf_pins retained then Inl (ValueError ''recovery frontier pins do not match exactly'')
     else case collect_results (map (\<lambda>f. case check_recovery_frontier f of Inl e \<Rightarrow> Inl e
         | Inr (ok, reason) \<Rightarrow> if ok then Inr () else Inl (ValueError reason)) [baseline, retained]) of
       Inl e \<Rightarrow> Inl e
     | Inr _ \<Rightarrow> map_sum id (\<lambda>scans. conclude (rf_points baseline) (covering (rf_points baseline) scans) (list_ex snd scans))
         (collect_results (map (\<lambda>b. cover_point (pt_costs b) (rf_points retained)) (rf_points baseline))))"

section \<open>The independent checker (memory/checks.py)\<close>

datatype vector_relation_kind = RetainedBetter | VectorEqual | BaselineBetter | VectorIncomparable

text \<open>The loop over the coordinates with its two flags.\<close>

fun relate_coordinates :: "(cost_coordinate \<times> cost_coordinate) list \<Rightarrow> bool \<Rightarrow> bool \<Rightarrow> (bool \<times> bool) result" where
  "relate_coordinates [] retained_no_worse baseline_no_worse = Inr (retained_no_worse, baseline_no_worse)"
| "relate_coordinates ((r, b) # rest) retained_no_worse baseline_no_worse =
    (if co_axis r \<noteq> co_axis b then Inl (ValueError ''independent checker found mismatched typed axes'')
     else let x = co_numerator r * co_denominator b; y = co_numerator b * co_denominator r in
       relate_coordinates rest (if x > y then False else retained_no_worse) (if y > x then False else baseline_no_worse))"

definition vector_relation :: "cost_vector \<Rightarrow> cost_vector \<Rightarrow> vector_relation_kind result" where
  "vector_relation retained baseline =
    (if axis_signature retained \<noteq> axis_signature baseline
     then Inl (ValueError ''independent checker found mismatched cost axes'')
     else map_sum id (\<lambda>(r, b). if r \<and> b then VectorEqual else if r then RetainedBetter else if b then BaselineBetter
       else VectorIncomparable) (relate_coordinates (zip retained baseline) True True))"

fun point_order_coordinates :: "(cost_coordinate \<times> cost_coordinate) list \<Rightarrow> int option" where
  "point_order_coordinates [] = None"
| "point_order_coordinates ((l, r) # rest) =
    (let x = co_numerator l * co_denominator r; y = co_numerator r * co_denominator l in
     if x \<noteq> y then Some (if x < y then -1 else 1) else point_order_coordinates rest)"

definition point_order :: "frontier_point \<Rightarrow> frontier_point \<Rightarrow> int result" where
  "point_order left right =
    (if axis_signature (pt_costs left) \<noteq> axis_signature (pt_costs right)
     then Inl (ValueError ''independent checker cannot order mismatched cost axes'')
     else Inr (case point_order_coordinates (zip (pt_costs left) (pt_costs right)) of Some d \<Rightarrow> d
       | None \<Rightarrow> of_bool (pt_observation_id left > pt_observation_id right) -
           of_bool (pt_observation_id left < pt_observation_id right)))"

definition check_frontier :: "recovery_frontier \<Rightarrow> (bool \<times> string) result" where
  "check_frontier f =
    (if list_ex (\<lambda>p. axis_signature (pt_costs p) \<noteq> axis_signature (pin_budget (rf_pins f))) (rf_points f)
     then Inr (False, ''independent checker found frontier axes outside the pinned budget'')
     else if sort_by point_order (rf_points f) \<noteq> rf_points f
     then Inr (False, ''independent checker found noncanonical frontier ordering'')
     else map_sum id (\<lambda>comparable. if comparable
         then (False, ''independent checker found equal or dominated frontier points'')
         else (True, ''frontier is canonical and pairwise nondominated''))
       (first_comparable vector_relation VectorIncomparable (ordered_pairs (rf_points f))))"

fun witness_point :: "cost_vector \<Rightarrow> frontier_point list \<Rightarrow> ((frontier_point \<times> bool) option \<times> bool) result" where
  "witness_point costs [] = Inr (None, False)"
| "witness_point costs (r # rs) = (case vector_relation (pt_costs r) costs of Inl e \<Rightarrow> Inl e
     | Inr relation \<Rightarrow> if relation \<in> {RetainedBetter, VectorEqual} then Inr (Some (r, relation = RetainedBetter), False)
         else map_sum id (\<lambda>(found, incomparable). (found, relation = VectorIncomparable \<or> incomparable)) (witness_point costs rs))"

definition check_recovery_comparison :: "recovery_comparison \<Rightarrow> (bool \<times> string) result" where
  "check_recovery_comparison c = (let baseline = rc_baseline_frontier c; retained = rc_retained_frontier c in
     if rf_branch baseline \<noteq> BaselineBranch then Inr (False, ''independent checker found the wrong baseline branch'')
     else if rf_branch retained \<noteq> RetainedBranch then Inr (False, ''independent checker found the wrong retained branch'')
     else if rf_pins baseline \<noteq> rf_pins retained then Inr (False, ''independent checker found mismatched recovery pins'')
     else case check_frontier baseline of Inl e \<Rightarrow> Inl e
     | Inr (ok, reason) \<Rightarrow> if \<not> ok then Inr (False, reason)
     else (case check_frontier retained of Inl e \<Rightarrow> Inl e
     | Inr (ok, reason) \<Rightarrow> if \<not> ok then Inr (False, reason)
     else (case collect_results (map (\<lambda>b. witness_point (pt_costs b) (rf_points retained)) (rf_points baseline)) of
       Inl e \<Rightarrow> Inr (False, error_text e)
     | Inr scans \<Rightarrow>
       let (outcome, coverage) = conclude (rf_points baseline) (covering (rf_points baseline) scans) (list_ex snd scans) in
       if rc_outcome c \<noteq> outcome then Inr (False, ''independent checker found a contradictory comparison outcome'')
       else if rc_coverage c \<noteq> coverage then Inr (False, ''independent checker found contradictory frontier coverage'')
       else Inr (True, ''independent integer checker validated the provisional comparison''))))"

section \<open>Comparison records (memory/models.py)\<close>

definition valid_comparison_shape :: "recovery_comparison \<Rightarrow> bool" where
  "valid_comparison_shape c \<longleftrightarrow> valid_identifier (rc_comparison_id c) \<and> valid_recovery_frontier (rc_baseline_frontier c) \<and>
     valid_recovery_frontier (rc_retained_frontier c) \<and> valid_check_reference (rc_comparison_check c) \<and>
     list_all (\<lambda>v. valid_identifier (cov_baseline_observation_id v) \<and> valid_identifier (cov_retained_observation_id v))
       (rc_coverage c) \<and>
     rf_branch (rc_baseline_frontier c) = BaselineBranch \<and> rf_branch (rc_retained_frontier c) = RetainedBranch \<and>
     distinct (map cov_baseline_observation_id (rc_coverage c)) \<and>
     list_all (\<lambda>v. cov_baseline_observation_id v \<in> set (map pt_observation_id (rf_points (rc_baseline_frontier c))) \<and>
       cov_retained_observation_id v \<in> set (map pt_observation_id (rf_points (rc_retained_frontier c)))) (rc_coverage c)"

definition valid_comparison :: "recovery_comparison \<Rightarrow> bool" where
  "valid_comparison c \<longleftrightarrow> valid_comparison_shape c \<and>
     (case check_recovery_comparison c of Inl _ \<Rightarrow> False | Inr (ok, _) \<Rightarrow> ok)"

definition compare_recovery_frontiers ::
  "ident \<Rightarrow> recovery_frontier \<Rightarrow> recovery_frontier \<Rightarrow> check_reference \<Rightarrow> recovery_comparison result" where
  "compare_recovery_frontiers comparison_id baseline retained check_ref = (case evaluate_frontiers baseline retained of
     Inl e \<Rightarrow> Inl e
   | Inr (outcome, coverage) \<Rightarrow> construct valid_comparison ''RecoveryComparison''
       \<lparr>rc_comparison_id = comparison_id, rc_baseline_frontier = baseline, rc_retained_frontier = retained, rc_outcome = outcome,
        rc_coverage = coverage, rc_comparison_check = check_ref\<rparr>)"

fun outcome_value :: "comparison_outcome \<Rightarrow> string" where
  "outcome_value StrictAdvantage = ''strict_advantage''"
| "outcome_value NoAdvantage = ''no_advantage''"
| "outcome_value IncomparableOutcome = ''incomparable''"

definition frontier_json :: "recovery_frontier \<Rightarrow> json" where
  "frontier_json f = JObj [(''schema_version'', JInt 1), (''branch'', JStr (branch_value (rf_branch f))),
     (''pins'', pins_json (rf_pins f)), (''source_observation_ids'', str_list (rf_source_observation_ids f)),
     (''points'', JList (map (\<lambda>p. JObj [(''schema_version'', JInt 1), (''observation_id'', JStr (pt_observation_id p)),
       (''costs'', vector_json (pt_costs p))]) (rf_points f)))]"

definition comparison_proposition_id :: "(string \<Rightarrow> digest) \<Rightarrow> recovery_comparison \<Rightarrow> digest" where
  "comparison_proposition_id sha c = content_fingerprint sha ''rci.recovery-comparison.v1'' (JObj
    [(''schema_version'', JInt 1), (''id'', JStr (rc_comparison_id c)),
     (''baseline_frontier'', frontier_json (rc_baseline_frontier c)), (''retained_frontier'', frontier_json (rc_retained_frontier c)),
     (''outcome'', JStr (outcome_value (rc_outcome c))),
     (''coverage'', JList (map (\<lambda>v. JObj [(''schema_version'', JInt 1),
       (''baseline_observation_id'', JStr (cov_baseline_observation_id v)),
       (''retained_observation_id'', JStr (cov_retained_observation_id v)), (''strict'', JBool (cov_strict v))]) (rc_coverage c))),
     (''standing'', JStr ''provisional_soft'')])"

section \<open>The two modules agree\<close>

definition no_worse :: "cost_vector \<Rightarrow> cost_vector \<Rightarrow> bool" where
  "no_worse left right \<longleftrightarrow>
     (\<forall>(x, y) \<in> set (zip left right). co_numerator x * co_denominator y \<le> co_numerator y * co_denominator x)"

lemma signature_axes: "axis_signature l = axis_signature r \<Longrightarrow> map co_axis l = map co_axis r"
  unfolding axis_signature_def by (induction l r rule: list_induct2') (auto intro: cost_axis.equality)

lemma axes_zip: "map co_axis l = map co_axis r \<Longrightarrow> (x, y) \<in> set (zip l r) \<Longrightarrow> co_axis x = co_axis y"
  by (induction l r rule: list_induct2') auto

definition direction :: "cost_coordinate \<times> cost_coordinate \<Rightarrow> int" where
  "direction p = (case p of (x, y) \<Rightarrow> of_bool (co_numerator x * co_denominator y > co_numerator y * co_denominator x) -
     of_bool (co_numerator x * co_denominator y < co_numerator y * co_denominator x))"

lemma compare_direction: "co_axis x = co_axis y \<Longrightarrow> compare_cost_coordinates x y = Inr (direction (x, y))"
  by (simp add: compare_cost_coordinates_def direction_def)

lemma directions:
  assumes "map co_axis l = map co_axis r"
  shows "collect_results (map (\<lambda>(x, y). compare_cost_coordinates x y) (zip l r)) = Inr (map direction (zip l r))"
  using assms by (intro collect_results_Inr_iff [THEN iffD2]) (auto simp: compare_direction dest: axes_zip)

lemma direction_signs:
  "list_all (\<lambda>d. d \<le> 0) (map direction (zip l r)) \<longleftrightarrow> no_worse l r"
  "list_all (\<lambda>d. d \<ge> 0) (map direction (zip l r)) \<longleftrightarrow> no_worse r l"
  by (induction l r rule: list_induct2') (auto simp: no_worse_def direction_def split: if_splits)

text \<open>Both relations are the one that the two directions of \<open>no_worse\<close> determine.\<close>

definition relation_of :: "'r \<Rightarrow> 'r \<Rightarrow> 'r \<Rightarrow> 'r \<Rightarrow> cost_vector \<Rightarrow> cost_vector \<Rightarrow> 'r" where
  "relation_of equal left right incomparable l r = (if no_worse l r \<and> no_worse r l then equal
     else if no_worse l r then left else if no_worse r l then right else incomparable)"

lemma compare_cost_vectors_eq:
  "axis_signature l = axis_signature r \<Longrightarrow>
     compare_cost_vectors l r = Inr (relation_of CostEqual LeftStrictlyBetter RightStrictlyBetter CostIncomparable l r)"
  using directions [OF signature_axes] direction_signs [of l r]
  by (simp add: compare_cost_vectors_def relation_of_def Let_def)

lemma relate_coordinates_eq:
  "map co_axis l = map co_axis r \<Longrightarrow> relate_coordinates (zip l r) p q = Inr (p \<and> no_worse l r, q \<and> no_worse r l)"
proof (induction l r arbitrary: p q rule: list_induct2')
  case (4 x xs y ys)
  then show ?case by (auto simp: no_worse_def Let_def)
qed (auto simp: no_worse_def)

lemma vector_relation_eq:
  "axis_signature l = axis_signature r \<Longrightarrow>
     vector_relation l r = Inr (relation_of VectorEqual RetainedBetter BaselineBetter VectorIncomparable l r)"
  using relate_coordinates_eq [OF signature_axes, of l r True True] by (simp add: vector_relation_def relation_of_def)

lemma lexicographic_eq:
  "map co_axis l = map co_axis r \<Longrightarrow> compare_coordinates_lexicographically (zip l r) =
     Inr (case point_order_coordinates (zip l r) of None \<Rightarrow> 0 | Some d \<Rightarrow> d)"
  by (induction l r rule: list_induct2') (auto simp: compare_direction direction_def Let_def)

lemma point_order_coordinates_nonzero: "point_order_coordinates zs = Some d \<Longrightarrow> d \<noteq> 0"
  by (induction zs rule: point_order_coordinates.induct) (auto simp: Let_def split: if_splits)

lemma compare_points_total:
  assumes "axis_signature (pt_costs p) = axis_signature (pt_costs q)"
  shows "compare_points p q = point_order p q" "is_ok (compare_points p q)"
  using assms lexicographic_eq [OF signature_axes [OF assms]] point_order_coordinates_nonzero
  by (auto simp: compare_points_def compare_vectors_lexicographically_def point_order_def split: option.splits)

lemma sort_by_agree: "sort_by compare_points ps = sort_by point_order ps"
proof -
  have "(case compare_points p q of Inl _ \<Rightarrow> False | Inr d \<Rightarrow> d \<le> 0) = (case point_order p q of Inl _ \<Rightarrow> False | Inr d \<Rightarrow> d \<le> 0)"
    for p q
    using compare_points_total(1) [of p q]
    by (cases "axis_signature (pt_costs p) = axis_signature (pt_costs q)")
      (simp_all add: compare_points_def compare_vectors_lexicographically_def point_order_def)
  then show ?thesis by (simp add: sort_by_def)
qed

section \<open>Sound frontiers\<close>

abbreviation same_axes :: "cost_vector \<Rightarrow> frontier_point list \<Rightarrow> bool" where
  "same_axes v ps \<equiv> \<forall>p \<in> set ps. axis_signature (pt_costs p) = axis_signature v"

definition incomparable_costs :: "cost_vector \<Rightarrow> cost_vector \<Rightarrow> bool" where
  "incomparable_costs l r \<longleftrightarrow> \<not> no_worse l r \<and> \<not> no_worse r l"

definition sound_frontier :: "recovery_frontier \<Rightarrow> bool" where
  "sound_frontier f \<longleftrightarrow> same_axes (pin_budget (rf_pins f)) (rf_points f) \<and> sort_by compare_points (rf_points f) = rf_points f \<and>
     (\<forall>(p, q) \<in> set (ordered_pairs (rf_points f)). incomparable_costs (pt_costs p) (pt_costs q))"

lemma ordered_pairs_subset: "(x, y) \<in> set (ordered_pairs xs) \<Longrightarrow> x \<in> set xs \<and> y \<in> set xs"
  by (induction xs) auto

lemma ordered_pairs_sorted_wrt: "(\<forall>(x, y) \<in> set (ordered_pairs xs). P x y) \<longleftrightarrow> sorted_wrt P xs"
  by (induction xs) auto

lemma first_comparable_eq:
  assumes "\<And>x y. (x, y) \<in> set zs \<Longrightarrow> \<exists>r. relation (pt_costs x) (pt_costs y) = Inr r \<and>
      (r = incomparable \<longleftrightarrow> incomparable_costs (pt_costs x) (pt_costs y))"
  shows "first_comparable relation incomparable zs = Inr (\<not> (\<forall>(x, y) \<in> set zs. incomparable_costs (pt_costs x) (pt_costs y)))"
  using assms
proof (induction zs)
  case (Cons z zs)
  obtain x y where z: "z = (x, y)" by (cases z)
  obtain r where r: "relation (pt_costs x) (pt_costs y) = Inr r"
      "r = incomparable \<longleftrightarrow> incomparable_costs (pt_costs x) (pt_costs y)"
    using Cons.prems [of x y] z by auto
  have "first_comparable relation incomparable zs = Inr (\<not> (\<forall>(x, y) \<in> set zs. incomparable_costs (pt_costs x) (pt_costs y)))"
    using Cons.prems by (intro Cons.IH) simp
  with r z show ?case by simp
qed simp

lemma relation_incomparable:
  assumes "same_axes v ps" "(x, y) \<in> set (ordered_pairs ps)"
  shows "\<exists>r. compare_cost_vectors (pt_costs x) (pt_costs y) = Inr r \<and> (r = CostIncomparable \<longleftrightarrow> incomparable_costs (pt_costs x) (pt_costs y))"
    "\<exists>r. vector_relation (pt_costs x) (pt_costs y) = Inr r \<and> (r = VectorIncomparable \<longleftrightarrow> incomparable_costs (pt_costs x) (pt_costs y))"
proof -
  have "axis_signature (pt_costs x) = axis_signature (pt_costs y)"
    using assms ordered_pairs_subset [OF assms(2)] by simp
  then show "\<exists>r. compare_cost_vectors (pt_costs x) (pt_costs y) = Inr r \<and> (r = CostIncomparable \<longleftrightarrow> incomparable_costs (pt_costs x) (pt_costs y))"
    "\<exists>r. vector_relation (pt_costs x) (pt_costs y) = Inr r \<and> (r = VectorIncomparable \<longleftrightarrow> incomparable_costs (pt_costs x) (pt_costs y))"
    by (auto simp: compare_cost_vectors_eq vector_relation_eq relation_of_def incomparable_costs_def)
qed

lemma check_recovery_frontier_iff: "\<exists>m. check_recovery_frontier f = Inr (sound_frontier f, m)"
proof (cases "same_axes (pin_budget (rf_pins f)) (rf_points f)")
  case True
  then show ?thesis
    using first_comparable_eq [of "ordered_pairs (rf_points f)" compare_cost_vectors CostIncomparable] relation_incomparable(1) [OF True]
    by (auto simp: check_recovery_frontier_def sound_frontier_def list_ex_iff)
qed (auto simp: check_recovery_frontier_def sound_frontier_def list_ex_iff)

lemma check_frontier_iff: "\<exists>m. check_frontier f = Inr (sound_frontier f, m)"
proof (cases "same_axes (pin_budget (rf_pins f)) (rf_points f)")
  case True
  then show ?thesis
    using first_comparable_eq [of "ordered_pairs (rf_points f)" vector_relation VectorIncomparable] relation_incomparable(2) [OF True]
    by (auto simp: check_frontier_def sound_frontier_def list_ex_iff sort_by_agree)
qed (auto simp: check_frontier_def sound_frontier_def list_ex_iff)

text \<open>The scans of both modules, for points on the same axes: the first point that costs no more, and whether
  it is strict; and whether an incomparable point stands before it.\<close>

definition scan :: "cost_vector \<Rightarrow> frontier_point list \<Rightarrow> (frontier_point \<times> bool) option \<times> bool" where
  "scan v rs = (map_option (\<lambda>r. (r, \<not> no_worse v (pt_costs r))) (List.find (\<lambda>r. no_worse (pt_costs r) v) rs),
     list_ex (\<lambda>r. \<not> no_worse v (pt_costs r)) (takeWhile (\<lambda>r. \<not> no_worse (pt_costs r) v) rs))"

lemma scans_eq:
  assumes "same_axes v rs"
  shows "cover_point v rs = Inr (scan v rs)" "witness_point v rs = Inr (scan v rs)"
proof -
  have "cover_point v rs = Inr (scan v rs) \<and> witness_point v rs = Inr (scan v rs)"
    using assms
  proof (induction rs)
    case (Cons r rs)
    have r: "compare_cost_vectors (pt_costs r) v = Inr (relation_of CostEqual LeftStrictlyBetter RightStrictlyBetter CostIncomparable (pt_costs r) v)"
        "vector_relation (pt_costs r) v = Inr (relation_of VectorEqual RetainedBetter BaselineBetter VectorIncomparable (pt_costs r) v)"
      using Cons.prems by (simp_all add: compare_cost_vectors_eq vector_relation_eq)
    show ?case using Cons by (auto simp: r relation_of_def scan_def)
  qed (simp add: scan_def)
  then show "cover_point v rs = Inr (scan v rs)" "witness_point v rs = Inr (scan v rs)" by simp_all
qed

section \<open>Builder and checker\<close>

text \<open>The frontiers the builder accepts, and what it concludes from them.\<close>

definition lawful_pair :: "recovery_frontier \<Rightarrow> recovery_frontier \<Rightarrow> bool" where
  "lawful_pair b r \<longleftrightarrow> rf_branch b = BaselineBranch \<and> rf_branch r = RetainedBranch \<and> rf_pins b = rf_pins r \<and>
     sound_frontier b \<and> sound_frontier r"

definition scans_of :: "recovery_frontier \<Rightarrow> recovery_frontier \<Rightarrow> ((frontier_point \<times> bool) option \<times> bool) list" where
  "scans_of b r = map (\<lambda>p. scan (pt_costs p) (rf_points r)) (rf_points b)"

definition conclusion :: "recovery_frontier \<Rightarrow> recovery_frontier \<Rightarrow> comparison_outcome \<times> frontier_coverage list" where
  "conclusion b r = conclude (rf_points b) (covering (rf_points b) (scans_of b r)) (list_ex snd (scans_of b r))"

lemma collect_scans:
  assumes "lawful_pair b r"
  shows "collect_results (map (\<lambda>p. cover_point (pt_costs p) (rf_points r)) (rf_points b)) = Inr (scans_of b r)"
    "collect_results (map (\<lambda>p. witness_point (pt_costs p) (rf_points r)) (rf_points b)) = Inr (scans_of b r)"
proof -
  have "same_axes (pt_costs p) (rf_points r)" if "p \<in> set (rf_points b)" for p
    using assms that by (simp add: lawful_pair_def sound_frontier_def)
  then show "collect_results (map (\<lambda>p. cover_point (pt_costs p) (rf_points r)) (rf_points b)) = Inr (scans_of b r)"
    "collect_results (map (\<lambda>p. witness_point (pt_costs p) (rf_points r)) (rf_points b)) = Inr (scans_of b r)"
    by (auto simp: collect_results_Inr_iff scans_of_def scans_eq)
qed

lemma evaluate_frontiers_iff: "evaluate_frontiers b r = Inr x \<longleftrightarrow> lawful_pair b r \<and> x = conclusion b r"
proof -
  obtain mb mr where "check_recovery_frontier b = Inr (sound_frontier b, mb)" "check_recovery_frontier r = Inr (sound_frontier r, mr)"
    using check_recovery_frontier_iff by meson
  then show ?thesis
    using collect_scans(1) [of b r]
    by (cases "lawful_pair b r") (auto simp: evaluate_frontiers_def lawful_pair_def conclusion_def)
qed

lemma check_recovery_comparison_iff:
  "\<exists>m. check_recovery_comparison c = Inr (lawful_pair (rc_baseline_frontier c) (rc_retained_frontier c) \<and>
     (rc_outcome c, rc_coverage c) = conclusion (rc_baseline_frontier c) (rc_retained_frontier c), m)"
proof -
  let ?b = "rc_baseline_frontier c" and ?r = "rc_retained_frontier c"
  obtain mb mr where "check_frontier ?b = Inr (sound_frontier ?b, mb)" "check_frontier ?r = Inr (sound_frontier ?r, mr)"
    using check_frontier_iff by meson
  then show ?thesis
    using collect_scans(2) [of ?b ?r]
    by (cases "lawful_pair ?b ?r")
      (auto simp: check_recovery_comparison_def lawful_pair_def conclusion_def Let_def split: prod.splits)
qed

lemma valid_comparison_iff:
  "valid_comparison c \<longleftrightarrow> valid_comparison_shape c \<and> lawful_pair (rc_baseline_frontier c) (rc_retained_frontier c) \<and>
     (rc_outcome c, rc_coverage c) = conclusion (rc_baseline_frontier c) (rc_retained_frontier c)"
  using check_recovery_comparison_iff [of c] by (auto simp: valid_comparison_def)

text \<open>The coverage that the builder concludes always has the shape the record asks for.\<close>

lemma find_mem: "List.find P xs = Some x \<Longrightarrow> x \<in> set xs \<and> P x"
  by (induction xs) (auto split: if_splits)

lemma covering_Cons:
  "covering (b # bs) (s # ss) = (case fst s of None \<Rightarrow> [] | Some (r, strict) \<Rightarrow>
     [\<lparr>cov_baseline_observation_id = pt_observation_id b, cov_retained_observation_id = pt_observation_id r,
       cov_strict = strict\<rparr>]) @ covering bs ss"
  by (cases s) (auto simp: covering_def map_filter_simps split: option.splits)

lemma covering_Nil: "covering [] ss = []"
  by (simp add: covering_def map_filter_simps)

lemma covering_ids:
  "map cov_baseline_observation_id (covering bs (map (\<lambda>p. scan (pt_costs p) rs) bs)) =
     map pt_observation_id (filter (\<lambda>p. fst (scan (pt_costs p) rs) \<noteq> None) bs)"
  by (induction bs) (auto simp: covering_Nil covering_Cons split: option.splits)

lemma covering_retained:
  "v \<in> set (covering bs (map (\<lambda>p. scan (pt_costs p) rs) bs)) \<Longrightarrow> cov_retained_observation_id v \<in> pt_observation_id ` set rs"
  by (induction bs) (auto simp: covering_Nil covering_Cons scan_def dest: find_mem dest!: sym [of "Some _"] split: option.splits)

lemma conclusion_coverage: "conclusion b r = (out, cov) \<Longrightarrow> cov = [] \<or> cov = covering (rf_points b) (scans_of b r)"
  by (auto simp: conclusion_def conclude_def split: if_splits)

lemma conclusion_shape:
  assumes "conclusion b r = (out, cov)" "valid_recovery_frontier b"
  shows "distinct (map cov_baseline_observation_id cov) \<and> (\<forall>v \<in> set cov.
     cov_baseline_observation_id v \<in> set (map pt_observation_id (rf_points b)) \<and>
     cov_retained_observation_id v \<in> set (map pt_observation_id (rf_points r)))"
proof -
  let ?cov = "covering (rf_points b) (scans_of b r)"
  have ids: "map cov_baseline_observation_id ?cov =
      map pt_observation_id (filter (\<lambda>p. fst (scan (pt_costs p) (rf_points r)) \<noteq> None) (rf_points b))"
    unfolding scans_of_def by (rule covering_ids)
  have "distinct (map cov_baseline_observation_id ?cov)"
    using assms(2) unfolding ids by (simp add: valid_recovery_frontier_def distinct_map_filter)
  moreover have "cov_baseline_observation_id v \<in> set (map pt_observation_id (rf_points b))" if "v \<in> set ?cov" for v
  proof -
    have "cov_baseline_observation_id v \<in> set (map cov_baseline_observation_id ?cov)" using that by simp
    then show ?thesis unfolding ids by auto
  qed
  moreover have "cov_retained_observation_id v \<in> set (map pt_observation_id (rf_points r))" if "v \<in> set ?cov" for v
    using covering_retained that unfolding scans_of_def by fastforce
  ultimately show ?thesis using conclusion_coverage [OF assms(1)] by auto
qed

lemma compare_recovery_frontiers_Inr_iff:
  "compare_recovery_frontiers i b r k = Inr c \<longleftrightarrow> valid_comparison c \<and> rc_comparison_id c = i \<and> rc_baseline_frontier c = b \<and>
     rc_retained_frontier c = r \<and> rc_comparison_check c = k"
proof
  assume "compare_recovery_frontiers i b r k = Inr c"
  then show "valid_comparison c \<and> rc_comparison_id c = i \<and> rc_baseline_frontier c = b \<and> rc_retained_frontier c = r \<and> rc_comparison_check c = k"
    by (auto simp: compare_recovery_frontiers_def construct_Inr_iff split: sum.splits prod.splits)
next
  assume c: "valid_comparison c \<and> rc_comparison_id c = i \<and> rc_baseline_frontier c = b \<and> rc_retained_frontier c = r \<and> rc_comparison_check c = k"
  then have "evaluate_frontiers b r = Inr (rc_outcome c, rc_coverage c)"
    by (auto simp: evaluate_frontiers_iff valid_comparison_iff)
  with c show "compare_recovery_frontiers i b r k = Inr c"
    by (cases c) (auto simp: compare_recovery_frontiers_def construct_Inr_iff)
qed

text \<open>C12: The comparison a caller may record and the one the builder makes are the same. A comparison record passes the
  independent checker of \<open>memory/checks.py\<close> and its own shape checks exactly when
  \<open>compare_recovery_frontiers\<close>, with the arithmetic of \<open>memory/recovery.py\<close>, returns it for its identity,
  frontiers and check reference; and whenever that arithmetic accepts two valid frontiers, the record it builds
  passes the checker: the builder never fails on a comparison it has evaluated.\<close>

theorem comparison_checker_agrees_with_builder:
  "(valid_comparison c \<longleftrightarrow> compare_recovery_frontiers (rc_comparison_id c) (rc_baseline_frontier c) (rc_retained_frontier c)
       (rc_comparison_check c) = Inr c) \<and>
   (valid_identifier i \<and> valid_recovery_frontier b \<and> valid_recovery_frontier r \<and> valid_check_reference k \<longrightarrow>
     is_ok (compare_recovery_frontiers i b r k) = is_ok (evaluate_frontiers b r))"
proof (intro conjI impI)
  show "valid_comparison c \<longleftrightarrow> compare_recovery_frontiers (rc_comparison_id c) (rc_baseline_frontier c) (rc_retained_frontier c)
      (rc_comparison_check c) = Inr c"
    by (simp add: compare_recovery_frontiers_Inr_iff)
  assume v: "valid_identifier i \<and> valid_recovery_frontier b \<and> valid_recovery_frontier r \<and> valid_check_reference k"
  show "is_ok (compare_recovery_frontiers i b r k) = is_ok (evaluate_frontiers b r)"
  proof (cases "evaluate_frontiers b r")
    case (Inr x)
    obtain out cov where x: "x = (out, cov)" by (cases x)
    have l: "lawful_pair b r" "conclusion b r = (out, cov)" using Inr x by (simp_all add: evaluate_frontiers_iff)
    have "valid_comparison \<lparr>rc_comparison_id = i, rc_baseline_frontier = b, rc_retained_frontier = r, rc_outcome = out,
        rc_coverage = cov, rc_comparison_check = k\<rparr>"
    proof -
      have "valid_identifier j" if "j \<in> set (map pt_observation_id (rf_points b)) \<union> set (map pt_observation_id (rf_points r))" for j
        using v that by (auto simp: valid_recovery_frontier_def list_all_iff)
      then show ?thesis
        using v l conclusion_shape [OF l(2)]
        by (auto simp: valid_comparison_iff valid_comparison_shape_def lawful_pair_def list_all_iff)
    qed
    then show ?thesis using Inr x by (simp add: compare_recovery_frontiers_def construct_def)
  qed (simp add: compare_recovery_frontiers_def)
qed

end
