(* ===== verification/Rci_Pareto.thy ===== *)
theory Rci_Pareto
  imports Complex_Main Rci_Recovery
begin

text \<open>
  What the cross multiplications of \<open>memory/recovery.py\<close> compute: with valid cost vectors they are the order of
  the rationals, the relation of two vectors is the product order, the canonical order of points is the lexicographic
  order of their amounts and then of the identities. On this reading the derived frontier is the set of
  undominated successful observations, and a strict advantage is Pareto dominance of one frontier over the other.
\<close>

section \<open>Amounts\<close>

definition amount :: "cost_coordinate \<Rightarrow> rat" where
  "amount c = of_int (co_numerator c) / of_int (co_denominator c)"

abbreviation amounts :: "cost_vector \<Rightarrow> rat list" where
  "amounts v \<equiv> map amount v"

abbreviation positive :: "cost_vector \<Rightarrow> bool" where
  "positive v \<equiv> \<forall>c \<in> set v. 0 < co_denominator c"

lemma valid_vector_positive: "valid_vector v \<Longrightarrow> positive v"
  by (simp add: valid_vector_def valid_coordinate_def list_all_iff)

lemma cross_multiplication:
  assumes "0 < co_denominator x" "0 < co_denominator y"
  shows "co_numerator x * co_denominator y \<le> co_numerator y * co_denominator x \<longleftrightarrow> amount x \<le> amount y"
    "co_numerator x * co_denominator y < co_numerator y * co_denominator x \<longleftrightarrow> amount x < amount y"
    "co_numerator x * co_denominator y = co_numerator y * co_denominator x \<longleftrightarrow> amount x = amount y"
proof -
  have "amount x \<le> amount y \<longleftrightarrow> (of_int (co_numerator x * co_denominator y) :: rat) \<le> of_int (co_numerator y * co_denominator x)"
    using assms by (simp add: amount_def pos_divide_le_eq pos_le_divide_eq mult.commute)
  then show le: "co_numerator x * co_denominator y \<le> co_numerator y * co_denominator x \<longleftrightarrow> amount x \<le> amount y"
    by (simp only: of_int_le_iff)
  have "amount y \<le> amount x \<longleftrightarrow> (of_int (co_numerator y * co_denominator x) :: rat) \<le> of_int (co_numerator x * co_denominator y)"
    using assms by (simp add: amount_def pos_divide_le_eq pos_le_divide_eq mult.commute)
  then have ge: "co_numerator y * co_denominator x \<le> co_numerator x * co_denominator y \<longleftrightarrow> amount y \<le> amount x"
    by (simp only: of_int_le_iff)
  from le ge show "co_numerator x * co_denominator y < co_numerator y * co_denominator x \<longleftrightarrow> amount x < amount y"
    "co_numerator x * co_denominator y = co_numerator y * co_denominator x \<longleftrightarrow> amount x = amount y"
    by linarith+
qed

abbreviation cost_le :: "cost_vector \<Rightarrow> cost_vector \<Rightarrow> bool" where
  "cost_le l r \<equiv> list_all2 (\<le>) (amounts l) (amounts r)"

abbreviation comparable_axes :: "cost_vector \<Rightarrow> cost_vector \<Rightarrow> bool" where
  "comparable_axes l r \<equiv> axis_signature l = axis_signature r \<and> positive l \<and> positive r"

lemma signature_length: "axis_signature l = axis_signature r \<Longrightarrow> length l = length r"
  by (metis signature_axes length_map)

lemma no_worse_iff:
  assumes "comparable_axes l r"
  shows "no_worse l r \<longleftrightarrow> cost_le l r"
proof -
  have "length l = length r" using assms signature_length by blast
  moreover have "positive l" "positive r" using assms by blast+
  ultimately show ?thesis
    by (induction l r rule: list_induct2) (auto simp: no_worse_def cross_multiplication)
qed

lemma cost_le_antisym: "cost_le l r \<Longrightarrow> cost_le r l \<Longrightarrow> amounts l = amounts r"
  by (rule list_all2_antisym [where P = "(\<le>)" and Q = "(\<le>)"]) auto

lemma cost_le_refl: "amounts l = amounts r \<Longrightarrow> cost_le l r"
  by (simp add: list_all2_refl)

lemma cost_le_trans: "cost_le l m \<Longrightarrow> cost_le m r \<Longrightarrow> cost_le l r"
  by (rule list_all2_trans [where ?P1.0 = "(\<le>)" and ?P2.0 = "(\<le>)"]) auto

definition dominating :: "frontier_point \<Rightarrow> frontier_point \<Rightarrow> bool" where
  "dominating p q \<longleftrightarrow> cost_le (pt_costs p) (pt_costs q) \<and> amounts (pt_costs p) \<noteq> amounts (pt_costs q)"

definition level :: "frontier_point \<Rightarrow> frontier_point \<Rightarrow> bool" where
  "level p q \<longleftrightarrow> amounts (pt_costs p) = amounts (pt_costs q)"

interpretation cost_order: dominance dominating
  by unfold_locales (auto simp: dominating_def intro: cost_le_trans dest: cost_le_antisym cost_le_trans)

interpretation cost_level: ranked_cover level pt_observation_id "\<lambda>_. True"
  by unfold_locales (auto simp: level_def)

lemma cost_relations:
  assumes "comparable_axes (pt_costs p) (pt_costs q)"
  shows "same_costs p q \<longleftrightarrow> level p q" "cheaper p q \<longleftrightarrow> dominating p q"
    "incomparable_costs (pt_costs p) (pt_costs q) \<longleftrightarrow> \<not> level p q \<and> \<not> dominating p q \<and> \<not> dominating q p"
proof -
  have "no_worse (pt_costs p) (pt_costs q) \<longleftrightarrow> cost_le (pt_costs p) (pt_costs q)"
      "no_worse (pt_costs q) (pt_costs p) \<longleftrightarrow> cost_le (pt_costs q) (pt_costs p)"
    using assms by (intro no_worse_iff; simp)+
  moreover have "amounts (pt_costs p) = amounts (pt_costs q) \<longleftrightarrow> cost_le (pt_costs p) (pt_costs q) \<and> cost_le (pt_costs q) (pt_costs p)"
    using cost_le_antisym cost_le_refl by metis
  ultimately show "same_costs p q \<longleftrightarrow> level p q" "cheaper p q \<longleftrightarrow> dominating p q"
      "incomparable_costs (pt_costs p) (pt_costs q) \<longleftrightarrow> \<not> level p q \<and> \<not> dominating p q \<and> \<not> dominating q p"
    using assms
    by (auto simp: same_costs_def cheaper_def compare_cost_vectors_eq relation_of_def level_def dominating_def
      incomparable_costs_def)
qed

section \<open>The canonical order\<close>

definition point_key :: "frontier_point \<Rightarrow> rat list \<times> ident" where
  "point_key p = (amounts (pt_costs p), pt_observation_id p)"

lemma point_order_coordinates_eq:
  assumes "length l = length r" "positive l" "positive r"
  shows "point_order_coordinates (zip l r) =
     (if amounts l = amounts r then None else Some (if amounts l < amounts r then -1 else 1))"
  using assms by (induction l r rule: list_induct2) (auto simp: cross_multiplication Let_def)

lemma sign_le_iff: "(of_bool (y < x) - of_bool (x < y) :: int) \<le> 0 \<longleftrightarrow> x \<le> (y::'k::linorder)"
  by (cases x y rule: linorder_cases) auto

lemma point_order_key:
  assumes "comparable_axes (pt_costs p) (pt_costs q)"
  shows "(case compare_points p q of Inl _ \<Rightarrow> False | Inr d \<Rightarrow> d \<le> 0) \<longleftrightarrow> point_key p \<le> point_key q"
proof -
  have "compare_points p q = point_order p q" using assms by (intro compare_points_total(1)) blast
  moreover have "point_order p q = Inr (case point_order_coordinates (zip (pt_costs p) (pt_costs q)) of Some d \<Rightarrow> d
      | None \<Rightarrow> of_bool (pt_observation_id p > pt_observation_id q) - of_bool (pt_observation_id p < pt_observation_id q))"
    using assms by (simp add: point_order_def)
  moreover have "point_order_coordinates (zip (pt_costs p) (pt_costs q)) = (if amounts (pt_costs p) = amounts (pt_costs q)
      then None else Some (if amounts (pt_costs p) < amounts (pt_costs q) then -1 else 1))"
    using assms by (intro point_order_coordinates_eq signature_length) blast+
  ultimately show ?thesis
    by (cases "amounts (pt_costs p) = amounts (pt_costs q)")
      (simp_all only: point_key_def sign_le_iff less_eq_prod_simp if_True if_False option.case sum.case, auto)
qed

text \<open>Points of one frontier: the same axes, with positive denominators.\<close>

definition on_axes :: "cost_vector \<Rightarrow> frontier_point set \<Rightarrow> bool" where
  "on_axes v A \<longleftrightarrow> (\<forall>p \<in> A. axis_signature (pt_costs p) = axis_signature v \<and> positive (pt_costs p))"

lemma on_axesD: "on_axes v A \<Longrightarrow> p \<in> A \<Longrightarrow> q \<in> A \<Longrightarrow> comparable_axes (pt_costs p) (pt_costs q)"
  by (simp add: on_axes_def)

lemma on_axes_subset: "on_axes v A \<Longrightarrow> B \<subseteq> A \<Longrightarrow> on_axes v B"
  by (auto simp: on_axes_def)

lemma insert_by_key:
  "(\<And>y. y \<in> set ys \<Longrightarrow> le x y \<longleftrightarrow> key x \<le> key y) \<Longrightarrow> insert_by le x ys = insort_key key x ys"
  by (induction ys) auto

lemma sort_by_key:
  assumes "on_axes v (set ps)"
  shows "sort_by compare_points ps = sort_key point_key ps"
  using assms
proof (induction ps)
  case (Cons p ps)
  have "sort_by compare_points ps = sort_key point_key ps"
    using Cons by (simp add: on_axes_def)
  moreover have "insert_by (\<lambda>x y. case compare_points x y of Inl _ \<Rightarrow> False | Inr d \<Rightarrow> d \<le> 0) p (sort_key point_key ps) =
      insort_key point_key p (sort_key point_key ps)"
    by (intro insert_by_key point_order_key on_axesD [OF Cons.prems]) simp_all
  ultimately show ?case by (simp add: sort_by_def)
qed (simp add: sort_by_def)

section \<open>The derived frontier\<close>

lemma keep_uncovered_cong:
  "(\<And>x y. x \<in> set (kept @ xs) \<Longrightarrow> y \<in> set (kept @ xs) \<Longrightarrow> f x y = g x y) \<Longrightarrow> keep_uncovered f kept xs = keep_uncovered g kept xs"
proof (induction xs arbitrary: kept)
  case (Cons x xs)
  have "(\<exists>m \<in> set kept. f m x) = (\<exists>m \<in> set kept. g m x)" using Cons.prems by simp
  moreover have "keep_uncovered f kept xs = keep_uncovered g kept xs" "keep_uncovered f (kept @ [x]) xs = keep_uncovered g (kept @ [x]) xs"
    using Cons.prems by (intro Cons.IH; auto)+
  ultimately show ?case by simp
qed simp

lemma unique_points_exact:
  assumes "on_axes v (set ps)"
  shows "set (unique_points ps) \<subseteq> set ps" "\<forall>p \<in> set ps. \<exists>u \<in> set (unique_points ps). level u p"
    "sorted_wrt (\<lambda>x y. \<not> level x y) (unique_points ps)"
proof -
  obtain k d where k: "keep_uncovered level [] (sort_key pt_observation_id ps) = (k, d)" by fastforce
  have "keep_uncovered same_costs [] (sort_key pt_observation_id ps) = (k, d)"
    unfolding k [symmetric] by (intro keep_uncovered_cong cost_relations(1) on_axesD [OF assms]) auto
  then have u: "unique_points ps = k" by (simp add: unique_points_def)
  show "set (unique_points ps) \<subseteq> set ps" using cost_level.kept_subset [OF k] u by auto
  show "\<forall>p \<in> set ps. \<exists>u \<in> set (unique_points ps). level u p" using cost_level.kept_covers_all [OF k] u by simp
  show "sorted_wrt (\<lambda>x y. \<not> level x y) (unique_points ps)"
    using cost_level.sorted_kept_antichain [OF k] u by (auto intro: sorted_wrt_mono_rel [rotated])
qed

lemma sorted_wrt_levelD:
  "sorted_wrt (\<lambda>x y. \<not> level x y) us \<Longrightarrow> p \<in> set us \<Longrightarrow> q \<in> set us \<Longrightarrow> level p q \<Longrightarrow> p = q"
  by (induction us) (auto simp: level_def)

lemma sorted_wrt_level_distinct: "sorted_wrt (\<lambda>x y. \<not> level x y) us \<Longrightarrow> distinct us"
  by (induction us) (auto simp: level_def)

lemma undominated_points_exact:
  assumes "on_axes v (set us)" "inj_on pt_observation_id (set us)"
  shows "set (undominated_points us) = {p \<in> set us. \<forall>q \<in> set us. \<not> dominating q p}"
proof -
  have "pt_observation_id q \<noteq> pt_observation_id p \<and> cheaper q p \<longleftrightarrow> dominating q p" if "p \<in> set us" "q \<in> set us" for p q
  proof -
    have "cheaper q p \<longleftrightarrow> dominating q p" using on_axesD [OF assms(1)] that by (intro cost_relations(2)) blast
    moreover have "dominating q p \<Longrightarrow> pt_observation_id q \<noteq> pt_observation_id p"
      using assms(2) that cost_order.irrefl by (metis inj_onD)
    ultimately show ?thesis by blast
  qed
  then show ?thesis by (auto simp: undominated_points_def list_ex_iff)
qed

definition frontier_points :: "frontier_point list \<Rightarrow> frontier_point list" where
  "frontier_points ps = sort_by compare_points (undominated_points (unique_points ps))"

lemma sorted_wrt_distinctI: "distinct xs \<Longrightarrow> (\<And>x y. x \<in> set xs \<Longrightarrow> y \<in> set xs \<Longrightarrow> x \<noteq> y \<Longrightarrow> P x y) \<Longrightarrow> sorted_wrt P xs"
  by (induction xs) auto

lemma frontier_points_exact:
  assumes axes: "on_axes v (set ps)" and inj: "inj_on pt_observation_id (set ps)"
  shows "set (frontier_points ps) \<subseteq> {p \<in> set ps. \<forall>q \<in> set ps. \<not> dominating q p}"
    "\<forall>p \<in> set ps. \<exists>u \<in> set (frontier_points ps). cost_le (pt_costs u) (pt_costs p)"
    "distinct (frontier_points ps)" "sort_by compare_points (frontier_points ps) = frontier_points ps"
    "sorted_wrt (\<lambda>p q. incomparable_costs (pt_costs p) (pt_costs q)) (frontier_points ps)"
proof -
  let ?u = "unique_points ps"
  note u = unique_points_exact [OF axes]
  have f: "set (undominated_points ?u) = {p \<in> set ?u. \<forall>q \<in> set ?u. \<not> dominating q p}"
    using u(1) inj on_axes_subset [OF axes] by (intro undominated_points_exact) (auto intro: inj_on_subset)
  have key: "frontier_points ps = sort_key point_key (undominated_points ?u)"
    unfolding frontier_points_def using u(1) by (intro sort_by_key [of v] on_axes_subset [OF axes]) (auto simp: f)
  then have set_f: "set (frontier_points ps) = {p \<in> set ?u. \<forall>q \<in> set ?u. \<not> dominating q p}" by (simp add: f)
  have level_dominating: "level q p \<Longrightarrow> dominating p x \<Longrightarrow> dominating q x" for p q x by (simp add: level_def dominating_def)
  show sub: "set (frontier_points ps) \<subseteq> {p \<in> set ps. \<forall>q \<in> set ps. \<not> dominating q p}"
    using u(1,2) level_dominating unfolding set_f by blast
  show "\<forall>p \<in> set ps. \<exists>u \<in> set (frontier_points ps). cost_le (pt_costs u) (pt_costs p)"
  proof
    fix p assume "p \<in> set ps"
    then obtain x where x: "x \<in> set ?u" "level x p" using u(2) by blast
    obtain m where m: "m \<in> set ?u" "m = x \<or> dominating m x" "\<forall>y \<in> set ?u. \<not> dominating y m"
      using cost_order.covered [OF finite_set x(1)] by blast
    then have "cost_le (pt_costs m) (pt_costs p)"
      using x(2) cost_le_refl by (auto simp: level_def dominating_def)
    then show "\<exists>u \<in> set (frontier_points ps). cost_le (pt_costs u) (pt_costs p)" using m set_f by blast
  qed
  have "distinct (undominated_points ?u)" using sorted_wrt_level_distinct [OF u(3)] by (simp add: undominated_points_def)
  then show d: "distinct (frontier_points ps)" by (simp add: key)
  have axes_f: "on_axes v (set (frontier_points ps))" using sub by (intro on_axes_subset [OF axes]) auto
  then show "sort_by compare_points (frontier_points ps) = frontier_points ps"
    by (subst sort_by_key) (auto simp: key intro: sort_key_id_if_sorted)
  show "sorted_wrt (\<lambda>p q. incomparable_costs (pt_costs p) (pt_costs q)) (frontier_points ps)"
  proof (rule sorted_wrt_distinctI [OF d])
    fix p q assume pq: "p \<in> set (frontier_points ps)" "q \<in> set (frontier_points ps)" "p \<noteq> q"
    then have "\<not> level p q" using sorted_wrt_levelD [OF u(3)] set_f by blast
    moreover have "\<not> dominating p q" "\<not> dominating q p" using pq set_f by blast+
    ultimately show "incomparable_costs (pt_costs p) (pt_costs q)"
      using on_axesD [OF axes_f] pq cost_relations(3) by blast
  qed
qed

definition frontier_sources :: "recovery_branch \<Rightarrow> recovery_pins \<Rightarrow> recovery_observation set \<Rightarrow> bool" where
  "frontier_sources branch pins A \<longleftrightarrow> consistent_by ob_id A \<and> (\<forall>o' \<in> A. ob_branch o' = branch \<and> ob_pins o' = pins)"

lemma deduplicate_observations_Inr:
  "deduplicate_observations obs = Inr d \<Longrightarrow>
     set d = set obs \<and> distinct (map ob_id d) \<and> consistent_by ob_id (set obs) \<and> sorted (map ob_id d)"
  unfolding deduplicate_observations_def by (rule sorted_dedup_Inr)

lemma deduplicate_observations_unique:
  "deduplicate_observations obs = Inr d \<Longrightarrow> set obs' = set obs \<Longrightarrow> deduplicate_observations obs' = Inr d"
  unfolding deduplicate_observations_def by (rule sorted_dedup_cong)

lemma collect_results_all_ok:
  assumes "is_ok (collect_results (map g xs))" "x \<in> set xs"
  shows "is_ok (g x)"
proof -
  obtain us where us: "map g xs = map Inr us" using assms(1) by (auto simp: is_ok_iff collect_results_Inr_iff)
  have "g x \<in> set (map g xs)" using assms(2) by simp
  then show ?thesis unfolding us by auto
qed

lemma derive_recovery_frontier_guards:
  assumes "deduplicate_observations obs = Inr d" "\<forall>o' \<in> set obs. valid_observation o'"
  shows "frontier_sources branch pins (set obs) \<Longrightarrow> derive_recovery_frontier branch pins obs =
      construct valid_recovery_frontier ''RecoveryFrontier''
       \<lparr>rf_branch = branch, rf_pins = pins, rf_source_observation_ids = map ob_id d,
        rf_points = frontier_points (map point_of (filter ob_competence_established d))\<rparr>"
    "is_ok (derive_recovery_frontier branch pins obs) \<Longrightarrow> frontier_sources branch pins (set obs)"
proof -
  note d = deduplicate_observations_Inr [OF assms(1)]
  let ?guards = "map (\<lambda>o'.
       if ob_branch o' \<noteq> branch then Inl (ValueError ''frontier observations have different branches'')
       else if ob_pins o' \<noteq> pins then Inl (ValueError ''frontier observations have different recovery pins'')
       else if axis_signature (ob_costs o') \<noteq> axis_signature (pin_budget pins)
       then Inl (ValueError ''frontier observation axes differ from budget axes'') else Inr ()) d"
  show "derive_recovery_frontier branch pins obs = construct valid_recovery_frontier ''RecoveryFrontier''
       \<lparr>rf_branch = branch, rf_pins = pins, rf_source_observation_ids = map ob_id d,
        rf_points = frontier_points (map point_of (filter ob_competence_established d))\<rparr>"
    if "frontier_sources branch pins (set obs)"
  proof -
    have "?guards = map Inr (map (\<lambda>_. ()) d)"
      using that assms(2) d by (auto simp: frontier_sources_def valid_observation_def)
    then have "collect_results ?guards = Inr (map (\<lambda>_. ()) d)" by (rule collect_results_Inr_iff [THEN iffD2])
    then show ?thesis using assms(1) unfolding derive_recovery_frontier_def frontier_points_def by simp
  qed
  show "frontier_sources branch pins (set obs)" if "is_ok (derive_recovery_frontier branch pins obs)"
  proof -
    have "is_ok (collect_results ?guards)"
      using that assms(1) by (cases "collect_results ?guards") (simp_all add: derive_recovery_frontier_def)
    then have "ob_branch o' = branch \<and> ob_pins o' = pins" if "o' \<in> set d" for o'
      using collect_results_all_ok [OF _ that] by (fastforce split: if_splits)
    then show ?thesis using d by (simp add: frontier_sources_def)
  qed
qed

lemma derived_frontier_valid:
  assumes "deduplicate_observations obs = Inr d" "\<forall>o' \<in> set obs. valid_observation o'" "frontier_sources branch pins (set obs)"
    "valid_pins pins"
  defines "ps \<equiv> map point_of (filter ob_competence_established d)"
  shows "on_axes (pin_budget pins) (set ps)" "inj_on pt_observation_id (set ps)"
    "valid_recovery_frontier \<lparr>rf_branch = branch, rf_pins = pins, rf_source_observation_ids = map ob_id d,
       rf_points = frontier_points ps\<rparr>"
proof -
  note d = deduplicate_observations_Inr [OF assms(1)]
  show axes: "on_axes (pin_budget pins) (set ps)"
    using assms(2,3) d by (auto simp: on_axes_def ps_def point_of_def frontier_sources_def valid_observation_def
      dest!: bspec [OF assms(2)] intro: valid_vector_positive [THEN bspec])
  show inj: "inj_on pt_observation_id (set ps)"
    using d by (auto simp: ps_def inj_on_def point_of_def distinct_map)
  note f = frontier_points_exact [OF axes inj]
  have "inj_on pt_observation_id (set (frontier_points ps))" using f(1) inj by (auto intro: inj_on_subset)
  moreover have "pt_observation_id p \<in> ob_id ` set d \<and> valid_vector (pt_costs p)" if "p \<in> set (frontier_points ps)" for p
  proof -
    obtain o' where "o' \<in> set d" "p = point_of o'" using f(1) \<open>p \<in> set (frontier_points ps)\<close> by (auto simp: ps_def)
    then show ?thesis using assms(2) d by (auto simp: point_of_def valid_observation_def)
  qed
  moreover have "valid_identifier i" if "i \<in> ob_id ` set d" for i
    using assms(2) d that by (auto simp: valid_observation_def)
  ultimately show "valid_recovery_frontier \<lparr>rf_branch = branch, rf_pins = pins, rf_source_observation_ids = map ob_id d,
       rf_points = frontier_points ps\<rparr>"
    using f(3) d assms(4)
    by (auto simp: valid_recovery_frontier_def distinct_map canonical_iff list_all_iff)
qed

lemma derived_frontier_eq:
  assumes "\<forall>o' \<in> set obs. valid_observation o'" "frontier_sources branch pins (set obs)" "valid_pins pins"
  obtains d where "deduplicate_observations obs = Inr d" "set d = set obs"
    "derive_recovery_frontier branch pins obs = Inr
       \<lparr>rf_branch = branch, rf_pins = pins, rf_source_observation_ids = map ob_id d,
        rf_points = frontier_points (map point_of (filter ob_competence_established d))\<rparr>"
proof -
  obtain d where d: "deduplicate_observations obs = Inr d"
    using assms(2) sorted_dedup_total unfolding deduplicate_observations_def frontier_sources_def by blast
  show ?thesis
    using that [OF d] derive_recovery_frontier_guards(1) [OF d assms(1,2)] derived_frontier_valid(3) [OF d assms(1,2,3)]
      deduplicate_observations_Inr [OF d]
    by (simp add: construct_def)
qed

lemma derived_frontier_points:
  assumes "\<forall>o' \<in> set obs. valid_observation o'" "frontier_sources branch pins (set obs)" "valid_pins pins"
    "derive_recovery_frontier branch pins obs = Inr f"
  shows "\<forall>p \<in> set (rf_points f). (\<exists>o' \<in> set obs. ob_competence_established o' \<and> p = point_of o') \<and>
       (\<forall>o' \<in> set obs. ob_competence_established o' \<longrightarrow> \<not> dominating (point_of o') p)"
    "\<forall>o' \<in> set obs. ob_competence_established o' \<longrightarrow> (\<exists>p \<in> set (rf_points f). cost_le (pt_costs p) (ob_costs o'))"
    "sound_frontier f"
proof -
  obtain d where d: "deduplicate_observations obs = Inr d" "set d = set obs"
      "derive_recovery_frontier branch pins obs = Inr
       \<lparr>rf_branch = branch, rf_pins = pins, rf_source_observation_ids = map ob_id d,
        rf_points = frontier_points (map point_of (filter ob_competence_established d))\<rparr>"
    using derived_frontier_eq [OF assms(1-3)] by blast
  let ?ps = "map point_of (filter ob_competence_established d)"
  have f: "rf_points f = frontier_points ?ps" "rf_pins f = pins" using d(3) assms(4) by auto
  have ps: "set ?ps = {point_of o' |o'. o' \<in> set obs \<and> ob_competence_established o'}" using d(2) by auto
  note axes = derived_frontier_valid(1) [OF d(1) assms(1-3)]
  note exact = frontier_points_exact [OF axes derived_frontier_valid(2) [OF d(1) assms(1-3)]]
  show "\<forall>p \<in> set (rf_points f). (\<exists>o' \<in> set obs. ob_competence_established o' \<and> p = point_of o') \<and>
       (\<forall>o' \<in> set obs. ob_competence_established o' \<longrightarrow> \<not> dominating (point_of o') p)"
    using exact(1) unfolding f ps by blast
  show "\<forall>o' \<in> set obs. ob_competence_established o' \<longrightarrow> (\<exists>p \<in> set (rf_points f). cost_le (pt_costs p) (ob_costs o'))"
    using exact(2) unfolding f ps by (force simp: point_of_def)
  have "on_axes (pin_budget pins) (set (rf_points f))" using exact(1) f by (intro on_axes_subset [OF axes]) auto
  then show "sound_frontier f"
    using exact(4,5) by (simp add: sound_frontier_def f on_axes_def ordered_pairs_sorted_wrt)
qed

text \<open>C11: \<open>derive_recovery_frontier\<close> computes the Pareto frontier. For valid observations it succeeds exactly
  when no identity is used for two contents and every observation has the asked branch and pins. The frontier it
  returns passes \<open>check_recovery_frontier\<close>; its points are costs of successful observations that no successful
  observation dominates in the order of the rationals; every successful observation is met by a point that
  costs no more on any axis; and neither the order nor the repetition of the observations has any influence on it.\<close>

theorem derived_frontier_is_pareto:
  assumes "valid_pins pins" "\<forall>o' \<in> set obs. valid_observation o'"
  shows "(is_ok (derive_recovery_frontier branch pins obs) \<longleftrightarrow> frontier_sources branch pins (set obs)) \<and>
    (\<forall>f. derive_recovery_frontier branch pins obs = Inr f \<longrightarrow>
      (\<exists>m. check_recovery_frontier f = Inr (True, m)) \<and>
      (\<forall>p \<in> set (rf_points f). (\<exists>o' \<in> set obs. ob_competence_established o' \<and> p = point_of o') \<and>
         (\<forall>o' \<in> set obs. ob_competence_established o' \<longrightarrow> \<not> dominating (point_of o') p)) \<and>
      (\<forall>o' \<in> set obs. ob_competence_established o' \<longrightarrow> (\<exists>p \<in> set (rf_points f). cost_le (pt_costs p) (ob_costs o'))) \<and>
      (\<forall>obs'. set obs' = set obs \<longrightarrow> derive_recovery_frontier branch pins obs' = Inr f))"
proof (cases "frontier_sources branch pins (set obs)")
  case True
  obtain d where d: "deduplicate_observations obs = Inr d" "is_ok (derive_recovery_frontier branch pins obs)"
    using derived_frontier_eq [OF assms(2) True assms(1)] by (metis is_ok_simps(1))
  show ?thesis
  proof (intro conjI allI impI)
    show "is_ok (derive_recovery_frontier branch pins obs) \<longleftrightarrow> frontier_sources branch pins (set obs)"
      using True d(2) by simp
    fix f assume f: "derive_recovery_frontier branch pins obs = Inr f"
    note points = derived_frontier_points [OF assms(2) True assms(1) f]
    show "\<exists>m. check_recovery_frontier f = Inr (True, m)"
      using check_recovery_frontier_iff [of f] points(3) by simp
    show "\<forall>p \<in> set (rf_points f). (\<exists>o' \<in> set obs. ob_competence_established o' \<and> p = point_of o') \<and>
         (\<forall>o' \<in> set obs. ob_competence_established o' \<longrightarrow> \<not> dominating (point_of o') p)"
      by (rule points(1))
    show "\<forall>o' \<in> set obs. ob_competence_established o' \<longrightarrow> (\<exists>p \<in> set (rf_points f). cost_le (pt_costs p) (ob_costs o'))"
      by (rule points(2))
    fix obs' assume "set obs' = set obs"
    then have "deduplicate_observations obs' = deduplicate_observations obs"
      using deduplicate_observations_unique [OF d(1)] d(1) by simp
    then show "derive_recovery_frontier branch pins obs' = Inr f"
      using f by (simp add: derive_recovery_frontier_def)
  qed
next
  case False
  have "\<not> is_ok (derive_recovery_frontier branch pins obs)"
  proof (cases "deduplicate_observations obs")
    case (Inr d)
    then show ?thesis using derive_recovery_frontier_guards(2) [OF Inr assms(2)] False by blast
  qed (simp add: derive_recovery_frontier_def)
  then show ?thesis using False by (auto simp: is_ok_iff)
qed

section \<open>Strict advantage\<close>

lemma scan_found:
  "fst (scan v rs) \<noteq> None \<longleftrightarrow> (\<exists>r \<in> set rs. no_worse (pt_costs r) v)"
  by (induction rs) (auto simp: scan_def)

lemma length_filter_eq_iff: "length (filter P xs) = length xs \<longleftrightarrow> (\<forall>x \<in> set xs. P x)"
proof (induction xs)
  case (Cons x xs)
  have "length (filter P xs) \<noteq> Suc (length xs)" using length_filter_le [of P xs] by linarith
  with Cons show ?case by auto
qed simp

lemma covering_complete:
  "length (covering bs (map (\<lambda>p. scan (pt_costs p) rs) bs)) = length bs \<longleftrightarrow>
     (\<forall>b \<in> set bs. \<exists>r \<in> set rs. no_worse (pt_costs r) (pt_costs b))"
proof -
  have "length (covering bs (map (\<lambda>p. scan (pt_costs p) rs) bs)) = length (filter (\<lambda>p. fst (scan (pt_costs p) rs) \<noteq> None) bs)"
    using covering_ids [of bs rs] by (metis length_map)
  moreover have "length (filter (\<lambda>p. fst (scan (pt_costs p) rs) \<noteq> None) bs) = length bs \<longleftrightarrow>
      (\<forall>b \<in> set bs. fst (scan (pt_costs b) rs) \<noteq> None)"
    by (simp add: length_filter_eq_iff)
  ultimately show ?thesis by (simp only: scan_found)
qed

lemma covering_strict:
  "list_ex cov_strict (covering bs (map (\<lambda>p. scan (pt_costs p) rs) bs)) \<longleftrightarrow>
     (\<exists>b \<in> set bs. \<exists>r. List.find (\<lambda>r. no_worse (pt_costs r) (pt_costs b)) rs = Some r \<and> \<not> no_worse (pt_costs b) (pt_costs r))"
  by (induction bs) (auto simp: covering_Nil covering_Cons scan_def split: option.splits)

lemma ordered_pairs_total: "x \<in> set xs \<Longrightarrow> y \<in> set xs \<Longrightarrow> x \<noteq> y \<Longrightarrow> (x, y) \<in> set (ordered_pairs xs) \<or> (y, x) \<in> set (ordered_pairs xs)"
  by (induction xs) auto

lemma sound_frontier_incomparable:
  assumes "sound_frontier f" "x \<in> set (rf_points f)" "y \<in> set (rf_points f)" "x \<noteq> y"
  shows "incomparable_costs (pt_costs x) (pt_costs y)"
  using ordered_pairs_total [OF assms(2-4)] assms(1) unfolding sound_frontier_def incomparable_costs_def by blast

text \<open>All points of a lawful pair of valid frontiers are on the axes of the common budget.\<close>

lemma lawful_pair_axes:
  assumes "lawful_pair b r" "valid_recovery_frontier b" "valid_recovery_frontier r"
  shows "on_axes (pin_budget (rf_pins b)) (set (rf_points b) \<union> set (rf_points r))"
  using assms valid_vector_positive
  unfolding on_axes_def lawful_pair_def sound_frontier_def valid_recovery_frontier_def list_all_iff by auto

lemma strict_scan_iff:
  assumes "lawful_pair b r" "valid_recovery_frontier b" "valid_recovery_frontier r" "p \<in> set (rf_points b)"
  shows "(\<exists>x. List.find (\<lambda>x. no_worse (pt_costs x) (pt_costs p)) (rf_points r) = Some x \<and> \<not> no_worse (pt_costs p) (pt_costs x)) \<longleftrightarrow>
    (\<exists>x \<in> set (rf_points r). dominating x p)"
proof
  note axes = on_axesD [OF lawful_pair_axes [OF assms(1-3)]]
  have le: "no_worse (pt_costs x) (pt_costs y) \<longleftrightarrow> cost_le (pt_costs x) (pt_costs y)"
    if "x \<in> set (rf_points b) \<union> set (rf_points r)" "y \<in> set (rf_points b) \<union> set (rf_points r)" for x y
    by (rule no_worse_iff, rule axes [OF that])
  {
    assume "\<exists>x. List.find (\<lambda>x. no_worse (pt_costs x) (pt_costs p)) (rf_points r) = Some x \<and> \<not> no_worse (pt_costs p) (pt_costs x)"
    then obtain x where x: "x \<in> set (rf_points r)" "no_worse (pt_costs x) (pt_costs p)" "\<not> no_worse (pt_costs p) (pt_costs x)"
      using find_mem by metis
    then show "\<exists>x \<in> set (rf_points r). dominating x p"
      using le assms(4) cost_le_refl [of "pt_costs p" "pt_costs x"] by (auto simp: dominating_def)
  next
    assume "\<exists>x \<in> set (rf_points r). dominating x p"
    then obtain x where x: "x \<in> set (rf_points r)" "dominating x p" by blast
    then have "no_worse (pt_costs x) (pt_costs p)" using le assms(4) by (simp add: dominating_def)
    then obtain y where y: "List.find (\<lambda>x. no_worse (pt_costs x) (pt_costs p)) (rf_points r) = Some y"
      using x(1) by (metis find_None_iff not_None_eq)
    then have ry: "y \<in> set (rf_points r)" "no_worse (pt_costs y) (pt_costs p)" using find_mem [OF y] by simp_all
    have "\<not> no_worse (pt_costs p) (pt_costs y)"
    proof
      assume "no_worse (pt_costs p) (pt_costs y)"
      then have "amounts (pt_costs p) = amounts (pt_costs y)" using le ry assms(4) by (intro cost_le_antisym) auto
      then have xy: "dominating x y" using x(2) by (simp add: dominating_def)
      then have "x \<noteq> y" using cost_order.irrefl by blast
      then have "\<not> no_worse (pt_costs x) (pt_costs y)"
        using sound_frontier_incomparable [of r x y] assms(1) x(1) ry(1)
        unfolding lawful_pair_def incomparable_costs_def by blast
      moreover have "no_worse (pt_costs x) (pt_costs y)"
        using xy le [of x y] x(1) ry(1) unfolding dominating_def by blast
      ultimately show False by blast
    qed
    with y show "\<exists>x. List.find (\<lambda>x. no_worse (pt_costs x) (pt_costs p)) (rf_points r) = Some x \<and> \<not> no_worse (pt_costs p) (pt_costs x)"
      by blast
  }
qed

text \<open>C13: What a strict advantage means. In every comparison record that can be built, the outcome is a strict advantage
  exactly when the baseline frontier has a point, every one of its points is matched by a retained point that costs
  no more on any axis, and some baseline point is strictly dominated by a retained one; which
  covering point the scan meets first does not matter. The coverage then names every baseline point once, in
  order, and with any other outcome it is empty.\<close>

theorem strict_advantage_iff_pareto:
  assumes "valid_comparison c"
  shows "(rc_outcome c = StrictAdvantage \<longleftrightarrow> rf_points (rc_baseline_frontier c) \<noteq> [] \<and>
      (\<forall>p \<in> set (rf_points (rc_baseline_frontier c)). \<exists>r \<in> set (rf_points (rc_retained_frontier c)).
         cost_le (pt_costs r) (pt_costs p)) \<and>
      (\<exists>p \<in> set (rf_points (rc_baseline_frontier c)). \<exists>r \<in> set (rf_points (rc_retained_frontier c)). dominating r p)) \<and>
    map cov_baseline_observation_id (rc_coverage c) =
      (if rc_outcome c = StrictAdvantage then map pt_observation_id (rf_points (rc_baseline_frontier c)) else [])"
proof -
  let ?b = "rc_baseline_frontier c" and ?r = "rc_retained_frontier c"
  let ?cov = "covering (rf_points ?b) (scans_of ?b ?r)"
  have v: "lawful_pair ?b ?r" "valid_recovery_frontier ?b" "valid_recovery_frontier ?r"
      "(rc_outcome c, rc_coverage c) = conclusion ?b ?r"
    using assms by (simp_all add: valid_comparison_iff valid_comparison_shape_def)
  have le: "no_worse (pt_costs r) (pt_costs p) \<longleftrightarrow> cost_le (pt_costs r) (pt_costs p)"
    if "p \<in> set (rf_points ?b)" "r \<in> set (rf_points ?r)" for p r
    using that by (intro no_worse_iff on_axesD [OF lawful_pair_axes [OF v(1-3)]]) auto
  have complete: "length ?cov = length (rf_points ?b) \<longleftrightarrow>
      (\<forall>p \<in> set (rf_points ?b). \<exists>r \<in> set (rf_points ?r). cost_le (pt_costs r) (pt_costs p))"
    unfolding scans_of_def covering_complete using le by blast
  have strict: "list_ex cov_strict ?cov \<longleftrightarrow> (\<exists>p \<in> set (rf_points ?b). \<exists>r \<in> set (rf_points ?r). dominating r p)"
    unfolding scans_of_def covering_strict using strict_scan_iff [OF v(1-3)] by blast
  have "map cov_baseline_observation_id ?cov = map pt_observation_id (rf_points ?b)" if "length ?cov = length (rf_points ?b)"
  proof -
    have "filter (\<lambda>p. fst (scan (pt_costs p) (rf_points ?r)) \<noteq> None) (rf_points ?b) = rf_points ?b"
      using that unfolding scans_of_def covering_complete by (simp only: scan_found [symmetric] filter_id_conv)
    then show ?thesis unfolding scans_of_def covering_ids by simp
  qed
  then show ?thesis
    using v(4) unfolding complete [symmetric] strict [symmetric] conclusion_def conclude_def by (simp split: if_splits)
qed

section \<open>An example\<close>

definition example_vector :: "int \<Rightarrow> int \<Rightarrow> int \<Rightarrow> cost_vector" where
  "example_vector steps time den =
    [\<lparr>co_axis = \<lparr>ax_id = ''steps'', ax_unit_id = ''count''\<rparr>, co_numerator = steps, co_denominator = 1\<rparr>,
     \<lparr>co_axis = \<lparr>ax_id = ''time'', ax_unit_id = ''s''\<rparr>, co_numerator = time, co_denominator = den\<rparr>]"

definition example_digest :: digest where
  "example_digest = replicate 64 CHR ''0''"

lemma example_digest_valid: "valid_sha256 example_digest"
  by (simp add: valid_sha256_def example_digest_def list_all_iff)

definition example_pins :: recovery_pins where
  "example_pins = \<lparr>pin_scope_fingerprint = ''scope'', pin_target_competence_id = ''target'',
     pin_finite_universe_hash = example_digest, pin_binding_revision = ''b1'', pin_protected_horizon_id = ''h1'',
     pin_evaluator_id = ''ev'', pin_evaluator_version = ''1'', pin_evidence_access_id = ''acc'',
     pin_evidence_access_version = ''1'', pin_budget_id = ''bud'', pin_budget_version = ''1'',
     pin_budget = example_vector 10 10 1, pin_recovery_protocol_id = ''prot'', pin_recovery_protocol_version = ''1'',
     pin_comparison_policy_id = ''cmp'', pin_comparison_policy_version = ''1''\<rparr>"

definition example_check :: check_reference where
  "example_check = \<lparr>ref_evidence_id = ''e1'', ref_checker_verdict_id = ''v1''\<rparr>"

definition example_observation :: "ident \<Rightarrow> recovery_branch \<Rightarrow> cost_vector \<Rightarrow> recovery_observation" where
  "example_observation i branch costs = \<lparr>ob_id = i, ob_branch = branch, ob_reacquisition_request_id = ''req'',
     ob_child_inquiry_id = ''child'', ob_child_prefix_sequence = 3, ob_child_prefix_digest = example_digest,
     ob_retention_package_id = (if branch = RetainedBranch then Some ''pkg'' else None), ob_pins = example_pins,
     ob_costs = costs, ob_logical_probe_ids = [''p1''], ob_effect_request_ids = [], ob_measurement_check = example_check,
     ob_competence_established = True, ob_competence_check = Some example_check\<rparr>"

definition example_baseline :: "recovery_observation list" where
  "example_baseline = [example_observation ''o2'' BaselineBranch (example_vector 6 5 1),
     example_observation ''o1'' BaselineBranch (example_vector 4 7 2)]"

definition example_retained :: "recovery_observation list" where
  "example_retained = [example_observation ''r1'' RetainedBranch (example_vector 2 7 2)]"

lemmas example_recovery_defs = example_vector_def example_pins_def example_check_def example_observation_def
  example_baseline_def example_retained_def

lemma example_recovery_valid:
  "valid_pins example_pins" "\<forall>o' \<in> set example_baseline. valid_observation o'"
  "\<forall>o' \<in> set example_retained. valid_observation o'" "valid_check_reference example_check"
  by (simp_all add: example_recovery_defs valid_pins_def valid_observation_def valid_vector_def valid_coordinate_def
    valid_axis_def example_digest_valid valid_defs canonical_def axis_signature_def exact_count_def valid_check_reference_def)

definition example_baseline_frontier :: recovery_frontier where
  "example_baseline_frontier = \<lparr>rf_branch = BaselineBranch, rf_pins = example_pins, rf_source_observation_ids = [''o1'', ''o2''],
     rf_points = [\<lparr>pt_observation_id = ''o1'', pt_costs = example_vector 4 7 2\<rparr>]\<rparr>"

definition example_retained_frontier :: recovery_frontier where
  "example_retained_frontier = \<lparr>rf_branch = RetainedBranch, rf_pins = example_pins, rf_source_observation_ids = [''r1''],
     rf_points = [\<lparr>pt_observation_id = ''r1'', pt_costs = example_vector 2 7 2\<rparr>]\<rparr>"

definition example_comparison :: recovery_comparison where
  "example_comparison = \<lparr>rc_comparison_id = ''cmp'', rc_baseline_frontier = example_baseline_frontier,
     rc_retained_frontier = example_retained_frontier, rc_outcome = StrictAdvantage,
     rc_coverage = [\<lparr>cov_baseline_observation_id = ''o1'', cov_retained_observation_id = ''r1'', cov_strict = True\<rparr>],
     rc_comparison_check = example_check\<rparr>"

lemma example_recovery_run:
  "derive_recovery_frontier BaselineBranch example_pins example_baseline = Inr example_baseline_frontier \<and>
   derive_recovery_frontier RetainedBranch example_pins example_retained = Inr example_retained_frontier \<and>
   valid_recovery_frontier example_baseline_frontier \<and> valid_recovery_frontier example_retained_frontier \<and>
   is_ok (evaluate_frontiers example_baseline_frontier example_retained_frontier) \<and> valid_comparison example_comparison"
  by code_simp

theorem derived_frontier_is_pareto_witness:
  "valid_pins example_pins \<and> list_all valid_observation example_baseline \<and>
   frontier_sources BaselineBranch example_pins (set example_baseline) \<and>
   derive_recovery_frontier BaselineBranch example_pins (rev example_baseline) = Inr example_baseline_frontier"
  using derived_frontier_is_pareto [OF example_recovery_valid(1,2), of BaselineBranch] example_recovery_valid(1,2)
    example_recovery_run unfolding list_all_iff by (metis is_ok_simps(1) set_rev)

theorem strict_advantage_iff_pareto_witness:
  "valid_comparison example_comparison \<and> (\<exists>p \<in> set (rf_points example_baseline_frontier).
     \<exists>r \<in> set (rf_points example_retained_frontier). dominating r p)"
  using strict_advantage_iff_pareto [of example_comparison] example_recovery_run
  by (simp add: example_comparison_def)

theorem comparison_checker_agrees_with_builder_witness:
  "valid_recovery_frontier example_baseline_frontier \<and> valid_recovery_frontier example_retained_frontier \<and>
   is_ok (compare_recovery_frontiers ''cmp'' example_baseline_frontier example_retained_frontier example_check)"
proof -
  have "valid_identifier ''cmp''" by (simp add: valid_defs)
  then show ?thesis
    using comparison_checker_agrees_with_builder [of example_comparison "''cmp''" example_baseline_frontier
        example_retained_frontier example_check] example_recovery_valid(4) example_recovery_run
    by simp
qed

end
