(* ===== verification/Rci_Retrieval.thy ===== *)
theory Rci_Retrieval
  imports Rci_Memory Rci_Planning
begin

text \<open>
  Structural retrieval over retention packages (\<open>memory/retrieval.py\<close>): the allowlisted policy, the fingerprint
  of the index, matching, ranking and the rejection of stale references. The dict \<open>owned_fingerprints\<close> is an
  association list with distinct keys. The theorems say that retrieval returns the best ranked fresh matches
  and nothing else, and which packages match.
\<close>

section \<open>Policy and index\<close>

type_synonym fingerprints = "(string \<times> digest) list"

definition all_record_types :: "owned_record_type list" where
  "all_record_types = [ProbeEventType, LemmaVersionType, SemanticDeltaType, ProbeIdentityType, RetentionPackageType,
     ReacquisitionScaffoldType, RecoveryProtocolType, EvidenceType, CheckerVerdictType, WarrantDecisionType,
     EffectRequestType, ExternalReturnType, ReconstructionType, PredictionSealType]"

definition STRUCTURAL_EXACT_V1 :: retrieval_policy where
  "STRUCTURAL_EXACT_V1 = \<lparr>rp_id = ''structural-exact-v1'', rp_version = ''1'', rp_max_results = 100,
     rp_rank_components = default_rank_components, rp_accepted_record_types = sort_key record_type_value all_record_types\<rparr>"

definition resolve_structural_retrieval_policy :: "ident \<Rightarrow> ident \<Rightarrow> retrieval_policy result" where
  "resolve_structural_retrieval_policy policy_id policy_version =
    (if (policy_id, policy_version) = (rp_id STRUCTURAL_EXACT_V1, rp_version STRUCTURAL_EXACT_V1) then Inr STRUCTURAL_EXACT_V1
     else Inl (KeyError ''unsupported structural retrieval policy''))"

definition deduplicate_packages :: "retention_package list \<Rightarrow> retention_package list result" where
  "deduplicate_packages packages = map_sum id (sort_key rk_id)
     (dedup_by rk_id ''retention package identity has conflicting contents'' [] packages)"

definition structural_index_fingerprint ::
  "(string \<Rightarrow> digest) \<Rightarrow> retention_package list \<Rightarrow> fingerprints \<Rightarrow> digest result" where
  "structural_index_fingerprint sha packages owned = map_sum id (\<lambda>deduplicated.
     content_fingerprint sha ''rci.structural-retrieval-index.v1'' (JObj
       [(''packages'', JList (map (\<lambda>p. JObj [(''id'', JStr (rk_id p)), (''fingerprint'', JStr (package_fingerprint sha p))])
          deduplicated)),
        (''owned_fingerprints'', JList (map (\<lambda>(key, fp). JObj [(''key'', JStr key), (''fingerprint'', JStr fp)])
          (sort_key fst owned)))]))
     (deduplicate_packages packages)"

section \<open>Matching and ranking\<close>

definition stale_ref :: "fingerprints \<Rightarrow> owned_ref \<Rightarrow> bool" where
  "stale_ref owned r \<longleftrightarrow> map_of owned (ref_key r) \<noteq> Some (or_content_fingerprint r)"

definition has_stale_reference :: "retention_package \<Rightarrow> fingerprints \<Rightarrow> bool" where
  "has_stale_reference p owned \<longleftrightarrow> list_ex (stale_ref owned) (rk_owned_refs p)"

definition matching_references :: "retention_package \<Rightarrow> retrieval_query \<Rightarrow> retrieval_policy \<Rightarrow> owned_ref list" where
  "matching_references p q pol =
    (let query_ref_by_key = map_of (rev (map (\<lambda>r. (ref_key r, r)) (rq_reference_selectors q)));
         candidates = filter (\<lambda>r. rp_accepted_record_types pol = [] \<or> or_record_type r \<in> set (rp_accepted_record_types pol))
           (rk_owned_refs p) in
     filter (\<lambda>r. (rq_owners q = [] \<or> or_owner r \<in> set (rq_owners q)) \<and>
       (rq_record_types q = [] \<or> or_record_type r \<in> set (rq_record_types q)) \<and>
       (rq_reference_selectors q = [] \<or> query_ref_by_key (ref_key r) = Some r)) candidates)"

definition rank_of :: "retention_package \<Rightarrow> retrieval_query \<Rightarrow> retrieval_rank" where
  "rank_of p q =
    \<lparr>rank_reference = card (ref_key ` set (rk_owned_refs p) \<inter> ref_key ` set (rq_reference_selectors q)),
     rank_record_type = card (or_record_type ` set (rk_owned_refs p) \<inter> set (rq_record_types q)),
     rank_owner = card (or_owner ` set (rk_owned_refs p) \<inter> set (rq_owners q)),
     rank_cue = card (set (rk_cue_ids p) \<inter> set (rq_cue_ids q)),
     rank_tag = card (set (rk_tag_ids p) \<inter> set (rq_tag_ids q))\<rparr>"

definition rank_package :: "retention_package \<Rightarrow> retrieval_query \<Rightarrow> retrieval_policy \<Rightarrow>
    (retrieval_rank \<times> string list \<times> ident list \<times> ident list) option" where
  "rank_package p q pol =
    (let matching_refs = matching_references p q pol;
         matched_cues = sorted_list_of_set (set (rk_cue_ids p) \<inter> set (rq_cue_ids q));
         matched_tags = sorted_list_of_set (set (rk_tag_ids p) \<inter> set (rq_tag_ids q)) in
     if (rq_owners q \<noteq> [] \<or> rq_record_types q \<noteq> [] \<or> rq_reference_selectors q \<noteq> []) \<and> matching_refs = [] then None
     else if rq_cue_ids q \<noteq> [] \<and> matched_cues = [] then None
     else if rq_tag_ids q \<noteq> [] \<and> matched_tags = [] then None
     else if \<not> list_ex (\<lambda>c. rank_component_of (rank_of p q) c \<noteq> 0) (rp_rank_components pol) then None
     else Some (rank_of p q, sort (map ref_key matching_refs), matched_cues, matched_tags))"

section \<open>Retrieval\<close>

definition pinned_to :: "retrieval_query \<Rightarrow> retention_package \<Rightarrow> bool" where
  "pinned_to q p \<longleftrightarrow> rk_scope_fingerprint p = rq_scope_fingerprint q \<and> rk_binding_revision p = rq_binding_revision q \<and>
     rk_protected_horizon_id p = rq_protected_horizon_id q"

definition hit_of :: "(string \<Rightarrow> digest) \<Rightarrow> retention_package \<Rightarrow>
    retrieval_rank \<times> string list \<times> ident list \<times> ident list \<Rightarrow> retrieval_hit" where
  "hit_of sha p = (\<lambda>(rank, refs, cues, tags).
     \<lparr>hit_package_id = rk_id p, hit_package_content_fingerprint = package_fingerprint sha p, hit_rank = rank,
      hit_matched_ref_keys = refs, hit_matched_cue_ids = cues, hit_matched_tag_ids = tags\<rparr>)"

text \<open>The loop over the packages: the hits and the identities of the stale packages.\<close>

fun collect_hits :: "(string \<Rightarrow> digest) \<Rightarrow> retrieval_query \<Rightarrow> retrieval_policy \<Rightarrow> fingerprints \<Rightarrow> retention_package list \<Rightarrow>
    (retrieval_hit list \<times> ident list) result" where
  "collect_hits sha q pol owned [] = Inr ([], [])"
| "collect_hits sha q pol owned (p # ps) =
    (if \<not> pinned_to q p then collect_hits sha q pol owned ps
     else case rank_package p q pol of None \<Rightarrow> collect_hits sha q pol owned ps
     | Some ranked \<Rightarrow> if has_stale_reference p owned
         then map_sum id (apsnd ((#) (rk_id p))) (collect_hits sha q pol owned ps)
         else (case construct valid_retrieval_hit ''RetrievalHit'' (hit_of sha p ranked) of Inl e \<Rightarrow> Inl e
           | Inr hit \<Rightarrow> map_sum id (apfst ((#) hit)) (collect_hits sha q pol owned ps)))"

definition hit_order :: "retrieval_policy \<Rightarrow> retrieval_hit \<Rightarrow> int list \<times> ident" where
  "hit_order pol h = (map (\<lambda>c. - int (rank_component_of (hit_rank h) c)) (rp_rank_components pol), hit_package_id h)"

definition retrieve :: "(string \<Rightarrow> digest) \<Rightarrow> ident \<Rightarrow> retrieval_query \<Rightarrow> retrieval_policy \<Rightarrow> retention_package list \<Rightarrow>
    fingerprints \<Rightarrow> retrieval_result result" where
  "retrieve sha result_id' q pol packages owned =
    (if (rq_policy_id q, rq_policy_version q) \<noteq> (rp_id pol, rp_version pol)
     then Inl (ValueError ''retrieval query and policy identity/version do not match'')
     else if rq_limit q > rp_max_results pol then Inl (ValueError ''retrieval query limit exceeds the policy bound'')
     else if rp_accepted_record_types pol \<noteq> [] \<and> \<not> set (rq_record_types q) \<subseteq> set (rp_accepted_record_types pol)
     then Inl (ValueError ''retrieval query asks for a record type outside policy'')
     else if list_ex (stale_ref owned) (rq_reference_selectors q)
     then Inl (ValueError ''retrieval query contains a stale exact reference selector'')
     else case deduplicate_packages packages of Inl e \<Rightarrow> Inl e
     | Inr deduplicated \<Rightarrow> (case structural_index_fingerprint sha deduplicated owned of Inl e \<Rightarrow> Inl e
     | Inr actual \<Rightarrow> if rq_source_index_fingerprint q \<noteq> actual
       then Inl (ValueError ''retrieval query does not pin the current structural index'')
       else (case collect_hits sha q pol owned deduplicated of Inl e \<Rightarrow> Inl e
       | Inr (hits, stale) \<Rightarrow> construct valid_retrieval_result ''RetrievalResult''
           \<lparr>rr_id = result_id', rr_query_id = rq_id q, rr_policy_id = rp_id pol, rr_policy_version = rp_version pol,
            rr_source_sequence = rq_source_sequence q, rr_source_index_fingerprint = rq_source_index_fingerprint q,
            rr_hits = take (nat (rq_limit q)) (sort_key (hit_order pol) hits), rr_rejected_stale_package_ids = sort stale\<rparr>)))"

section \<open>Which packages match\<close>

text \<open>The declarative reading: one owned reference meets all the reference conditions of the query, and the
  cues and the tags overlap where the query has any.\<close>

definition structural_match :: "retrieval_policy \<Rightarrow> retrieval_query \<Rightarrow> retention_package \<Rightarrow> bool" where
  "structural_match pol q p \<longleftrightarrow>
     (rq_owners q = [] \<and> rq_record_types q = [] \<and> rq_reference_selectors q = [] \<or>
       (\<exists>r \<in> set (rk_owned_refs p).
         (rp_accepted_record_types pol = [] \<or> or_record_type r \<in> set (rp_accepted_record_types pol)) \<and>
         (rq_owners q = [] \<or> or_owner r \<in> set (rq_owners q)) \<and>
         (rq_record_types q = [] \<or> or_record_type r \<in> set (rq_record_types q)) \<and>
         (rq_reference_selectors q = [] \<or> r \<in> set (rq_reference_selectors q)))) \<and>
     (rq_cue_ids q = [] \<or> set (rk_cue_ids p) \<inter> set (rq_cue_ids q) \<noteq> {}) \<and>
     (rq_tag_ids q = [] \<or> set (rk_tag_ids p) \<inter> set (rq_tag_ids q) \<noteq> {})"

lemma map_of_keyed: "distinct (map key xs) \<Longrightarrow> map_of (rev (map (\<lambda>x. (key x, x)) xs)) (key x) = Some x \<longleftrightarrow> x \<in> set xs"
  by (subst map_of_eq_Some_iff) (auto simp: rev_map [symmetric] comp_def)

lemma set_matching_references:
  assumes "valid_retrieval_query q"
  shows "set (matching_references p q pol) = {r \<in> set (rk_owned_refs p).
     (rp_accepted_record_types pol = [] \<or> or_record_type r \<in> set (rp_accepted_record_types pol)) \<and>
     (rq_owners q = [] \<or> or_owner r \<in> set (rq_owners q)) \<and>
     (rq_record_types q = [] \<or> or_record_type r \<in> set (rq_record_types q)) \<and>
     (rq_reference_selectors q = [] \<or> r \<in> set (rq_reference_selectors q))}"
proof -
  have "distinct (map ref_key (rq_reference_selectors q))"
    using assms by (simp add: valid_retrieval_query_def canonical_def)
  then show ?thesis unfolding matching_references_def Let_def by (auto simp: map_of_keyed)
qed

lemma all_components: "c \<in> set default_rank_components"
  by (cases c) (simp_all add: default_rank_components_def)

lemma rank_nonzero:
  "rank_component_of (rank_of p q) ReferenceMatch \<noteq> 0 \<longleftrightarrow> ref_key ` set (rk_owned_refs p) \<inter> ref_key ` set (rq_reference_selectors q) \<noteq> {}"
  "rank_component_of (rank_of p q) RecordTypeMatch \<noteq> 0 \<longleftrightarrow> or_record_type ` set (rk_owned_refs p) \<inter> set (rq_record_types q) \<noteq> {}"
  "rank_component_of (rank_of p q) OwnerMatch \<noteq> 0 \<longleftrightarrow> or_owner ` set (rk_owned_refs p) \<inter> set (rq_owners q) \<noteq> {}"
  "rank_component_of (rank_of p q) CueMatch \<noteq> 0 \<longleftrightarrow> set (rk_cue_ids p) \<inter> set (rq_cue_ids q) \<noteq> {}"
  "rank_component_of (rank_of p q) TagMatch \<noteq> 0 \<longleftrightarrow> set (rk_tag_ids p) \<inter> set (rq_tag_ids q) \<noteq> {}"
  by (simp_all add: rank_of_def)

text \<open>A match of a nonempty query always scores on some component.\<close>

lemma match_scores:
  assumes "valid_retrieval_query q" "structural_match pol q p"
  shows "\<exists>c. rank_component_of (rank_of p q) c \<noteq> 0"
proof (cases "rq_owners q = [] \<and> rq_record_types q = [] \<and> rq_reference_selectors q = []")
  case True
  then have "rq_cue_ids q \<noteq> [] \<or> rq_tag_ids q \<noteq> []" using assms(1) unfolding valid_retrieval_query_def by blast
  then show ?thesis using assms(2) rank_nonzero(4,5) unfolding structural_match_def by metis
next
  case False
  then obtain r where r: "r \<in> set (rk_owned_refs p)" "rq_owners q = [] \<or> or_owner r \<in> set (rq_owners q)"
      "rq_record_types q = [] \<or> or_record_type r \<in> set (rq_record_types q)"
      "rq_reference_selectors q = [] \<or> r \<in> set (rq_reference_selectors q)"
    using assms(2) unfolding structural_match_def by blast
  then have "or_owner ` set (rk_owned_refs p) \<inter> set (rq_owners q) \<noteq> {} \<or>
      or_record_type ` set (rk_owned_refs p) \<inter> set (rq_record_types q) \<noteq> {} \<or>
      ref_key ` set (rk_owned_refs p) \<inter> ref_key ` set (rq_reference_selectors q) \<noteq> {}"
    using False by blast
  then show ?thesis using rank_nonzero(1-3) by metis
qed

text \<open>C30: The packages that structural retrieval ranks. Under a policy that ranks by all five components, as the allowlisted
  one does, a package gets a rank for a valid query exactly when one single owned reference meets every
  reference condition of the query and cues and tags overlap where they are asked for: the rank
  never drops a match, and the conditions on owner, record type and exact reference are never met by
  different references of the package.\<close>

theorem rank_package_iff_match:
  assumes "valid_retrieval_query q" "set (rp_rank_components pol) = set default_rank_components"
  shows "rank_package p q pol \<noteq> None \<longleftrightarrow> structural_match pol q p"
proof -
  have refs: "matching_references p q pol = [] \<longleftrightarrow> \<not> (\<exists>r \<in> set (rk_owned_refs p).
     (rp_accepted_record_types pol = [] \<or> or_record_type r \<in> set (rp_accepted_record_types pol)) \<and>
     (rq_owners q = [] \<or> or_owner r \<in> set (rq_owners q)) \<and>
     (rq_record_types q = [] \<or> or_record_type r \<in> set (rq_record_types q)) \<and>
     (rq_reference_selectors q = [] \<or> r \<in> set (rq_reference_selectors q)))"
    using set_matching_references [OF assms(1), of p pol] by (auto simp flip: set_empty)
  have "list_ex (\<lambda>c. rank_component_of (rank_of p q) c \<noteq> 0) (rp_rank_components pol) \<longleftrightarrow>
      (\<exists>c. rank_component_of (rank_of p q) c \<noteq> 0)"
    using all_components by (auto simp: list_ex_iff assms(2))
  then show ?thesis
    using match_scores [OF assms(1), of pol p]
    unfolding rank_package_def Let_def refs structural_match_def by (auto simp: sorted_list_of_set_eq_Nil_iff)
qed

section \<open>The result of retrieval\<close>

definition admissible_query ::
  "(string \<Rightarrow> digest) \<Rightarrow> retrieval_query \<Rightarrow> retrieval_policy \<Rightarrow> retention_package list \<Rightarrow> fingerprints \<Rightarrow> bool" where
  "admissible_query sha q pol packages owned \<longleftrightarrow> rq_policy_id q = rp_id pol \<and> rq_policy_version q = rp_version pol \<and>
     rq_limit q \<le> rp_max_results pol \<and>
     (rp_accepted_record_types pol = [] \<or> set (rq_record_types q) \<subseteq> set (rp_accepted_record_types pol)) \<and>
     (\<forall>r \<in> set (rq_reference_selectors q). \<not> stale_ref owned r) \<and> consistent_by rk_id (set packages) \<and>
     structural_index_fingerprint sha packages owned = Inr (rq_source_index_fingerprint q)"

definition found_by :: "retrieval_query \<Rightarrow> retrieval_policy \<Rightarrow> retention_package \<Rightarrow> bool" where
  "found_by q pol p \<longleftrightarrow> pinned_to q p \<and> rank_package p q pol \<noteq> None"

definition hit_for :: "(string \<Rightarrow> digest) \<Rightarrow> retrieval_query \<Rightarrow> retrieval_policy \<Rightarrow> retention_package \<Rightarrow> retrieval_hit" where
  "hit_for sha q pol p = hit_of sha p (the (rank_package p q pol))"

definition lawful_hits ::
  "(string \<Rightarrow> digest) \<Rightarrow> retrieval_query \<Rightarrow> retrieval_policy \<Rightarrow> fingerprints \<Rightarrow> retention_package list \<Rightarrow> retrieval_hit list" where
  "lawful_hits sha q pol owned ps = map (hit_for sha q pol) (filter (\<lambda>p. found_by q pol p \<and> \<not> has_stale_reference p owned) ps)"

definition stale_packages :: "retrieval_query \<Rightarrow> retrieval_policy \<Rightarrow> fingerprints \<Rightarrow> retention_package list \<Rightarrow> ident list" where
  "stale_packages q pol owned ps = map rk_id (filter (\<lambda>p. found_by q pol p \<and> has_stale_reference p owned) ps)"

lemma matching_references_filter: "\<exists>P. matching_references p q pol = filter P (rk_owned_refs p)"
  unfolding matching_references_def Let_def filter_filter by blast

lemma hit_valid:
  assumes "hex_digests sha" "valid_package p" "rank_package p q pol = Some ranked"
  shows "valid_retrieval_hit (hit_of sha p ranked)"
proof -
  obtain P where P: "matching_references p q pol = filter P (rk_owned_refs p)" using matching_references_filter by blast
  have v: "canonical (map ref_key (rk_owned_refs p))" "valid_identifier (rk_id p)" "list_all valid_identifier (rk_cue_ids p)"
      "list_all valid_identifier (rk_tag_ids p)"
    using assms(2) by (simp_all add: valid_package_def)
  then have "canonical (sort (map ref_key (matching_references p q pol)))"
    by (simp add: P canonical_iff distinct_map_filter)
  moreover have "valid_sha256 (package_fingerprint sha p)"
    using assms(1) by (simp add: hex_digests_def package_fingerprint_def content_fingerprint_def)
  moreover have "list_ex (\<lambda>c. rank_component_of (rank_of p q) c \<noteq> 0) (rp_rank_components pol)"
    using assms(3) unfolding rank_package_def Let_def by (simp split: if_splits)
  then have "\<exists>c \<in> set default_rank_components. rank_component_of (rank_of p q) c \<noteq> 0"
    using all_components unfolding list_ex_iff by blast
  moreover have "ranked = (rank_of p q, sort (map ref_key (matching_references p q pol)),
      sorted_list_of_set (set (rk_cue_ids p) \<inter> set (rq_cue_ids q)), sorted_list_of_set (set (rk_tag_ids p) \<inter> set (rq_tag_ids q)))"
    using assms(3) unfolding rank_package_def Let_def by (simp split: if_splits)
  ultimately show ?thesis
    using v by (auto simp: hit_of_def valid_retrieval_hit_def list_all_iff)
qed

lemma collect_hits_eq:
  assumes "hex_digests sha" "\<forall>p \<in> set ps. valid_package p"
  shows "collect_hits sha q pol owned ps = Inr (lawful_hits sha q pol owned ps, stale_packages q pol owned ps)"
  using assms(2)
proof (induction ps)
  case (Cons p ps)
  then have IH: "collect_hits sha q pol owned ps = Inr (lawful_hits sha q pol owned ps, stale_packages q pol owned ps)" by simp
  show ?case
  proof (cases "rank_package p q pol")
    case (Some ranked)
    then have "construct valid_retrieval_hit ''RetrievalHit'' (hit_of sha p ranked) = Inr (hit_of sha p ranked)"
      using hit_valid [OF assms(1) _ Some] Cons.prems by (simp add: construct_def)
    with Some IH show ?thesis by (cases ranked) (simp add: lawful_hits_def stale_packages_def found_by_def hit_for_def)
  qed (simp add: IH lawful_hits_def stale_packages_def found_by_def)
qed (simp add: lawful_hits_def stale_packages_def)

lemma take_sorted_best:
  assumes "x \<in> set xs" "x \<notin> set (take n (sort_key f xs))" "inj_on f (set xs)" "y \<in> set (take n (sort_key f xs))"
  shows "length (take n (sort_key f xs)) = n \<and> f y < f x"
proof -
  let ?s = "sort_key f xs"
  have x: "x \<in> set (drop n ?s)" using assms(1,2) append_take_drop_id [of n ?s] by (metis Un_iff set_append set_sort)
  then have "n < length ?s" by (metis drop_all empty_iff empty_set not_le)
  moreover have "sorted (map f (take n ?s @ drop n ?s))" by simp
  then have "f y \<le> f x" using x assms(4) unfolding map_append sorted_append by auto
  moreover have "y \<in> set xs" using assms(4) in_set_takeD by fastforce
  then have "f y \<noteq> f x" using assms by (metis inj_onD)
  ultimately show ?thesis by simp
qed

lemma hit_ids: "map hit_package_id (lawful_hits sha q pol owned ps) =
    map rk_id (filter (\<lambda>p. found_by q pol p \<and> \<not> has_stale_reference p owned) ps)"
  by (simp add: lawful_hits_def hit_for_def hit_of_def split_beta comp_def)

lemma deduplicate_packages_Inr:
  "deduplicate_packages ps = Inr d \<Longrightarrow> set d = set ps \<and> distinct (map rk_id d) \<and> consistent_by rk_id (set ps) \<and> sorted (map rk_id d)"
  unfolding deduplicate_packages_def by (rule sorted_dedup_Inr)

lemma deduplicate_packages_cong:
  "deduplicate_packages ps = Inr d \<Longrightarrow> set ps' = set ps \<Longrightarrow> deduplicate_packages ps' = Inr d"
  unfolding deduplicate_packages_def by (rule sorted_dedup_cong)

definition retrieved ::
  "(string \<Rightarrow> digest) \<Rightarrow> ident \<Rightarrow> retrieval_query \<Rightarrow> retrieval_policy \<Rightarrow> fingerprints \<Rightarrow> retention_package list \<Rightarrow> retrieval_result" where
  "retrieved sha i q pol owned d =
    \<lparr>rr_id = i, rr_query_id = rq_id q, rr_policy_id = rp_id pol, rr_policy_version = rp_version pol,
     rr_source_sequence = rq_source_sequence q, rr_source_index_fingerprint = rq_source_index_fingerprint q,
     rr_hits = take (nat (rq_limit q)) (sort_key (hit_order pol) (lawful_hits sha q pol owned d)),
     rr_rejected_stale_package_ids = sort (stale_packages q pol owned d)\<rparr>"

lemma retrieved_valid:
  assumes "hex_digests sha" "valid_retrieval_query q" "valid_retrieval_policy pol" "valid_identifier i"
    "\<forall>p \<in> set d. valid_package p" "distinct (map rk_id d)"
  shows "valid_retrieval_result (retrieved sha i q pol owned d)"
proof -
  let ?hits = "lawful_hits sha q pol owned d" and ?stale = "stale_packages q pol owned d"
  let ?top = "take (nat (rq_limit q)) (sort_key (hit_order pol) ?hits)"
  have ids: "distinct (map hit_package_id ?hits)" "distinct ?stale" "set (map hit_package_id ?hits) \<inter> set ?stale = {}"
    using assms(6) unfolding hit_ids stale_packages_def by (auto simp: distinct_map_filter distinct_map inj_on_def)
  have top: "set ?top \<subseteq> set ?hits" using set_take_subset by fastforce
  have "distinct (map hit_package_id (sort_key (hit_order pol) ?hits))" using ids(1) by (auto simp: distinct_map)
  then have "distinct (map hit_package_id ?top)" unfolding take_map [symmetric] by (rule distinct_take)
  moreover have "valid_retrieval_hit h" if "h \<in> set ?hits" for h
    using that assms(5) hit_valid [OF assms(1)] by (auto simp: lawful_hits_def hit_for_def found_by_def)
  moreover have "valid_identifier j" if "j \<in> set ?stale" for j
    using that assms(5) by (auto simp: stale_packages_def valid_package_def)
  moreover have "set (map hit_package_id ?top) \<inter> set ?stale = {}" using top ids(3) by auto
  ultimately show ?thesis
    using assms(2,3,4) ids(2) top
    by (auto simp: valid_retrieval_result_def retrieved_def valid_retrieval_query_def valid_retrieval_policy_def
      list_all_iff canonical_iff)
qed

lemma retrieve_Inr_iff:
  assumes "hex_digests sha" "valid_retrieval_query q" "valid_retrieval_policy pol" "valid_identifier i"
    "\<forall>p \<in> set packages. valid_package p"
  shows "retrieve sha i q pol packages owned = Inr res \<longleftrightarrow> admissible_query sha q pol packages owned \<and>
     (\<exists>d. deduplicate_packages packages = Inr d \<and> res = retrieved sha i q pol owned d)"
proof (cases "deduplicate_packages packages")
  case (Inr d)
  note d = deduplicate_packages_Inr [OF Inr]
  have "structural_index_fingerprint sha d owned = structural_index_fingerprint sha packages owned"
    using deduplicate_packages_cong [OF Inr, of d] Inr d by (simp add: structural_index_fingerprint_def)
  moreover obtain fp where fp: "structural_index_fingerprint sha packages owned = Inr fp"
    by (simp add: structural_index_fingerprint_def Inr)
  moreover have "collect_hits sha q pol owned d = Inr (lawful_hits sha q pol owned d, stale_packages q pol owned d)"
    using assms(5) d by (intro collect_hits_eq [OF assms(1)]) simp
  moreover have "construct valid_retrieval_result ''RetrievalResult'' (retrieved sha i q pol owned d) = Inr (retrieved sha i q pol owned d)"
    using retrieved_valid [OF assms(1-4)] assms(5) d by (simp add: construct_def)
  ultimately have "retrieve sha i q pol packages owned =
    (if (rq_policy_id q, rq_policy_version q) \<noteq> (rp_id pol, rp_version pol)
     then Inl (ValueError ''retrieval query and policy identity/version do not match'')
     else if rq_limit q > rp_max_results pol then Inl (ValueError ''retrieval query limit exceeds the policy bound'')
     else if rp_accepted_record_types pol \<noteq> [] \<and> \<not> set (rq_record_types q) \<subseteq> set (rp_accepted_record_types pol)
     then Inl (ValueError ''retrieval query asks for a record type outside policy'')
     else if list_ex (stale_ref owned) (rq_reference_selectors q)
     then Inl (ValueError ''retrieval query contains a stale exact reference selector'')
     else if rq_source_index_fingerprint q \<noteq> fp
     then Inl (ValueError ''retrieval query does not pin the current structural index'')
     else Inr (retrieved sha i q pol owned d))"
    by (simp only: retrieve_def Inr fp sum.case prod.case retrieved_def [symmetric])
  then show ?thesis
    using d unfolding admissible_query_def fp Inr list_ex_iff by (auto split: if_splits)
next
  case (Inl e)
  then have "\<not> consistent_by rk_id (set packages)"
    using sorted_dedup_total [of rk_id packages] unfolding deduplicate_packages_def by (metis Inl_Inr_False)
  then show ?thesis unfolding retrieve_def admissible_query_def by (simp add: Inl)
qed

lemma retrieved_best:
  assumes hits_def: "hits = rr_hits (retrieved sha i q pol owned d)"
    and "distinct (map rk_id d)" "p \<in> set d" "found_by q pol p" "\<not> has_stale_reference p owned"
    "hit_for sha q pol p \<notin> set hits" "1 \<le> rq_limit q"
  shows "length hits = nat (rq_limit q) \<and> (\<forall>h \<in> set hits. hit_order pol h < hit_order pol (hit_for sha q pol p))"
proof -
  let ?hits = "lawful_hits sha q pol owned d"
  have "distinct (map hit_package_id ?hits)" using assms(2) unfolding hit_ids by (simp add: distinct_map_filter)
  then have inj: "inj_on (hit_order pol) (set ?hits)" by (auto simp: distinct_map inj_on_def hit_order_def)
  have mem: "hit_for sha q pol p \<in> set ?hits" using assms(3-5) by (simp add: lawful_hits_def)
  have hits: "hits = take (nat (rq_limit q)) (sort_key (hit_order pol) ?hits)" by (simp add: hits_def retrieved_def)
  have best: "length hits = nat (rq_limit q) \<and> hit_order pol h < hit_order pol (hit_for sha q pol p)" if "h \<in> set hits" for h
    using take_sorted_best [OF mem assms(6) [unfolded hits] inj that [unfolded hits]] by (simp only: hits)
  moreover have "sort_key (hit_order pol) ?hits \<noteq> []" using mem by (metis empty_iff empty_set set_sort)
  then have "hits \<noteq> []" using assms(7) unfolding hits take_eq_Nil by simp
  ultimately show ?thesis by (metis list.set_intros(1) neq_Nil_conv)
qed

lemma retrieved_contents:
  "length (rr_hits (retrieved sha i q pol owned d)) \<le> nat (rq_limit q)"
  "sorted (map (hit_order pol) (rr_hits (retrieved sha i q pol owned d)))"
  "\<forall>h \<in> set (rr_hits (retrieved sha i q pol owned d)). \<exists>p \<in> set d. found_by q pol p \<and> \<not> has_stale_reference p owned \<and> h = hit_for sha q pol p"
  "set (rr_rejected_stale_package_ids (retrieved sha i q pol owned d)) = rk_id ` {p \<in> set d. found_by q pol p \<and> has_stale_reference p owned}"
proof -
  show "length (rr_hits (retrieved sha i q pol owned d)) \<le> nat (rq_limit q)" by (simp add: retrieved_def)
  show "sorted (map (hit_order pol) (rr_hits (retrieved sha i q pol owned d)))"
    by (simp add: retrieved_def sorted_wrt_take flip: take_map)
  show "\<forall>h \<in> set (rr_hits (retrieved sha i q pol owned d)). \<exists>p \<in> set d. found_by q pol p \<and> \<not> has_stale_reference p owned \<and> h = hit_for sha q pol p"
    by (auto simp: retrieved_def lawful_hits_def dest!: in_set_takeD)
  show "set (rr_rejected_stale_package_ids (retrieved sha i q pol owned d)) = rk_id ` {p \<in> set d. found_by q pol p \<and> has_stale_reference p owned}"
    by (simp add: retrieved_def stale_packages_def)
qed

text \<open>C14: \<open>retrieve\<close> is exact top-k retrieval. On valid records it succeeds exactly for queries that name
  the policy, stay within its bounds, select no stale reference and pin the current index of packages without
  conflicting identities. The result then holds at most \<open>limit\<close> hits, in the order of the policy's rank
  components and then of the package identities; each hit is the hit of a fresh package found for the query; a
  fresh package that was found but not returned is ranked behind every returned hit, and the
  limit is used up; the packages rejected as stale are exactly the ones found that own a stale
  reference; and the order and repetition of the packages have no influence.\<close>

theorem retrieve_exact:
  assumes "hex_digests sha" "valid_retrieval_query q" "valid_retrieval_policy pol" "valid_identifier i"
    "\<forall>p \<in> set packages. valid_package p"
  shows "(is_ok (retrieve sha i q pol packages owned) \<longleftrightarrow> admissible_query sha q pol packages owned) \<and>
    (\<forall>res. retrieve sha i q pol packages owned = Inr res \<longrightarrow>
      length (rr_hits res) \<le> nat (rq_limit q) \<and> sorted (map (hit_order pol) (rr_hits res)) \<and>
      (\<forall>h \<in> set (rr_hits res). \<exists>p \<in> set packages. found_by q pol p \<and> \<not> has_stale_reference p owned \<and> h = hit_for sha q pol p) \<and>
      (\<forall>p \<in> set packages. found_by q pol p \<and> \<not> has_stale_reference p owned \<and> hit_for sha q pol p \<notin> set (rr_hits res) \<longrightarrow>
        length (rr_hits res) = nat (rq_limit q) \<and> (\<forall>h \<in> set (rr_hits res). hit_order pol h < hit_order pol (hit_for sha q pol p))) \<and>
      set (rr_rejected_stale_package_ids res) = rk_id ` {p \<in> set packages. found_by q pol p \<and> has_stale_reference p owned} \<and>
      (\<forall>packages'. set packages' = set packages \<longrightarrow> retrieve sha i q pol packages' owned = Inr res))"
proof (intro conjI allI impI)
  note iff = retrieve_Inr_iff [OF assms]
  show "is_ok (retrieve sha i q pol packages owned) \<longleftrightarrow> admissible_query sha q pol packages owned"
  proof
    assume "is_ok (retrieve sha i q pol packages owned)"
    then show "admissible_query sha q pol packages owned" unfolding is_ok_iff iff by blast
  next
    assume a: "admissible_query sha q pol packages owned"
    then obtain d where "deduplicate_packages packages = Inr d"
      using sorted_dedup_total unfolding admissible_query_def deduplicate_packages_def by blast
    with a show "is_ok (retrieve sha i q pol packages owned)" unfolding is_ok_iff iff by blast
  qed
  fix res assume res: "retrieve sha i q pol packages owned = Inr res"
  then obtain d where d: "deduplicate_packages packages = Inr d" "res = retrieved sha i q pol owned d"
      and adm: "admissible_query sha q pol packages owned" unfolding iff by blast
  note set_d = deduplicate_packages_Inr [OF d(1)]
  note contents = retrieved_contents [where sha = sha and i = i and q = q and pol = pol and owned = owned and d = d, folded d(2)]
  show "length (rr_hits res) \<le> nat (rq_limit q)" "sorted (map (hit_order pol) (rr_hits res))" by (rule contents)+
  show "\<forall>h \<in> set (rr_hits res). \<exists>p \<in> set packages. found_by q pol p \<and> \<not> has_stale_reference p owned \<and> h = hit_for sha q pol p"
    using contents(3) set_d by simp
  show "set (rr_rejected_stale_package_ids res) = rk_id ` {p \<in> set packages. found_by q pol p \<and> has_stale_reference p owned}"
    using contents(4) set_d by simp
  show "\<forall>p \<in> set packages. found_by q pol p \<and> \<not> has_stale_reference p owned \<and> hit_for sha q pol p \<notin> set (rr_hits res) \<longrightarrow>
      length (rr_hits res) = nat (rq_limit q) \<and> (\<forall>h \<in> set (rr_hits res). hit_order pol h < hit_order pol (hit_for sha q pol p))"
    using retrieved_best [OF refl] set_d assms(2) unfolding valid_retrieval_query_def d(2) by blast
  fix packages' assume same: "set packages' = set packages"
  have d': "deduplicate_packages packages' = Inr d" by (rule deduplicate_packages_cong [OF d(1) same])
  then have "admissible_query sha q pol packages' owned"
    using adm same d(1) by (simp add: admissible_query_def structural_index_fingerprint_def)
  then show "retrieve sha i q pol packages' owned = Inr res"
    using retrieve_Inr_iff [OF assms(1-4), of packages' owned res] assms(5) same d' d(2) by blast
qed

section \<open>An example\<close>

definition example_ref :: owned_ref where
  "example_ref = \<lparr>or_owner = SemanticOwner, or_record_type = LemmaVersionType, or_record_id = ''lemma-1'',
     or_record_schema_version = 1, or_content_fingerprint = zero_digest []\<rparr>"

definition example_package :: "ident \<Rightarrow> ident list \<Rightarrow> retention_package" where
  "example_package i cues = \<lparr>rk_id = i, rk_scope_fingerprint = ''scope'', rk_binding_revision = ''b1'',
     rk_protected_horizon_id = ''h1'', rk_owned_refs = [example_ref], rk_cue_ids = cues, rk_tag_ids = [],
     rk_direct_use_route_ids = [''route''], rk_reconstruction_route_ids = [], rk_consequence_evaluation_route_ids = [],
     rk_reacquisition_route_ids = [], rk_scaffold_ids = [], rk_recovery_protocol_ids = [], rk_provenance_refs = [''src'']\<rparr>"

definition example_query :: retrieval_query where
  "example_query = \<lparr>rq_id = ''q'', rq_policy_id = ''structural-exact-v1'', rq_policy_version = ''1'',
     rq_scope_fingerprint = ''scope'', rq_binding_revision = ''b1'', rq_protected_horizon_id = ''h1'', rq_source_sequence = 4,
     rq_source_index_fingerprint = zero_digest [], rq_owners = [SemanticOwner], rq_record_types = [], rq_reference_selectors = [],
     rq_cue_ids = [''c''], rq_tag_ids = [], rq_limit = 1\<rparr>"

definition example_packages :: "retention_package list" where
  "example_packages = [example_package ''k2'' [''c''], example_package ''k1'' [''b'', ''c''], example_package ''k0'' [''b'']]"

definition example_index :: fingerprints where
  "example_index = [(ref_key example_ref, zero_digest [])]"

lemma example_query_evaluates:
  "valid_retrieval_query example_query \<and> valid_retrieval_policy STRUCTURAL_EXACT_V1 \<and> valid_identifier ''r'' \<and>
   list_all valid_package example_packages \<and> admissible_query zero_digest example_query STRUCTURAL_EXACT_V1 example_packages example_index \<and>
   structural_match STRUCTURAL_EXACT_V1 example_query (example_package ''k1'' [''b'', ''c''])"
  by code_simp

lemma structural_exact_components: "rp_rank_components STRUCTURAL_EXACT_V1 = default_rank_components"
  unfolding STRUCTURAL_EXACT_V1_def by (rule retrieval_policy.select_convs)

theorem rank_package_iff_match_witness:
  "valid_retrieval_query example_query \<and>
   rank_package (example_package ''k1'' [''b'', ''c'']) example_query STRUCTURAL_EXACT_V1 \<noteq> None"
  using rank_package_iff_match [of example_query STRUCTURAL_EXACT_V1 "example_package ''k1'' [''b'', ''c'']"] example_query_evaluates
    structural_exact_components by metis

theorem retrieve_exact_witness:
  "admissible_query zero_digest example_query STRUCTURAL_EXACT_V1 example_packages example_index \<and>
   is_ok (retrieve zero_digest ''r'' example_query STRUCTURAL_EXACT_V1 example_packages example_index)"
  using retrieve_exact [OF zero_digest_hex, of example_query STRUCTURAL_EXACT_V1 "''r''" example_packages example_index]
    example_query_evaluates
  unfolding list_all_iff by blast

end
