(* ===== verification/Rci_Probes.thy ===== *)
theory Rci_Probes
  imports Rci_Memory Rci_Planning
begin

text \<open>
  Recurrent probes, their traces and semantic fields: the records of \<open>probes/models.py\<close> and the pure transformations of
  \<open>probes/lifecycle.py\<close>. The fields of these records are plain strings; only the emptiness that the
  validators test is refused. \<open>model_copy\<close> of a frozen record does not run its validators, so an appended
  trace is returned as it is.
\<close>

section \<open>Probes and their events\<close>

record probe_identity =
  pi_question_contract_key :: string
  pi_relational_role :: string
  pi_binding_schema_id :: string
  pi_binding_revision :: string
  pi_scope_fingerprint :: string
  pi_comparison_semantics_id :: string
  pi_applicability_guard_id :: string
  pi_protected_horizon_id :: string

definition valid_probe_identity :: "probe_identity \<Rightarrow> bool" where
  "valid_probe_identity i \<longleftrightarrow> [] \<notin> set [pi_question_contract_key i, pi_relational_role i, pi_binding_schema_id i,
     pi_binding_revision i, pi_scope_fingerprint i, pi_comparison_semantics_id i, pi_applicability_guard_id i,
     pi_protected_horizon_id i]"

definition probe_identity_json :: "probe_identity \<Rightarrow> json" where
  "probe_identity_json i = JObj
    [(''question_contract_key'', JStr (pi_question_contract_key i)), (''relational_role'', JStr (pi_relational_role i)),
     (''binding_schema_id'', JStr (pi_binding_schema_id i)), (''binding_revision'', JStr (pi_binding_revision i)),
     (''scope_fingerprint'', JStr (pi_scope_fingerprint i)),
     (''comparison_semantics_id'', JStr (pi_comparison_semantics_id i)),
     (''applicability_guard_id'', JStr (pi_applicability_guard_id i)),
     (''protected_horizon_id'', JStr (pi_protected_horizon_id i))]"

definition probe_fingerprint :: "(string \<Rightarrow> digest) \<Rightarrow> probe_identity \<Rightarrow> digest" where
  "probe_fingerprint sha i = content_fingerprint sha ''rci.probe-identity.v1'' (probe_identity_json i)"

record comparability_bridge =
  cb_from_probe_fingerprint :: string
  cb_to_probe_fingerprint :: string
  cb_comparison_proposition_id :: string
  cb_scope_fingerprint :: string
  cb_warrant_lemma_id :: string

definition valid_bridge :: "comparability_bridge \<Rightarrow> bool" where
  "valid_bridge b \<longleftrightarrow> [] \<notin> set [cb_from_probe_fingerprint b, cb_to_probe_fingerprint b, cb_comparison_proposition_id b,
     cb_scope_fingerprint b, cb_warrant_lemma_id b]"

definition bridge_connects :: "comparability_bridge \<Rightarrow> string \<Rightarrow> string \<Rightarrow> bool" where
  "bridge_connects b left right \<longleftrightarrow> {cb_from_probe_fingerprint b, cb_to_probe_fingerprint b} = {left, right}"

definition bridge_json :: "comparability_bridge \<Rightarrow> json" where
  "bridge_json b = JObj [(''from_probe_fingerprint'', JStr (cb_from_probe_fingerprint b)),
     (''to_probe_fingerprint'', JStr (cb_to_probe_fingerprint b)),
     (''comparison_proposition_id'', JStr (cb_comparison_proposition_id b)),
     (''scope_fingerprint'', JStr (cb_scope_fingerprint b)), (''warrant_lemma_id'', JStr (cb_warrant_lemma_id b))]"

datatype prior_answer_exposure = NotApplicable | WithheldUntilCapture | ExposedBeforeCapture

fun exposure_value :: "prior_answer_exposure \<Rightarrow> string" where
  "exposure_value NotApplicable = ''not_applicable''"
| "exposure_value WithheldUntilCapture = ''withheld_until_capture''"
| "exposure_value ExposedBeforeCapture = ''exposed_before_capture''"

record probe_event =
  pe_id :: string
  pe_probe_identity :: probe_identity
  pe_bound_referents :: "bound_argument list"
  pe_binding_revision :: string
  pe_state_revision :: int
  pe_semantic_field_id :: string
  pe_generated_answer_claim_id :: "string option"
  pe_external_return_ids :: "string list"
  pe_interpretation_claim_ids :: "string list"
  pe_sequence_index :: int
  pe_comparability_bridge :: "comparability_bridge option"
  pe_fresh_observation_required :: bool
  pe_prior_answer_exposure :: prior_answer_exposure

definition valid_probe_event :: "probe_event \<Rightarrow> bool" where
  "valid_probe_event e \<longleftrightarrow> valid_probe_identity (pe_probe_identity e) \<and> list_all valid_bound_argument (pe_bound_referents e) \<and>
     pred_option valid_bridge (pe_comparability_bridge e) \<and> 0 \<le> pe_state_revision e \<and> 0 \<le> pe_sequence_index e \<and>
     pe_id e \<noteq> [] \<and> pe_binding_revision e \<noteq> [] \<and> pe_semantic_field_id e \<noteq> [] \<and>
     distinct (map arg_name (pe_bound_referents e)) \<and>
     distinct (pe_external_return_ids e) \<and> distinct (pe_interpretation_claim_ids e) \<and>
     (pe_fresh_observation_required e \<longrightarrow>
       pe_external_return_ids e \<noteq> [] \<and> pe_prior_answer_exposure e = WithheldUntilCapture)"

definition probe_event_json :: "probe_event \<Rightarrow> json" where
  "probe_event_json e = JObj
    [(''id'', JStr (pe_id e)), (''probe_identity'', probe_identity_json (pe_probe_identity e)),
     (''bound_referents'', JList (map arg_json (pe_bound_referents e))),
     (''binding_revision'', JStr (pe_binding_revision e)), (''state_revision'', JInt (pe_state_revision e)),
     (''semantic_field_id'', JStr (pe_semantic_field_id e)),
     (''generated_answer_claim_id'', opt_str (pe_generated_answer_claim_id e)),
     (''external_return_ids'', str_list (pe_external_return_ids e)),
     (''interpretation_claim_ids'', str_list (pe_interpretation_claim_ids e)),
     (''sequence_index'', JInt (pe_sequence_index e)),
     (''comparability_bridge'', (case pe_comparability_bridge e of None \<Rightarrow> JNull | Some b \<Rightarrow> bridge_json b)),
     (''fresh_observation_required'', JBool (pe_fresh_observation_required e)),
     (''prior_answer_exposure'', JStr (exposure_value (pe_prior_answer_exposure e)))]"

record probe_trace =
  tr_probe_fingerprint :: string
  tr_events :: "probe_event list"
  tr_protected_horizon_id :: string
  tr_comparison_policy_id :: string
  tr_active_guard_id :: string
  tr_reopening_condition_ids :: "string list"

abbreviation event_fingerprint :: "(string \<Rightarrow> digest) \<Rightarrow> probe_event \<Rightarrow> digest" where
  "event_fingerprint sha e \<equiv> probe_fingerprint sha (pe_probe_identity e)"

definition valid_probe_trace :: "(string \<Rightarrow> digest) \<Rightarrow> probe_trace \<Rightarrow> bool" where
  "valid_probe_trace sha t \<longleftrightarrow> list_all valid_probe_event (tr_events t) \<and>
     list_all (\<lambda>e. event_fingerprint sha e = tr_probe_fingerprint t) (tr_events t) \<and>
     map pe_sequence_index (tr_events t) = sort (map pe_sequence_index (tr_events t)) \<and>
     distinct (map pe_sequence_index (tr_events t)) \<and> distinct (map pe_id (tr_events t))"

section \<open>Semantic fields\<close>

datatype relevance_status = RelevanceActive | RelevanceUndetermined | RelevanceIrrelevant

fun relevance_value :: "relevance_status \<Rightarrow> string" where
  "relevance_value RelevanceActive = ''active''"
| "relevance_value RelevanceUndetermined = ''undetermined''"
| "relevance_value RelevanceIrrelevant = ''irrelevant''"

record semantic_item =
  si_structure_id :: string
  si_relevance :: relevance_status
  si_irrelevance_warrant_id :: "string option"
  si_reopening_condition_id :: "string option"

definition valid_semantic_item :: "semantic_item \<Rightarrow> bool" where
  "valid_semantic_item i \<longleftrightarrow> si_structure_id i \<noteq> [] \<and>
     (if si_relevance i = RelevanceIrrelevant
      then si_irrelevance_warrant_id i \<noteq> None \<and> si_reopening_condition_id i \<noteq> None
      else si_irrelevance_warrant_id i = None)"

definition semantic_item_json :: "semantic_item \<Rightarrow> json" where
  "semantic_item_json i = JObj [(''structure_id'', JStr (si_structure_id i)),
     (''relevance'', JStr (relevance_value (si_relevance i))),
     (''irrelevance_warrant_id'', opt_str (si_irrelevance_warrant_id i)),
     (''reopening_condition_id'', opt_str (si_reopening_condition_id i))]"

record semantic_field =
  sf_id :: string
  sf_probe_fingerprint :: string
  sf_protected_horizon_id :: string
  sf_items :: "semantic_item list"
  sf_same_probe_history_event_ids :: "string list"
  sf_cross_probe_trace_ids :: "string list"
  sf_retrieval_result_ids :: "string list"
  sf_method_contract_ids :: "string list"
  sf_reopening_condition_ids :: "string list"

definition valid_semantic_field :: "semantic_field \<Rightarrow> bool" where
  "valid_semantic_field f \<longleftrightarrow> list_all valid_semantic_item (sf_items f) \<and> distinct (map si_structure_id (sf_items f)) \<and>
     list_all distinct [sf_same_probe_history_event_ids f, sf_cross_probe_trace_ids f, sf_retrieval_result_ids f,
       sf_method_contract_ids f, sf_reopening_condition_ids f]"

section \<open>Plans, predictions, reconstructions and deltas\<close>

record cognitive_attempt_plan =
  cp_id :: string
  cp_obligation_id :: string
  cp_probe_or_action_id :: string
  cp_effect_request_id :: string
  cp_effect_attempt_plan_id :: "string option"
  cp_source_state_revision :: int
  cp_scope_fingerprint :: string
  cp_planned_sequence :: int

definition valid_cognitive_plan :: "cognitive_attempt_plan \<Rightarrow> bool" where
  "valid_cognitive_plan p \<longleftrightarrow> 0 \<le> cp_source_state_revision p \<and> 0 \<le> cp_planned_sequence p"

record prediction_seal =
  seal_id :: string
  seal_cognitive_plan_id :: string
  seal_probe_or_action_id :: string
  seal_predicted_return_class :: string
  seal_predicted_consequence :: json
  seal_acceptable_variation :: json
  seal_scope_fingerprint :: string
  seal_basis_claim_ids :: "string list"
  seal_sealed_sequence :: int

definition valid_prediction_seal :: "prediction_seal \<Rightarrow> bool" where
  "valid_prediction_seal s \<longleftrightarrow> wf_json (seal_predicted_consequence s) \<and> is_ok (freeze_json (seal_predicted_consequence s)) \<and>
     wf_json (seal_acceptable_variation s) \<and> is_ok (freeze_json (seal_acceptable_variation s)) \<and> 0 \<le> seal_sealed_sequence s"

record mismatch =
  mm_id :: string
  mm_prediction_id :: string
  mm_external_return_id :: string
  mm_decode_outcome_id :: string
  mm_difference_claim_id :: string
  mm_scope_fingerprint :: string
  mm_protected_consequence_changed :: bool
  mm_classification :: string

definition valid_mismatch :: "mismatch \<Rightarrow> bool" where
  "valid_mismatch x \<longleftrightarrow> [] \<notin> set [mm_id x, mm_prediction_id x, mm_external_return_id x, mm_decode_outcome_id x,
     mm_difference_claim_id x, mm_scope_fingerprint x, mm_classification x]"

record reconstruction =
  rx_id :: string
  rx_prior_state_revision :: int
  rx_external_return_id :: string
  rx_decode_outcome_ids :: "string list"
  rx_activated_memory_ids :: "string list"
  rx_candidate_claim_ids :: "string list"
  rx_candidate_repair_ids :: "string list"
  rx_residual_obligation_ids :: "string list"
  rx_generated_detail_ids :: "string list"
  rx_historical_fact_ids :: "string list"
  rx_reconstructed_sequence :: int

definition valid_reconstruction :: "reconstruction \<Rightarrow> bool" where
  "valid_reconstruction r \<longleftrightarrow> 0 \<le> rx_prior_state_revision r \<and> 0 \<le> rx_reconstructed_sequence r \<and>
     set (rx_generated_detail_ids r) \<inter> set (rx_historical_fact_ids r) = {}"

record probe_reconstruction_candidate =
  px_id :: string
  px_retained_package_ids :: "string list"
  px_generated_working_structure :: json
  px_protected_consequence_class_id :: string
  px_historical_fact_ids :: "string list"
  px_generated_detail_ids :: "string list"

definition valid_probe_candidate :: "probe_reconstruction_candidate \<Rightarrow> bool" where
  "valid_probe_candidate c \<longleftrightarrow> wf_json (px_generated_working_structure c) \<and>
     is_ok (freeze_json (px_generated_working_structure c)) \<and>
     set (px_generated_detail_ids c) \<inter> set (px_historical_fact_ids c) = {}"

record probe_reconstruction_set =
  ps_cue_id :: string
  ps_protected_horizon_id :: string
  ps_candidates :: "probe_reconstruction_candidate list"

definition consequence_class_ids :: "probe_reconstruction_set \<Rightarrow> string set" where
  "consequence_class_ids s = px_protected_consequence_class_id ` set (ps_candidates s)"

definition reconstruction_resolved :: "probe_reconstruction_set \<Rightarrow> bool" where
  "reconstruction_resolved s \<longleftrightarrow> ps_candidates s \<noteq> [] \<and> card (consequence_class_ids s) = 1"

datatype change_operation = ChangeAdd | ChangeReopen | ChangeRetire

record warranted_change =
  wc_change_id :: string
  wc_proposition_id :: string
  wc_scope_fingerprint :: string
  wc_operation :: change_operation
  wc_warrant_lemma_id :: string

definition valid_warranted_change :: "warranted_change \<Rightarrow> bool" where
  "valid_warranted_change c \<longleftrightarrow>
     [] \<notin> set [wc_change_id c, wc_proposition_id c, wc_scope_fingerprint c, wc_warrant_lemma_id c]"

record semantic_delta =
  sd_id :: string
  sd_reconstruction_id :: string
  sd_warranted_changes :: "warranted_change list"
  sd_reopened_structure_ids :: "string list"
  sd_retired_structure_ids :: "string list"
  sd_committed_sequence :: int

definition valid_semantic_delta :: "semantic_delta \<Rightarrow> bool" where
  "valid_semantic_delta d \<longleftrightarrow> list_all valid_warranted_change (sd_warranted_changes d) \<and> 0 \<le> sd_committed_sequence d \<and>
     distinct (map wc_change_id (sd_warranted_changes d)) \<and>
     set (sd_reopened_structure_ids d) \<inter> set (sd_retired_structure_ids d) = {}"

section \<open>Transformations (probes/lifecycle.py)\<close>

definition compare_probe_events ::
  "(string \<Rightarrow> digest) \<Rightarrow> probe_event \<Rightarrow> probe_event \<Rightarrow> comparability_bridge option \<Rightarrow> bool" where
  "compare_probe_events sha left right bridge \<longleftrightarrow>
    (if event_fingerprint sha left = event_fingerprint sha right \<and> pe_binding_revision left = pe_binding_revision right \<and>
        pe_bound_referents left = pe_bound_referents right then True
     else (case (case bridge of Some b \<Rightarrow> Some b | None \<Rightarrow>
         (case pe_comparability_bridge right of Some b \<Rightarrow> Some b | None \<Rightarrow> pe_comparability_bridge left)) of
       None \<Rightarrow> False
     | Some b \<Rightarrow> bridge_connects b (event_fingerprint sha left) (event_fingerprint sha right)))"

definition append_probe_event :: "(string \<Rightarrow> digest) \<Rightarrow> probe_trace \<Rightarrow> probe_event \<Rightarrow> probe_trace result" where
  "append_probe_event sha trace event =
    (if event_fingerprint sha event \<noteq> tr_probe_fingerprint trace
     then Inl (ValueError ''event does not belong to this recurrent probe'')
     else if tr_events trace \<noteq> [] \<and> pe_sequence_index event \<le> pe_sequence_index (last (tr_events trace))
     then Inl (ValueError ''new probe event must follow the current trace tail'')
     else if tr_events trace \<noteq> [] \<and> \<not> compare_probe_events sha (last (tr_events trace)) event None
     then Inl (ValueError ''probe observations are not comparable without a bridge'')
     else Inr (trace\<lparr>tr_events := tr_events trace @ [event]\<rparr>))"

definition requested_irrelevance :: "semantic_item list \<Rightarrow> string set" where
  "requested_irrelevance items =
     set (List.map_filter si_irrelevance_warrant_id (filter (\<lambda>i. si_relevance i = RelevanceIrrelevant) items))"

definition required_reopening :: "semantic_item list \<Rightarrow> string set" where
  "required_reopening items =
     set (List.map_filter si_reopening_condition_id (filter (\<lambda>i. si_relevance i = RelevanceIrrelevant) items))"

text \<open>The given collections of identities of a field, in the order of the parameters.\<close>

record field_sources =
  fs_same_probe_history_event_ids :: "string list"
  fs_cross_probe_trace_ids :: "string list"
  fs_retrieval_result_ids :: "string list"
  fs_method_contract_ids :: "string list"
  fs_reopening_condition_ids :: "string list"

definition field_material ::
  "(string \<Rightarrow> digest) \<Rightarrow> probe_identity \<Rightarrow> string \<Rightarrow> semantic_item list \<Rightarrow> field_sources \<Rightarrow> string set \<Rightarrow> json" where
  "field_material sha identity horizon items sources authorized = JObj
    [(''probe'', JStr (probe_fingerprint sha identity)), (''horizon'', JStr horizon),
     (''items'', JList (map semantic_item_json items)), (''history'', str_list (fs_same_probe_history_event_ids sources)),
     (''cross_probe'', str_list (fs_cross_probe_trace_ids sources)), (''retrieval'', str_list (fs_retrieval_result_ids sources)),
     (''methods'', str_list (fs_method_contract_ids sources)), (''reopening'', str_list (fs_reopening_condition_ids sources)),
     (''authorized_irrelevance_warrants'', str_list (sorted_list_of_set authorized))]"

definition build_semantic_field ::
  "(string \<Rightarrow> digest) \<Rightarrow> probe_identity \<Rightarrow> string \<Rightarrow> semantic_item list \<Rightarrow> field_sources \<Rightarrow> string set \<Rightarrow> semantic_field result" where
  "build_semantic_field sha identity horizon items sources authorized =
    (if \<not> requested_irrelevance items \<subseteq> authorized
     then Inl (ValueError ''irrelevance requires an active checked consequence-null warrant'')
     else if \<not> required_reopening items \<subseteq> set (fs_reopening_condition_ids sources)
     then Inl (ValueError ''irrelevance reopening conditions must be pinned by the field'')
     else construct valid_semantic_field ''SemanticField''
       \<lparr>sf_id = ''field_'' @ take 24 (content_fingerprint sha ''rci.semantic-field.v1''
          (field_material sha identity horizon items sources authorized)),
        sf_probe_fingerprint = probe_fingerprint sha identity, sf_protected_horizon_id = horizon, sf_items = items,
        sf_same_probe_history_event_ids = fs_same_probe_history_event_ids sources,
        sf_cross_probe_trace_ids = fs_cross_probe_trace_ids sources,
        sf_retrieval_result_ids = fs_retrieval_result_ids sources,
        sf_method_contract_ids = fs_method_contract_ids sources,
        sf_reopening_condition_ids = fs_reopening_condition_ids sources\<rparr>)"

definition reopen_semantic_item :: "semantic_item \<Rightarrow> string \<Rightarrow> semantic_item result" where
  "reopen_semantic_item item condition =
    (if si_relevance item \<noteq> RelevanceIrrelevant then Inr item
     else if si_reopening_condition_id item \<noteq> Some condition then Inr item
     else construct valid_semantic_item ''SemanticItem''
       \<lparr>si_structure_id = si_structure_id item, si_relevance = RelevanceUndetermined, si_irrelevance_warrant_id = None,
        si_reopening_condition_id = si_reopening_condition_id item\<rparr>)"

section \<open>Traces built by appending\<close>

fun append_all :: "(string \<Rightarrow> digest) \<Rightarrow> probe_trace \<Rightarrow> probe_event list \<Rightarrow> probe_trace result" where
  "append_all sha t [] = Inr t"
| "append_all sha t (e # es) = (case append_probe_event sha t e of Inl err \<Rightarrow> Inl err | Inr t' \<Rightarrow> append_all sha t' es)"

definition lawful_events :: "(string \<Rightarrow> digest) \<Rightarrow> string \<Rightarrow> probe_event list \<Rightarrow> bool" where
  "lawful_events sha fp es \<longleftrightarrow> (\<forall>e \<in> set es. event_fingerprint sha e = fp) \<and> sorted_wrt (<) (map pe_sequence_index es) \<and>
     successively (\<lambda>x y. compare_probe_events sha x y None) es"

lemma strict_sorted_last: "sorted_wrt (<) (xs :: int list) \<Longrightarrow> x \<in> set xs \<Longrightarrow> x \<le> last xs"
  by (induction xs) (auto intro: less_imp_le)

lemma lawful_events_snoc:
  assumes "lawful_events sha fp es"
  shows "lawful_events sha fp (es @ [e]) \<longleftrightarrow> event_fingerprint sha e = fp \<and>
     (es = [] \<or> pe_sequence_index (last es) < pe_sequence_index e \<and> compare_probe_events sha (last es) e None)"
proof -
  have "(\<forall>x \<in> set es. pe_sequence_index x < pe_sequence_index e) \<longleftrightarrow> es = [] \<or> pe_sequence_index (last es) < pe_sequence_index e"
  proof (cases "es = []")
    case False
    have "pe_sequence_index x \<le> pe_sequence_index (last es)" if "x \<in> set es" for x
      using strict_sorted_last [of "map pe_sequence_index es" "pe_sequence_index x"] assms that False
      by (simp add: lawful_events_def last_map)
    then show ?thesis using False last_in_set by fastforce
  qed simp
  then show ?thesis
    using assms by (auto simp: lawful_events_def sorted_wrt_append successively_append_iff)
qed

lemma append_probe_event_iff:
  assumes "lawful_events sha (tr_probe_fingerprint t) (tr_events t)"
  shows "append_probe_event sha t e = Inr t' \<longleftrightarrow> t' = t\<lparr>tr_events := tr_events t @ [e]\<rparr> \<and>
     lawful_events sha (tr_probe_fingerprint t) (tr_events t @ [e])"
  unfolding lawful_events_snoc [OF assms] append_probe_event_def by auto

lemma append_all_iff:
  assumes "lawful_events sha (tr_probe_fingerprint t) (tr_events t)"
  shows "append_all sha t es = Inr t' \<longleftrightarrow> t' = t\<lparr>tr_events := tr_events t @ es\<rparr> \<and>
     lawful_events sha (tr_probe_fingerprint t) (tr_events t @ es)"
  using assms
proof (induction es arbitrary: t)
  case (Cons e es)
  show ?case
  proof (cases "append_probe_event sha t e")
    case (Inr t1)
    then have t1: "t1 = t\<lparr>tr_events := tr_events t @ [e]\<rparr>" "lawful_events sha (tr_probe_fingerprint t) (tr_events t @ [e])"
      using append_probe_event_iff [OF Cons.prems] by auto
    then show ?thesis using Cons.IH [of t1] Inr by simp
  next
    case (Inl err)
    then have "\<not> lawful_events sha (tr_probe_fingerprint t) (tr_events t @ [e])"
      using append_probe_event_iff [OF Cons.prems, of e "t\<lparr>tr_events := tr_events t @ [e]\<rparr>"] by simp
    then have "\<not> lawful_events sha (tr_probe_fingerprint t) ((tr_events t @ [e]) @ es)"
      by (auto simp: lawful_events_def sorted_wrt_append successively_append_iff)
    then show ?thesis using Inl by simp
  qed
qed auto

text \<open>C28: A trace grown from the empty trace by \<open>append_probe_event\<close> accepts exactly the sequences of events of its own
  probe whose sequence numbers strictly increase and in which every event is comparable with the one
  before it, and it holds them in that order. Because \<open>model_copy\<close> runs no validator, identities are not
  compared: the trace returned passes the validator of \<open>ProbeTrace\<close> exactly when no event identity was
  repeated.\<close>

theorem appended_trace_exact:
  assumes "tr_events t = []" "\<forall>e \<in> set es. valid_probe_event e"
  shows "(append_all sha t es = Inr t' \<longleftrightarrow> t' = t\<lparr>tr_events := es\<rparr> \<and>
      (\<forall>e \<in> set es. event_fingerprint sha e = tr_probe_fingerprint t) \<and> sorted_wrt (<) (map pe_sequence_index es) \<and>
      successively (\<lambda>x y. compare_probe_events sha x y None) es) \<and>
    (append_all sha t es = Inr t' \<longrightarrow> (valid_probe_trace sha t' \<longleftrightarrow> distinct (map pe_id es)))"
proof -
  have iff: "append_all sha t es = Inr t' \<longleftrightarrow> t' = t\<lparr>tr_events := es\<rparr> \<and> lawful_events sha (tr_probe_fingerprint t) es"
    using append_all_iff [of sha t es t'] assms(1) by (simp add: lawful_events_def)
  have "map pe_sequence_index es = sort (map pe_sequence_index es) \<and> distinct (map pe_sequence_index es)"
    if "sorted_wrt (<) (map pe_sequence_index es)"
    using that strict_sorted_iff [of "map pe_sequence_index es"] by (metis sorted_sort_id)
  then have "valid_probe_trace sha (t\<lparr>tr_events := es\<rparr>) \<longleftrightarrow> distinct (map pe_id es)"
    if "lawful_events sha (tr_probe_fingerprint t) es"
    using that assms(2) unfolding lawful_events_def valid_probe_trace_def list_all_iff by simp
  then show ?thesis unfolding iff lawful_events_def by blast
qed

section \<open>Irrelevance and reopening\<close>

text \<open>C17: Nothing is declared irrelevant without authority. \<open>build_semantic_field\<close> returns a field, for valid items, exactly
  when the structures and the reference collections are unique, every irrelevant item
  carries a warrant among the authorized ones, and its reopening condition is pinned by the field; the field
  then holds exactly the given items. Reopening an item of such a field never fails, keeps its structure, and
  leaves no item irrelevant under the condition it names.\<close>

theorem irrelevance_is_authorized:
  assumes "\<forall>i \<in> set items. valid_semantic_item i"
  shows "(is_ok (build_semantic_field sha identity horizon items sources authorized) \<longleftrightarrow>
      distinct (map si_structure_id items) \<and>
      list_all distinct [fs_same_probe_history_event_ids sources, fs_cross_probe_trace_ids sources,
        fs_retrieval_result_ids sources, fs_method_contract_ids sources, fs_reopening_condition_ids sources] \<and>
      (\<forall>i \<in> set items. si_relevance i = RelevanceIrrelevant \<longrightarrow>
        the (si_irrelevance_warrant_id i) \<in> authorized \<and>
        the (si_reopening_condition_id i) \<in> set (fs_reopening_condition_ids sources))) \<and>
    (\<forall>f. build_semantic_field sha identity horizon items sources authorized = Inr f \<longrightarrow>
      sf_items f = items \<and>
      (\<forall>i \<in> set items. \<forall>c. \<exists>i'. reopen_semantic_item i c = Inr i' \<and> si_structure_id i' = si_structure_id i \<and>
        (si_relevance i' = RelevanceIrrelevant \<longrightarrow> i' = i \<and> si_reopening_condition_id i \<noteq> Some c)))"
proof -
  have w: "si_irrelevance_warrant_id i = Some (the (si_irrelevance_warrant_id i)) \<and>
      si_reopening_condition_id i = Some (the (si_reopening_condition_id i))"
    if "i \<in> set items" "si_relevance i = RelevanceIrrelevant" for i
    using assms that by (auto simp: valid_semantic_item_def)
  have "requested_irrelevance items \<subseteq> authorized \<longleftrightarrow>
      (\<forall>i \<in> set items. si_relevance i = RelevanceIrrelevant \<longrightarrow> the (si_irrelevance_warrant_id i) \<in> authorized)"
    "required_reopening items \<subseteq> set (fs_reopening_condition_ids sources) \<longleftrightarrow>
      (\<forall>i \<in> set items. si_relevance i = RelevanceIrrelevant \<longrightarrow>
        the (si_reopening_condition_id i) \<in> set (fs_reopening_condition_ids sources))"
    unfolding requested_irrelevance_def required_reopening_def List.map_filter_def using w by fastforce+
  note sub = this
  have ok: "is_ok (build_semantic_field sha identity horizon items sources authorized) \<longleftrightarrow>
      requested_irrelevance items \<subseteq> authorized \<and> required_reopening items \<subseteq> set (fs_reopening_condition_ids sources) \<and>
      distinct (map si_structure_id items) \<and>
      list_all distinct [fs_same_probe_history_event_ids sources, fs_cross_probe_trace_ids sources,
        fs_retrieval_result_ids sources, fs_method_contract_ids sources, fs_reopening_condition_ids sources]"
    using assms unfolding build_semantic_field_def construct_def valid_semantic_field_def list_all_iff by auto
  have items: "sf_items f = items" if "build_semantic_field sha identity horizon items sources authorized = Inr f" for f
    using that unfolding build_semantic_field_def by (auto simp: construct_Inr_iff split: if_splits)
  have "\<exists>i'. reopen_semantic_item i c = Inr i' \<and> si_structure_id i' = si_structure_id i \<and>
      (si_relevance i' = RelevanceIrrelevant \<longrightarrow> i' = i \<and> si_reopening_condition_id i \<noteq> Some c)" if "i \<in> set items" for i c
    using assms that by (auto simp: reopen_semantic_item_def construct_def valid_semantic_item_def)
  then show ?thesis unfolding ok sub using items by blast
qed

section \<open>An example\<close>

definition sample_identity :: probe_identity where
  "sample_identity = \<lparr>pi_question_contract_key = ''q'', pi_relational_role = ''r'', pi_binding_schema_id = ''s'',
     pi_binding_revision = ''b'', pi_scope_fingerprint = ''f'', pi_comparison_semantics_id = ''c'',
     pi_applicability_guard_id = ''g'', pi_protected_horizon_id = ''h''\<rparr>"

definition sample_event :: "int \<Rightarrow> probe_event" where
  "sample_event n = \<lparr>pe_id = ''e'', pe_probe_identity = sample_identity, pe_bound_referents = [], pe_binding_revision = ''b'',
     pe_state_revision = 0, pe_semantic_field_id = ''field'', pe_generated_answer_claim_id = None, pe_external_return_ids = [],
     pe_interpretation_claim_ids = [], pe_sequence_index = n, pe_comparability_bridge = None,
     pe_fresh_observation_required = False, pe_prior_answer_exposure = NotApplicable\<rparr>"

definition sample_trace :: probe_trace where
  "sample_trace = \<lparr>tr_probe_fingerprint = probe_fingerprint zero_digest sample_identity, tr_events = [],
     tr_protected_horizon_id = ''h'', tr_comparison_policy_id = ''c'', tr_active_guard_id = ''g'',
     tr_reopening_condition_ids = []\<rparr>"

lemma sample_events_valid: "0 \<le> n \<Longrightarrow> valid_probe_event (sample_event n)"
  by (simp add: sample_event_def sample_identity_def valid_probe_event_def valid_probe_identity_def)

text \<open>Two events with one identity are appended, and the trace that results is not a valid one.\<close>

theorem appended_trace_exact_witness:
  "append_all zero_digest sample_trace [sample_event 1, sample_event 2] =
     Inr (sample_trace\<lparr>tr_events := [sample_event 1, sample_event 2]\<rparr>) \<and>
   \<not> valid_probe_trace zero_digest (sample_trace\<lparr>tr_events := [sample_event 1, sample_event 2]\<rparr>)"
proof -
  have "successively (\<lambda>x y. compare_probe_events zero_digest x y None) [sample_event 1, sample_event 2]"
    by (simp add: sample_event_def compare_probe_events_def)
  moreover have "pe_sequence_index (sample_event n) = n" "pe_id (sample_event n) = ''e''"
      "event_fingerprint zero_digest (sample_event n) = tr_probe_fingerprint sample_trace" for n
    by (simp_all add: sample_event_def sample_trace_def)
  moreover have "tr_events sample_trace = []" by (simp add: sample_trace_def)
  ultimately show ?thesis
    using appended_trace_exact [of sample_trace "[sample_event 1, sample_event 2]" zero_digest
        "sample_trace\<lparr>tr_events := [sample_event 1, sample_event 2]\<rparr>"] sample_events_valid [of 1] sample_events_valid [of 2]
    by simp
qed

definition sample_items :: "semantic_item list" where
  "sample_items =
    [\<lparr>si_structure_id = ''s1'', si_relevance = RelevanceActive, si_irrelevance_warrant_id = None, si_reopening_condition_id = None\<rparr>,
     \<lparr>si_structure_id = ''s2'', si_relevance = RelevanceIrrelevant, si_irrelevance_warrant_id = Some ''w'',
      si_reopening_condition_id = Some ''c''\<rparr>]"

definition sample_sources :: field_sources where
  "sample_sources = \<lparr>fs_same_probe_history_event_ids = [], fs_cross_probe_trace_ids = [], fs_retrieval_result_ids = [],
     fs_method_contract_ids = [], fs_reopening_condition_ids = [''c'']\<rparr>"

theorem irrelevance_is_authorized_witness:
  "is_ok (build_semantic_field zero_digest sample_identity ''h'' sample_items sample_sources {''w''}) \<and>
   \<not> is_ok (build_semantic_field zero_digest sample_identity ''h'' sample_items sample_sources {})"
proof -
  have v: "\<forall>i \<in> set sample_items. valid_semantic_item i" by (simp add: sample_items_def valid_semantic_item_def)
  show ?thesis
    using irrelevance_is_authorized [OF v, of zero_digest sample_identity "''h''" sample_sources "{''w''}"]
      irrelevance_is_authorized [OF v, of zero_digest sample_identity "''h''" sample_sources "{}"]
    by (simp add: sample_items_def sample_sources_def)
qed

end
