(* ===== verification/Rci_Learning.thy ===== *)
theory Rci_Learning
  imports Rci_Probes Rci_Effects
begin

text \<open>
  Consolidation, conservative semantic fields and learned probes: the records of \<open>learning/models.py\<close> and the policies of
  \<open>learning/policies.py\<close>. The policy records have a single lawful value, so their limits are constants.
  \<open>dump\<close> is the JSON text pydantic gives a semantic field.
\<close>

section \<open>Consolidation records\<close>

datatype consolidation_role = RecentEpisode | OlderException | CounterexampleSource

datatype consolidation_status = ConsolidationReady | InsufficientDiversity

definition recent_limit :: nat where "recent_limit = 4"
definition exception_limit :: nat where "exception_limit = 4"
definition counterexample_limit :: nat where "counterexample_limit = 4"
definition minimum_distinct_episodes :: nat where "minimum_distinct_episodes = 2"

record consolidation_source =
  cs_role :: consolidation_role
  cs_reference :: owned_ref
  cs_semantic_sequence :: int

definition valid_consolidation_source :: "consolidation_source \<Rightarrow> bool" where
  "valid_consolidation_source s \<longleftrightarrow> valid_owned_ref (cs_reference s) \<and> 0 \<le> cs_semantic_sequence s"

abbreviation source_key :: "consolidation_source \<Rightarrow> string" where
  "source_key s \<equiv> ref_key (cs_reference s)"

definition episode_count :: "consolidation_source list \<Rightarrow> nat" where
  "episode_count sources = length (filter (\<lambda>s. cs_role s \<in> {RecentEpisode, OlderException}) sources)"

definition status_of_sources :: "consolidation_source list \<Rightarrow> consolidation_status" where
  "status_of_sources sources =
    (if episode_count sources \<ge> minimum_distinct_episodes then ConsolidationReady else InsufficientDiversity)"

record consolidation_checkpoint =
  cc_id :: ident
  cc_source_sequence :: int
  cc_source_index_fingerprint :: digest
  cc_scope_fingerprint :: ident
  cc_binding_revision :: ident
  cc_protected_horizon_id :: ident
  cc_sources :: "consolidation_source list"
  cc_status :: consolidation_status

definition valid_consolidation_checkpoint :: "consolidation_checkpoint \<Rightarrow> bool" where
  "valid_consolidation_checkpoint c \<longleftrightarrow>
     identifiers [cc_id c, cc_scope_fingerprint c, cc_binding_revision c, cc_protected_horizon_id c] \<and>
     0 \<le> cc_source_sequence c \<and> valid_sha256 (cc_source_index_fingerprint c) \<and>
     list_all valid_consolidation_source (cc_sources c) \<and> distinct (map source_key (cc_sources c)) \<and>
     cc_status c = status_of_sources (cc_sources c)"

record support_boundary =
  sb_scope :: scope
  sb_applicability_guard_id :: ident
  sb_assumption_ids :: "ident list"
  sb_required_dependency_ids :: "ident list"
  sb_open_dependency_obligation_ids :: "ident list"

definition valid_boundary :: "support_boundary \<Rightarrow> bool" where
  "valid_boundary b \<longleftrightarrow> valid_scope (sb_scope b) \<and>
     identifiers (sb_applicability_guard_id b # sb_assumption_ids b @ sb_required_dependency_ids b @
       sb_open_dependency_obligation_ids b) \<and>
     canonical (sb_assumption_ids b) \<and> canonical (sb_required_dependency_ids b) \<and>
     canonical (sb_open_dependency_obligation_ids b) \<and> sb_applicability_guard_id b \<noteq> []"

record consolidation_candidate =
  kc_id :: ident
  kc_checkpoint_id :: ident
  kc_generalization_claim_id :: ident
  kc_boundary :: support_boundary
  kc_challenge_obligation_ids :: "ident list"

definition valid_consolidation_candidate :: "consolidation_candidate \<Rightarrow> bool" where
  "valid_consolidation_candidate c \<longleftrightarrow>
     identifiers ([kc_id c, kc_checkpoint_id c, kc_generalization_claim_id c] @ kc_challenge_obligation_ids c) \<and>
     valid_boundary (kc_boundary c) \<and> canonical (kc_challenge_obligation_ids c) \<and> kc_challenge_obligation_ids c \<noteq> []"

datatype patch_kind = GuardChange | RelationChange | SplitPatch | Rebind

datatype dependency_disposition_kind = Transported | HardDischarged

record dependency_disposition =
  dd_dependency_id :: ident
  dd_kind :: dependency_disposition_kind
  dd_warrant_decision_id :: "ident option"

definition valid_dependency_disposition :: "dependency_disposition \<Rightarrow> bool" where
  "valid_dependency_disposition d \<longleftrightarrow> valid_identifier (dd_dependency_id d) \<and>
     pred_option valid_identifier (dd_warrant_decision_id d) \<and>
     (dd_kind d = HardDischarged) = (dd_warrant_decision_id d \<noteq> None)"

record memory_patch =
  mp_id :: ident
  mp_target_lemma_id :: ident
  mp_triggering_mismatch_id :: ident
  mp_triggering_return_id :: ident
  mp_proposed_claim_id :: ident
  mp_patch_kind :: patch_kind
  mp_predecessor_support_route_ids :: "ident list"
  mp_dependency_dispositions :: "dependency_disposition list"
  mp_challenge_obligation_ids :: "ident list"
  mp_scope_fingerprint :: ident

definition valid_memory_patch :: "memory_patch \<Rightarrow> bool" where
  "valid_memory_patch p \<longleftrightarrow>
     identifiers ([mp_id p, mp_target_lemma_id p, mp_triggering_mismatch_id p, mp_triggering_return_id p,
       mp_proposed_claim_id p, mp_scope_fingerprint p] @ mp_predecessor_support_route_ids p @ mp_challenge_obligation_ids p) \<and>
     list_all valid_dependency_disposition (mp_dependency_dispositions p) \<and>
     canonical (mp_predecessor_support_route_ids p) \<and> canonical (mp_challenge_obligation_ids p) \<and>
     canonical (map dd_dependency_id (mp_dependency_dispositions p)) \<and>
     mp_predecessor_support_route_ids p \<noteq> [] \<and> mp_challenge_obligation_ids p \<noteq> []"

record reconsolidation_link =
  rl_id :: ident
  rl_memory_patch_id :: ident
  rl_predecessor_lemma_id :: ident
  rl_successor_lemma_id :: ident
  rl_correction_id :: ident
  rl_warrant_decision_id :: ident

definition valid_reconsolidation_link :: "reconsolidation_link \<Rightarrow> bool" where
  "valid_reconsolidation_link l \<longleftrightarrow> identifiers [rl_id l, rl_memory_patch_id l, rl_predecessor_lemma_id l,
     rl_successor_lemma_id l, rl_correction_id l, rl_warrant_decision_id l]"

section \<open>Field evaluations\<close>

definition maximum_items :: nat where "maximum_items = 32"

datatype field_status = FieldValid | FieldIncomplete | FieldInvalid

record field_evaluation =
  fe_id :: ident
  fe_field_id :: ident
  fe_field_fingerprint :: digest
  fe_field :: semantic_field
  fe_source_sequence :: int
  fe_source_index_fingerprint :: digest
  fe_probe_fingerprint :: ident
  fe_required_structure_ids :: "ident list"
  fe_included_structure_ids :: "ident list"
  fe_overflow_structure_ids :: "ident list"
  fe_irrelevant_structure_ids :: "ident list"
  fe_status :: field_status

definition coverage_status :: "ident list \<Rightarrow> ident list \<Rightarrow> ident list \<Rightarrow> field_status" where
  "coverage_status required included overflow =
    (if set required - set included \<noteq> {} \<or> overflow \<noteq> [] then FieldIncomplete else FieldValid)"

definition valid_field_evaluation :: "(string \<Rightarrow> digest) \<Rightarrow> (semantic_field \<Rightarrow> string) \<Rightarrow> field_evaluation \<Rightarrow> bool" where
  "valid_field_evaluation sha dump e \<longleftrightarrow>
     identifiers ([fe_id e, fe_field_id e, fe_probe_fingerprint e] @ fe_required_structure_ids e @
       fe_included_structure_ids e @ fe_overflow_structure_ids e @ fe_irrelevant_structure_ids e) \<and>
     valid_sha256 (fe_field_fingerprint e) \<and> valid_semantic_field (fe_field e) \<and> 0 \<le> fe_source_sequence e \<and>
     valid_sha256 (fe_source_index_fingerprint e) \<and>
     sf_id (fe_field e) = fe_field_id e \<and> sha (dump (fe_field e)) = fe_field_fingerprint e \<and>
     sf_probe_fingerprint (fe_field e) = fe_probe_fingerprint e \<and>
     list_all canonical [fe_required_structure_ids e, fe_included_structure_ids e, fe_overflow_structure_ids e,
       fe_irrelevant_structure_ids e] \<and>
     set (fe_included_structure_ids e) \<inter> set (fe_overflow_structure_ids e) = {} \<and>
     fe_status e = coverage_status (fe_required_structure_ids e) (fe_included_structure_ids e) (fe_overflow_structure_ids e)"

section \<open>Representation gaps and learned probes\<close>

datatype gap_kind = NoSeparator | BindingInadequate | ProbeBasisInadequate | LanguageInadequate

record representation_gap =
  gap_id :: ident
  gap_obligation_id :: ident
  gap_state_or_claim_ids :: "ident list"
  gap_protected_consequence_difference_id :: ident
  gap_failed_probe_fingerprints :: "ident list"
  gap_kind_of :: gap_kind
  gap_scope_fingerprint :: ident
  gap_binding_revision :: ident
  gap_protected_horizon_id :: ident

definition valid_gap :: "representation_gap \<Rightarrow> bool" where
  "valid_gap g \<longleftrightarrow>
     identifiers ([gap_id g, gap_obligation_id g, gap_protected_consequence_difference_id g, gap_scope_fingerprint g,
       gap_binding_revision g, gap_protected_horizon_id g] @ gap_state_or_claim_ids g @ gap_failed_probe_fingerprints g) \<and>
     canonical (gap_state_or_claim_ids g) \<and> canonical (gap_failed_probe_fingerprints g) \<and> gap_failed_probe_fingerprints g \<noteq> []"

record learned_probe =
  lp_id :: ident
  lp_representation_gap_id :: ident
  lp_probe_identity :: probe_identity
  lp_generated_payload :: json
  lp_challenge_obligation_ids :: "ident list"

definition valid_learned_probe :: "learned_probe \<Rightarrow> bool" where
  "valid_learned_probe p \<longleftrightarrow> identifiers ([lp_id p, lp_representation_gap_id p] @ lp_challenge_obligation_ids p) \<and>
     valid_probe_identity (lp_probe_identity p) \<and> wf_json (lp_generated_payload p) \<and> is_ok (freeze_json (lp_generated_payload p)) \<and>
     pi_question_contract_key (lp_probe_identity p) = ''learned-recurrent-probe@1.0.0'' \<and>
     canonical (lp_challenge_obligation_ids p) \<and> lp_challenge_obligation_ids p \<noteq> []"

record probe_sample =
  sm_observation_id :: ident
  sm_protected_consequence_class_id :: ident
  sm_existing_basis_class_id :: ident
  sm_candidate_value_id :: ident

definition valid_sample :: "probe_sample \<Rightarrow> bool" where
  "valid_sample s \<longleftrightarrow> identifiers [sm_observation_id s, sm_protected_consequence_class_id s, sm_existing_basis_class_id s,
     sm_candidate_value_id s]"

definition sample_json :: "probe_sample \<Rightarrow> json" where
  "sample_json s = JObj [(''observation_id'', JStr (sm_observation_id s)),
     (''protected_consequence_class_id'', JStr (sm_protected_consequence_class_id s)),
     (''existing_basis_class_id'', JStr (sm_existing_basis_class_id s)),
     (''candidate_value_id'', JStr (sm_candidate_value_id s))]"

definition sample_fingerprint :: "(string \<Rightarrow> digest) \<Rightarrow> probe_sample \<Rightarrow> digest" where
  "sample_fingerprint sha s = content_fingerprint sha ''rci.probe-sample.v1'' (sample_json s)"

definition holdout_denominator :: nat where "holdout_denominator = 4"

record probe_evaluation =
  ev_id :: ident
  ev_candidate_probe_id :: ident
  ev_sample_index_fingerprint :: digest
  ev_samples :: "probe_sample list"
  ev_training_observation_ids :: "ident list"
  ev_holdout_observation_ids :: "ident list"
  ev_training_discrimination_gain :: nat
  ev_holdout_discrimination_gain :: nat
  ev_protected_error_count :: nat
  ev_redundancy_check :: check_reference
  ev_protected_behavior_check :: check_reference
  ev_evaluation_proposition_id :: ident

definition valid_probe_evaluation :: "probe_evaluation \<Rightarrow> bool" where
  "valid_probe_evaluation e \<longleftrightarrow>
     identifiers ([ev_id e, ev_candidate_probe_id e, ev_evaluation_proposition_id e] @ ev_training_observation_ids e @
       ev_holdout_observation_ids e) \<and>
     valid_sha256 (ev_sample_index_fingerprint e) \<and> list_all valid_sample (ev_samples e) \<and>
     valid_check_reference (ev_redundancy_check e) \<and> valid_check_reference (ev_protected_behavior_check e) \<and>
     canonical (ev_training_observation_ids e) \<and> canonical (ev_holdout_observation_ids e) \<and>
     set (ev_training_observation_ids e) \<inter> set (ev_holdout_observation_ids e) = {} \<and>
     ev_training_observation_ids e \<noteq> [] \<and> ev_holdout_observation_ids e \<noteq> [] \<and>
     distinct (sort (map sm_observation_id (ev_samples e))) \<and>
     sort (map sm_observation_id (ev_samples e)) = sort (ev_training_observation_ids e @ ev_holdout_observation_ids e)"

datatype probe_admission_outcome = ProbeAdmit | ProbeReject | ProbeInconclusive

record probe_admission =
  pd_id :: ident
  pd_candidate_probe_id :: ident
  pd_evaluation_id :: ident
  pd_outcome :: probe_admission_outcome
  pd_controller_id :: ident

definition valid_probe_admission :: "probe_admission \<Rightarrow> bool" where
  "valid_probe_admission d \<longleftrightarrow> identifiers [pd_id d, pd_candidate_probe_id d, pd_evaluation_id d, pd_controller_id d]"

section \<open>Consolidation policy (learning/policies.py)\<close>

definition line_feed :: string where "line_feed = [CHR 0x0A]"

definition source_index_fingerprint :: "(string \<Rightarrow> digest) \<Rightarrow> owned_ref list \<Rightarrow> int \<Rightarrow> digest" where
  "source_index_fingerprint sha references seq = sha (int_text seq @ line_feed @ join line_feed (sort (map ref_key references)))"

text \<open>\<open>xs[-n:]\<close> for a positive \<open>n\<close>.\<close>

definition take_last :: "nat \<Rightarrow> 'a list \<Rightarrow> 'a list" where
  "take_last n xs = drop (length xs - n) xs"

definition scoped_observations :: "string \<Rightarrow> string \<Rightarrow> string \<Rightarrow> probe_event list \<Rightarrow> probe_event list" where
  "scoped_observations scope binding horizon events = sort_key (\<lambda>e. (pe_sequence_index e, pe_id e))
     (filter (\<lambda>e. pi_scope_fingerprint (pe_probe_identity e) = scope \<and> pe_binding_revision e = binding \<and>
        pi_protected_horizon_id (pe_probe_identity e) = horizon) events)"

definition is_exception :: "claim list \<Rightarrow> conflict list \<Rightarrow> mismatch list \<Rightarrow> probe_event \<Rightarrow> bool" where
  "is_exception claims conflicts mismatches e \<longleftrightarrow>
    (let associated = List.map_filter (index_by claim_id claims) (pe_interpretation_claim_ids e);
         conflicted = concat (map (\<lambda>c. [fst (conflict_claim_ids c), snd (conflict_claim_ids c)]) conflicts) in
     set (pe_external_return_ids e) \<inter> mm_external_return_id ` set mismatches \<noteq> {} \<or>
     list_ex (\<lambda>c. claim_id c \<in> set conflicted \<or> claim_assessment_of c \<in> {Contested, Refuted}) associated)"

definition recent_observations :: "probe_event list \<Rightarrow> probe_event list" where
  "recent_observations observations = take_last recent_limit observations"

definition older_exceptions :: "(probe_event \<Rightarrow> bool) \<Rightarrow> probe_event list \<Rightarrow> probe_event list" where
  "older_exceptions exceptional observations = take_last exception_limit
     (filter (\<lambda>e. pe_id e \<notin> pe_id ` set (recent_observations observations) \<and> exceptional e) observations)"

definition episode_source :: "(string \<Rightarrow> digest) \<Rightarrow> consolidation_role \<Rightarrow> probe_event \<Rightarrow> consolidation_source result" where
  "episode_source sha role e = (case make_owned_memory_ref sha EpisodicOwner ProbeEventType (pe_id e) 1 (probe_event_json e) of
     Inl err \<Rightarrow> Inl err
   | Inr reference \<Rightarrow> construct valid_consolidation_source ''ConsolidationSource''
       \<lparr>cs_role = role, cs_reference = reference, cs_semantic_sequence = pe_sequence_index e\<rparr>)"

text \<open>The requests are a mapping of arbitrary objects, read by \<open>getattr\<close>: an object may lack a result and a
  request record, and a request record may lack the attribute \<open>schema_version\<close>. It is given by that attribute and
  its JSON value.\<close>

record request_record =
  qr_schema_version :: "int option"
  qr_json :: json

record request_object =
  qo_accepted_result :: "canonical_result option"
  qo_request :: "request_record option"

definition accepted_counterexample :: "request_object \<Rightarrow> bool" where
  "accepted_counterexample q \<longleftrightarrow> (case qo_accepted_result q of None \<Rightarrow> False
     | Some result \<Rightarrow> (case result_content_of result of CounterexampleResult _ _ \<Rightarrow> True | _ \<Rightarrow> False))"

text \<open>One round of the loop: no source, a source or an exception.\<close>

definition counterexample_source ::
  "(string \<Rightarrow> digest) \<Rightarrow> int \<Rightarrow> string \<times> request_object \<Rightarrow> consolidation_source option result" where
  "counterexample_source sha seq item =
    (if \<not> accepted_counterexample (snd item) then Inr None
     else (case qo_request (snd item) of None \<Rightarrow> Inr None
     | Some q \<Rightarrow> (case qr_schema_version q of None \<Rightarrow> Inl (AttributeError ''schema_version'')
     | Some version \<Rightarrow>
        (case make_owned_memory_ref sha ActionOwner EffectRequestType (fst item) version (qr_json q) of Inl err \<Rightarrow> Inl err
         | Inr reference \<Rightarrow> map_sum id Some (construct valid_consolidation_source ''ConsolidationSource''
             \<lparr>cs_role = CounterexampleSource, cs_reference = reference, cs_semantic_sequence = seq\<rparr>)))))"

definition counterexample_sources ::
  "(string \<Rightarrow> digest) \<Rightarrow> int \<Rightarrow> (string \<times> request_object) list \<Rightarrow> consolidation_source list result" where
  "counterexample_sources sha seq requests = map_sum id (List.map_filter id)
     (collect_results (map (counterexample_source sha seq) (take counterexample_limit (sort_key fst requests))))"

text \<open>What an \<open>EffectRequestState\<close> is to the loop: its \<open>EffectRequest\<close> declares no \<open>schema_version\<close>.\<close>

definition effect_request_object :: "effect_request_state \<Rightarrow> request_object" where
  "effect_request_object r = (let q = ers_request r in
     \<lparr>qo_accepted_result = accepted_result r,
      qo_request = Some \<lparr>qr_schema_version = None, qr_json = JObj
        [(''id'', JStr (req_id q)), (''step_plan_id'', JStr (req_step_plan_id q)),
         (''effect_kind'', JStr (req_effect_kind q)), (''adapter_id'', JStr (req_adapter_id q)),
         (''input_artifact'', artifact_json (req_input_artifact q)),
         (''timeout_seconds'', JInt (req_timeout_seconds q))]\<rparr>\<rparr>)"

text \<open>The mapping the callers pass, \<open>{item.request.id: item for item in state.effect_requests}\<close>; the requests of a
  state have distinct identities.\<close>

definition effect_request_objects :: "effect_request_state list \<Rightarrow> (string \<times> request_object) list" where
  "effect_request_objects requests =
     map (\<lambda>r. (ers_id r, effect_request_object r)) requests"

fun keep_first :: "('a \<Rightarrow> 'k) \<Rightarrow> 'k set \<Rightarrow> 'a list \<Rightarrow> 'a list" where
  "keep_first key seen [] = []"
| "keep_first key seen (x # xs) =
    (if key x \<in> seen then keep_first key seen xs else x # keep_first key (insert (key x) seen) xs)"

definition select_consolidation_checkpoint ::
  "(string \<Rightarrow> digest) \<Rightarrow> ident \<Rightarrow> int \<Rightarrow> ident \<Rightarrow> ident \<Rightarrow> ident \<Rightarrow> probe_event list \<Rightarrow> claim list \<Rightarrow> conflict list \<Rightarrow>
     mismatch list \<Rightarrow> (string \<times> request_object) list \<Rightarrow> consolidation_checkpoint result" where
  "select_consolidation_checkpoint sha checkpoint_id seq scope binding horizon events claims conflicts mismatches requests =
    (let observations = scoped_observations scope binding horizon events;
         older = older_exceptions (is_exception claims conflicts mismatches) observations in
     case collect_results (map (episode_source sha RecentEpisode) (rev (recent_observations observations)) @
         map (episode_source sha OlderException) (rev older)) of Inl err \<Rightarrow> Inl err
     | Inr episodes \<Rightarrow> (case counterexample_sources sha seq requests of Inl err \<Rightarrow> Inl err
     | Inr counterexamples \<Rightarrow> (let unique = keep_first source_key {} (episodes @ counterexamples) in
         construct valid_consolidation_checkpoint ''ConsolidationCheckpoint''
           \<lparr>cc_id = checkpoint_id, cc_source_sequence = seq,
            cc_source_index_fingerprint = source_index_fingerprint sha (map cs_reference unique) seq,
            cc_scope_fingerprint = scope, cc_binding_revision = binding, cc_protected_horizon_id = horizon,
            cc_sources = unique, cc_status = status_of_sources unique\<rparr>)))"

section \<open>Conservative fields (learning/policies.py)\<close>

abbreviation sorted_set :: "string list \<Rightarrow> string list" where
  "sorted_set xs \<equiv> sorted_list_of_set (set xs)"

definition ordered_structures :: "string list \<Rightarrow> string list \<Rightarrow> string list \<Rightarrow> string list \<Rightarrow> string list" where
  "ordered_structures safety exceptions dependencies retrieval =
     keep_first id {} (sorted_set safety @ sorted_set exceptions @ sorted_set dependencies @ sorted_set retrieval)"

definition derive_conservative_field ::
  "(string \<Rightarrow> digest) \<Rightarrow> probe_identity \<Rightarrow> int \<Rightarrow> string list \<Rightarrow> string list \<Rightarrow> string list \<Rightarrow> string list \<Rightarrow>
     (semantic_field \<times> string list \<times> string list \<times> digest) result" where
  "derive_conservative_field sha identity seq safety exceptions dependencies retrieval =
    (let ordered = ordered_structures safety exceptions dependencies retrieval;
         required = sorted_set (safety @ exceptions @ dependencies);
         included = take maximum_items ordered; overflow = sort (drop maximum_items ordered) in
     case collect_results (map (\<lambda>s. construct valid_semantic_item ''SemanticItem''
         \<lparr>si_structure_id = s, si_relevance = RelevanceActive, si_irrelevance_warrant_id = None,
          si_reopening_condition_id = None\<rparr>) included) of Inl err \<Rightarrow> Inl err
     | Inr items \<Rightarrow> map_sum id (\<lambda>field. (field, required, overflow, sha (int_text seq @ line_feed @ join line_feed ordered)))
         (build_semantic_field sha identity (pi_protected_horizon_id identity) items
           \<lparr>fs_same_probe_history_event_ids = [], fs_cross_probe_trace_ids = [], fs_retrieval_result_ids = sorted_set retrieval,
            fs_method_contract_ids = [], fs_reopening_condition_ids = []\<rparr> {}))"

definition evaluate_conservative_field ::
  "(string \<Rightarrow> digest) \<Rightarrow> (semantic_field \<Rightarrow> string) \<Rightarrow> ident \<Rightarrow> semantic_field \<Rightarrow> int \<Rightarrow> digest \<Rightarrow> ident \<Rightarrow> ident list \<Rightarrow>
     ident list \<Rightarrow> field_evaluation result" where
  "evaluate_conservative_field sha dump evaluation_id field seq index probe required_ids overflow_ids =
    (let included = sort (map si_structure_id (sf_items field));
         irrelevant = sort (map si_structure_id (filter (\<lambda>i. si_relevance i = RelevanceIrrelevant) (sf_items field)));
         required = sorted_set required_ids; overflow = sorted_set overflow_ids in
     construct (valid_field_evaluation sha dump) ''SemanticFieldEvaluation''
       \<lparr>fe_id = evaluation_id, fe_field_id = sf_id field, fe_field_fingerprint = sha (dump field), fe_field = field,
        fe_source_sequence = seq, fe_source_index_fingerprint = index, fe_probe_fingerprint = probe,
        fe_required_structure_ids = required, fe_included_structure_ids = included, fe_overflow_structure_ids = overflow,
        fe_irrelevant_structure_ids = irrelevant, fe_status = coverage_status required included overflow\<rparr>)"

definition semantic_field_overflow_residual ::
  "(string \<Rightarrow> digest) \<Rightarrow> field_evaluation \<Rightarrow> scope \<Rightarrow> residual option result" where
  "semantic_field_overflow_residual sha evaluation scope' =
    (if fe_overflow_structure_ids evaluation = [] then Inr None
     else map_sum id Some (construct valid_residual ''Residual''
       \<lparr>resid_id = ''residual_'' @ take 24 (content_fingerprint sha ''rci.semantic-field-overflow-residual.v1'' (JObj
          [(''evaluation_id'', JStr (fe_id evaluation)), (''overflow'', str_list (fe_overflow_structure_ids evaluation)),
           (''scope'', JStr (scope_fingerprint sha scope'))])),
        resid_carrier_id = fe_field_id evaluation,
        resid_payload = PayloadJson (JObj [(''kind'', JStr ''semantic_field_overflow''),
          (''structure_ids'', str_list (fe_overflow_structure_ids evaluation))]),
        resid_scope = scope',
        resid_provenance = \<lparr>prov_kind = ''derived_policy'', prov_source_id = fe_id evaluation, prov_source_revision = None\<rparr>,
        resid_source_obligation_ids = []\<rparr>))"

section \<open>Probe evaluation (learning/policies.py)\<close>

definition discriminates :: "probe_sample \<Rightarrow> probe_sample \<Rightarrow> bool" where
  "discriminates left right \<longleftrightarrow> sm_protected_consequence_class_id left \<noteq> sm_protected_consequence_class_id right \<and>
     sm_existing_basis_class_id left = sm_existing_basis_class_id right \<and> sm_candidate_value_id left \<noteq> sm_candidate_value_id right"

fun pair_gain :: "probe_sample list \<Rightarrow> nat" where
  "pair_gain [] = 0"
| "pair_gain (s # ss) = length (filter (discriminates s) ss) + pair_gain ss"

definition class_group :: "(string \<Rightarrow> digest) \<Rightarrow> probe_sample list \<Rightarrow> ident \<Rightarrow> probe_sample list" where
  "class_group sha samples c = sort_key (\<lambda>s. (sample_fingerprint sha s, sm_observation_id s))
     (filter (\<lambda>s. sm_protected_consequence_class_id s = c) samples)"

text \<open>\<open>ceil(n / 4)\<close>, written with integers.\<close>

definition holdout_count :: "nat \<Rightarrow> nat" where
  "holdout_count n = max 1 ((n + holdout_denominator - 1) div holdout_denominator)"

definition split_group :: "probe_sample list \<Rightarrow> (probe_sample list \<times> probe_sample list) result" where
  "split_group members =
    (if length members < 2 then Inl (ValueError ''each consequence class requires training and holdout samples'')
     else let n = holdout_count (length members) in
       if n \<ge> length members then Inl (ValueError ''holdout split must leave a training sample in each class'')
       else Inr (take (length members - n) members, take_last n members))"

definition stratified_probe_split ::
  "(string \<Rightarrow> digest) \<Rightarrow> probe_sample list \<Rightarrow> (probe_sample list \<times> probe_sample list) result" where
  "stratified_probe_split sha samples = map_sum id (\<lambda>parts. (concat (map fst parts), concat (map snd parts)))
     (collect_results (map (\<lambda>c. split_group (class_group sha samples c))
       (sorted_set (map sm_protected_consequence_class_id samples))))"

definition probe_evaluation_proposition_id ::
  "(string \<Rightarrow> digest) \<Rightarrow> ident \<Rightarrow> probe_sample list \<Rightarrow> ident list \<Rightarrow> ident list \<Rightarrow> nat \<Rightarrow> nat \<Rightarrow> nat \<Rightarrow> ident" where
  "probe_evaluation_proposition_id sha candidate samples training holdout training_gain holdout_gain errors =
     ''probe-evaluation:'' @ sha (canonical_json (JObj
       [(''candidate_probe_id'', JStr candidate), (''holdout_discrimination_gain'', JInt (int holdout_gain)),
        (''holdout_observation_ids'', str_list holdout), (''protected_error_count'', JInt (int errors)),
        (''protocol'', JObj [(''schema_version'', JInt 1), (''id'', JStr ''finite-stratified-holdout-v1''),
          (''version'', JStr ''1''), (''holdout_denominator'', JInt (int holdout_denominator))]),
        (''samples'', JList (map sample_json (sort_key sm_observation_id samples))),
        (''training_discrimination_gain'', JInt (int training_gain)), (''training_observation_ids'', str_list training)]))"

definition build_probe_evaluation ::
  "(string \<Rightarrow> digest) \<Rightarrow> ident \<Rightarrow> ident \<Rightarrow> probe_sample list \<Rightarrow> check_reference \<Rightarrow> check_reference \<Rightarrow> probe_evaluation result" where
  "build_probe_evaluation sha evaluation_id candidate samples redundancy behaviour =
    (case stratified_probe_split sha samples of Inl err \<Rightarrow> Inl err
     | Inr (training, holdout) \<Rightarrow>
       let training_ids = sort (map sm_observation_id training); holdout_ids = sort (map sm_observation_id holdout) in
       construct valid_probe_evaluation ''ProbeEvaluation''
         \<lparr>ev_id = evaluation_id, ev_candidate_probe_id = candidate,
          ev_sample_index_fingerprint = sha (join line_feed (sort (map (sample_fingerprint sha) samples))),
          ev_samples = sort_key sm_observation_id samples, ev_training_observation_ids = training_ids,
          ev_holdout_observation_ids = holdout_ids, ev_training_discrimination_gain = pair_gain training,
          ev_holdout_discrimination_gain = pair_gain holdout, ev_protected_error_count = 0,
          ev_redundancy_check = redundancy, ev_protected_behavior_check = behaviour,
          ev_evaluation_proposition_id = probe_evaluation_proposition_id sha candidate samples training_ids holdout_ids
            (pair_gain training) (pair_gain holdout) 0\<rparr>)"

definition unresolved_obligation_ids :: "obligation list \<Rightarrow> string set" where
  "unresolved_obligation_ids obligations = obl_id ` set (filter (\<lambda>o'. obl_status o' \<noteq> Satisfied) obligations)"

end
