(* ===== verification/Rci_Learning_Laws.thy ===== *)
theory Rci_Learning_Laws
  imports Rci_Learning
begin

text \<open>
  What the policies of \<open>learning/policies.py\<close> compute: stratified splits partition the samples, probe evaluations count
  separated pairs and do not depend on the order of the samples, conservative fields keep what is required in front and
  report what they drop, and consolidation takes the newest observations, the older exceptions and the first
  counterexamples whose requests expose a schema version, and breaks on the effect requests of a state, which do not.
\<close>

section \<open>Stratified splits\<close>

lemma holdout_count_bounds: "2 \<le> n \<Longrightarrow> 1 \<le> holdout_count n \<and> holdout_count n < n \<and> holdout_count n = (n + 3) div 4"
  by (auto simp: holdout_count_def holdout_denominator_def)

lemma split_group_iff:
  "split_group g = Inr p \<longleftrightarrow> 2 \<le> length g \<and>
     p = (take (length g - holdout_count (length g)) g, take_last (holdout_count (length g)) g)"
  using holdout_count_bounds [of "length g"] by (auto simp: split_group_def Let_def)

lemma split_group_mset: "split_group g = Inr (a, b) \<Longrightarrow> mset a + mset b = mset g"
  by (auto simp: split_group_iff take_last_def simp flip: mset_append)

lemma concat_classes_mset:
  "distinct cs \<Longrightarrow> mset (concat (map (\<lambda>c. filter (\<lambda>x. f x = c) xs) cs)) = mset (filter (\<lambda>x. f x \<in> set cs) xs)"
proof (induction cs)
  case (Cons c cs)
  then have "c \<notin> set cs" by simp
  then have "mset (filter (\<lambda>x. f x = c) xs) + mset (filter (\<lambda>x. f x \<in> set cs) xs) = mset (filter (\<lambda>x. f x \<in> set (c # cs)) xs)"
    by (induction xs) auto
  with Cons show ?case by simp
qed simp

lemma filter_concat_classes:
  "distinct cs \<Longrightarrow> (\<And>d x. d \<in> set cs \<Longrightarrow> x \<in> set (g d) \<Longrightarrow> f x = d) \<Longrightarrow> c \<in> set cs \<Longrightarrow>
     filter (\<lambda>x. f x = c) (concat (map g cs)) = g c"
proof (induction cs)
  case (Cons d cs)
  have other: "filter (\<lambda>x. f x = c) (concat (map g ds)) = []" if "c \<notin> set ds" "set ds \<subseteq> set (d # cs)" for ds
    using that Cons.prems(2) by (fastforce simp: filter_empty_conv)
  show ?case
  proof (cases "c = d")
    case True
    have "filter (\<lambda>x. f x = c) (g d) = g d" using Cons.prems(2) True by (simp add: filter_id_conv)
    then show ?thesis using other [of cs] Cons.prems(1) True by auto
  next
    case False
    then have "filter (\<lambda>x. f x = c) (concat (map g cs)) = g c" using Cons by auto
    then show ?thesis using other [of "[d]"] False by simp
  qed
qed simp

abbreviation sample_class :: "probe_sample \<Rightarrow> ident" where
  "sample_class \<equiv> sm_protected_consequence_class_id"

definition class_size :: "probe_sample list \<Rightarrow> ident \<Rightarrow> nat" where
  "class_size samples c = length (filter (\<lambda>s. sample_class s = c) samples)"

lemma length_class_group: "length (class_group sha samples c) = class_size samples c"
  by (simp add: class_group_def class_size_def)

lemma collect_results_map_iff:
  assumes "\<And>c p. g c = Inr p \<longleftrightarrow> P c \<and> p = h c"
  shows "collect_results (map g cs) = Inr ps \<longleftrightarrow> (\<forall>c \<in> set cs. P c) \<and> ps = map h cs"
proof -
  have "map g cs = map Inr ps \<longleftrightarrow> (\<forall>c \<in> set cs. P c) \<and> ps = map h cs"
  proof (induction cs arbitrary: ps)
    case (Cons c cs)
    show ?case by (cases ps) (auto simp: assms Cons.IH)
  qed simp
  then show ?thesis by (simp add: collect_results_Inr_iff)
qed

lemma stratified_split_eq:
  "stratified_probe_split sha samples = Inr (training, holdout) \<longleftrightarrow>
    (\<forall>c \<in> sample_class ` set samples. 2 \<le> class_size samples c) \<and>
    training = concat (map (\<lambda>c. take (class_size samples c - holdout_count (class_size samples c)) (class_group sha samples c))
      (sorted_set (map sample_class samples))) \<and>
    holdout = concat (map (\<lambda>c. take_last (holdout_count (class_size samples c)) (class_group sha samples c))
      (sorted_set (map sample_class samples)))"
    (is "_ \<longleftrightarrow> ?sizes \<and> training = concat (map ?t ?cs) \<and> holdout = concat (map ?h ?cs)")
proof -
  have "collect_results (map (\<lambda>c. split_group (class_group sha samples c)) ?cs) = Inr parts \<longleftrightarrow>
      (\<forall>c \<in> set ?cs. 2 \<le> class_size samples c) \<and> parts = map (\<lambda>c. (?t c, ?h c)) ?cs" for parts
    by (rule collect_results_map_iff) (simp add: split_group_iff length_class_group)
  then show ?thesis unfolding stratified_probe_split_def map_sum_Inr_iff by (auto simp: comp_def)
qed

lemma class_size_mset: "mset xs = mset ys \<Longrightarrow> class_size xs c = class_size ys c"
  unfolding class_size_def by (metis mset_filter size_mset)

lemma class_sizes_split:
  assumes "stratified_probe_split sha samples = Inr (training, holdout)" "c \<in> sample_class ` set samples"
  shows "class_size holdout c = holdout_count (class_size samples c)"
    "class_size training c = class_size samples c - holdout_count (class_size samples c)"
proof -
  note eq = assms(1) [unfolded stratified_split_eq]
  have cls: "sample_class s = d" if "s \<in> set (class_group sha samples d)" for s d
    using that by (simp add: class_group_def)
  have "filter (\<lambda>s. sample_class s = c) holdout = take_last (holdout_count (class_size samples c)) (class_group sha samples c)"
      "filter (\<lambda>s. sample_class s = c) training =
        take (class_size samples c - holdout_count (class_size samples c)) (class_group sha samples c)"
    using eq assms(2)
    by (auto intro!: filter_concat_classes intro: cls dest!: in_set_takeD in_set_dropD simp: take_last_def)
  note filters = this
  have "2 \<le> class_size samples c" using eq assms(2) by blast
  note bounds = holdout_count_bounds [OF this]
  show "class_size holdout c = holdout_count (class_size samples c)"
    unfolding class_size_def [of holdout] filters(1) using bounds by (simp add: take_last_def length_class_group)
  show "class_size training c = class_size samples c - holdout_count (class_size samples c)"
    unfolding class_size_def [of training] filters(2) using bounds by (simp add: length_class_group)
qed

lemma split_mset:
  assumes "stratified_probe_split sha samples = Inr (training, holdout)"
  shows "mset training + mset holdout = mset samples"
proof -
  let ?cs = "sorted_set (map sample_class samples)"
  have parts: "mset (concat (map (\<lambda>c. take (k c) (g c)) cs)) + mset (concat (map (\<lambda>c. drop (k c) (g c)) cs)) = mset (concat (map g cs))"
    for k and g :: "ident \<Rightarrow> probe_sample list" and cs
  proof (induction cs)
    case (Cons c cs)
    have "mset (take (k c) (g c)) + mset (drop (k c) (g c)) = mset (g c)" by (simp flip: mset_append)
    then show ?case using Cons.IH by (simp add: ac_simps)
  qed simp
  have "mset (concat (map (class_group sha samples) ?cs)) = mset (concat (map (\<lambda>c. filter (\<lambda>s. sample_class s = c) samples) ?cs))"
    by (simp add: mset_concat class_group_def comp_def)
  also have "\<dots> = mset (filter (\<lambda>s. sample_class s \<in> set ?cs) samples)" by (rule concat_classes_mset) simp
  also have "\<dots> = mset samples" by (simp add: filter_True)
  finally show ?thesis
    using assms parts [of "\<lambda>c. class_size samples c - holdout_count (class_size samples c)" "class_group sha samples" ?cs]
    by (simp add: stratified_split_eq take_last_def length_class_group)
qed

text \<open>\<open>stratified_probe_split\<close> divides the samples exactly. It succeeds when every consequence class has two samples, so
  the refusal of a split without training samples is never reached; training and holdout together are the
  samples, each as often as it was given; and of every class with \<open>n\<close> samples exactly the fourth part, rounded
  up, is held out, at least one, while at least one is left for training.\<close>

theorem stratified_split_exact:
  "(is_ok (stratified_probe_split sha samples) \<longleftrightarrow> (\<forall>c \<in> sample_class ` set samples. 2 \<le> class_size samples c)) \<and>
   (\<forall>training holdout. stratified_probe_split sha samples = Inr (training, holdout) \<longrightarrow>
     mset training + mset holdout = mset samples \<and>
     (\<forall>c \<in> sample_class ` set samples. class_size holdout c = (class_size samples c + 3) div 4 \<and>
       1 \<le> class_size holdout c \<and> 1 \<le> class_size training c))"
proof (intro conjI allI impI ballI)
  show "is_ok (stratified_probe_split sha samples) \<longleftrightarrow> (\<forall>c \<in> sample_class ` set samples. 2 \<le> class_size samples c)"
    unfolding is_ok_iff split_paired_Ex stratified_split_eq by blast
  fix training holdout assume split: "stratified_probe_split sha samples = Inr (training, holdout)"
  show "mset training + mset holdout = mset samples" by (rule split_mset [OF split])
  fix c assume c: "c \<in> sample_class ` set samples"
  then have "2 \<le> class_size samples c" using split unfolding stratified_split_eq by blast
  then have "1 \<le> holdout_count (class_size samples c)" "holdout_count (class_size samples c) < class_size samples c"
      "holdout_count (class_size samples c) = (class_size samples c + 3) div 4"
    using holdout_count_bounds by blast+
  then show "class_size holdout c = (class_size samples c + 3) div 4" "1 \<le> class_size holdout c" "1 \<le> class_size training c"
    using class_sizes_split [OF split c] by linarith+
qed

section \<open>Probe evaluations\<close>

lemma pair_gain_pairs:
  "distinct ss \<Longrightarrow> pair_gain ss = card {{x, y} |x y. x \<in> set ss \<and> y \<in> set ss \<and> discriminates x y}"
proof (induction ss)
  case (Cons s ss)
  let ?new = "(\<lambda>y. {s, y}) ` {y \<in> set ss. discriminates s y}"
  let ?old = "{{x, y} |x y. x \<in> set ss \<and> y \<in> set ss \<and> discriminates x y}"
  have irrefl: "\<not> discriminates x x" and sym: "discriminates x y \<longleftrightarrow> discriminates y x" for x y
    by (auto simp: discriminates_def)
  have split: "{{x, y} |x y. x \<in> set (s # ss) \<and> y \<in> set (s # ss) \<and> discriminates x y} = ?new \<union> ?old"
    using irrefl sym by (auto simp: insert_commute)
  have "?old \<subseteq> (\<lambda>(x, y). {x, y}) ` (set ss \<times> set ss)" by auto
  then have fin: "finite ?old" by (rule finite_subset) simp
  have "?new \<inter> ?old = {}" using Cons.prems by (auto simp: doubleton_eq_iff)
  then have "card (?new \<union> ?old) = card ?new + card ?old" using fin by (intro card_Un_disjoint) auto
  moreover have "card ?new = card {y \<in> set ss. discriminates s y}"
    using Cons.prems by (intro card_image inj_onI) (auto simp: doubleton_eq_iff)
  moreover have "card {y \<in> set ss. discriminates s y} = length (filter (discriminates s) ss)"
    using Cons.prems distinct_card [of "filter (discriminates s) ss"] by simp
  ultimately show ?case using Cons unfolding split by simp
qed simp

definition evaluation_record ::
  "(string \<Rightarrow> digest) \<Rightarrow> ident \<Rightarrow> ident \<Rightarrow> probe_sample list \<Rightarrow> check_reference \<Rightarrow> check_reference \<Rightarrow> probe_sample list \<Rightarrow>
     probe_sample list \<Rightarrow> probe_evaluation" where
  "evaluation_record sha i candidate samples redundancy behaviour training holdout =
    (let training_ids = sort (map sm_observation_id training); holdout_ids = sort (map sm_observation_id holdout) in
         \<lparr>ev_id = i, ev_candidate_probe_id = candidate,
          ev_sample_index_fingerprint = sha (join line_feed (sort (map (sample_fingerprint sha) samples))),
          ev_samples = sort_key sm_observation_id samples, ev_training_observation_ids = training_ids,
          ev_holdout_observation_ids = holdout_ids, ev_training_discrimination_gain = pair_gain training,
          ev_holdout_discrimination_gain = pair_gain holdout, ev_protected_error_count = 0,
          ev_redundancy_check = redundancy, ev_protected_behavior_check = behaviour,
          ev_evaluation_proposition_id = probe_evaluation_proposition_id sha candidate samples training_ids holdout_ids
            (pair_gain training) (pair_gain holdout) 0\<rparr>)"

lemma build_probe_evaluation_eq:
  "build_probe_evaluation sha i candidate samples redundancy behaviour = (case stratified_probe_split sha samples of Inl err \<Rightarrow> Inl err
     | Inr (training, holdout) \<Rightarrow> construct valid_probe_evaluation ''ProbeEvaluation''
         (evaluation_record sha i candidate samples redundancy behaviour training holdout))"
  unfolding build_probe_evaluation_def evaluation_record_def Let_def by (rule refl)

lemma hex_alnum: "c \<in> set ''0123456789abcdef'' \<Longrightarrow> alnum c"
  unfolding alnum_def by (simp, elim disjE; simp)

lemma proposition_identifier:
  assumes "valid_sha256 d"
  shows "valid_identifier (''probe-evaluation:'' @ d)"
proof -
  have "list_all alnum d" using assms hex_alnum unfolding valid_sha256_def list_all_iff by blast
  then have "list_all (\<lambda>c. alnum c \<or> c \<in> set ''._:/-'') d" unfolding list_all_iff by blast
  moreover have "list_all (\<lambda>c. alnum c \<or> c \<in> set ''._:/-'') ''probe-evaluation:''" by (simp add: alnum_def)
  moreover have "length d = 64" "alnum (CHR ''p'')" using assms by (simp_all add: valid_sha256_def alnum_def)
  ultimately show ?thesis unfolding valid_identifier_def list_all_append by simp
qed

lemma sort_key_empty: "sort_key f xs = [] \<longleftrightarrow> xs = []"
  by (metis length_0_conv length_sort)

lemma training_nonempty:
  assumes "stratified_probe_split sha samples = Inr (training, holdout)" "samples \<noteq> []"
  shows "training \<noteq> [] \<and> holdout \<noteq> []"
proof -
  let ?c = "sample_class (hd samples)"
  have c: "?c \<in> sample_class ` set samples" using assms(2) by simp
  then have "2 \<le> class_size samples ?c" using assms(1) unfolding stratified_split_eq by blast
  then have "0 < class_size training ?c" "0 < class_size holdout ?c"
    using class_sizes_split [OF assms(1) c] holdout_count_bounds by fastforce+
  then show ?thesis by (auto simp: class_size_def)
qed

lemma evaluation_record_valid:
  assumes "hex_digests sha" "valid_identifier i" "valid_identifier candidate" "list_all valid_sample samples"
    "valid_check_reference redundancy" "valid_check_reference behaviour"
    "stratified_probe_split sha samples = Inr (training, holdout)"
  shows "valid_probe_evaluation (evaluation_record sha i candidate samples redundancy behaviour training holdout) \<longleftrightarrow>
     samples \<noteq> [] \<and> distinct (map sm_observation_id samples)"
proof -
  let ?t = "map sm_observation_id training" and ?h = "map sm_observation_id holdout" and ?s = "map sm_observation_id samples"
  have m: "mset (training @ holdout) = mset samples" using split_mset [OF assms(7)] by simp
  then have ids: "mset (?t @ ?h) = mset ?s" by (metis map_append mset_map)
  then have dist: "distinct ?s \<longleftrightarrow> distinct (?t @ ?h)" by (metis mset_eq_imp_distinct_iff)
  have sets: "set ?t \<union> set ?h = set ?s" using ids by (metis mset_eq_setD set_append)
  have valid_ids: "valid_identifier j" if "j \<in> set ?t \<union> set ?h" for j
    using that assms(4) unfolding sets by (auto simp: valid_sample_def list_all_iff)
  have sorts: "(sort ?s = sort (sort ?t @ sort ?h)) = True"
    using ids by (simp flip: sorted_list_of_multiset_mset)
  have "sort (map sm_observation_id (sort_key sm_observation_id samples)) = sort ?s"
    by (simp flip: sorted_list_of_multiset_mset)
  note sorted_ids = this
  let ?e = "evaluation_record sha i candidate samples redundancy behaviour training holdout"
  have fields: "ev_training_observation_ids ?e = sort ?t" "ev_holdout_observation_ids ?e = sort ?h"
      "ev_samples ?e = sort_key sm_observation_id samples" "ev_id ?e = i" "ev_candidate_probe_id ?e = candidate"
      "ev_redundancy_check ?e = redundancy" "ev_protected_behavior_check ?e = behaviour"
    by (simp_all add: evaluation_record_def Let_def)
  have digests: "valid_identifier (ev_evaluation_proposition_id ?e)" "valid_sha256 (ev_sample_index_fingerprint ?e)"
    using assms(1) proposition_identifier
    by (simp_all add: evaluation_record_def Let_def hex_digests_def probe_evaluation_proposition_id_def)
  have "list_all valid_identifier (sort ?t @ sort ?h)" "list_all valid_sample (sort_key sm_observation_id samples)"
    using valid_ids assms(4) unfolding list_all_iff by auto
  then have "valid_probe_evaluation ?e \<longleftrightarrow> distinct ?t \<and> distinct ?h \<and> set ?t \<inter> set ?h = {} \<and> ?t \<noteq> [] \<and> ?h \<noteq> [] \<and> distinct ?s"
    unfolding valid_probe_evaluation_def fields sorted_ids sorts list_all_append using assms(2,3,5,6) digests
    by (simp add: canonical_iff sort_key_empty conj_ac)
  also have "\<dots> \<longleftrightarrow> samples \<noteq> [] \<and> distinct ?s"
    unfolding dist using training_nonempty [OF assms(7)] sets by auto
  finally show ?thesis .
qed

text \<open>The split, and with it the whole evaluation, depends only on which samples were given.\<close>

lemma sort_key_mset_eq:
  assumes "mset xs = mset ys" "inj_on f (set xs)"
  shows "sort_key f xs = sort_key f ys"
  using assms by (intro sort_key_inj_key_eq) simp_all

lemma class_group_mset_eq:
  assumes "mset xs = mset ys" "distinct (map sm_observation_id xs)"
  shows "class_group sha xs c = class_group sha ys c"
proof -
  have "inj_on sm_observation_id (set xs)" using assms(2) by (simp add: distinct_map)
  then have "inj_on (\<lambda>s. (sample_fingerprint sha s, sm_observation_id s)) (set (filter (\<lambda>s. sample_class s = c) xs))"
    by (auto simp: inj_on_def)
  moreover have "mset (filter (\<lambda>s. sample_class s = c) xs) = mset (filter (\<lambda>s. sample_class s = c) ys)" using assms(1) by simp
  ultimately show ?thesis unfolding class_group_def by (intro sort_key_mset_eq)
qed

lemma build_probe_evaluation_mset_eq:
  assumes "mset samples' = mset samples" "distinct (map sm_observation_id samples)"
  shows "build_probe_evaluation sha i candidate samples' redundancy behaviour =
     build_probe_evaluation sha i candidate samples redundancy behaviour"
proof -
  have "class_group sha samples' = class_group sha samples"
    using class_group_mset_eq [OF assms(1) [symmetric] assms(2)] by auto
  moreover have "set (map sample_class samples') = set (map sample_class samples)"
    using mset_eq_setD [OF assms(1)] by simp
  ultimately have split: "stratified_probe_split sha samples' = stratified_probe_split sha samples"
    by (simp only: stratified_probe_split_def)
  have sorted_samples: "sort_key sm_observation_id samples' = sort_key sm_observation_id samples"
    using assms by (intro sort_key_mset_eq [symmetric]) (auto simp: distinct_map)
  have sorted_digests: "sort (map (sample_fingerprint sha) samples') = sort (map (sample_fingerprint sha) samples)"
    using assms(1) by (metis mset_map sorted_list_of_multiset_mset)
  show ?thesis
    unfolding build_probe_evaluation_eq split evaluation_record_def probe_evaluation_proposition_id_def
      sorted_samples sorted_digests by (rule refl)
qed

definition held_out :: "probe_evaluation \<Rightarrow> probe_sample list \<Rightarrow> probe_sample set" where
  "held_out e samples = {s \<in> set samples. sm_observation_id s \<in> set (ev_holdout_observation_ids e)}"

text \<open>C16: \<open>build_probe_evaluation\<close> is total and reproducible on usable samples. For valid samples it returns a valid evaluation
  exactly when there are samples, their observations are distinct and every consequence class has two of them;
  the gain on the holdout is the number of unordered pairs of held-out samples that the candidate tells
  apart while the existing basis does not, although their protected consequences differ; and the evaluation does not
  depend on the order of the samples.\<close>

theorem probe_evaluation_exact:
  assumes "hex_digests sha" "valid_identifier i" "valid_identifier candidate" "list_all valid_sample samples"
    "valid_check_reference redundancy" "valid_check_reference behaviour"
  shows "(is_ok (build_probe_evaluation sha i candidate samples redundancy behaviour) \<longleftrightarrow>
      samples \<noteq> [] \<and> distinct (map sm_observation_id samples) \<and> (\<forall>c \<in> sample_class ` set samples. 2 \<le> class_size samples c)) \<and>
    (\<forall>e. build_probe_evaluation sha i candidate samples redundancy behaviour = Inr e \<longrightarrow>
      valid_probe_evaluation e \<and>
      ev_holdout_discrimination_gain e =
        card {{x, y} |x y. x \<in> held_out e samples \<and> y \<in> held_out e samples \<and> discriminates x y} \<and>
      (\<forall>samples'. mset samples' = mset samples \<longrightarrow>
        build_probe_evaluation sha i candidate samples' redundancy behaviour = Inr e))"
proof (cases "stratified_probe_split sha samples")
  case (Inr parts)
  obtain training holdout where parts: "parts = (training, holdout)" by (cases parts)
  note split = Inr [unfolded parts]
  let ?e = "evaluation_record sha i candidate samples redundancy behaviour training holdout"
  have sizes: "\<forall>c \<in> sample_class ` set samples. 2 \<le> class_size samples c" using split unfolding stratified_split_eq by blast
  note valid = evaluation_record_valid [OF assms split]
  have build: "build_probe_evaluation sha i candidate samples redundancy behaviour = Inr e \<longleftrightarrow>
      samples \<noteq> [] \<and> distinct (map sm_observation_id samples) \<and> e = ?e" for e
    unfolding build_probe_evaluation_eq split sum.case prod.case construct_Inr_iff valid by blast
  have m: "mset training + mset holdout = mset samples" by (rule split_mset [OF split])
  have gain: "ev_holdout_discrimination_gain ?e =
      card {{x, y} |x y. x \<in> held_out ?e samples \<and> y \<in> held_out ?e samples \<and> discriminates x y}"
    if d: "distinct (map sm_observation_id samples)"
  proof -
    have sub: "set training \<union> set holdout = set samples" using m by (metis mset_append mset_eq_setD set_append)
    have dd: "distinct (map sm_observation_id (training @ holdout))"
      using d m by (metis mset_append mset_eq_imp_distinct_iff mset_map)
    then have "held_out ?e samples = set holdout"
      using sub unfolding held_out_def evaluation_record_def Let_def by (auto dest: arg_cong)
    moreover have "distinct holdout" using dd by (simp add: distinct_map)
    ultimately show ?thesis using pair_gain_pairs [of holdout] by (simp add: evaluation_record_def Let_def)
  qed
  show ?thesis
  proof (intro conjI allI impI)
    show "is_ok (build_probe_evaluation sha i candidate samples redundancy behaviour) \<longleftrightarrow>
        samples \<noteq> [] \<and> distinct (map sm_observation_id samples) \<and> (\<forall>c \<in> sample_class ` set samples. 2 \<le> class_size samples c)"
      unfolding is_ok_iff build using sizes by blast
    fix e assume e: "build_probe_evaluation sha i candidate samples redundancy behaviour = Inr e"
    then have d: "distinct (map sm_observation_id samples)" "e = ?e" "samples \<noteq> []" unfolding build by blast+
    show "valid_probe_evaluation e" using valid d by simp
    show "ev_holdout_discrimination_gain e =
        card {{x, y} |x y. x \<in> held_out e samples \<and> y \<in> held_out e samples \<and> discriminates x y}"
      unfolding d(2) by (rule gain [OF d(1)])
    fix samples' assume "mset samples' = mset samples"
    from build_probe_evaluation_mset_eq [OF this d(1)] e
    show "build_probe_evaluation sha i candidate samples' redundancy behaviour = Inr e" by (rule trans)
  qed
next
  case (Inl err)
  have "\<not> (\<forall>c \<in> sample_class ` set samples. 2 \<le> class_size samples c)"
  proof
    assume "\<forall>c \<in> sample_class ` set samples. 2 \<le> class_size samples c"
    then have "\<exists>training holdout. stratified_probe_split sha samples = Inr (training, holdout)"
      unfolding stratified_split_eq by blast
    with Inl show False by simp
  qed
  then show ?thesis unfolding build_probe_evaluation_eq Inl by auto
qed

section \<open>Conservative fields\<close>

lemma keep_first_set: "key ` set (keep_first key seen xs) = key ` set xs - seen"
  by (induction xs arbitrary: seen) auto

lemma keep_first_subset: "set (keep_first key seen xs) \<subseteq> set xs"
  by (induction xs arbitrary: seen) (auto split: if_splits)

lemma keep_first_distinct: "distinct (map key (keep_first key seen xs))"
proof (induction xs arbitrary: seen)
  case (Cons x xs)
  have "key x \<notin> key ` set (keep_first key (insert (key x) seen) xs)" unfolding keep_first_set by simp
  with Cons show ?case by auto
qed simp

lemma keep_first_append: "keep_first key seen (xs @ ys) = keep_first key seen xs @ keep_first key (seen \<union> key ` set xs) ys"
  by (induction xs arbitrary: seen) (auto simp: insert_absorb insert_commute)

lemma keep_first_id: "distinct (map key xs) \<Longrightarrow> key ` set xs \<inter> seen = {} \<Longrightarrow> keep_first key seen xs = xs"
  by (induction xs arbitrary: seen) auto

text \<open>What stands in front is dropped last.\<close>

lemma front_kept:
  assumes "distinct (front @ back)" "set front \<inter> set (drop n (front @ back)) \<noteq> {}"
  shows "set (take n (front @ back)) \<subseteq> set front"
proof (cases "length front \<le> n")
  case True
  then have "set (drop n (front @ back)) \<subseteq> set back" by (auto dest: in_set_dropD)
  with assms show ?thesis by auto
qed (auto dest: in_set_takeD)

lemma ordered_structures_exact:
  shows "distinct (ordered_structures safety exceptions dependencies retrieval)"
    "set (ordered_structures safety exceptions dependencies retrieval) = set (safety @ exceptions @ dependencies @ retrieval)"
    "\<exists>front back. ordered_structures safety exceptions dependencies retrieval = front @ back \<and> set front = set safety"
    "\<exists>front back. ordered_structures safety exceptions dependencies retrieval = front @ back \<and>
       set front = set (safety @ exceptions @ dependencies)"
proof -
  let ?o = "ordered_structures safety exceptions dependencies retrieval"
  show "distinct ?o" using keep_first_distinct [of id] unfolding ordered_structures_def by simp
  show "set ?o = set (safety @ exceptions @ dependencies @ retrieval)"
    using keep_first_set [of id "{}" "sorted_set safety @ sorted_set exceptions @ sorted_set dependencies @ sorted_set retrieval"]
    unfolding ordered_structures_def by simp
  have front: "\<exists>front back. keep_first id {} (xs @ ys) = front @ back \<and> set front = set xs" for xs ys :: "string list"
    using keep_first_append [of id "{}" xs ys] keep_first_set [of id "{}" xs] by auto
  show "\<exists>front back. ?o = front @ back \<and> set front = set safety"
    using front [of "sorted_set safety"] unfolding ordered_structures_def by simp
  show "\<exists>front back. ?o = front @ back \<and> set front = set (safety @ exceptions @ dependencies)"
    using front [of "sorted_set safety @ sorted_set exceptions @ sorted_set dependencies" "sorted_set retrieval"]
    unfolding ordered_structures_def by simp
qed

definition active_item :: "string \<Rightarrow> semantic_item" where
  "active_item s = \<lparr>si_structure_id = s, si_relevance = RelevanceActive, si_irrelevance_warrant_id = None,
     si_reopening_condition_id = None\<rparr>"

definition conservative_field :: "(string \<Rightarrow> digest) \<Rightarrow> probe_identity \<Rightarrow> string list \<Rightarrow> string list \<Rightarrow> semantic_field" where
  "conservative_field sha identity included retrieval =
    (let items = map active_item included; horizon = pi_protected_horizon_id identity;
         sources = \<lparr>fs_same_probe_history_event_ids = [], fs_cross_probe_trace_ids = [], fs_retrieval_result_ids = sorted_set retrieval,
           fs_method_contract_ids = [], fs_reopening_condition_ids = []\<rparr> in
     \<lparr>sf_id = ''field_'' @ take 24 (content_fingerprint sha ''rci.semantic-field.v1''
        (field_material sha identity horizon items sources {})),
      sf_probe_fingerprint = probe_fingerprint sha identity, sf_protected_horizon_id = horizon, sf_items = items,
      sf_same_probe_history_event_ids = [], sf_cross_probe_trace_ids = [], sf_retrieval_result_ids = sorted_set retrieval,
      sf_method_contract_ids = [], sf_reopening_condition_ids = []\<rparr>)"

lemma conservative_field_valid:
  assumes "distinct included" "[] \<notin> set included"
  shows "valid_semantic_field (conservative_field sha identity included retrieval)"
  using assms
  by (auto simp: conservative_field_def Let_def valid_semantic_field_def active_item_def valid_semantic_item_def list_all_iff comp_def)

lemma derive_conservative_field_eq:
  assumes "[] \<notin> set (safety @ exceptions @ dependencies @ retrieval)"
  shows "derive_conservative_field sha identity seq safety exceptions dependencies retrieval =
    (let ordered = ordered_structures safety exceptions dependencies retrieval in
     Inr (conservative_field sha identity (take maximum_items ordered) retrieval, sorted_set (safety @ exceptions @ dependencies),
       sort (drop maximum_items ordered), sha (int_text seq @ line_feed @ join line_feed ordered)))"
proof -
  let ?o = "ordered_structures safety exceptions dependencies retrieval"
  let ?inc = "take maximum_items ?o"
  note o = ordered_structures_exact [of safety exceptions dependencies retrieval]
  have inc: "distinct ?inc" "[] \<notin> set ?inc" using o(1) assms unfolding o(2) [symmetric] by (auto dest: in_set_takeD)
  have "collect_results (map (\<lambda>s. construct valid_semantic_item ''SemanticItem'' (active_item s)) ?inc) = Inr (map active_item ?inc)"
    using inc(2) unfolding collect_results_Inr_iff by (auto simp: construct_def valid_semantic_item_def active_item_def)
  moreover have "requested_irrelevance (map active_item ?inc) = {}" "required_reopening (map active_item ?inc) = {}"
    by (simp_all add: requested_irrelevance_def required_reopening_def active_item_def filter_empty_conv map_filter_simps)
  moreover have "construct valid_semantic_field ''SemanticField'' (conservative_field sha identity ?inc retrieval) =
      Inr (conservative_field sha identity ?inc retrieval)"
    using conservative_field_valid [OF inc] by (simp add: construct_def)
  ultimately show ?thesis
    unfolding derive_conservative_field_def build_semantic_field_def Let_def conservative_field_def active_item_def [symmetric] by simp
qed

lemma alnum_prefix_identifier:
  assumes "alnum (hd prefix)" "list_all (\<lambda>c. alnum c \<or> c \<in> set ''._:/-'') prefix" "prefix \<noteq> []" "length prefix \<le> 100" "valid_sha256 d"
  shows "valid_identifier (prefix @ take n d)"
proof -
  have "list_all (\<lambda>c. alnum c \<or> c \<in> set ''._:/-'') (take n d)"
    using assms(5) hex_alnum unfolding valid_sha256_def list_all_iff by (meson in_set_takeD)
  moreover have "length (take n d) \<le> 64" using assms(5) by (simp add: valid_sha256_def)
  ultimately show ?thesis using assms(1-4) unfolding valid_identifier_def list_all_append by simp
qed

lemma digest_identifier:
  assumes "valid_sha256 d"
  shows "valid_identifier d"
proof -
  have "list_all alnum d" using assms hex_alnum unfolding valid_sha256_def list_all_iff by blast
  moreover have "d \<noteq> []" "length d = 64" using assms by (auto simp: valid_sha256_def)
  ultimately show ?thesis unfolding valid_identifier_def by (cases d) (auto simp: list_all_iff)
qed

lemma conservative_field_parts:
  assumes "hex_digests sha"
  shows "valid_identifier (sf_id (conservative_field sha identity inc retrieval))"
    "valid_identifier (sf_probe_fingerprint (conservative_field sha identity inc retrieval))"
    "sf_probe_fingerprint (conservative_field sha identity inc retrieval) = probe_fingerprint sha identity"
    "map si_structure_id (sf_items (conservative_field sha identity inc retrieval)) = inc"
    "filter (\<lambda>i. si_relevance i = RelevanceIrrelevant) (sf_items (conservative_field sha identity inc retrieval)) = []"
proof -
  have d: "valid_sha256 (content_fingerprint sha ns j)" for ns j
    using assms by (simp add: hex_digests_def content_fingerprint_def)
  have "valid_identifier (''field_'' @ take 24 (content_fingerprint sha ns j))" for ns j
    by (rule alnum_prefix_identifier) (simp_all add: d alnum_def)
  then show "valid_identifier (sf_id (conservative_field sha identity inc retrieval))"
    by (simp add: conservative_field_def Let_def)
  show "valid_identifier (sf_probe_fingerprint (conservative_field sha identity inc retrieval))"
    using digest_identifier [OF d] by (simp add: conservative_field_def Let_def probe_fingerprint_def)
qed (simp_all add: conservative_field_def Let_def active_item_def comp_def filter_empty_conv)

lemma evaluate_conservative_field_ok:
  assumes "hex_digests sha" "valid_identifier i" "0 \<le> seq" "valid_sha256 index"
    "identifiers (required @ inc @ overflow)" "distinct inc" "canonical required" "canonical overflow"
    "set inc \<inter> set overflow = {}"
  shows "\<exists>e. evaluate_conservative_field sha dump i (conservative_field sha identity inc retrieval) seq index
       (probe_fingerprint sha identity) required overflow = Inr e \<and>
     fe_included_structure_ids e = sort inc \<and> fe_overflow_structure_ids e = overflow \<and> fe_id e = i \<and>
     fe_field_id e = sf_id (conservative_field sha identity inc retrieval) \<and>
     fe_status e = coverage_status required inc overflow"
proof -
  let ?f = "conservative_field sha identity inc retrieval"
  note parts = conservative_field_parts [OF assms(1), of identity inc retrieval]
  have same: "sorted_set required = required" "sorted_set overflow = overflow"
    using assms(7,8) by (auto simp: canonical_iff intro: sorted_list_of_set.idem_if_sorted_distinct)
  have "[] \<notin> set inc" using assms(5) by (auto simp: list_all_iff valid_identifier_def)
  then have vf: "valid_semantic_field ?f" using assms(6) by (intro conservative_field_valid)
  have status: "coverage_status required (sort inc) overflow = coverage_status required inc overflow"
    by (simp add: coverage_status_def)
  have "valid_field_evaluation sha dump
      \<lparr>fe_id = i, fe_field_id = sf_id ?f, fe_field_fingerprint = sha (dump ?f), fe_field = ?f,
        fe_source_sequence = seq, fe_source_index_fingerprint = index, fe_probe_fingerprint = probe_fingerprint sha identity,
        fe_required_structure_ids = required, fe_included_structure_ids = sort inc, fe_overflow_structure_ids = overflow,
        fe_irrelevant_structure_ids = [], fe_status = coverage_status required (sort inc) overflow\<rparr>"
    using assms vf parts(1,2) unfolding valid_field_evaluation_def
    by (auto simp: parts(3) hex_digests_def canonical_iff list_all_iff)
  then show ?thesis
    unfolding evaluate_conservative_field_def Let_def same parts(4,5) by (simp add: construct_def status)
qed

lemma freeze_strings: "freeze_list (map JStr xs) = Inr (map JStr xs)"
  by (induction xs) auto

lemma overflow_residual_total:
  assumes "valid_scope scope'" "fe_id e \<noteq> []" "fe_field_id e \<noteq> []"
  shows "\<exists>r. semantic_field_overflow_residual sha e scope' = Inr r \<and> (r = None \<longleftrightarrow> fe_overflow_structure_ids e = [])"
  using assms
  by (auto simp: semantic_field_overflow_residual_def construct_def valid_residual_def valid_provenance_def freeze_strings
    list_all_iff)

text \<open>C15: Conservative fields fail visibly. For identifiers of structures, \<open>derive_conservative_field\<close> and
  \<open>evaluate_conservative_field\<close> always succeed. The field includes as many of the given structures as the bound of
  32 allows and names all others as overflow. A structure from retrieval is included only if no required one
  overflows, and any structure other than a safety structure only if no safety structure overflows. The
  evaluation is valid exactly when at most 32 structures were given, and exactly otherwise the
  overflow leaves a residual.\<close>

theorem conservative_field_exact:
  assumes "hex_digests sha" "valid_identifier i" "0 \<le> seq" "valid_scope scope'"
    "identifiers (safety @ exceptions @ dependencies @ retrieval)"
  shows "\<exists>field required overflow index e r.
    derive_conservative_field sha identity seq safety exceptions dependencies retrieval = Inr (field, required, overflow, index) \<and>
    evaluate_conservative_field sha dump i field seq index (probe_fingerprint sha identity) required overflow = Inr e \<and>
    semantic_field_overflow_residual sha e scope' = Inr r \<and>
    set (fe_included_structure_ids e) \<union> set overflow = set (safety @ exceptions @ dependencies @ retrieval) \<and>
    set (fe_included_structure_ids e) \<inter> set overflow = {} \<and>
    card (set (fe_included_structure_ids e)) = min 32 (card (set (safety @ exceptions @ dependencies @ retrieval))) \<and>
    (set required \<inter> set overflow \<noteq> {} \<longrightarrow> set (fe_included_structure_ids e) \<subseteq> set required) \<and>
    (set safety \<inter> set overflow \<noteq> {} \<longrightarrow> set (fe_included_structure_ids e) \<subseteq> set safety) \<and>
    (fe_status e = FieldValid \<longleftrightarrow> card (set (safety @ exceptions @ dependencies @ retrieval)) \<le> 32) \<and>
    (r = None \<longleftrightarrow> card (set (safety @ exceptions @ dependencies @ retrieval)) \<le> 32)"
proof -
  let ?all = "set (safety @ exceptions @ dependencies @ retrieval)"
  define ordered where "ordered = ordered_structures safety exceptions dependencies retrieval"
  define inc where "inc = take maximum_items ordered"
  define overflow where "overflow = sort (drop maximum_items ordered)"
  define required where "required = sorted_set (safety @ exceptions @ dependencies)"
  define index where "index = sha (int_text seq @ line_feed @ join line_feed ordered)"
  define field where "field = conservative_field sha identity inc retrieval"
  note o = ordered_structures_exact [of safety exceptions dependencies retrieval, folded ordered_def]
  have parts: "set inc \<union> set overflow = ?all" "set inc \<inter> set overflow = {}" "distinct inc" "canonical overflow"
  proof -
    have "set inc \<union> set overflow = set (take maximum_items ordered @ drop maximum_items ordered)"
      unfolding set_append by (simp add: inc_def overflow_def)
    then show "set inc \<union> set overflow = ?all" unfolding append_take_drop_id o(2) .
    show "set inc \<inter> set overflow = {}" using o(1) by (simp add: inc_def overflow_def set_take_disj_set_drop_if_distinct)
  qed (use o(1) in \<open>simp_all add: inc_def overflow_def canonical_iff\<close>)
  have ne: "[] \<notin> ?all" using assms(5) by (auto simp: list_all_iff valid_identifier_def)
  have derive: "derive_conservative_field sha identity seq safety exceptions dependencies retrieval = Inr (field, required, overflow, index)"
    using derive_conservative_field_eq [OF ne, of sha identity seq]
    by (simp add: Let_def field_def inc_def required_def overflow_def index_def ordered_def)
  have "identifiers (required @ inc @ overflow)"
    using assms(5) parts(1) unfolding list_all_iff required_def by auto
  then obtain e where e: "evaluate_conservative_field sha dump i field seq index (probe_fingerprint sha identity) required overflow = Inr e"
      "fe_included_structure_ids e = sort inc" "fe_overflow_structure_ids e = overflow" "fe_id e = i" "fe_field_id e = sf_id field"
      "fe_status e = coverage_status required inc overflow"
    using evaluate_conservative_field_ok [OF assms(1-3), of index required inc overflow dump identity retrieval] assms(1) parts
    unfolding field_def by (auto simp: index_def hex_digests_def required_def)
  have "fe_id e \<noteq> []" "fe_field_id e \<noteq> []"
    using e(4,5) assms(2) conservative_field_parts(1) [OF assms(1), of identity inc retrieval]
    by (auto simp: valid_identifier_def field_def)
  then obtain r where r: "semantic_field_overflow_residual sha e scope' = Inr r" "r = None \<longleftrightarrow> overflow = []"
    using overflow_residual_total [OF assms(4), of e sha] e(3) by auto
  have len: "length ordered = card ?all" using distinct_card [OF o(1)] o(2) by simp
  have bound: "overflow = [] \<longleftrightarrow> card ?all \<le> 32"
    using len by (simp add: overflow_def sort_key_empty maximum_items_def)
  have card: "card (set inc) = min 32 (card ?all)"
    using distinct_card [OF parts(3)] len by (simp add: inc_def maximum_items_def)
  have status: "fe_status e = FieldValid \<longleftrightarrow> overflow = []"
    using parts(1) unfolding e(6) coverage_status_def required_def by auto
  have front: "set xs \<inter> set overflow \<noteq> {} \<longrightarrow> set inc \<subseteq> set xs" if "\<exists>front back. ordered = front @ back \<and> set front = set xs" for xs
  proof -
    obtain f b where "ordered = f @ b" "set f = set xs" using \<open>\<exists>front back. ordered = front @ back \<and> set front = set xs\<close> by blast
    then show ?thesis using front_kept [of f b maximum_items] o(1) by (auto simp: inc_def overflow_def)
  qed
  have "set required \<inter> set overflow \<noteq> {} \<longrightarrow> set inc \<subseteq> set required"
    using front [OF o(4)] unfolding required_def by simp
  moreover have "set safety \<inter> set overflow \<noteq> {} \<longrightarrow> set inc \<subseteq> set safety" by (rule front [OF o(3)])
  moreover have "set (fe_included_structure_ids e) = set inc" using e(2) by simp
  ultimately show ?thesis using derive e(1) r(1) parts(1,2) card status bound r(2) by metis
qed

section \<open>Consolidation\<close>

definition episode_record :: "(string \<Rightarrow> digest) \<Rightarrow> consolidation_role \<Rightarrow> probe_event \<Rightarrow> consolidation_source" where
  "episode_record sha role e = \<lparr>cs_role = role, cs_reference = \<lparr>or_owner = EpisodicOwner, or_record_type = ProbeEventType,
     or_record_id = pe_id e, or_record_schema_version = 1, or_content_fingerprint = content_fingerprint sha
       (''rci.owned-memory-record.v1/'' @ owner_value EpisodicOwner @ ''/'' @ record_type_value ProbeEventType @ ''/v'' @ int_text 1)
       (probe_event_json e)\<rparr>, cs_semantic_sequence = pe_sequence_index e\<rparr>"

lemma episode_source_eq:
  assumes "hex_digests sha" "valid_identifier (pe_id e)" "0 \<le> pe_sequence_index e"
  shows "episode_source sha role e = Inr (episode_record sha role e)" "valid_consolidation_source (episode_record sha role e)"
proof -
  have r: "valid_owned_ref (cs_reference (episode_record sha role e))"
    using assms by (simp add: episode_record_def valid_owned_ref_def hex_digests_def content_fingerprint_def)
  then show v: "valid_consolidation_source (episode_record sha role e)"
    using assms(3) by (simp add: valid_consolidation_source_def episode_record_def)
  show "episode_source sha role e = Inr (episode_record sha role e)"
    using r v
    by (simp add: episode_source_def make_owned_memory_ref_def owned_record_content_fingerprint_def construct_def episode_record_def)
qed

lemma episode_key: "source_key (episode_record sha role e) = ''M_E:probe_event:'' @ pe_id e @ '':v'' @ int_text 1"
  by (simp add: episode_record_def ref_key_def)

definition episode_events ::
  "claim list \<Rightarrow> conflict list \<Rightarrow> mismatch list \<Rightarrow> probe_event list \<Rightarrow> (consolidation_role \<times> probe_event) list" where
  "episode_events claims conflicts mismatches observations =
     map (Pair RecentEpisode) (rev (recent_observations observations)) @
     map (Pair OlderException) (rev (older_exceptions (is_exception claims conflicts mismatches) observations))"

lemma set_take_last: "set (take_last n xs) \<subseteq> set xs"
  by (auto simp: take_last_def dest: in_set_dropD)

lemma scoped_observations_props:
  "set (scoped_observations scope' binding horizon events) \<subseteq> set events"
  "distinct (map pe_id events) \<Longrightarrow> distinct (map pe_id (scoped_observations scope' binding horizon events))"
  by (auto simp: scoped_observations_def distinct_map intro: inj_on_subset)

lemma episode_events_props:
  assumes "distinct (map pe_id obs)"
  shows "snd ` set (episode_events claims conflicts mismatches obs) \<subseteq> set obs"
    "distinct (map (pe_id \<circ> snd) (episode_events claims conflicts mismatches obs))"
    "2 \<le> length (episode_events claims conflicts mismatches obs) \<longleftrightarrow> 2 \<le> length obs"
proof -
  let ?r = "recent_observations obs" and ?o = "older_exceptions (is_exception claims conflicts mismatches) obs"
  have older: "e \<in> set obs \<and> pe_id e \<notin> pe_id ` set ?r" if "e \<in> set ?o" for e
    using subsetD [OF set_take_last that [unfolded older_exceptions_def]] by simp
  have sub: "set ?r \<subseteq> set obs" "set ?o \<subseteq> set obs" "pe_id ` set ?r \<inter> pe_id ` set ?o = {}"
  proof -
    show "set ?r \<subseteq> set obs" unfolding recent_observations_def by (rule set_take_last)
    show "set ?o \<subseteq> set obs" by (intro subsetI conjunct1 [OF older])
    show "pe_id ` set ?r \<inter> pe_id ` set ?o = {}" by (intro equals0I) (elim IntE imageE [of _ _ "set ?o"], use older in simp)
  qed
  then show "snd ` set (episode_events claims conflicts mismatches obs) \<subseteq> set obs"
    by (auto simp: episode_events_def)
  have "distinct (map pe_id ?r)" "distinct (map pe_id ?o)"
    using assms by (simp_all add: recent_observations_def older_exceptions_def take_last_def distinct_map_filter flip: drop_map)
  then show "distinct (map (pe_id \<circ> snd) (episode_events claims conflicts mismatches obs))"
    using sub(3) by (auto simp: episode_events_def comp_def rev_map [symmetric])
  have "length ?r = min recent_limit (length obs)" by (simp add: recent_observations_def take_last_def)
  moreover have "?o = []" if "length obs < 2"
  proof -
    have "?r = obs" using that by (simp add: recent_observations_def take_last_def recent_limit_def)
    then show ?thesis by (simp add: older_exceptions_def take_last_def filter_empty_conv)
  qed
  ultimately show "2 \<le> length (episode_events claims conflicts mismatches obs) \<longleftrightarrow> 2 \<le> length obs"
    by (cases "2 \<le> length obs") (auto simp: episode_events_def recent_limit_def)
qed

lemma collect_episodes:
  assumes "hex_digests sha" "\<forall>e \<in> snd ` set ps. valid_identifier (pe_id e) \<and> 0 \<le> pe_sequence_index e"
  shows "collect_results (map (\<lambda>(role, e). episode_source sha role e) ps) = Inr (map (\<lambda>(role, e). episode_record sha role e) ps)"
  unfolding collect_results_Inr_iff using assms episode_source_eq(1) by (fastforce simp: split_beta)

lemma no_counterexample_sources:
  assumes "\<not> list_ex (\<lambda>(_, r). accepted_counterexample r) (take counterexample_limit (sort_key fst requests))"
  shows "counterexample_sources sha seq requests = Inr []"
proof -
  let ?xs = "take counterexample_limit (sort_key fst requests)"
  have "collect_results (map (counterexample_source sha seq) ?xs) = Inr (map (\<lambda>_. None) ?xs)"
    unfolding collect_results_Inr_iff using assms by (auto simp: counterexample_source_def list_ex_iff split_beta)
  then show ?thesis by (simp add: counterexample_sources_def List.map_filter_def)
qed

lemma select_episodes:
  assumes "hex_digests sha" "distinct (map pe_id events)"
    "\<forall>e \<in> set events. valid_identifier (pe_id e) \<and> 0 \<le> pe_sequence_index e"
    and ps_def: "ps = episode_events claims conflicts mismatches (scoped_observations scope' binding horizon events)"
    and sources_def: "sources = map (\<lambda>(role, e). episode_record sha role e) ps"
  shows "select_consolidation_checkpoint sha i seq scope' binding horizon events claims conflicts mismatches requests =
    (case counterexample_sources sha seq requests of Inl err \<Rightarrow> Inl err
     | Inr counterexamples \<Rightarrow> (let unique = keep_first source_key {} (sources @ counterexamples) in
        construct valid_consolidation_checkpoint ''ConsolidationCheckpoint''
        \<lparr>cc_id = i, cc_source_sequence = seq,
         cc_source_index_fingerprint = source_index_fingerprint sha (map cs_reference unique) seq,
         cc_scope_fingerprint = scope', cc_binding_revision = binding, cc_protected_horizon_id = horizon,
         cc_sources = unique, cc_status = status_of_sources unique\<rparr>))"
    "list_all valid_consolidation_source sources" "distinct (map source_key sources)"
proof -
  let ?obs = "scoped_observations scope' binding horizon events"
  note obs = scoped_observations_props(1) [of scope' binding horizon events]
    scoped_observations_props(2) [OF assms(2), of scope' binding horizon]
  note props = episode_events_props [OF obs(2), of claims conflicts mismatches, folded ps_def]
  have ids: "\<forall>e \<in> snd ` set ps. valid_identifier (pe_id e) \<and> 0 \<le> pe_sequence_index e"
    using props(1) obs(1) assms(3) by blast
  have collected: "collect_results (map (episode_source sha RecentEpisode) (rev (recent_observations ?obs)) @
      map (episode_source sha OlderException) (rev (older_exceptions (is_exception claims conflicts mismatches) ?obs))) = Inr sources"
    using collect_episodes [OF assms(1) ids] by (simp add: ps_def sources_def episode_events_def comp_def)
  show "list_all valid_consolidation_source sources"
    using episode_source_eq(2) [OF assms(1)] ids unfolding sources_def list_all_iff by fastforce
  have "map source_key sources = map (\<lambda>x. ''M_E:probe_event:'' @ x @ '':v'' @ int_text 1) (map (pe_id \<circ> snd) ps)"
    by (simp add: sources_def episode_key split_beta comp_def)
  then show keys: "distinct (map source_key sources)"
    using props(2) by (simp only: distinct_map [of _ "map (pe_id \<circ> snd) ps"]) (auto simp: inj_on_def)
  show "select_consolidation_checkpoint sha i seq scope' binding horizon events claims conflicts mismatches requests =
    (case counterexample_sources sha seq requests of Inl err \<Rightarrow> Inl err
     | Inr counterexamples \<Rightarrow> (let unique = keep_first source_key {} (sources @ counterexamples) in
        construct valid_consolidation_checkpoint ''ConsolidationCheckpoint''
        \<lparr>cc_id = i, cc_source_sequence = seq,
         cc_source_index_fingerprint = source_index_fingerprint sha (map cs_reference unique) seq,
         cc_scope_fingerprint = scope', cc_binding_revision = binding, cc_protected_horizon_id = horizon,
         cc_sources = unique, cc_status = status_of_sources unique\<rparr>))"
    unfolding select_consolidation_checkpoint_def Let_def collected by simp
qed

text \<open>C18: A consolidation checkpoint is built from the newest observations of its scope and the older exceptions. For valid
  observations with distinct identities, and when none of the first four effect requests by identity has an
  accepted counterexample, \<open>select_consolidation_checkpoint\<close> returns a valid checkpoint
  whose sources are, newest first, the last four observations and then up to four earlier ones that
  mismatched, conflicted or were contested, each once; and it is ready exactly when the scope has two observations.\<close>

theorem consolidation_checkpoint_exact:
  assumes "hex_digests sha" "distinct (map pe_id events)"
    "\<forall>e \<in> set events. valid_identifier (pe_id e) \<and> 0 \<le> pe_sequence_index e"
    "identifiers [i, scope', binding, horizon]" "0 \<le> seq"
    "\<not> list_ex (\<lambda>(_, r). accepted_counterexample r) (take counterexample_limit (sort_key fst requests))"
  shows "\<exists>cp. select_consolidation_checkpoint sha i seq scope' binding horizon events claims conflicts mismatches requests = Inr cp \<and>
    valid_consolidation_checkpoint cp \<and>
    map (\<lambda>s. (cs_role s, or_record_id (cs_reference s))) (cc_sources cp) =
      map (\<lambda>e. (RecentEpisode, pe_id e)) (rev (take_last 4 (scoped_observations scope' binding horizon events))) @
      map (\<lambda>e. (OlderException, pe_id e)) (rev (take_last 4 (filter (\<lambda>e. pe_id e \<notin>
          pe_id ` set (take_last 4 (scoped_observations scope' binding horizon events)) \<and>
          is_exception claims conflicts mismatches e) (scoped_observations scope' binding horizon events)))) \<and>
    (cc_status cp = ConsolidationReady \<longleftrightarrow> 2 \<le> length (scoped_observations scope' binding horizon events))"
proof -
  let ?obs = "scoped_observations scope' binding horizon events"
  define ps where "ps = episode_events claims conflicts mismatches ?obs"
  define sources where "sources = map (\<lambda>(role, e). episode_record sha role e) ps"
  note sel = select_episodes [OF assms(1-3) ps_def sources_def]
  let ?cp = "\<lparr>cc_id = i, cc_source_sequence = seq,
         cc_source_index_fingerprint = source_index_fingerprint sha (map cs_reference sources) seq,
         cc_scope_fingerprint = scope', cc_binding_revision = binding, cc_protected_horizon_id = horizon,
         cc_sources = sources, cc_status = status_of_sources sources\<rparr>"
  have valid: "valid_consolidation_checkpoint ?cp"
    using sel(2,3) assms(1,4,5) by (simp add: valid_consolidation_checkpoint_def source_index_fingerprint_def hex_digests_def)
  have "counterexample_sources sha seq requests = Inr []" by (rule no_counterexample_sources [OF assms(6)])
  moreover have "keep_first source_key {} sources = sources" using sel(3) by (simp add: keep_first_id)
  ultimately have "select_consolidation_checkpoint sha i seq scope' binding horizon events claims conflicts mismatches requests = Inr ?cp"
    unfolding sel(1) using valid by (simp add: construct_def)
  moreover have "map (\<lambda>s. (cs_role s, or_record_id (cs_reference s))) sources = map (\<lambda>(role, e). (role, pe_id e)) ps"
    by (simp add: sources_def episode_record_def split_beta comp_def)
  moreover have "episode_count sources = length ps"
    by (auto simp: episode_count_def sources_def ps_def episode_events_def episode_record_def filter_map comp_def)
  moreover have "2 \<le> length ps \<longleftrightarrow> 2 \<le> length ?obs"
    using episode_events_props(3) [OF scoped_observations_props(2) [OF assms(2)]] unfolding ps_def by blast
  ultimately show ?thesis
    using valid
    by (auto simp: status_of_sources_def minimum_distinct_episodes_def ps_def episode_events_def recent_observations_def
      older_exceptions_def recent_limit_def exception_limit_def comp_def)
qed

text \<open>The loop over the counterexamples, for request records that expose a schema version.\<close>

definition exposes_version :: "request_object \<Rightarrow> bool" where
  "exposes_version q \<longleftrightarrow> (\<exists>r v. qo_request q = Some r \<and> qr_schema_version r = Some v \<and> 1 \<le> v)"

definition counterexample_record :: "(string \<Rightarrow> digest) \<Rightarrow> int \<Rightarrow> string \<times> request_object \<Rightarrow> consolidation_source" where
  "counterexample_record sha seq item = (let r = the (qo_request (snd item)); v = the (qr_schema_version r) in
     \<lparr>cs_role = CounterexampleSource, cs_reference = \<lparr>or_owner = ActionOwner, or_record_type = EffectRequestType,
       or_record_id = fst item, or_record_schema_version = v,
       or_content_fingerprint = sha (owned_record_text ActionOwner EffectRequestType v (qr_json r))\<rparr>,
      cs_semantic_sequence = seq\<rparr>)"

lemma counterexample_record_source:
  assumes "hex_digests sha" "0 \<le> seq" "valid_identifier (fst item)" "exposes_version (snd item)"
  shows "counterexample_source sha seq item =
      Inr (if accepted_counterexample (snd item) then Some (counterexample_record sha seq item) else None)"
    "valid_consolidation_source (counterexample_record sha seq item)"
proof -
  obtain r v where r: "qo_request (snd item) = Some r" "qr_schema_version r = Some v" "1 \<le> v"
    using assms(4) unfolding exposes_version_def by blast
  have ref: "valid_owned_ref (cs_reference (counterexample_record sha seq item))"
    using assms(1,3) r by (simp add: counterexample_record_def Let_def valid_owned_ref_def hex_digests_def)
  then show valid: "valid_consolidation_source (counterexample_record sha seq item)"
    using assms(2) by (simp add: valid_consolidation_source_def counterexample_record_def Let_def)
  have "make_owned_memory_ref sha ActionOwner EffectRequestType (fst item) v (qr_json r) =
      Inr (cs_reference (counterexample_record sha seq item))"
    unfolding make_owned_memory_ref_Inr using ref r by (simp add: counterexample_record_def Let_def)
  then show "counterexample_source sha seq item =
      Inr (if accepted_counterexample (snd item) then Some (counterexample_record sha seq item) else None)"
    using r valid by (simp add: counterexample_source_def construct_def) (simp add: counterexample_record_def Let_def r)
qed

lemma counterexample_sources_exposed:
  assumes "hex_digests sha" "0 \<le> seq"
    "\<forall>x \<in> set requests. valid_identifier (fst x) \<and> exposes_version (snd x)" "distinct (map fst requests)"
    and cs_def: "cs = map (counterexample_record sha seq)
      (filter (\<lambda>x. accepted_counterexample (snd x)) (take counterexample_limit (sort_key fst requests)))"
  shows "counterexample_sources sha seq requests = Inr cs"
    "list_all valid_consolidation_source cs" "distinct (map source_key cs)"
    "\<forall>s \<in> set cs. hd (source_key s) = CHR ''A''"
proof -
  let ?xs = "take counterexample_limit (sort_key fst requests)"
  let ?f = "\<lambda>x. if accepted_counterexample (snd x) then Some (counterexample_record sha seq x) else None"
  have sub: "set ?xs \<subseteq> set requests" using set_take_subset [of counterexample_limit "sort_key fst requests"] by simp
  have each: "valid_identifier (fst x) \<and> exposes_version (snd x)" if "x \<in> set ?xs" for x
    using assms(3) sub that by blast
  have "collect_results (map (counterexample_source sha seq) ?xs) = Inr (map ?f ?xs)"
    unfolding collect_results_Inr_iff map_map
    by (rule map_cong [OF refl]) (use each counterexample_record_source(1) [OF assms(1,2)] in simp)
  moreover have "List.map_filter id (map ?f xs) = map (counterexample_record sha seq) (filter (\<lambda>x. accepted_counterexample (snd x)) xs)" for xs
    by (induction xs) (simp_all add: List.map_filter_simps)
  ultimately show "counterexample_sources sha seq requests = Inr cs" by (simp add: counterexample_sources_def cs_def)
  have valid: "valid_consolidation_source s" if "s \<in> set cs" for s
    using that each counterexample_record_source(2) [OF assms(1,2)] unfolding cs_def by auto
  then show "list_all valid_consolidation_source cs" by (simp only: list_all_iff) blast
  have "distinct (map fst (sort_key fst requests))"
  proof -
    have "mset (map fst (sort_key fst requests)) = mset (map fst requests)" by simp
    then show ?thesis using assms(4) by (metis mset_eq_imp_distinct_iff)
  qed
  then have "distinct (map fst (take counterexample_limit (sort_key fst requests)))" by (simp add: take_map [symmetric])
  then have ids: "distinct (map (\<lambda>s. or_record_id (cs_reference s)) cs)"
    by (simp add: cs_def comp_def counterexample_record_def Let_def distinct_map_filter)
  moreover have "source_key s \<noteq> source_key t"
    if "s \<in> set cs" "t \<in> set cs" "or_record_id (cs_reference s) \<noteq> or_record_id (cs_reference t)" for s t
    using that valid ref_key_eq_iff [of "cs_reference s" "cs_reference t"] by (simp only: valid_consolidation_source_def) blast
  ultimately show "distinct (map source_key cs)" unfolding distinct_map inj_on_def by blast
  show "\<forall>s \<in> set cs. hd (source_key s) = CHR ''A''"
    by (auto simp: cs_def counterexample_record_def Let_def ref_key_def)
qed

lemma effect_request_source:
  "counterexample_source sha seq (i, effect_request_object r) =
    (if accepted_counterexample (effect_request_object r) then Inl (AttributeError ''schema_version'') else Inr None)"
  by (simp add: counterexample_source_def effect_request_object_def Let_def)

lemma collect_results_Inl:
  assumes "\<forall>x \<in> set xs. f x = Inl e \<or> is_ok (f x)" "list_ex (\<lambda>x. f x = Inl e) xs"
  shows "collect_results (map f xs) = Inl e"
  using assms
proof (induction xs)
  case (Cons x xs)
  then show ?case by (cases "f x") (auto simp: is_ok_def split: sum.splits)
qed simp

lemma effect_request_sources:
  "counterexample_sources sha seq (effect_request_objects rs) =
    (if list_ex (\<lambda>(_, q). accepted_counterexample q) (take counterexample_limit (sort_key fst (effect_request_objects rs)))
     then Inl (AttributeError ''schema_version'') else Inr [])"
proof -
  let ?xs = "take counterexample_limit (sort_key fst (effect_request_objects rs))"
  have xs: "\<exists>i r. x = (i, effect_request_object r)" if "x \<in> set ?xs" for x
  proof -
    have "x \<in> set (sort_key fst (effect_request_objects rs))" using that by (rule in_set_takeD)
    then show ?thesis by (auto simp: effect_request_objects_def)
  qed
  show ?thesis
  proof (cases "list_ex (\<lambda>(_, q). accepted_counterexample q) ?xs")
    case True
    have each: "counterexample_source sha seq x = (if accepted_counterexample (snd x)
        then Inl (AttributeError ''schema_version'') else Inr None)" if "x \<in> set ?xs" for x
      using xs [OF that] effect_request_source by fastforce
    have "collect_results (map (counterexample_source sha seq) ?xs) = Inl (AttributeError ''schema_version'')"
      by (rule collect_results_Inl) (use True each in \<open>auto simp: list_ex_iff split_beta is_ok_def\<close>)
    then show ?thesis using True by (simp add: counterexample_sources_def)
  qed (simp add: no_counterexample_sources)
qed

text \<open>C29: which counterexamples consolidation takes. Over objects whose request records expose a schema version, the
  checkpoint is built and its counterexample sources are, in the order of the identities, exactly the accepted
  counterexamples among the first four objects, each an action reference to the request at the current sequence; a later
  one is never a source, because the limit cuts the objects before the counterexamples are picked out. Over the effect
  requests of a state, which expose no schema version, the checkpoint is built exactly when none of these four has an
  accepted counterexample, and otherwise the selection raises an \<open>AttributeError\<close>.\<close>

theorem consolidation_counterexamples_exact:
  assumes "hex_digests sha" "distinct (map pe_id events)"
    "\<forall>e \<in> set events. valid_identifier (pe_id e) \<and> 0 \<le> pe_sequence_index e"
    "identifiers [i, scope', binding, horizon]" "0 \<le> seq"
    "\<forall>x \<in> set requests. valid_identifier (fst x) \<and> exposes_version (snd x)" "distinct (map fst requests)"
  shows "(\<exists>cp. select_consolidation_checkpoint sha i seq scope' binding horizon events claims conflicts mismatches requests = Inr cp \<and>
      valid_consolidation_checkpoint cp \<and>
      map (\<lambda>s. (or_record_id (cs_reference s), or_owner (cs_reference s), or_record_type (cs_reference s), cs_semantic_sequence s))
        (filter (\<lambda>s. cs_role s = CounterexampleSource) (cc_sources cp)) =
      map (\<lambda>x. (fst x, ActionOwner, EffectRequestType, seq))
        (filter (\<lambda>x. accepted_counterexample (snd x)) (take 4 (sort_key fst requests)))) \<and>
    (case select_consolidation_checkpoint sha i seq scope' binding horizon events claims conflicts mismatches
        (effect_request_objects states) of
      Inl err \<Rightarrow> err = AttributeError ''schema_version'' \<and>
        list_ex (\<lambda>x. accepted_counterexample (snd x)) (take 4 (sort_key fst (effect_request_objects states)))
    | Inr cp \<Rightarrow> \<not> list_ex (\<lambda>x. accepted_counterexample (snd x)) (take 4 (sort_key fst (effect_request_objects states))))"
proof (rule conjI)
  let ?ps = "episode_events claims conflicts mismatches (scoped_observations scope' binding horizon events)"
  define sources where "sources = map (\<lambda>(role, e). episode_record sha role e) ?ps"
  note sel = select_episodes [OF assms(1-3) refl sources_def]
  let ?built = "\<lambda>unique. construct valid_consolidation_checkpoint ''ConsolidationCheckpoint''
      \<lparr>cc_id = i, cc_source_sequence = seq,
       cc_source_index_fingerprint = source_index_fingerprint sha (map cs_reference unique) seq,
       cc_scope_fingerprint = scope', cc_binding_revision = binding, cc_protected_horizon_id = horizon,
       cc_sources = unique, cc_status = status_of_sources unique\<rparr>"
  have built: "\<exists>cp. ?built unique = Inr cp \<and> valid_consolidation_checkpoint cp \<and> cc_sources cp = unique"
    if "list_all valid_consolidation_source unique" "distinct (map source_key unique)" for unique
    using that assms(1,4,5)
    by (simp add: construct_def valid_consolidation_checkpoint_def source_index_fingerprint_def hex_digests_def)
  have roles: "cs_role s \<noteq> CounterexampleSource \<and> hd (source_key s) = CHR ''M''" if "s \<in> set sources" for s
    using that by (auto simp: sources_def episode_events_def episode_key) (auto simp: episode_record_def)
  show "\<exists>cp. select_consolidation_checkpoint sha i seq scope' binding horizon events claims conflicts mismatches requests = Inr cp \<and>
      valid_consolidation_checkpoint cp \<and>
      map (\<lambda>s. (or_record_id (cs_reference s), or_owner (cs_reference s), or_record_type (cs_reference s), cs_semantic_sequence s))
        (filter (\<lambda>s. cs_role s = CounterexampleSource) (cc_sources cp)) =
      map (\<lambda>x. (fst x, ActionOwner, EffectRequestType, seq))
        (filter (\<lambda>x. accepted_counterexample (snd x)) (take 4 (sort_key fst requests)))"
  proof -
    let ?picked = "filter (\<lambda>x. accepted_counterexample (snd x)) (take counterexample_limit (sort_key fst requests))"
    define cs where "cs = map (counterexample_record sha seq) ?picked"
    note cx = counterexample_sources_exposed [OF assms(1,5,6,7) cs_def]
    have "source_key ` set sources \<inter> source_key ` set cs = {}"
    proof (rule equals0I)
      fix k assume "k \<in> source_key ` set sources \<inter> source_key ` set cs"
      then obtain s t where k: "s \<in> set sources" "k = source_key s" "t \<in> set cs" "k = source_key t" by blast
      have "hd k = CHR ''M''" "hd k = CHR ''A''" using roles [OF k(1)] bspec [OF cx(4) k(3)] k(2,4) by simp_all
      then show False by simp
    qed
    then have keys: "distinct (map source_key (sources @ cs))" using sel(3) cx(3) by (simp only: map_append distinct_append set_map simp_thms)
    have "list_all valid_consolidation_source (sources @ cs)" using sel(2) cx(2) by (simp only: list_all_append)
    then obtain cp where cp: "?built (sources @ cs) = Inr cp" "valid_consolidation_checkpoint cp" "cc_sources cp = sources @ cs"
      using built keys by blast
    have "keep_first source_key {} (sources @ cs) = sources @ cs" using keep_first_id [OF keys] by simp
    then have "select_consolidation_checkpoint sha i seq scope' binding horizon events claims conflicts mismatches requests = Inr cp"
      unfolding sel(1) cx(1) sum.case Let_def by (simp only: cp(1))
    moreover have "filter (\<lambda>s. cs_role s = CounterexampleSource) (cc_sources cp) = cs"
    proof -
      have "filter (\<lambda>s. cs_role s = CounterexampleSource) sources = []" using roles by (simp add: filter_empty_conv)
      moreover have "filter (\<lambda>s. cs_role s = CounterexampleSource) (map (counterexample_record sha seq) xs) =
          map (counterexample_record sha seq) xs" for xs
        by (induction xs) (simp_all add: counterexample_record_def Let_def)
      ultimately show ?thesis by (simp only: cp(3) cs_def filter_append append_Nil)
    qed
    ultimately show ?thesis using cp(2)
      by (simp add: cs_def comp_def) (simp add: counterexample_record_def Let_def counterexample_limit_def)
  qed
  show "case select_consolidation_checkpoint sha i seq scope' binding horizon events claims conflicts mismatches
        (effect_request_objects states) of
      Inl err \<Rightarrow> err = AttributeError ''schema_version'' \<and>
        list_ex (\<lambda>x. accepted_counterexample (snd x)) (take 4 (sort_key fst (effect_request_objects states)))
    | Inr cp \<Rightarrow> \<not> list_ex (\<lambda>x. accepted_counterexample (snd x)) (take 4 (sort_key fst (effect_request_objects states)))"
  proof (cases "list_ex (\<lambda>x. accepted_counterexample (snd x)) (take 4 (sort_key fst (effect_request_objects states)))")
    case True
    then have "counterexample_sources sha seq (effect_request_objects states) = Inl (AttributeError ''schema_version'')"
      by (simp add: effect_request_sources counterexample_limit_def split_beta')
    then show ?thesis unfolding sel(1) using True by simp
  next
    case False
    then have none: "counterexample_sources sha seq (effect_request_objects states) = Inr []"
      by (simp add: effect_request_sources counterexample_limit_def split_beta')
    have "keep_first source_key {} (sources @ []) = sources" using keep_first_id [OF sel(3)] by simp
    then obtain cp where "?built (keep_first source_key {} (sources @ [])) = Inr cp" using built [OF sel(2,3)] by auto
    then have "select_consolidation_checkpoint sha i seq scope' binding horizon events claims conflicts mismatches
        (effect_request_objects states) = Inr cp" unfolding sel(1) none sum.case Let_def .
    then show ?thesis using False by simp
  qed
qed

section \<open>Examples\<close>

definition probe_pair :: "probe_sample list" where
  "probe_pair = [\<lparr>sm_observation_id = ''o1'', sm_protected_consequence_class_id = ''c'', sm_existing_basis_class_id = ''b'',
      sm_candidate_value_id = ''v1''\<rparr>,
    \<lparr>sm_observation_id = ''o2'', sm_protected_consequence_class_id = ''c'', sm_existing_basis_class_id = ''b'',
      sm_candidate_value_id = ''v2''\<rparr>]"

lemma probe_pair_sizes: "\<forall>c \<in> sample_class ` set probe_pair. 2 \<le> class_size probe_pair c"
  by (simp add: probe_pair_def class_size_def)

theorem stratified_split_exact_witness:
  "is_ok (stratified_probe_split zero_digest probe_pair) \<and> \<not> is_ok (stratified_probe_split zero_digest (tl probe_pair))"
  using stratified_split_exact [of zero_digest probe_pair] stratified_split_exact [of zero_digest "tl probe_pair"] probe_pair_sizes
  by (simp add: probe_pair_def class_size_def)

definition probe_check :: check_reference where
  "probe_check = \<lparr>ref_evidence_id = ''e1'', ref_checker_verdict_id = ''v1''\<rparr>"

theorem probe_evaluation_exact_witness:
  "is_ok (build_probe_evaluation zero_digest ''ev'' ''probe'' probe_pair probe_check probe_check)"
proof -
  have v: "valid_identifier ''ev''" "valid_identifier ''probe''" "list_all valid_sample probe_pair" "valid_check_reference probe_check"
    by (simp_all add: valid_defs probe_pair_def valid_sample_def probe_check_def valid_check_reference_def)
  have "probe_pair \<noteq> [] \<and> distinct (map sm_observation_id probe_pair)" by (simp add: probe_pair_def)
  then show ?thesis using probe_evaluation_exact [OF zero_digest_hex v(1-3) v(4) v(4)] probe_pair_sizes by blast
qed

theorem conservative_field_exact_witness:
  "\<exists>field required overflow index e.
    derive_conservative_field zero_digest sample_identity 3 [''s''] [] [''d''] [''r''] = Inr (field, required, overflow, index) \<and>
    evaluate_conservative_field zero_digest (\<lambda>_. []) ''ev'' field 3 index (probe_fingerprint zero_digest sample_identity) required overflow =
      Inr e \<and> fe_status e = FieldValid"
proof -
  have v: "valid_identifier ''ev''" "identifiers ([''s''] @ [] @ [''d''] @ [''r''])" "valid_scope example_scope"
    by (simp_all add: valid_defs example_scope_def valid_scope_def)
  show ?thesis
    using conservative_field_exact [OF zero_digest_hex v(1) _ v(3) v(2), of 3 sample_identity "\<lambda>_. []"] by force
qed

theorem consolidation_checkpoint_exact_witness:
  "\<exists>cp. select_consolidation_checkpoint zero_digest ''cp'' 3 ''f'' ''b'' ''h'' [sample_event 1] [] [] [] [] = Inr cp \<and>
     cc_status cp = InsufficientDiversity"
proof -
  have v: "identifiers [''cp'', ''f'', ''b'', ''h'']" "valid_identifier (pe_id (sample_event 1))" "pe_sequence_index (sample_event 1) = 1"
    by (simp_all add: valid_defs sample_event_def)
  have "length (scoped_observations ''f'' ''b'' ''h'' [sample_event 1]) \<le> 1" by (simp add: scoped_observations_def)
  then have "\<not> 2 \<le> length (scoped_observations ''f'' ''b'' ''h'' [sample_event 1])" by linarith
  moreover have "x = InsufficientDiversity" if "x \<noteq> ConsolidationReady" for x using that by (cases x) auto
  ultimately show ?thesis
    using consolidation_checkpoint_exact [OF zero_digest_hex _ _ v(1), of "[sample_event 1]" 3 "[]" "[]" "[]" "[]"] v(2,3)
    by (simp add: counterexample_limit_def) blast
qed

text \<open>A request whose captured return was decoded as a counterexample and accepted.\<close>

definition counterexample_artifact :: artifact_ref where
  "counterexample_artifact = \<lparr>art_algorithm = ''sha256'', art_digest = zero_digest [], art_size = 0, art_media_type = None,
     art_encoding = None\<rparr>"

definition counterexample_attempt :: attempt_state where
  "counterexample_attempt =
    \<lparr>att_plan = \<lparr>ap_id = ''att'', ap_request_id = ''q'', ap_route = \<lparr>rs_id = ''route'', rs_definition_id = ''def'',
       rs_definition_version = ''1'', rs_definition_artifact = counterexample_artifact, rs_backend_id = ''back'', rs_adapter_id = ''a'',
       rs_adapter_version = ''1'', rs_endpoint_or_channel = None, rs_transport = None,
       rs_execution_environment_artifact = counterexample_artifact, rs_request_or_action_digest = zero_digest [],
       rs_transform_evidence = []\<rparr>\<rparr>,
     att_started = True, att_started_event_id = Some ''ev'', att_started_at = Some \<lparr>instant = 0, utc_offset = Some 0\<rparr>,
     att_outcome = Some (ReturnedOutcome ''att'' ''route'' \<lparr>er_id = ''ret'', er_attempt_id = ''att'', er_route_id = ''route'',
       er_source_id = None, er_source_revision = None, er_capture_boundary = ''b'', er_capture_encoding = ''e'',
       er_captured_at = \<lparr>instant = 0, utc_offset = Some 0\<rparr>,
       er_raw_payload = \<lparr>cap_kind = PayloadNull, cap_artifact = None\<rparr>\<rparr>)\<rparr>"

definition counterexample_request :: effect_request_state where
  "counterexample_request =
    \<lparr>ers_request = \<lparr>req_id = ''q'', req_step_plan_id = ''p'', req_effect_kind = ''k'', req_adapter_id = ''a'',
       req_input_artifact = counterexample_artifact, req_timeout_seconds = 60\<rparr>,
     ers_attempts = [counterexample_attempt], ers_no_attempt_dispositions = [],
     ers_decode_outcomes = [\<lparr>dec_id = ''d'', dec_external_return_id = ''ret'', dec_decoder_id = ''dec'', dec_decoder_version = ''1'',
       dec_content = Decoded \<lparr>result_id = ''res'', result_semantic_artifact = counterexample_artifact,
         result_content_of = CounterexampleResult ''prop'' counterexample_artifact\<rparr>\<rparr>],
     ers_accepted_decoded_outcome_id = Some ''d''\<rparr>"

lemma zero_digest_sha256: "valid_sha256 (zero_digest x)"
  using zero_digest_hex by (simp add: hex_digests_def)

lemma counterexample_request_valid: "valid_request_state counterexample_request" "accepted_counterexample (effect_request_object counterexample_request)"
proof -
  have a: "valid_artifact_ref counterexample_artifact"
    by (simp add: counterexample_artifact_def valid_artifact_ref_def zero_digest_sha256)
  have t: "valid_text ''1''" "valid_text ''b''" "valid_text ''e''" by (simp_all add: valid_text_def code_points_def)
  have i: "identifiers [''att'', ''q'', ''route'', ''def'', ''back'', ''a'', ''ev'', ''ret'', ''p'', ''k'', ''d'', ''dec'', ''res'', ''prop'']"
    by (simp add: valid_identifier_def alnum_def)
  have "valid_attempt_state counterexample_attempt"
    using a t i zero_digest_sha256
    by (simp add: counterexample_attempt_def valid_attempt_state_def valid_attempt_plan_def valid_route_snapshot_def
      valid_external_return_def valid_captured_payload_def require_utc_def)
  then show "valid_request_state counterexample_request"
    using a t i
    by (simp add: counterexample_request_def valid_request_state_def valid_effect_request_def valid_decode_def valid_result_def
      return_ids_def map_filter_simps counterexample_attempt_def accepted_result_def find_decode_def find_by_def)
  show "accepted_counterexample (effect_request_object counterexample_request)"
    by (simp add: accepted_counterexample_def effect_request_object_def Let_def counterexample_request_def accepted_result_def find_decode_def find_by_def)
qed

text \<open>The same request behind an object that exposes a schema version.\<close>

definition versioned_request :: request_object where
  "versioned_request = (effect_request_object counterexample_request)\<lparr>qo_request :=
     Some \<lparr>qr_schema_version = Some 1, qr_json = JNull\<rparr>\<rparr>"

theorem consolidation_counterexamples_exact_witness:
  "valid_request_state counterexample_request \<and>
   (\<exists>cp. select_consolidation_checkpoint zero_digest ''cp'' 3 ''f'' ''b'' ''h'' [sample_event 1] [] [] [] [(''q'', versioned_request)] = Inr cp \<and>
      map (\<lambda>s. or_record_id (cs_reference s)) (filter (\<lambda>s. cs_role s = CounterexampleSource) (cc_sources cp)) = [''q'']) \<and>
   select_consolidation_checkpoint zero_digest ''cp'' 3 ''f'' ''b'' ''h'' [sample_event 1] [] [] []
       (effect_request_objects [counterexample_request]) = Inl (AttributeError ''schema_version'')"
proof -
  have v: "identifiers [''cp'', ''f'', ''b'', ''h'']" "valid_identifier (pe_id (sample_event 1))" "pe_sequence_index (sample_event 1) = 1"
    "valid_identifier ''q''" by (simp_all add: valid_defs sample_event_def)
  have acc: "accepted_counterexample versioned_request"
    using counterexample_request_valid(2) by (simp add: versioned_request_def accepted_counterexample_def)
  have exp: "exposes_version versioned_request" by (simp add: exposes_version_def versioned_request_def)
  have ex: "list_ex (\<lambda>x. accepted_counterexample (snd x)) (take 4 (sort_key fst (effect_request_objects [counterexample_request])))"
    using counterexample_request_valid(2) by (simp add: effect_request_objects_def)
  have c: "(\<exists>cp. select_consolidation_checkpoint zero_digest ''cp'' 3 ''f'' ''b'' ''h'' [sample_event 1] [] [] [] [(''q'', versioned_request)] = Inr cp \<and>
      valid_consolidation_checkpoint cp \<and>
      map (\<lambda>s. (or_record_id (cs_reference s), or_owner (cs_reference s), or_record_type (cs_reference s), cs_semantic_sequence s))
        (filter (\<lambda>s. cs_role s = CounterexampleSource) (cc_sources cp)) =
      map (\<lambda>x. (fst x, ActionOwner, EffectRequestType, 3))
        (filter (\<lambda>x. accepted_counterexample (snd x)) (take 4 (sort_key fst [(''q'', versioned_request)])))) \<and>
    (case select_consolidation_checkpoint zero_digest ''cp'' 3 ''f'' ''b'' ''h'' [sample_event 1] [] [] []
        (effect_request_objects [counterexample_request]) of
      Inl err \<Rightarrow> err = AttributeError ''schema_version'' \<and>
        list_ex (\<lambda>x. accepted_counterexample (snd x)) (take 4 (sort_key fst (effect_request_objects [counterexample_request])))
    | Inr cp \<Rightarrow> \<not> list_ex (\<lambda>x. accepted_counterexample (snd x)) (take 4 (sort_key fst (effect_request_objects [counterexample_request]))))"
    by (rule consolidation_counterexamples_exact [OF zero_digest_hex]) (use v exp in simp_all)
  have "map (\<lambda>x. (fst x, ActionOwner, EffectRequestType, 3::int))
      (filter (\<lambda>x. accepted_counterexample (snd x)) (take 4 (sort_key fst [(''q'', versioned_request)]))) =
      [(''q'', ActionOwner, EffectRequestType, 3)]" using acc by simp
  then obtain cp where cp: "select_consolidation_checkpoint zero_digest ''cp'' 3 ''f'' ''b'' ''h'' [sample_event 1] [] [] [] [(''q'', versioned_request)] = Inr cp"
    "map (\<lambda>s. (or_record_id (cs_reference s), or_owner (cs_reference s), or_record_type (cs_reference s), cs_semantic_sequence s))
      (filter (\<lambda>s. cs_role s = CounterexampleSource) (cc_sources cp)) = [(''q'', ActionOwner, EffectRequestType, 3)]"
    using conjunct1 [OF c] by auto
  have "map (\<lambda>s. or_record_id (cs_reference s)) (filter (\<lambda>s. cs_role s = CounterexampleSource) (cc_sources cp)) = [''q'']"
    using arg_cong [OF cp(2), of "map fst"] by (simp add: comp_def)
  moreover have "select_consolidation_checkpoint zero_digest ''cp'' 3 ''f'' ''b'' ''h'' [sample_event 1] [] [] []
        (effect_request_objects [counterexample_request]) = Inl (AttributeError ''schema_version'')"
    using conjunct2 [OF c] ex by (simp split: sum.splits)
  ultimately show ?thesis
    by - (intro conjI exI [of _ cp], rule counterexample_request_valid(1), rule cp(1), assumption+)
qed

end
