(* ===== verification/Rci_Promotion.thy ===== *)
theory Rci_Promotion
  imports Rci_Policy
begin

text \<open>
  What an accepted promotion means, stated without the functions of \<open>warrant/policy.py\<close> and
  \<open>warrant/support.py\<close>: which routes a lemma keeps is a comparison of assumption sets, a check is a pair of
  owned records, the lemmas a route may depend on are defined by induction, and a support or ancestry cycle is
  a cycle of a relation. \<open>decide_promotion\<close> is shown to accept exactly the promotions of this
  specification: its sorting loop, its three indexes, its two depth-first searches, its fixed-point loop and the
  validators of the records it builds all have to agree with it.
\<close>

section \<open>Owned records\<close>

text \<open>The record an index \<open>{key(x): x for x in xs}\<close> holds is the last one of its key.\<close>

definition latest :: "('a \<Rightarrow> 'k) \<Rightarrow> 'a list \<Rightarrow> 'a \<Rightarrow> bool" where
  "latest key xs x \<longleftrightarrow> (\<exists>us vs. xs = us @ x # vs \<and> key x \<notin> key ` set vs)"

lemma latest_Nil [simp]: "\<not> latest key [] x"
  by (simp add: latest_def)

lemma latest_snoc: "latest key (xs @ [y]) x \<longleftrightarrow> x = y \<or> latest key xs x \<and> key x \<noteq> key y"
proof
  assume "latest key (xs @ [y]) x"
  then obtain us vs where u: "xs @ [y] = us @ x # vs" "key x \<notin> key ` set vs" unfolding latest_def by blast
  show "x = y \<or> latest key xs x \<and> key x \<noteq> key y"
  proof (cases vs rule: rev_cases)
    case (snoc ws w)
    then have "xs = us @ x # ws" "w = y" using u(1) by simp_all
    then show ?thesis using u(2) snoc unfolding latest_def by auto
  qed (use u(1) in simp)
next
  assume "x = y \<or> latest key xs x \<and> key x \<noteq> key y"
  then show "latest key (xs @ [y]) x"
  proof
    assume "latest key xs x \<and> key x \<noteq> key y"
    then obtain us vs where "xs = us @ x # vs" "key x \<notin> key ` set vs" "key x \<noteq> key y" unfolding latest_def by blast
    then have "xs @ [y] = us @ x # (vs @ [y])" "key x \<notin> key ` set (vs @ [y])" by simp_all
    then show ?thesis unfolding latest_def by blast
  next
    assume "x = y"
    then have "xs @ [y] = xs @ x # []" "key x \<notin> key ` set []" by simp_all
    then show ?thesis unfolding latest_def by blast
  qed
qed

lemma index_by_latest: "index_by key xs k = Some x \<longleftrightarrow> latest key xs x \<and> key x = k"
  by (induction xs rule: rev_induct) (auto simp: index_by_def latest_snoc)

lemma latest_unique: "latest key xs x \<Longrightarrow> latest key xs y \<Longrightarrow> key x = key y \<Longrightarrow> x = y"
  using index_by_latest [of key xs "key y" x] index_by_latest [of key xs "key y" y] by simp

text \<open>A check reference names an owned evidence record and an owned verdict that check each other for the
  proposition, its kind and the scope.\<close>

definition owned_check :: "check_base \<Rightarrow> check_reference \<Rightarrow> string \<Rightarrow> proposition_kind \<Rightarrow> string \<Rightarrow> bool" where
  "owned_check cb r proposition_id kind fp \<longleftrightarrow>
     (\<exists>e v. latest ev_id (cb_evidence cb) e \<and> ev_id e = ref_evidence_id r \<and>
        latest cv_id (cb_verdicts cb) v \<and> cv_id v = ref_checker_verdict_id r \<and>
        checked_pair e v proposition_id kind fp (set (cb_authorized cb)))"

lemma resolves_iff: "resolves cb r i k fp \<longleftrightarrow> owned_check cb r i k fp"
  unfolding resolves_def resolve_check_iff owned_check_def evidence_index_def checker_verdict_index_def
    index_by_latest
  by (metis checked_pair_def)

lemma map_filter_distinct_iff:
  assumes "distinct xs"
  shows "distinct (List.map_filter f xs) \<longleftrightarrow>
    (\<forall>x y k. x \<in> set xs \<and> y \<in> set xs \<and> f x = Some k \<and> f y = Some k \<longrightarrow> x = y)"
  using assms
proof (induction xs)
  case (Cons z zs)
  then show ?case by (cases "f z") (auto simp: List.map_filter_simps set_map_filter, metis+)
qed (simp add: List.map_filter_simps)

section \<open>The support a lemma keeps\<close>

text \<open>A route is superseded by a requested route with fewer assumptions, or with the same assumptions and a
  smaller identity.\<close>

definition superseded :: "support_route list \<Rightarrow> support_route \<Rightarrow> bool" where
  "superseded routes r \<longleftrightarrow> (\<exists>q \<in> set routes. route_assumptions q \<subset> route_assumptions r \<or>
     route_assumptions q = route_assumptions r \<and> route_id q < route_id r)"

context ranked_cover
begin

lemma split_from:
  assumes "sorted_wrt (\<lambda>x y. rank x < rank y) (ys @ xs)" "set kept \<subseteq> set ys"
    and "\<forall>y \<in> set ys. \<exists>m \<in> set kept. covers m y"
  shows "keep_uncovered covers kept xs =
    (kept @ filter (\<lambda>x. \<not> (\<exists>q \<in> set (ys @ xs). rank q < rank x \<and> covers q x)) xs,
     filter (\<lambda>x. \<exists>q \<in> set (ys @ xs). rank q < rank x \<and> covers q x) xs)"
  using assms
proof (induction xs arbitrary: ys kept)
  case (Cons x xs)
  have earlier: "q \<in> set ys" if "q \<in> set (ys @ x # xs)" "rank q < rank x" for q
    using that Cons.prems(1) by (auto simp: sorted_wrt_append dest: less_asym)
  have cov: "(\<exists>m \<in> set kept. covers m x) \<longleftrightarrow> (\<exists>q \<in> set (ys @ x # xs). rank q < rank x \<and> covers q x)"
  proof
    assume "\<exists>m \<in> set kept. covers m x"
    then obtain m where m: "m \<in> set kept" "covers m x" by blast
    then have "m \<in> set ys" using Cons.prems(2) by blast
    moreover have "rank m < rank x" using \<open>m \<in> set ys\<close> Cons.prems(1) by (auto simp: sorted_wrt_append)
    ultimately show "\<exists>q \<in> set (ys @ x # xs). rank q < rank x \<and> covers q x" using m(2) by auto
  next
    assume "\<exists>q \<in> set (ys @ x # xs). rank q < rank x \<and> covers q x"
    then obtain q where q: "q \<in> set ys" "covers q x" using earlier by blast
    then obtain m where "m \<in> set kept" "covers m q" using Cons.prems(3) by blast
    then show "\<exists>m \<in> set kept. covers m x" using covers_trans q(2) by blast
  qed
  let ?C = "\<lambda>z. \<exists>q \<in> set (ys @ x # xs). rank q < rank z \<and> covers q z"
  have app: "(ys @ [x]) @ xs = ys @ x # xs" by simp
  show ?case
  proof (cases "?C x")
    case True
    then have k: "\<exists>m \<in> set kept. covers m x" by (simp only: cov)
    have "keep_uncovered covers kept xs = (kept @ filter (\<lambda>z. \<not> ?C z) xs, filter ?C xs)"
      using Cons.IH [of "ys @ [x]" kept, unfolded app] Cons.prems k by auto
    then have "keep_uncovered covers kept (x # xs) = (kept @ filter (\<lambda>z. \<not> ?C z) xs, x # filter ?C xs)"
      using k by (simp del: set_append)
    then show ?thesis using True by (simp only: filter.simps if_True not_True_eq_False if_False simp_thms)
  next
    case False
    have k: "\<not> (\<exists>m \<in> set kept. covers m x)" unfolding cov by (rule False)
    have "keep_uncovered covers (kept @ [x]) xs = ((kept @ [x]) @ filter (\<lambda>z. \<not> ?C z) xs, filter ?C xs)"
      using Cons.IH [of "ys @ [x]" "kept @ [x]", unfolded app] Cons.prems covers_refl by auto
    then have "keep_uncovered covers kept (x # xs) = (kept @ x # filter (\<lambda>z. \<not> ?C z) xs, filter ?C xs)"
      using k by (simp del: set_append)
    then show ?thesis using False by (simp only: filter.simps not_False_eq_True simp_thms if_True if_False)
  qed
qed simp

lemma split_sorted:
  assumes "distinct (map rank xs)"
  shows "keep_uncovered covers [] (sort_key rank xs) =
    (filter (\<lambda>x. \<not> (\<exists>q \<in> set xs. rank q < rank x \<and> covers q x)) (sort_key rank xs),
     filter (\<lambda>x. \<exists>q \<in> set xs. rank q < rank x \<and> covers q x) (sort_key rank xs))"
proof -
  have "mset (map rank (sort_key rank xs)) = mset (map rank xs)" by simp
  then have "distinct (map rank (sort_key rank xs))" using assms by (metis mset_eq_imp_distinct_iff)
  then have "sorted_wrt (<) (map rank (sort_key rank xs))" by (simp add: strict_sorted_iff)
  then have "sorted_wrt (\<lambda>x y. rank x < rank y) (sort_key rank xs)" by (simp add: sorted_wrt_map)
  then show ?thesis using split_from [of "[]" "sort_key rank xs" "[]"] by simp
qed

end

lemma minimal_routes_split:
  assumes "list_all valid_route rs" "distinct (map route_id rs)"
  shows "minimal_routes rs = (filter (\<lambda>r. \<not> superseded rs r) (sort_key route_rank rs),
    filter (superseded rs) (sort_key route_rank rs))"
proof -
  have "inj_on route_rank (set rs)"
    using assms(2) by (auto simp: inj_on_def route_rank_def distinct_map)
  then have dist: "distinct (map route_rank rs)" using assms(2) by (simp add: distinct_map)
  have same: "(\<exists>q \<in> set rs. route_rank q < route_rank r \<and> route_covers q r) \<longleftrightarrow> superseded rs r"
    if r: "r \<in> set rs" for r
  proof -
    have "(route_rank q < route_rank r \<and> route_covers q r) \<longleftrightarrow>
        (route_assumptions q \<subset> route_assumptions r \<or>
         route_assumptions q = route_assumptions r \<and> route_id q < route_id r)" if q: "q \<in> set rs" for q
    proof -
      have v: "valid_route q" "valid_route r" using assms(1) q r by (simp_all add: list_all_iff)
      show ?thesis
      proof (cases "route_assumptions q = route_assumptions r")
        case True
        then have "env_assumption_ids (route_environment q) = env_assumption_ids (route_environment r)"
          using v by (intro canonical_eqI) (auto simp: valid_route_def valid_environment_def)
        then show ?thesis using True by (auto simp: route_rank_def route_covers_def)
      next
        case False
        then show ?thesis using route_order.covers_rank [OF v] by (auto simp: route_covers_def)
      qed
    qed
    then show ?thesis unfolding superseded_def by blast
  qed
  have "filter (\<lambda>r. \<exists>q \<in> set rs. route_rank q < route_rank r \<and> route_covers q r) (sort_key route_rank rs) =
      filter (superseded rs) (sort_key route_rank rs)"
    "filter (\<lambda>r. \<not> (\<exists>q \<in> set rs. route_rank q < route_rank r \<and> route_covers q r)) (sort_key route_rank rs) =
      filter (\<lambda>r. \<not> superseded rs r) (sort_key route_rank rs)"
    by (rule filter_cong, rule refl, simp add: same)+
  then show ?thesis unfolding minimal_routes_def route_order.split_sorted [OF dist] by (simp only:)
qed

text \<open>The verdicts a promotion refers to: its own and those of the checks of its routes.\<close>

definition referenced :: "promotion_request \<Rightarrow> verdict_record \<Rightarrow> bool" where
  "referenced p v \<longleftrightarrow> latest cv_id (cb_verdicts (pr_check_base p)) v \<and>
     (cv_id v = cv_id (pr_checker_verdict p) \<or>
      (\<exists>r \<in> set (pr_support_routes p). cv_id v = ref_checker_verdict_id (route_certificate_check r) \<or>
         cv_id v = ref_checker_verdict_id (env_realizability_check (route_environment r))))"

definition certificate_of :: "promotion_request \<Rightarrow> verdict_record \<Rightarrow> string \<Rightarrow> bool" where
  "certificate_of p v c \<longleftrightarrow> referenced p v \<and> (\<exists>a. cv_certificate_artifact v = Some a \<and> art_digest a = c)"

text \<open>The lemma a promotion asks for: the requested version, and a hard support that splits the requested
  routes into the ones no other route supersedes and the superseded ones, ordered by number of assumptions,
  with one certificate digest per referenced verdict. Its version is well formed, its routes are well formed
  and in its scope, and no two of its verdicts share a certificate.\<close>

definition requested_lemma :: "(string \<Rightarrow> digest) \<Rightarrow> promotion_request \<Rightarrow> warranted_lemma \<Rightarrow> bool" where
  "requested_lemma sha p l \<longleftrightarrow>
     (let routes = pr_support_routes p; s = wl_support l in
      wl_version l = \<lparr>lv_id = pr_lemma_id p, lv_relation_id = pr_relation_id p,
        lv_proposition_kind = pr_proposition_kind p, lv_scope = pr_scope p,
        lv_applicability = pr_applicability p, lv_source_claim_ids = pr_source_claim_ids p,
        lv_predecessor_refs = pr_predecessor_refs p\<rparr> \<and>
      ls_lemma_version_id s = pr_lemma_id p \<and> ls_policy_version s = pr_policy_version p \<and>
      ls_warrant_class s = Hard \<and> ls_provenance_refs s = pr_provenance_refs p \<and>
      ls_support_routes s = filter (\<lambda>r. \<not> superseded routes r) (sort_key route_rank routes) \<and>
      ls_historical_support_routes s = filter (superseded routes) (sort_key route_rank routes) \<and>
      sorted (ls_certificate_refs s) \<and> distinct (ls_certificate_refs s) \<and>
      set (ls_certificate_refs s) = {c. \<exists>v. certificate_of p v c} \<and>
      (\<forall>v w c. certificate_of p v c \<and> certificate_of p w c \<longrightarrow> v = w) \<and>
      valid_lemma_version (wl_version l) \<and> distinct (pr_provenance_refs p) \<and>
      list_all valid_route routes \<and> distinct (map route_id routes) \<and>
      list_all (route_in_scope sha (pr_scope p)) routes)"

lemma certificate_refs_spec:
  "set (certificate_refs p) = {c. \<exists>v. certificate_of p v c}"
  "distinct (certificate_refs p) \<longleftrightarrow> (\<forall>v w c. certificate_of p v c \<and> certificate_of p w c \<longrightarrow> v = w)"
  "sorted (certificate_refs p)"
proof -
  let ?idx = "checker_verdict_index (cb_verdicts (pr_check_base p))"
  let ?f = "\<lambda>i. case ?idx i of None \<Rightarrow> None | Some v \<Rightarrow> map_option art_digest (cv_certificate_artifact v)"
  let ?ids = "sorted_list_of_set (referenced_verdict_ids p)"
  have fin: "finite (referenced_verdict_ids p)" by (simp add: referenced_verdict_ids_def)
  have f: "?f i = Some c \<longleftrightarrow> (\<exists>v. latest cv_id (cb_verdicts (pr_check_base p)) v \<and> cv_id v = i \<and>
      (\<exists>a. cv_certificate_artifact v = Some a \<and> art_digest a = c))" for i c
  proof -
    have "(\<exists>v. latest cv_id (cb_verdicts (pr_check_base p)) v \<and> cv_id v = i \<and> P v) \<longleftrightarrow>
        (\<exists>v. ?idx i = Some v \<and> P v)" for P
      unfolding checker_verdict_index_def index_by_latest by blast
    then show ?thesis by (auto split: option.splits)
  qed
  have ref: "referenced p v \<longleftrightarrow> latest cv_id (cb_verdicts (pr_check_base p)) v \<and> cv_id v \<in> referenced_verdict_ids p" for v
    by (auto simp: referenced_def referenced_verdict_ids_def)
  have cert: "(\<exists>i \<in> referenced_verdict_ids p. ?f i = Some c) \<longleftrightarrow> (\<exists>v. certificate_of p v c)" for c
    unfolding f certificate_of_def ref by blast
  show "set (certificate_refs p) = {c. \<exists>v. certificate_of p v c}"
    unfolding certificate_refs_def set_sort set_map_filter set_sorted_list_of_set [OF fin] cert ..
  have lat: "latest cv_id (cb_verdicts (pr_check_base p)) v" if "certificate_of p v c" for v c
    using that unfolding certificate_of_def ref by blast
  have at: "i \<in> set ?ids \<and> ?f i = Some c \<longleftrightarrow> (\<exists>v. certificate_of p v c \<and> cv_id v = i)" for i c
    unfolding set_sorted_list_of_set [OF fin] f certificate_of_def ref by blast
  have "distinct (certificate_refs p) \<longleftrightarrow> distinct (List.map_filter ?f ?ids)"
    by (simp add: certificate_refs_def)
  also have "\<dots> \<longleftrightarrow> (\<forall>i j c. i \<in> set ?ids \<and> j \<in> set ?ids \<and> ?f i = Some c \<and> ?f j = Some c \<longrightarrow> i = j)"
    by (rule map_filter_distinct_iff) simp
  also have "\<dots> \<longleftrightarrow> (\<forall>v w c. certificate_of p v c \<and> certificate_of p w c \<longrightarrow> v = w)"
  proof (intro iffI allI impI)
    fix v w c
    assume inj: "\<forall>i j c. i \<in> set ?ids \<and> j \<in> set ?ids \<and> ?f i = Some c \<and> ?f j = Some c \<longrightarrow> i = j"
      and vw: "certificate_of p v c \<and> certificate_of p w c"
    have "cv_id v \<in> set ?ids \<and> ?f (cv_id v) = Some c" "cv_id w \<in> set ?ids \<and> ?f (cv_id w) = Some c"
      unfolding at using vw by blast+
    then have "cv_id v = cv_id w" using inj by blast
    then show "v = w" using vw by (blast intro: latest_unique lat)
  next
    fix i j c
    assume inj: "\<forall>v w c. certificate_of p v c \<and> certificate_of p w c \<longrightarrow> v = w"
      and ij: "i \<in> set ?ids \<and> j \<in> set ?ids \<and> ?f i = Some c \<and> ?f j = Some c"
    have "i \<in> set ?ids \<and> ?f i = Some c" "j \<in> set ?ids \<and> ?f j = Some c" using ij by blast+
    then obtain v w where "certificate_of p v c" "cv_id v = i" "certificate_of p w c" "cv_id w = j"
      unfolding at by blast
    then show "i = j" using inj by blast
  qed
  finally show "distinct (certificate_refs p) \<longleftrightarrow>
      (\<forall>v w c. certificate_of p v c \<and> certificate_of p w c \<longrightarrow> v = w)" .
  show "sorted (certificate_refs p)" by (simp add: certificate_refs_def)
qed

lemma lemma_support_eq_iff:
  "s = t \<longleftrightarrow> ls_lemma_version_id s = ls_lemma_version_id t \<and> ls_policy_version s = ls_policy_version t \<and>
     ls_warrant_class s = ls_warrant_class t \<and> ls_provenance_refs s = ls_provenance_refs t \<and>
     ls_support_routes s = ls_support_routes t \<and>
     ls_historical_support_routes s = ls_historical_support_routes t \<and>
     ls_certificate_refs s = ls_certificate_refs t" for s t :: lemma_support
  by (cases s; cases t) auto

lemma candidate_lemma_iff:
  assumes "pr_policy_version p \<noteq> []" "pr_support_routes p \<noteq> []"
    and "list_all (\<lambda>r. route_conclusion_id r = pr_lemma_id p) (pr_support_routes p)"
  shows "candidate_lemma sha p = Inr l \<longleftrightarrow> requested_lemma sha p l"
proof -
  let ?rs = "pr_support_routes p" and ?s = "candidate_support p"
  let ?ok = "list_all valid_route ?rs \<and> distinct (map route_id ?rs)"
  let ?certs = "\<forall>v w c. certificate_of p v c \<and> certificate_of p w c \<longrightarrow> v = w"
  obtain k h where kh: "minimal_routes ?rs = (k, h)" by fastforce
  have sup: "ls_support_routes ?s = k" "ls_historical_support_routes ?s = h"
    "ls_certificate_refs ?s = certificate_refs p" "ls_provenance_refs ?s = pr_provenance_refs p"
    "ls_lemma_version_id ?s = pr_lemma_id p" "ls_policy_version ?s = pr_policy_version p"
    "ls_warrant_class ?s = Hard" by (simp_all add: candidate_support_def kh)
  have m: "mset (all_support_routes ?s) = mset ?rs"
    using minimal_routes_mset [OF kh] by (simp add: all_support_routes_def sup)
  have all: "list_all P (all_support_routes ?s) \<longleftrightarrow> list_all P ?rs" for P
    using mset_eq_setD [OF m] by (simp add: list_all_iff)
  have dist: "distinct (map route_id (all_support_routes ?s)) \<longleftrightarrow> distinct (map route_id ?rs)"
    using arg_cong [OF m, of "image_mset route_id"] by (metis mset_map mset_eq_imp_distinct_iff)
  have cover: "list_all (\<lambda>h. list_ex (\<lambda>c. route_assumptions c \<subseteq> route_assumptions h) k) h"
    using minimal_routes_covered [OF kh] by (simp add: list_all_iff list_ex_iff route_covers_def)
  have anti: "antichain (map route_assumptions k)" if "list_all valid_route ?rs"
  proof -
    have "sorted_wrt (\<lambda>x y. \<not> route_covers x y \<and> \<not> route_covers y x) k"
      using that by (intro route_order.sorted_kept_antichain [OF kh [unfolded minimal_routes_def]])
        (simp add: list_all_iff)
    then show ?thesis by (induction k) (auto simp: list_all_iff route_covers_def)
  qed
  have ne: "k \<noteq> []" using minimal_routes_nonempty [OF assms(2)] kh by simp
  have support: "valid_lemma_support ?s \<longleftrightarrow> ?ok \<and> ?certs \<and> distinct (pr_provenance_refs p)"
    unfolding valid_lemma_support_def all dist sup certificate_refs_spec(2) using assms(1,3) ne cover anti by blast
  let ?l = "\<lparr>wl_version = candidate_version p, wl_support = ?s\<rparr>"
  have wl: "valid_warranted_lemma sha ?l \<longleftrightarrow> valid_lemma_version (candidate_version p) \<and>
      valid_lemma_support ?s \<and> list_all (route_in_scope sha (pr_scope p)) ?rs"
    by (simp add: valid_warranted_lemma_def all sup candidate_version_def)
  have left: "candidate_lemma sha p = Inr l \<longleftrightarrow> l = ?l \<and> valid_lemma_version (candidate_version p) \<and>
      (?ok \<and> ?certs \<and> distinct (pr_provenance_refs p)) \<and> list_all (route_in_scope sha (pr_scope p)) ?rs"
    using wl support by (auto simp: candidate_lemma_def construct_def)
  have split: "k = filter (\<lambda>r. \<not> superseded ?rs r) (sort_key route_rank ?rs)"
    "h = filter (superseded ?rs) (sort_key route_rank ?rs)" if "?ok"
    using minimal_routes_split [of ?rs] that kh by simp_all
  have refs: "cs = certificate_refs p \<longleftrightarrow> sorted cs \<and> distinct cs \<and> set cs = {c. \<exists>v. certificate_of p v c}"
    if "?certs" for cs
  proof
    assume "cs = certificate_refs p"
    then show "sorted cs \<and> distinct cs \<and> set cs = {c. \<exists>v. certificate_of p v c}"
      using certificate_refs_spec(1,3) [of p] certificate_refs_spec(2) [of p, THEN iffD2, OF that] by simp
  next
    assume cs: "sorted cs \<and> distinct cs \<and> set cs = {c. \<exists>v. certificate_of p v c}"
    show "cs = certificate_refs p"
      by (rule sorted_distinct_set_unique) (use cs certificate_refs_spec(1,3) [of p]
        certificate_refs_spec(2) [of p, THEN iffD2, OF that] in simp_all)
  qed
  have eq: "wl_support l = ?s \<longleftrightarrow> ls_lemma_version_id (wl_support l) = pr_lemma_id p \<and>
      ls_policy_version (wl_support l) = pr_policy_version p \<and> ls_warrant_class (wl_support l) = Hard \<and>
      ls_provenance_refs (wl_support l) = pr_provenance_refs p \<and> ls_support_routes (wl_support l) = k \<and>
      ls_historical_support_routes (wl_support l) = h \<and> ls_certificate_refs (wl_support l) = certificate_refs p"
    unfolding lemma_support_eq_iff sup by blast
  have right: "requested_lemma sha p l \<longleftrightarrow> wl_version l = candidate_version p \<and> wl_support l = ?s \<and>
      valid_lemma_version (candidate_version p) \<and> (?ok \<and> ?certs \<and> distinct (pr_provenance_refs p)) \<and>
      list_all (route_in_scope sha (pr_scope p)) ?rs"
  proof (cases "?ok \<and> ?certs")
    case True
    note kh' = split [OF conjunct1 [OF True]] and refs' = refs [OF conjunct2 [OF True]]
    show ?thesis
      unfolding requested_lemma_def Let_def eq candidate_version_def [symmetric] kh' [symmetric] refs'
      by (rule iffI; elim conjE; intro conjI; (assumption | erule ssubst, assumption | erule subst, assumption))
  next
    case False
    then show ?thesis unfolding requested_lemma_def Let_def by argo
  qed
  have "l = ?l \<longleftrightarrow> wl_version l = candidate_version p \<and> wl_support l = ?s" by (cases l) simp
  then show ?thesis unfolding left right by blast
qed

section \<open>Dependencies and cycles\<close>

text \<open>A lemma identity a route may depend on: a hard lemma of the support class of the promotion, whose
  guard is active in the context and that has a route in its exact scope, under current assumptions, with owned
  checks of the relation and of the environment, all of whose required dependencies may be depended on.\<close>

inductive dependable :: "(string \<Rightarrow> digest) \<Rightarrow> promotion_request \<Rightarrow> string \<Rightarrow> bool" for sha p where
  dependable: "dependable sha p (wl_id m)"
  if "m \<in> set (pr_existing_lemmas p)" "ls_warrant_class (wl_support m) = Hard"
    "ls_policy_version (wl_support m) = pr_policy_version p"
    "scope_fingerprint sha (lv_scope (wl_version m)) = scope_fingerprint sha (pr_scope p)"
    "scope_binding_revision (lv_scope (wl_version m)) = scope_binding_revision (pr_scope p)"
    "scope_finite_universe_hash (lv_scope (wl_version m)) = scope_finite_universe_hash (pr_scope p)"
    "app_condition_id (lv_applicability (wl_version m)) = ''always'' \<or>
       app_condition_id (lv_applicability (wl_version m)) \<in> set (pr_current_context_ids p)"
    "set (app_required_context_ids (lv_applicability (wl_version m))) \<subseteq> set (pr_current_context_ids p)"
    "r \<in> set (ls_support_routes (wl_support m))" "route_in_scope sha (lv_scope (wl_version m)) r"
    "route_assumptions r \<subseteq> set (pr_current_assumption_ids p)"
    "owned_check (pr_check_base p) (route_certificate_check r) (lv_relation_id (wl_version m))
       (lv_proposition_kind (wl_version m)) (scope_fingerprint sha (lv_scope (wl_version m)))"
    "owned_check (pr_check_base p) (env_realizability_check (route_environment r))
       (env_id (route_environment r)) Existential (env_scope_fingerprint (route_environment r))"
    "\<And>d. d \<in> set (route_required_dependency_ids r) \<Longrightarrow> dependable sha p d"

lemma grounded_dependencies_iff: "d \<in> grounded_dependencies sha p \<longleftrightarrow> dependable sha p d"
proof -
  let ?stands = "lemma_stands sha (set (pr_current_assumption_ids p)) (set (pr_current_context_ids p)) []
    (pr_check_base p)"
  have stands: "?stands m D \<longleftrightarrow> (\<exists>r \<in> set (ls_support_routes (wl_support m)).
      route_in_scope sha (lv_scope (wl_version m)) r \<and>
      owned_check (pr_check_base p) (route_certificate_check r) (lv_relation_id (wl_version m))
        (lv_proposition_kind (wl_version m)) (scope_fingerprint sha (lv_scope (wl_version m))) \<and>
      guard_stands (lv_applicability (wl_version m)) (set (pr_current_context_ids p)) \<and>
      owned_check (pr_check_base p) (env_realizability_check (route_environment r))
        (env_id (route_environment r)) Existential (env_scope_fingerprint (route_environment r)) \<and>
      route_assumptions r \<subseteq> set (pr_current_assumption_ids p) \<and>
      set (route_required_dependency_ids r) \<subseteq> D)" for m D
    unfolding lemma_stands_def route_applicable_def applicability_stands_def support_environment_stands_def
      resolves_iff list_ex_iff by auto
  have "derivable (\<lambda>l. wl_id l) is_hard ?stands (same_support_class sha p) d \<longleftrightarrow> dependable sha p d"
  proof
    show "dependable sha p d" if "derivable (\<lambda>l. wl_id l) is_hard ?stands (same_support_class sha p) d"
      using that
    proof (induction rule: derivable.induct)
      case (derive m D)
      then obtain r where r: "r \<in> set (ls_support_routes (wl_support m))"
        "route_in_scope sha (lv_scope (wl_version m)) r"
        "owned_check (pr_check_base p) (route_certificate_check r) (lv_relation_id (wl_version m))
          (lv_proposition_kind (wl_version m)) (scope_fingerprint sha (lv_scope (wl_version m)))"
        "guard_stands (lv_applicability (wl_version m)) (set (pr_current_context_ids p))"
        "owned_check (pr_check_base p) (env_realizability_check (route_environment r))
          (env_id (route_environment r)) Existential (env_scope_fingerprint (route_environment r))"
        "route_assumptions r \<subseteq> set (pr_current_assumption_ids p)"
        "set (route_required_dependency_ids r) \<subseteq> D" unfolding stands by blast
      then show ?case
        using derive(1,2,5) by (intro dependable.dependable [of m p sha r])
          (auto simp: same_support_class_def is_hard_def guard_stands_def)
    qed
    show "derivable (\<lambda>l. wl_id l) is_hard ?stands (same_support_class sha p) d" if "dependable sha p d"
      using that
    proof (induction rule: dependable.induct)
      case (dependable m r)
      have "?stands m (set (route_required_dependency_ids r))"
        unfolding stands using dependable by (auto simp: guard_stands_def)
      moreover have "m \<in> set (same_support_class sha p)" "is_hard m"
        using dependable by (simp_all add: same_support_class_def is_hard_def)
      ultimately show ?case using dependable.IH by (intro derivable.derive)
    qed
  qed
  then show ?thesis
    unfolding grounded_dependencies_def grounded_lemma_ids_def lemma_grounding.loop_iff_derivable .
qed

text \<open>The two graphs over lemma identities: what the routes of a lemma require, among the given lemmas, and
  the versions a lemma names as its predecessors.\<close>

definition support_edges :: "warranted_lemma list \<Rightarrow> (string \<times> string) set" where
  "support_edges ls = {(wl_id m, d) | m d. latest (\<lambda>l. wl_id l) ls m \<and> d \<in> (\<lambda>l. wl_id l) ` set ls \<and>
     (\<exists>r \<in> set (all_support_routes (wl_support m)). d \<in> set (route_required_dependency_ids r))}"

definition ancestry_edges :: "warranted_lemma list \<Rightarrow> (string \<times> string) set" where
  "ancestry_edges ls = {(wl_id m, q) | m q. latest (\<lambda>l. wl_id l) ls m \<and> q \<in> set (lv_predecessor_refs (wl_version m))}"

lemma support_acyclic_iff: "support_graph_is_acyclic ls \<longleftrightarrow> acyclic (support_edges ls)"
proof -
  have fin: "finite (A \<inter> set (map (\<lambda>l. wl_id l) ls))" for A by simp
  have succ: "d \<in> set (support_successors ls v) \<longleftrightarrow> (\<exists>m. index_by (\<lambda>l. wl_id l) ls v = Some m \<and>
      d \<in> (\<lambda>l. wl_id l) ` set ls \<and>
      (\<exists>r \<in> set (all_support_routes (wl_support m)). d \<in> set (route_required_dependency_ids r)))" for v d
    by (cases "index_by (\<lambda>l. wl_id l) ls v")
      (auto simp: support_successors_def set_sorted_list_of_set [OF fin])
  have "{(v, d). d \<in> set (support_successors ls v)} = support_edges ls"
    unfolding support_edges_def succ index_by_latest by blast
  then show ?thesis unfolding support_graph_is_acyclic_iff by simp
qed

lemma map_of_unique_by_id:
  "map_of (map (\<lambda>x. (key x, g x)) (unique_by_id key xs)) k = map_option g (index_by key xs k)"
proof -
  have "map_of (map (\<lambda>x. (key x, g x)) (List.map_filter (index_by key xs) ks)) k =
      (if k \<in> set ks then map_option g (index_by key xs k) else None)" for ks
    by (induction ks) (auto simp: List.map_filter_simps dest: index_by_SomeD split: option.splits)
  moreover have "index_by key xs k = None" if "k \<notin> key ` set xs" using that by (simp add: index_by_None_iff)
  ultimately show ?thesis by (simp add: unique_by_id_def)
qed

lemma ancestry_acyclic_iff:
  "ancestry_is_acyclic (predecessor_map ls) \<longleftrightarrow>
     snd ` ancestry_edges ls \<subseteq> (\<lambda>l. wl_id l) ` set ls \<and> acyclic (ancestry_edges ls)"
proof -
  let ?m = "predecessor_map ls"
  have look: "map_of ?m v = map_option (\<lambda>l. lv_predecessor_refs (wl_version l)) (index_by (\<lambda>l. wl_id l) ls v)" for v
    unfolding predecessor_map_def by (rule map_of_unique_by_id)
  have keys: "fst ` set ?m = (\<lambda>l. wl_id l) ` set ls"
  proof -
    have "v \<in> fst ` set ?m \<longleftrightarrow> v \<in> (\<lambda>l. wl_id l) ` set ls" for v
      using map_of_eq_None_iff [of ?m v] index_by_None_iff [of "\<lambda>l. wl_id l" ls v] look [of v] by simp
    then show ?thesis by blast
  qed
  have pred: "q \<in> set (predecessors_of ?m v) \<longleftrightarrow> (\<exists>m. index_by (\<lambda>l. wl_id l) ls v = Some m \<and>
      q \<in> set (lv_predecessor_refs (wl_version m)))" for v q
    by (cases "index_by (\<lambda>l. wl_id l) ls v") (simp_all add: predecessors_of_def look)
  have edges: "{(v, q). q \<in> set (predecessors_of ?m v)} = ancestry_edges ls"
    unfolding ancestry_edges_def pred index_by_latest by blast
  have "(\<Union>v \<in> fst ` set ?m. set (predecessors_of ?m v)) = snd ` ancestry_edges ls"
  proof -
    have "v \<in> fst ` set ?m" if "q \<in> set (predecessors_of ?m v)" for v q
      using that unfolding pred keys by (auto dest: index_by_SomeD)
    then show ?thesis unfolding edges [symmetric] by force
  qed
  then show ?thesis unfolding ancestry_is_acyclic_iff edges keys by simp
qed

section \<open>Accepted promotions\<close>

text \<open>C24: which promotions are accepted, and with which lemma. A promotion is accepted, always with the hard
  class, exactly when it names a policy version; its evidence and verdict are the owned records of their
  identities, check each other for the relation, kind and scope, and are a witness of an existential or an
  exhaustive UNSAT over the closed universe of the scope; the lemma is the requested one, with the requested
  routes split by supersession; no lemma supports itself and no version is its own ancestor, counting the new
  one; every predecessor is a known version; the guard is active; and a route that is not superseded has no open
  dependency, requires only dependable lemmas and has owned checks of the relation and of its environment.\<close>

theorem promotion_accepted_exact:
  "(\<exists>d. decide_promotion sha p = Inr d \<and> pd_outcome d = Accepted \<and> pd_warrant_class d = Hard \<and>
       pd_lemma d = Some l) \<longleftrightarrow>
     pr_policy_version p \<noteq> [] \<and> pr_support_routes p \<noteq> [] \<and>
     (\<forall>r \<in> set (pr_support_routes p). route_conclusion_id r = pr_lemma_id p) \<and>
     latest ev_id (cb_evidence (pr_check_base p)) (pr_evidence p) \<and>
     latest cv_id (cb_verdicts (pr_check_base p)) (pr_checker_verdict p) \<and>
     checked_pair (pr_evidence p) (pr_checker_verdict p) (pr_relation_id p) (pr_proposition_kind p)
       (scope_fingerprint sha (pr_scope p)) (set (cb_authorized (pr_check_base p))) \<and>
     (ev_kind (pr_evidence p) = IndependentWitness \<and> pr_proposition_kind p = Existential \<or>
      ev_kind (pr_evidence p) = ExhaustiveUnsat \<and> ev_closed_finite_universe (pr_evidence p) \<and>
      scope_closed_world (pr_scope p) \<and> scope_finite_universe_hash (pr_scope p) \<noteq> None \<and>
      ev_finite_universe_hash (pr_evidence p) = scope_finite_universe_hash (pr_scope p)) \<and>
     requested_lemma sha p l \<and>
     acyclic (support_edges (pr_existing_lemmas p @ [l])) \<and>
     acyclic (ancestry_edges (pr_existing_lemmas p @ [l])) \<and>
     snd ` ancestry_edges (pr_existing_lemmas p @ [l]) \<subseteq> (\<lambda>l. wl_id l) ` set (pr_existing_lemmas p @ [l]) \<and>
     (app_condition_id (pr_applicability p) = ''always'' \<or>
      app_condition_id (pr_applicability p) \<in> set (pr_current_context_ids p)) \<and>
     set (app_required_context_ids (pr_applicability p)) \<subseteq> set (pr_current_context_ids p) \<and>
     (\<exists>r \<in> set (pr_support_routes p). \<not> superseded (pr_support_routes p) r \<and>
        route_open_dependency_ids r = [] \<and>
        (\<forall>d \<in> set (route_required_dependency_ids r). dependable sha p d) \<and>
        owned_check (pr_check_base p) (route_certificate_check r) (pr_relation_id p)
          (pr_proposition_kind p) (scope_fingerprint sha (pr_scope p)) \<and>
        owned_check (pr_check_base p) (env_realizability_check (route_environment r))
          (env_id (route_environment r)) Existential (scope_fingerprint sha (pr_scope p)))"
proof -
  have hard: "pd_warrant_class d = Hard" if "decide_promotion sha p = Inr d" "pd_outcome d = Accepted" for d
    using that by (auto simp: decide_promotion_def Let_def split: if_splits sum.splits prod.splits)
  have closed: "list_ex (closed_route sha p) (ls_support_routes (wl_support l)) \<longleftrightarrow>
      (\<exists>r \<in> set (pr_support_routes p). \<not> superseded (pr_support_routes p) r \<and>
        route_open_dependency_ids r = [] \<and>
        (\<forall>d \<in> set (route_required_dependency_ids r). dependable sha p d) \<and>
        owned_check (pr_check_base p) (route_certificate_check r) (pr_relation_id p)
          (pr_proposition_kind p) (scope_fingerprint sha (pr_scope p)) \<and>
        owned_check (pr_check_base p) (env_realizability_check (route_environment r))
          (env_id (route_environment r)) Existential (scope_fingerprint sha (pr_scope p)))"
    if "requested_lemma sha p l"
  proof -
    have "ls_support_routes (wl_support l) =
        filter (\<lambda>r. \<not> superseded (pr_support_routes p) r) (sort_key route_rank (pr_support_routes p))"
      "list_all (route_in_scope sha (pr_scope p)) (pr_support_routes p)"
      using that by (simp_all add: requested_lemma_def Let_def)
    then show ?thesis
      by (auto simp: list_ex_iff list_all_iff closed_route_def resolves_iff grounded_dependencies_iff subset_iff)
  qed
  have gates: "promotion_gates sha p l \<longleftrightarrow> (\<exists>d. decide_promotion sha p = Inr d \<and> pd_outcome d = Accepted \<and>
      pd_warrant_class d = Hard \<and> pd_lemma d = Some l)"
    unfolding decide_promotion_accepted_iff [symmetric] using hard by blast
  have own: "evidence_index (cb_evidence (pr_check_base p)) (ev_id (pr_evidence p)) = Some (pr_evidence p) \<longleftrightarrow>
      latest ev_id (cb_evidence (pr_check_base p)) (pr_evidence p)"
    "checker_verdict_index (cb_verdicts (pr_check_base p)) (cv_id (pr_checker_verdict p)) =
      Some (pr_checker_verdict p) \<longleftrightarrow> latest cv_id (cb_verdicts (pr_check_base p)) (pr_checker_verdict p)"
    by (simp_all add: evidence_index_def checker_verdict_index_def index_by_latest)
  show ?thesis
    unfolding gates [symmetric] promotion_gates_def own hard_evidence_def support_acyclic_iff
      ancestry_acyclic_iff guard_stands_def
    using candidate_lemma_iff [of p sha l] closed by (auto simp: list_all_iff)
qed

theorem promotion_accepted_exact_witness:
  "(\<exists>l. requested_lemma (\<lambda>x. x) (demo_promotion ''c1'' ''c2'') l \<and> acyclic (support_edges [l]) \<and>
      ls_support_routes (wl_support l) = pr_support_routes (demo_promotion ''c1'' ''c2'')) \<and>
   (let p = (demo_promotion ''c1'' ''c2'')\<lparr>pr_applicability := \<lparr>app_condition_id = ''g'', app_required_context_ids = []\<rparr>\<rparr> in
      \<not> (\<exists>d l. decide_promotion (\<lambda>x. x) p = Inr d \<and> pd_outcome d = Accepted \<and> pd_warrant_class d = Hard \<and>
          pd_lemma d = Some l))"
proof -
  let ?p = "demo_promotion ''c1'' ''c2''"
  let ?l = "\<lparr>wl_version = candidate_version ?p, wl_support = candidate_support ?p\<rparr>"
  have gates: "promotion_gates (\<lambda>x. x) ?p ?l" by (rule demo_gates) simp
  then obtain d where d: "decide_promotion (\<lambda>x. x) ?p = Inr d" "pd_outcome d = Accepted" "pd_lemma d = Some ?l"
    using decide_promotion_accepted_iff by blast
  then have "pd_warrant_class d = Hard"
    by (auto simp: decide_promotion_def Let_def split: if_splits sum.splits prod.splits)
  then have "requested_lemma (\<lambda>x. x) ?p ?l \<and> acyclic (support_edges (pr_existing_lemmas ?p @ [?l]))"
    using promotion_accepted_exact [of "\<lambda>x. x" ?p ?l] d by blast
  moreover have "pr_existing_lemmas ?p = []" by (simp add: demo_promotion_def)
  moreover have "ls_support_routes (wl_support ?l) = pr_support_routes ?p" using demo_support(1) by simp
  ultimately have "requested_lemma (\<lambda>x. x) ?p ?l \<and> acyclic (support_edges [?l]) \<and>
      ls_support_routes (wl_support ?l) = pr_support_routes ?p" by simp
  moreover let ?q = "?p\<lparr>pr_applicability := \<lparr>app_condition_id = ''g'', app_required_context_ids = []\<rparr>\<rparr>"
  have "\<not> (app_condition_id (pr_applicability ?q) = ''always'' \<or>
      app_condition_id (pr_applicability ?q) \<in> set (pr_current_context_ids ?q))"
    by (simp add: demo_promotion_def)
  then have "\<not> (\<exists>d l. decide_promotion (\<lambda>x. x) ?q = Inr d \<and> pd_outcome d = Accepted \<and>
      pd_warrant_class d = Hard \<and> pd_lemma d = Some l)"
    using promotion_accepted_exact [of "\<lambda>x. x" ?q] by blast
  ultimately show ?thesis unfolding Let_def by blast
qed

end
