(* ===== verification/Spec2Isabelle.thy ===== *)
theory Spec2Isabelle
  imports Rci_Formal Rci_Progress Rci_Quotient Rci_Routes Rci_Circuit Rci_Project_Safety Rci_Goal_Safety
    Rci_Pareto Rci_Retrieval Rci_Learning_Laws Rci_Promotion Rci_Reduction
begin

text \<open>
  A verification library for RCI, ratcheting consequence inquiry. Paths are those of the Python package
  \<open>src/src/rci\<close>.

  \<^bold>\<open>The program.\<close> An inquiry is an event-sourced aggregate: \<open>decide\<close> turns a command into events or refuses it,
  \<open>evolve\<close> applies an event after deciding the matching command again and validating the whole next state, and
  \<open>replay\<close> folds the log (\<open>core/transitions.py\<close>, \<open>core/state.py\<close>, \<open>core/replay.py\<close>). Around the aggregate stand
  pure components: claims and obligations with canonical fingerprints (\<open>claims\<close>), a finite formal language
  with an exhaustive checker (\<open>formal\<close>), warrants, support environments and promotion gates (\<open>warrant\<close>), the
  deterministic scheduler (\<open>core/planning.py\<close>, \<open>orchestration/scheduler.py\<close>), the backlog reconciler
  (\<open>backlog\<close>), the question catalog and its compiler (\<open>questions\<close>), the recursive project cycle
  (\<open>project\<close>), measured memory with structural retrieval and recovery costs (\<open>memory\<close>), recurrent
  probes and the policies that learn from them (\<open>probes\<close>, \<open>learning\<close>), exact compression fixtures (\<open>compression/fixtures.py\<close>) and two reference bindings
  (\<open>bindings\<close>). Adapters, stores, the SDK and the command line drive this core.

  \<^bold>\<open>Conventions.\<close> A pydantic model is a record with a validator \<open>valid_...\<close>; \<open>construct\<close> is the constructor
  call that raises \<open>ValidationError\<close>. Every raise is a value of \<open>rci_error\<close> in \<open>'a result\<close>. Strings are UTF-8
  byte lists; tuples and dicts are lists with \<open>find_by\<close> (first match) and \<open>index_by\<close> (last match, the dict
  comprehension). The digest function SHA-256 is the parameter \<open>sha\<close>, with injectivity or hexadecimal output as
  named hypotheses only where a theorem needs it; \<open>dump\<close> is the JSON text pydantic gives a claim.

  \<^bold>\<open>Theories.\<close>
  \<^item> \<open>Rci_Prelude\<close>, \<open>Rci_Json\<close>, \<open>Rci_Model\<close>: errors, lookups, canonical tuples, the locale \<open>ranked_cover\<close> of greedy
    minimisation; JSON values and their canonical text; the value objects of \<open>core/model.py\<close>.
  \<^item> \<open>Rci_Claims\<close>: \<open>claims/models.py\<close>, \<open>claims/logic.py\<close>. Fingerprints identify exactly the same work, conflicts and
    mandatory attacks arise exactly when they should.
  \<^item> \<open>Rci_Formal\<close>: \<open>formal/ast.py\<close>, \<open>formal/exhaustive.py\<close>. Typed formulas never fail, the exhaustive check decides
    satisfiability within its budget and never overclaims, implication attacks are exact.
  \<^item> \<open>Rci_Graph\<close>, \<open>Rci_Warrant\<close>, \<open>Rci_Support\<close>, \<open>Rci_Policy\<close>: \<open>warrant\<close>. Depth-first search with fuel (proved never
    to run out), acyclicity gates, minimal support environments, the least fixed point of grounded lemmas (locale
    \<open>monotone_support\<close>), promotion gates.
  \<^item> \<open>Rci_Promotion\<close>: what an accepted promotion means, without the functions of the code: kept routes by comparison of
    assumption sets, dependable lemmas by induction, cycles as cycles of relations. The code accepts exactly these.
  \<^item> \<open>Rci_Planning\<close>: the scheduler. It always answers with a valid plan, the best ready work, independent of the
    order of its input.
  \<^item> \<open>Rci_Backlog\<close>, \<open>Rci_Effects\<close>: \<open>backlog\<close>, \<open>core/effects.py\<close>.
  \<^item> \<open>Rci_State\<close>, \<open>Rci_Commands\<close>, \<open>Rci_Decide\<close>, \<open>Rci_Evolve\<close>: the aggregate with its validator, 24 commands and
    events of the lifecycle, effect, claim, support and warrant milestones, the reducer and replay.
  \<^item> \<open>Rci_Invariant\<close>, \<open>Rci_Accept\<close>, \<open>Rci_Lifecycle\<close>: which decisions are possible and that
    reducible ones lead to valid states; the locale \<open>event_sourced\<close> gives replay and monotone history once, interpreted on \<open>evolve\<close>.
  \<^item> \<open>Rci_Run\<close>, \<open>Rci_Reduction\<close>, \<open>Rci_Safety\<close>, \<open>Rci_Progress\<close>: a concrete run; exactly which decided events the reducer
    accepts, since four branches of \<open>decide\<close> leave a condition to the validator (\<open>reducible\<close>); lemmas rest on
    checked evidence, obligations follow their machine, effect requests can complete, and two commands that are
    decided but refused.
  \<^item> \<open>Rci_Questions\<close>: \<open>questions/models.py\<close>, \<open>questions/catalog.py\<close>. Contracts, catalogs and template rendering; the
    sealed catalogs are valid data.
  \<^item> \<open>Rci_Project\<close>, \<open>Rci_Frontier\<close>: \<open>project/models.py\<close>, \<open>project/selection.py\<close>. The locale \<open>dominance\<close> is interpreted
    on \<open>candidate_dominates\<close>; the frontier is accepted, independent of the order and exact, and it selects a
    discriminator exactly when one is cheapest on every known cost.
  \<^item> \<open>Rci_Goals\<close>: \<open>questions/generated.py\<close>, \<open>project/goal_synthesis.py\<close> and the project collections of the state.
  \<^item> \<open>Rci_Project_Core\<close>: the 18 project commands in \<open>decide\<close> and \<open>evolve\<close> and the project clauses of the validator.
  \<^item> \<open>Rci_Project_Ledger\<close>, \<open>Rci_Project_Run\<close>, \<open>Rci_Project_Safety\<close>, \<open>Rci_Goal_Safety\<close>: the locale \<open>justified_ledger\<close>
    of append-only ledgers, interpreted on the project records; a concrete cycle; merged promotions, admitted
    questions, cycle checkpoints and compiled goals.
  \<^item> \<open>Rci_Memory\<close>: \<open>memory/models.py\<close>, \<open>memory/references.py\<close>, \<open>memory/reconstruction.py\<close>. A reference identifies one
    record, up to collisions of the digest, and resolves exactly against it; the deduplication loop three routines share keeps each record once or finds the conflict.
  \<^item> \<open>Rci_Recovery\<close>, \<open>Rci_Pareto\<close>: \<open>memory/recovery.py\<close>, \<open>memory/checks.py\<close>. The two independently written modules
    accept the same comparisons; on the rationals the derived frontier is the Pareto frontier (\<open>dominance\<close> and
    \<open>ranked_cover\<close> interpreted on costs) and a strict advantage is Pareto dominance.
  \<^item> \<open>Rci_Retrieval\<close>: \<open>memory/retrieval.py\<close>. Retrieval returns the best ranked fresh matches and rejects the stale ones.
  \<^item> \<open>Rci_Probes\<close>: \<open>probes/models.py\<close>, \<open>probes/lifecycle.py\<close>. Traces hold comparable events in order; irrelevance is
    authorized and can be reopened.
  \<^item> \<open>Rci_Learning\<close>, \<open>Rci_Learning_Laws\<close>: \<open>learning/models.py\<close>, \<open>learning/policies.py\<close>. Splits partition the samples,
    evaluations are reproducible, conservative fields report what they drop, consolidation takes the newest
    observations, the exceptions and the accepted counterexamples of objects that expose a schema version, and raises
    on an accepted counterexample of an effect request, which exposes none.
  \<^item> \<open>Rci_Quotient\<close>: \<open>compression/fixtures.py\<close>. An accepted quotient refines the histories of its presentation.
  \<^item> \<open>Rci_Routes\<close>, \<open>Rci_Circuit\<close>: \<open>bindings\<close>. Both route loops are \<open>while_option\<close> and are proved to end with exactly
    the simple and the maximal routes (locale \<open>path_search\<close>, interpreted twice).

  \<^bold>\<open>Fuel and bounds.\<close> The depth-first searches of \<open>Rci_Graph\<close> carry fuel; the lemma \<open>search_all_fuel\<close> shows that the
  number of declared nodes suffices. The loops of \<open>Rci_Routes\<close> have no fuel: not returning would be \<open>None\<close>, and the
  theorems exclude it. Integers of the program are Python integers, so \<open>int\<close> and \<open>nat\<close> are exact.

  \<^bold>\<open>Not modelled.\<close> The branches of \<open>decide\<close> and \<open>evolve\<close> for the cognitive, memory, learning and compression
  commands, with their collections of the state, \<open>compression/models.py\<close>, \<open>ungrounded_support_cycles\<close> of
  \<open>warrant/support.py\<close> and \<open>formal/reification.py\<close> are pure and are left for an extension. Input and output are outside
  the model: \<open>persistence\<close>, \<open>orchestration/effects.py\<close>, \<open>orchestration/cognitive.py\<close>, \<open>generators\<close>,
  \<open>backends/z3_backend.py\<close>, \<open>evaluation\<close>, \<open>sdk.py\<close>, \<open>cli\<close>, as is the pydantic encoding of
  \<open>core/serialization.py\<close> and \<open>core/upcasting.py\<close>.
\<close>

end
